(* ===== verification/Prelude.thy ===== *)
theory Prelude
  imports Main "HOL-Library.AList" "HOL-Library.Char_ord" "HOL-Library.List_Lexorder"
    "HOL-Library.Product_Lexorder" "HOL-Library.Option_ord" "HOL-Library.Multiset"
begin

section \<open>Shared vocabulary of the development\<close>

text \<open>
  What every component uses: results of code that may throw, the decimal digits and the
  ASCII case mapping of JavaScript strings, the insertion-ordered \<open>Map\<close> as an association
  list, and the lemma collections the component proofs draw on.
\<close>

subsection \<open>Lemma collections\<close>

named_theorems result_simps \<open>case rules for results of throwing code\<close>
named_theorems text_simps \<open>digits, padding and trimming of JavaScript strings\<close>
named_theorems port_simps \<open>read-after-write facts of the storage and chain ports\<close>

subsection \<open>Code that may throw\<close>

text \<open>
  A function that may throw returns \<open>Inl\<close> of the error or \<open>Inr\<close> of its value.
  \<open>bind_res\<close> is the sequencing of two such calls: the first throw wins.
\<close>

definition bind_res :: "'e + 'a \<Rightarrow> ('a \<Rightarrow> 'e + 'b) \<Rightarrow> 'e + 'b" where
  "bind_res r f = (case r of Inl e \<Rightarrow> Inl e | Inr x \<Rightarrow> f x)"

lemma bind_res_Inl [simp]: "bind_res (Inl e) f = Inl e"
  by (simp add: bind_res_def)

lemma bind_res_Inr [simp]: "bind_res (Inr x) f = f x"
  by (simp add: bind_res_def)

lemma bind_res_eq_Inr [result_simps]:
  "bind_res r f = Inr y \<longleftrightarrow> (\<exists>x. r = Inr x \<and> f x = Inr y)"
  by (cases r) simp_all

lemma bind_res_eq_Inl [result_simps]:
  "bind_res r f = Inl e \<longleftrightarrow> r = Inl e \<or> (\<exists>x. r = Inr x \<and> f x = Inl e)"
  by (cases r) auto

lemma bind_res_cong [fundef_cong]:
  "r = r' \<Longrightarrow> (\<And>x. r' = Inr x \<Longrightarrow> f x = g x) \<Longrightarrow> bind_res r f = bind_res r' g"
  by (cases r') auto

lemma map_sum_id_Inr [result_simps]: "map_sum f id r = Inr x \<longleftrightarrow> r = Inr x" "Inr x = map_sum f id r \<longleftrightarrow> r = Inr x"
  by (cases r; auto)+

lemma map_sum_same [simp]: "map_sum id (\<lambda>x. x) r = r"
  by (cases r) simp_all

text \<open>The value of a result that did not throw, for statements about successful runs.\<close>

definition returns :: "'e + 'a \<Rightarrow> bool" where
  "returns r \<longleftrightarrow> (\<exists>x. r = Inr x)"

lemma returns_simps [simp]: "returns (Inr x)" "\<not> returns (Inl e)"
  by (simp_all add: returns_def)

subsection \<open>Decimal digits\<close>

definition is_digit :: "char \<Rightarrow> bool" where
  "is_digit c \<longleftrightarrow> 48 \<le> (of_char c :: nat) \<and> (of_char c :: nat) \<le> 57"

definition digit_value :: "char \<Rightarrow> nat" where
  "digit_value c = of_char c - 48"

definition digit_char :: "nat \<Rightarrow> char" where
  "digit_char d = char_of (48 + d)"

lemma of_char_digit_char [text_simps]: "d < 10 \<Longrightarrow> (of_char (digit_char d) :: nat) = 48 + d"
  by (simp add: digit_char_def)

lemma is_digit_digit_char [text_simps]: "d < 10 \<Longrightarrow> is_digit (digit_char d)"
  by (simp add: is_digit_def of_char_digit_char)

lemma digit_value_digit_char [text_simps]: "d < 10 \<Longrightarrow> digit_value (digit_char d) = d"
  by (simp add: digit_value_def of_char_digit_char)

lemma digit_value_less: "is_digit c \<Longrightarrow> digit_value c < 10"
  unfolding is_digit_def digit_value_def by linarith

lemma is_digit_zero [text_simps]: "is_digit (CHR ''0'')" "digit_value (CHR ''0'') = 0"
  by (simp_all add: is_digit_def digit_value_def)

lemma not_digit_dot_minus [text_simps]: "\<not> is_digit (CHR ''.'')" "\<not> is_digit (CHR ''-'')"
  by (simp_all add: is_digit_def)

text \<open>\<open>BigInt(text)\<close> of a digit string, and \<open>toString\<close> of a non-negative integer.\<close>

definition dec_val :: "string \<Rightarrow> nat" where
  "dec_val s = foldl (\<lambda>n c. 10 * n + digit_value c) 0 s"

fun dec_string :: "nat \<Rightarrow> string" where
  "dec_string n = (if n < 10 then [digit_char n] else dec_string (n div 10) @ [digit_char (n mod 10)])"

declare dec_string.simps [simp del]

lemma dec_val_Nil [simp]: "dec_val [] = 0"
  by (simp add: dec_val_def)

lemma dec_val_snoc [simp]: "dec_val (s @ [c]) = 10 * dec_val s + digit_value c"
  by (simp add: dec_val_def)

lemma dec_val_append: "dec_val (s @ t) = dec_val s * 10 ^ length t + dec_val t"
proof (induction t rule: rev_induct)
  case Nil
  then show ?case by simp
next
  case (snoc c t)
  have "dec_val (s @ t @ [c]) = 10 * dec_val (s @ t) + digit_value c"
    using dec_val_snoc [of "s @ t" c] by simp
  then show ?case by (simp add: snoc.IH algebra_simps)
qed

lemma dec_val_dec_string [text_simps]: "dec_val (dec_string n) = n"
proof (induction n rule: dec_string.induct)
  case (1 n)
  then show ?case
    by (cases "n < 10") (simp_all add: dec_string.simps [of n] text_simps dec_val_def)
qed

lemma dec_string_digits [text_simps]: "list_all is_digit (dec_string n)"
proof (induction n rule: dec_string.induct)
  case (1 n)
  then show ?case
    by (cases "n < 10") (simp_all add: dec_string.simps [of n] text_simps)
qed

lemma dec_string_not_Nil [text_simps]: "dec_string n \<noteq> []"
  by (subst dec_string.simps) simp

lemma inj_dec_string: "dec_string m = dec_string n \<Longrightarrow> m = n"
  by (metis dec_val_dec_string)

lemma dec_val_zeros [text_simps]: "dec_val (replicate k (CHR ''0'')) = 0"
  by (induction k) (simp_all add: text_simps dec_val_def)

lemma dec_val_less: "list_all is_digit s \<Longrightarrow> dec_val s < 10 ^ length s"
proof (induction s rule: rev_induct)
  case Nil
  then show ?case by simp
next
  case (snoc c s)
  then have "dec_val s < 10 ^ length s" and "digit_value c < 10"
    by (simp_all add: digit_value_less)
  then show ?case by simp
qed

lemma dec_string_length: "n < 10 ^ k \<Longrightarrow> 0 < k \<Longrightarrow> length (dec_string n) \<le> k"
proof (induction n arbitrary: k rule: dec_string.induct)
  case (1 n)
  show ?case
  proof (cases "n < 10")
    case True
    with 1 show ?thesis by (simp add: dec_string.simps [of n])
  next
    case False
    with 1(2) have "k \<noteq> 1" by auto
    with 1(3) obtain j where k: "k = Suc j" "0 < j" by (cases k) auto
    with 1(2) have "n div 10 < 10 ^ j" by (simp add: less_mult_imp_div_less mult.commute)
    with 1(1) [OF False, of j] k False show ?thesis by (simp add: dec_string.simps [of n])
  qed
qed

subsection \<open>Padding, trimming and case\<close>

definition pad_end :: "nat \<Rightarrow> string \<Rightarrow> string" where
  "pad_end k s = s @ replicate (k - length s) (CHR ''0'')"

definition pad_start :: "nat \<Rightarrow> string \<Rightarrow> string" where
  "pad_start k s = replicate (k - length s) (CHR ''0'') @ s"

definition trim_zeros_end :: "string \<Rightarrow> string" where
  "trim_zeros_end s = rev (dropWhile (\<lambda>c. c = CHR ''0'') (rev s))"

lemma dec_val_pad_start [text_simps]: "dec_val (pad_start k s) = dec_val s"
  by (simp add: pad_start_def dec_val_append text_simps)

lemma pad_start_digits [text_simps]: "list_all is_digit s \<Longrightarrow> list_all is_digit (pad_start k s)"
  by (auto simp: pad_start_def text_simps list_all_iff)

lemma length_pad_start [text_simps]: "length s \<le> k \<Longrightarrow> length (pad_start k s) = k"
  by (simp add: pad_start_def)

lemma trim_zeros_end_split:
  "s = trim_zeros_end s @ replicate (length s - length (trim_zeros_end s)) (CHR ''0'')"
proof -
  define z where "z = takeWhile (\<lambda>c. c = CHR ''0'') (rev s)"
  have "rev s = z @ dropWhile (\<lambda>c. c = CHR ''0'') (rev s)" by (simp add: z_def)
  then have "rev (rev s) = rev (z @ dropWhile (\<lambda>c. c = CHR ''0'') (rev s))" by (rule arg_cong)
  then have "rev (rev s) = trim_zeros_end s @ rev z"
    unfolding trim_zeros_end_def by (simp only: rev_append)
  then have s: "s = trim_zeros_end s @ rev z" by simp
  have "\<forall>c \<in> set (rev z). c = CHR ''0''"
    using set_takeWhileD by (fastforce simp: z_def)
  then have "rev z = replicate (length (rev z)) (CHR ''0'')"
    by (intro replicate_eqI) simp_all
  moreover have "length (rev z) = length s - length (trim_zeros_end s)"
    by (subst (1) s) simp
  ultimately show ?thesis using s by simp
qed

lemma pad_end_trim [text_simps]:
  assumes "length s = k"
  shows "pad_end k (trim_zeros_end s) = s"
proof -
  have "pad_end k (trim_zeros_end s)
      = trim_zeros_end s @ replicate (length s - length (trim_zeros_end s)) (CHR ''0'')"
    unfolding pad_end_def assms [symmetric] by (rule refl)
  also have "\<dots> = s" by (rule trim_zeros_end_split [symmetric])
  finally show ?thesis by assumption
qed

lemma trim_zeros_end_digits [text_simps]:
  "list_all is_digit s \<Longrightarrow> list_all is_digit (trim_zeros_end s)"
  unfolding trim_zeros_end_def list_all_iff by (auto dest: set_dropWhileD)

lemma length_trim_zeros_end: "length (trim_zeros_end s) \<le> length s"
  by (metis length_dropWhile_le length_rev trim_zeros_end_def)

text \<open>\<open>toLowerCase\<close> on ASCII text, which addresses, keys and role names are.\<close>

definition lower_char :: "char \<Rightarrow> char" where
  "lower_char c = (let n = (of_char c :: nat) in if 65 \<le> n \<and> n \<le> 90 then char_of (n + 32) else c)"

definition to_lower :: "string \<Rightarrow> string" where
  "to_lower s = map lower_char s"

lemma lower_char_idem [text_simps]: "lower_char (lower_char c) = lower_char c"
proof (cases "65 \<le> (of_char c :: nat) \<and> (of_char c :: nat) \<le> 90")
  case True
  then have "(of_char (char_of ((of_char c :: nat) + 32) :: char) :: nat) = of_char c + 32"
    by simp
  with True show ?thesis by (simp add: lower_char_def Let_def)
next
  case False
  then have "lower_char c = c" unfolding lower_char_def Let_def by (rule if_not_P)
  then show ?thesis by simp
qed

lemma to_lower_idem [simp]: "to_lower (to_lower s) = to_lower s"
  by (simp add: to_lower_def text_simps)

lemma to_lower_Nil [simp]: "to_lower [] = []"
  by (simp add: to_lower_def)

subsection \<open>The insertion-ordered Map\<close>

text \<open>
  A JavaScript \<open>Map\<close> keeps its keys in the order they were first set, and \<open>set\<close> of a key
  that is present overwrites in place: that is \<open>AList.update\<close>. \<open>delete\<close> is
  \<open>AList.delete\<close>, \<open>get\<close> is \<open>map_of\<close>.
\<close>

type_synonym ('k, 'v) js_map = "('k \<times> 'v) list"

abbreviation js_get :: "('k, 'v) js_map \<Rightarrow> 'k \<Rightarrow> 'v option" where
  "js_get m k \<equiv> map_of m k"

abbreviation js_set :: "'k \<Rightarrow> 'v \<Rightarrow> ('k, 'v) js_map \<Rightarrow> ('k, 'v) js_map" where
  "js_set \<equiv> AList.update"

abbreviation js_delete :: "'k \<Rightarrow> ('k, 'v) js_map \<Rightarrow> ('k, 'v) js_map" where
  "js_delete \<equiv> AList.delete"

definition js_has :: "('k, 'v) js_map \<Rightarrow> 'k \<Rightarrow> bool" where
  "js_has m k \<longleftrightarrow> map_of m k \<noteq> None"

lemma js_get_set [port_simps]: "js_get (js_set k v m) k' = (if k' = k then Some v else js_get m k')"
  by (simp add: update_conv')

lemma js_get_delete [port_simps]: "js_get (js_delete k m) k' = (if k' = k then None else js_get m k')"
  by (simp add: delete_conv' restrict_map_def)

lemma js_has_set [port_simps]: "js_has (js_set k v m) k' \<longleftrightarrow> k' = k \<or> js_has m k'"
  by (simp add: js_has_def js_get_set)

lemma js_set_distinct: "distinct (map fst m) \<Longrightarrow> distinct (map fst (js_set k v m))"
  by (rule distinct_update)

subsection \<open>Lists\<close>

text \<open>\<open>xs.at(-1) ?? null\<close>: the last element, if any.\<close>

definition last_opt :: "'a list \<Rightarrow> 'a option" where
  "last_opt xs = (if xs = [] then None else Some (last xs))"

lemma last_opt_simps [simp]:
  "last_opt [] = None" "last_opt (xs @ [x]) = Some x"
  by (simp_all add: last_opt_def)

lemma last_opt_None [simp]: "last_opt xs = None \<longleftrightarrow> xs = []"
  by (simp add: last_opt_def)

lemma last_opt_Some: "last_opt xs = Some x \<longleftrightarrow> xs \<noteq> [] \<and> last xs = x"
  by (simp add: last_opt_def)

lemma last_opt_cases:
  obtains "xs = []" | ys x where "xs = ys @ [x]"
  by (cases xs rule: rev_cases) auto

text \<open>\<open>findIndex\<close>: the first index whose element satisfies the predicate.\<close>

fun find_index :: "('a \<Rightarrow> bool) \<Rightarrow> 'a list \<Rightarrow> nat option" where
  "find_index p [] = None"
| "find_index p (x # xs) = (if p x then Some 0 else map_option Suc (find_index p xs))"

lemma find_index_Some:
  "find_index p xs = Some i \<Longrightarrow> i < length xs \<and> p (xs ! i) \<and> (\<forall>j < i. \<not> p (xs ! j))"
proof (induction xs arbitrary: i)
  case (Cons x xs)
  then show ?case
    by (fastforce split: if_splits simp: less_Suc_eq_0_disj)
qed simp

lemma find_index_None: "find_index p xs = None \<longleftrightarrow> (\<forall>x \<in> set xs. \<not> p x)"
  by (induction xs) auto

subsection \<open>Truthy texts\<close>

text \<open>A nullable text used as a condition: null and the empty text are both falsy.\<close>

definition truthy_text :: "string option \<Rightarrow> string option" where
  "truthy_text x = (case x of Some s \<Rightarrow> if s = [] then None else Some s | None \<Rightarrow> None)"

lemma truthy_text_Some: "truthy_text x = Some p \<longleftrightarrow> x = Some p \<and> p \<noteq> []"
  by (auto simp: truthy_text_def split: option.splits if_splits)

lemma truthy_text_None: "truthy_text x = None \<longleftrightarrow> x = None \<or> x = Some []"
  by (auto simp: truthy_text_def split: option.splits if_splits)

end
