(* ===== verification/Canonical.thy ===== *)
theory Canonical
  imports Prelude
begin

section \<open>Canonical serialization (domain/eventlog.mjs, canonicalize)\<close>

text \<open>
  Documents are JavaScript values as the log holds them. \<open>JNum\<close> is a number with an integral
  value, \<open>JFraction\<close> any other number with its \<open>String\<close> rendering; \<open>JBig\<close> and \<open>JUndefined\<close>
  are the values the serializer refuses. The members of a \<open>JObj\<close> are its own keys in the order
  of \<open>Object.keys\<close>. Texts are ASCII, so UTF-16 order is the order of character codes.
\<close>

datatype json =
    JNull
  | JBool bool
  | JNum int
  | JFraction string
  | JBig int
  | JUndefined
  | JStr string
  | JArr "json list"
  | JObj "(string \<times> json) list"

datatype canon_error =
    NonIntegerNumber
  | Unserializable string

subsection \<open>JSON.stringify of the leaves\<close>

definition hex_char :: "nat \<Rightarrow> char" where
  "hex_char n = (if n < 10 then char_of (48 + n) else char_of (87 + n))"

definition json_char :: "char \<Rightarrow> string" where
  "json_char c =
     (if c = CHR 0x22 then [CHR 0x5C, CHR 0x22]
      else if c = CHR 0x5C then [CHR 0x5C, CHR 0x5C]
      else if c = CHR 0x08 then [CHR 0x5C, CHR ''b'']
      else if c = CHR 0x09 then [CHR 0x5C, CHR ''t'']
      else if c = CHR 0x0A then [CHR 0x5C, CHR ''n'']
      else if c = CHR 0x0C then [CHR 0x5C, CHR ''f'']
      else if c = CHR 0x0D then [CHR 0x5C, CHR ''r'']
      else let n = (of_char c :: nat) in
        if n < 32 then [CHR 0x5C, CHR ''u'', CHR ''0'', CHR ''0'', hex_char (n div 16), hex_char (n mod 16)]
        else [c])"

definition json_quote :: "string \<Rightarrow> string" where
  "json_quote s = CHR 0x22 # concat (map json_char s) @ [CHR 0x22]"

definition int_string :: "int \<Rightarrow> string" where
  "int_string n = (if n < 0 then CHR ''-'' # dec_string (nat (- n)) else dec_string (nat n))"

definition safe_integer :: "int \<Rightarrow> bool" where
  "safe_integer n \<longleftrightarrow> \<bar>n\<bar> \<le> 2 ^ 53 - 1"

text \<open>
  \<open>value.key\<close> of an object, and \<open>String(value)\<close>. Reading a property of anything that is not an
  object gives \<open>undefined\<close>.
\<close>

definition json_get :: "json \<Rightarrow> string \<Rightarrow> json" where
  "json_get v k = (case v of JObj ms \<Rightarrow> (case map_of ms k of None \<Rightarrow> JUndefined | Some w \<Rightarrow> w) | _ \<Rightarrow> JUndefined)"

fun nullish :: "json \<Rightarrow> bool" where
  "nullish JNull = True"
| "nullish JUndefined = True"
| "nullish _ = False"

subsection \<open>Sequencing and joining\<close>

fun seq_res :: "('e + 'a) list \<Rightarrow> 'e + 'a list" where
  "seq_res [] = Inr []"
| "seq_res (r # rs) = bind_res r (\<lambda>x. bind_res (seq_res rs) (\<lambda>xs. Inr (x # xs)))"

text \<open>\<open>xs.join(",")\<close>\<close>

definition join_comma :: "string list \<Rightarrow> string" where
  "join_comma ts = (case ts of [] \<Rightarrow> [] | t # us \<Rightarrow> t @ concat (map (\<lambda>u. '','' @ u) us))"

fun json_text :: "json \<Rightarrow> string" where
  "json_text JNull = ''null''"
| "json_text (JBool b) = (if b then ''true'' else ''false'')"
| "json_text (JNum n) = int_string n"
| "json_text (JFraction t) = t"
| "json_text (JBig n) = int_string n"
| "json_text JUndefined = ''undefined''"
| "json_text (JStr s) = s"
| "json_text (JArr xs) = join_comma (map (\<lambda>v. if nullish v then [] else json_text v) xs)"
| "json_text (JObj ms) = ''[object Object]''"

text \<open>The values a condition of JavaScript takes as false.\<close>

fun falsy :: "json \<Rightarrow> bool" where
  "falsy JNull = True"
| "falsy JUndefined = True"
| "falsy (JBool b) = (\<not> b)"
| "falsy (JNum n) = (n = 0)"
| "falsy (JBig n) = (n = 0)"
| "falsy (JFraction t) = (t = ''NaN'')"
| "falsy (JStr s) = (s = [])"
| "falsy _ = False"

subsection \<open>The serializer\<close>

function canonicalize :: "json \<Rightarrow> canon_error + string" where
  "canonicalize JNull = Inr ''null''"
| "canonicalize (JBool b) = Inr (if b then ''true'' else ''false'')"
| "canonicalize (JNum n) = (if safe_integer n then Inr (int_string n) else Inl NonIntegerNumber)"
| "canonicalize (JFraction t) = Inl NonIntegerNumber"
| "canonicalize (JStr s) = Inr (json_quote s)"
| "canonicalize (JArr xs) =
     map_sum id (\<lambda>ts. ''['' @ join_comma ts @ '']'') (seq_res (map canonicalize xs))"
| "canonicalize (JObj members) =
     map_sum id (\<lambda>ts. ''{'' @ join_comma ts @ ''}'')
       (seq_res (map (\<lambda>(k, r). map_sum id (\<lambda>t. json_quote k @ '':'' @ t) r)
         (sort_key fst (map (\<lambda>(k, v). (k, canonicalize v)) members))))"
| "canonicalize (JBig n) = Inl (Unserializable ''bigint'')"
| "canonicalize JUndefined = Inl (Unserializable ''undefined'')"
  by pat_completeness auto
termination
proof (relation "measure size", goal_cases)
  case (3 members p k v)
  have "size v < Suc (size_list (size_prod (\<lambda>_. 0) size) members)"
    using 3 size_list_estimation' [of "(k, v)" members "size v" "size_prod (\<lambda>_. 0) size"] by auto
  then show ?case by simp
qed (auto simp: less_Suc_eq_le intro: size_list_estimation')

text \<open>The document up to the order in which its objects list their keys.\<close>

function jnorm :: "json \<Rightarrow> json" where
  "jnorm (JArr xs) = JArr (map jnorm xs)"
| "jnorm (JObj members) = JObj (sort_key fst (map (\<lambda>(k, v). (k, jnorm v)) members))"
| "jnorm JNull = JNull"
| "jnorm (JBool b) = JBool b"
| "jnorm (JNum n) = JNum n"
| "jnorm (JFraction t) = JFraction t"
| "jnorm (JBig n) = JBig n"
| "jnorm JUndefined = JUndefined"
| "jnorm (JStr s) = JStr s"
  by pat_completeness auto
termination
proof (relation "measure size", goal_cases)
  case (3 members p k v)
  have "size v < Suc (size_list (size_prod (\<lambda>_. 0) size) members)"
    using 3 size_list_estimation' [of "(k, v)" members "size v" "size_prod (\<lambda>_. 0) size"] by auto
  then show ?case by simp
qed (auto simp: less_Suc_eq_le intro: size_list_estimation')

subsection \<open>When a document can be serialized\<close>

lemma seq_res_returns: "returns (seq_res rs) \<longleftrightarrow> (\<forall>r \<in> set rs. returns r)"
  by (induction rs) (auto simp: returns_def result_simps split: sum.splits)

lemma returns_map_sum [simp]: "returns (map_sum id f r) \<longleftrightarrow> returns r"
  by (cases r) (auto simp: returns_def)

lemma canonicalize_obj_returns:
  "returns (canonicalize (JObj ms)) \<longleftrightarrow> (\<forall>v \<in> snd ` set ms. returns (canonicalize v))"
  by (auto simp: seq_res_returns)

lemma canonicalize_member:
  "canonicalize (JObj ms) = Inr t \<Longrightarrow> (k, v) \<in> set ms \<Longrightarrow> returns (canonicalize v)"
  using canonicalize_obj_returns [of ms] by (auto simp: returns_def)

subsection \<open>Key order does not matter\<close>

lemma insort_key_fst_map:
  "insort_key fst (k, f v) (map (\<lambda>(k, v). (k, f v)) kvs) = map (\<lambda>(k, v). (k, f v)) (insort_key fst (k, v) kvs)"
  by (induction kvs) auto

lemma sort_key_fst_map:
  "sort_key fst (map (\<lambda>(k, v). (k, f v)) kvs) = map (\<lambda>(k, v). (k, f v)) (sort_key fst kvs)"
  by (induction kvs) (auto simp: insort_key_fst_map split: prod.splits)

lemma sorted_keys_unique:
  assumes "mset kvs = mset kvs'" "distinct (map fst kvs)"
  shows "sort_key fst kvs = sort_key fst kvs'"
proof (rule map_sorted_distinct_set_unique [where f = fst])
  have set: "set kvs' = set kvs" using assms(1) by (metis set_mset_mset)
  have distinct': "distinct (map fst kvs')"
    using assms mset_eq_imp_distinct_iff [of "map fst kvs" "map fst kvs'"] by simp
  show "inj_on fst (set (sort_key fst kvs) \<union> set (sort_key fst kvs'))"
    using assms(2) set by (simp add: distinct_map)
  have dist: "distinct (map fst (sort_key fst xs))" if "distinct (map fst xs)" for xs :: "('a \<times> 'b) list"
    using that mset_eq_imp_distinct_iff [of "map fst xs" "map fst (sort_key fst xs)"] by simp
  show "distinct (map fst (sort_key fst kvs))" "distinct (map fst (sort_key fst kvs'))"
    using dist assms(2) distinct' by blast+
qed (use assms(1) in \<open>auto dest: mset_eq_setD\<close>)

lemma canonicalize_key_order:
  assumes "mset members = mset members'" "distinct (map fst members)"
  shows "canonicalize (JObj members) = canonicalize (JObj members')"
proof -
  have "sort_key fst (map (\<lambda>(k, v). (k, canonicalize v)) members)
      = sort_key fst (map (\<lambda>(k, v). (k, canonicalize v)) members')"
    using sorted_keys_unique [OF assms] by (simp add: sort_key_fst_map)
  then show ?thesis by simp
qed

subsection \<open>Reading a canonical text back\<close>

text \<open>What may follow a value inside a document: the end, or a separator.\<close>

definition follow :: "string \<Rightarrow> bool" where
  "follow x \<longleftrightarrow> (case x of [] \<Rightarrow> True | c # _ \<Rightarrow> c = CHR '','' \<or> c = CHR '']'' \<or> c = CHR ''}'')"

lemma follow_not_digit: "follow x \<Longrightarrow> x = [] \<or> \<not> is_digit (hd x)"
  by (cases x) (auto simp: follow_def is_digit_def)

lemma follow_simps [simp]:
  "follow []" "follow (CHR '','' # x)" "follow (CHR '']'' # x)" "follow (CHR ''}'' # x)"
  by (simp_all add: follow_def)

definition hex_value :: "char \<Rightarrow> nat" where
  "hex_value c = (let n = of_char c in if n < 58 then n - 48 else n - 87)"

lemma hex_value_hex_char: "n < 16 \<Longrightarrow> hex_value (hex_char n) = n"
  by (simp add: hex_value_def hex_char_def Let_def)

text \<open>Reading one character of a quoted string back.\<close>

definition json_unchar :: "string \<Rightarrow> char \<times> string" where
  "json_unchar text =
     (if hd text \<noteq> CHR 0x5C then (hd text, tl text)
      else let e = text ! 1; rest = drop 2 text in
        if e = CHR ''b'' then (CHR 0x08, rest)
        else if e = CHR ''t'' then (CHR 0x09, rest)
        else if e = CHR ''n'' then (CHR 0x0A, rest)
        else if e = CHR ''f'' then (CHR 0x0C, rest)
        else if e = CHR ''r'' then (CHR 0x0D, rest)
        else if e = CHR ''u'' then (char_of (16 * hex_value (text ! 4) + hex_value (text ! 5)), drop 6 text)
        else (e, rest))"

lemma json_unchar_json_char: "json_unchar (json_char c @ u) = (c, u)"
proof (cases "c \<in> {CHR 0x22, CHR 0x5C, CHR 0x08, CHR 0x09, CHR 0x0A, CHR 0x0C, CHR 0x0D}")
  case True
  then show ?thesis by (auto simp: json_char_def json_unchar_def)
next
  case False
  show ?thesis
  proof (cases "(of_char c :: nat) < 32")
    case True
    let ?n = "of_char c :: nat"
    have "?n div 16 < 16" "?n mod 16 < 16" using True by simp_all
    then have "char_of (16 * hex_value (hex_char (?n div 16)) + hex_value (hex_char (?n mod 16))) = c"
      by (simp add: hex_value_hex_char)
    with True False show ?thesis by (simp add: json_char_def json_unchar_def Let_def nth_Cons')
  next
    case False': False
    with False show ?thesis by (simp add: json_char_def json_unchar_def Let_def)
  qed
qed

lemma json_char_append_inject: "json_char c @ u = json_char d @ v \<Longrightarrow> c = d \<and> u = v"
  by (metis json_unchar_json_char prod.inject)

lemma json_char_not_quote: "json_char c @ u \<noteq> CHR 0x22 # v"
  by (auto simp: json_char_def Let_def)

lemma json_chars_append_inject:
  "concat (map json_char s) @ CHR 0x22 # x = concat (map json_char t) @ CHR 0x22 # y \<Longrightarrow> s = t \<and> x = y"
proof (induction s arbitrary: t)
  case Nil
  then show ?case using json_char_not_quote by (cases t) (auto, metis)
next
  case (Cons c s)
  show ?case
  proof (cases t)
    case Nil
    with Cons.prems show ?thesis using json_char_not_quote by auto
  next
    case (Cons d t')
    with Cons.prems have "json_char c @ concat (map json_char s) @ CHR 0x22 # x
        = json_char d @ concat (map json_char t') @ CHR 0x22 # y" by simp
    with Cons Cons.IH show ?thesis by (blast dest: json_char_append_inject)
  qed
qed

lemma json_quote_append_inject: "json_quote s @ x = json_quote t @ y \<Longrightarrow> s = t \<and> x = y"
  using json_chars_append_inject [of s x t y] by (simp add: json_quote_def)

lemma digits_append_inject:
  assumes "list_all is_digit s" "list_all is_digit t" "follow x" "follow y" "s @ x = t @ y"
  shows "s = t \<and> x = y"
proof -
  have split: "takeWhile is_digit (u @ z) = u \<and> dropWhile is_digit (u @ z) = z"
    if "list_all is_digit u" "follow z" for u z
  proof -
    have "takeWhile is_digit z = [] \<and> dropWhile is_digit z = z"
      using follow_not_digit [OF that(2)] by (cases z) auto
    then show ?thesis using that(1) by (simp add: list_all_iff takeWhile_append2 dropWhile_append2)
  qed
  from split [OF assms(1,3)] split [OF assms(2,4)] assms(5) show ?thesis by metis
qed

lemma dec_string_append_inject:
  "dec_string m @ x = dec_string n @ y \<Longrightarrow> follow x \<Longrightarrow> follow y \<Longrightarrow> m = n \<and> x = y"
  by (metis dec_string_digits digits_append_inject inj_dec_string)

lemma hd_dec_string: "is_digit (hd (dec_string n))"
  using dec_string_digits [of n] dec_string_not_Nil [of n] by (cases "dec_string n") auto

lemma int_string_append_inject:
  assumes "int_string m @ x = int_string n @ y" "follow x" "follow y"
  shows "m = n \<and> x = y"
proof -
  have minus: "CHR ''-'' # u \<noteq> dec_string k @ v" for u k v
    using hd_dec_string [of k] dec_string_not_Nil [of k] by (cases "dec_string k") (auto simp: text_simps)
  show ?thesis
  proof (cases "m < 0"; cases "n < 0")
    assume "m < 0" "n < 0"
    with assms have "nat (- m) = nat (- n) \<and> x = y"
      by (intro dec_string_append_inject) (simp_all add: int_string_def)
    with \<open>m < 0\<close> \<open>n < 0\<close> show ?thesis by (simp add: eq_nat_nat_iff)
  next
    assume "m < 0" "\<not> n < 0"
    with assms(1) minus show ?thesis by (simp add: int_string_def)
  next
    assume "\<not> m < 0" "n < 0"
    with assms(1) minus [of "dec_string (nat (- n)) @ y" "nat m" x] show ?thesis by (simp add: int_string_def)
  next
    assume "\<not> m < 0" "\<not> n < 0"
    with assms have "nat m = nat n \<and> x = y"
      by (intro dec_string_append_inject) (simp_all add: int_string_def)
    with \<open>\<not> m < 0\<close> \<open>\<not> n < 0\<close> show ?thesis by (simp add: eq_nat_nat_iff)
  qed
qed

subsection \<open>Equal canonical texts, equal documents\<close>

text \<open>
  The entries of an array or object, printed with commas and closed by a bracket: the texts
  determine the entries when each entry's own text is read back from any valid continuation.
\<close>

definition commas :: "('a \<Rightarrow> string) \<Rightarrow> 'a list \<Rightarrow> string" where
  "commas f as = concat (map (\<lambda>a. '','' @ f a) as)"

lemma commas_simps [simp]:
  "commas f [] = []" "commas f (a # as) = CHR '','' # f a @ commas f as"
  by (simp_all add: commas_def)

lemma join_comma_map: "join_comma (map f (a # as)) = f a @ commas f as"
  by (simp add: join_comma_def commas_def comp_def)

lemma follow_commas: "follow (c # x) \<Longrightarrow> follow (commas f as @ c # x)"
  by (cases as) simp_all

lemma commas_append_inject:
  assumes entry: "\<And>a b x y. a \<in> set as \<Longrightarrow> b \<in> set bs \<Longrightarrow> follow x \<Longrightarrow> follow y \<Longrightarrow> f a @ x = g b @ y \<Longrightarrow> R a b \<and> x = y"
    and close: "c = CHR '']'' \<or> c = CHR ''}''"
    and eq: "commas f as @ c # x = commas g bs @ c # y"
  shows "list_all2 R as bs \<and> x = y"
  using entry eq
proof (induction as arbitrary: bs)
  case Nil
  then show ?case using close by (cases bs) auto
next
  case (Cons a as)
  have c: "follow (c # x)" "follow (c # y)" "c \<noteq> CHR '',''" using close by auto
  show ?case
  proof (cases bs)
    case Nil
    with Cons.prems(2) c(3) show ?thesis by simp
  next
    case bs: (Cons b bs')
    with Cons.prems(2) have "f a @ commas f as @ c # x = g b @ commas g bs' @ c # y" by simp
    with Cons.prems(1) [of a b "commas f as @ c # x" "commas g bs' @ c # y"] bs c
    have ab: "R a b" "commas f as @ c # x = commas g bs' @ c # y"
      by (auto intro: follow_commas)
    have "list_all2 R as bs' \<and> x = y"
      using Cons.prems(1) bs ab(2) by (intro Cons.IH) auto
    with ab(1) bs show ?thesis by simp
  qed
qed

lemma join_append_inject:
  assumes entry: "\<And>a b x y. a \<in> set as \<Longrightarrow> b \<in> set bs \<Longrightarrow> follow x \<Longrightarrow> follow y \<Longrightarrow> f a @ x = g b @ y \<Longrightarrow> R a b \<and> x = y"
    and heads: "\<And>a z w. a \<in> set as \<Longrightarrow> f a @ z \<noteq> c # w" "\<And>b z w. b \<in> set bs \<Longrightarrow> g b @ z \<noteq> c # w"
    and close: "c = CHR '']'' \<or> c = CHR ''}''"
    and eq: "join_comma (map f as) @ c # x = join_comma (map g bs) @ c # y"
  shows "list_all2 R as bs \<and> x = y"
proof (cases as)
  case Nil
  show ?thesis
  proof (cases bs)
    case Nil': Nil
    with Nil eq show ?thesis by simp
  next
    case (Cons b bs')
    with Nil eq have "g b @ commas g bs' @ c # y = c # x"
      by (simp only: join_comma_map) (simp add: join_comma_def)
    with heads(2) [of b] Cons show ?thesis by simp
  qed
next
  case as: (Cons a as')
  show ?thesis
  proof (cases bs)
    case Nil
    with as eq have "f a @ commas f as' @ c # x = c # y"
      by (simp only: join_comma_map) (simp add: join_comma_def)
    with heads(1) [of a] as show ?thesis by simp
  next
    case bs: (Cons b bs')
    have "f a @ commas f as' @ c # x = g b @ commas g bs' @ c # y"
      using eq unfolding as bs join_comma_map by simp
    moreover have "follow (c # x)" "follow (c # y)" using close by auto
    ultimately have ab: "R a b" "commas f as' @ c # x = commas g bs' @ c # y"
      using entry [of a b "commas f as' @ c # x" "commas g bs' @ c # y"] as bs
      by (auto intro: follow_commas)
    have "list_all2 R as' bs' \<and> x = y"
      using entry as bs ab(2) close by (intro commas_append_inject [where f = f and g = g]) auto
    with ab(1) as bs show ?thesis by simp
  qed
qed

text \<open>The text of a document that serializes, and the texts of its parts.\<close>

definition text_of :: "json \<Rightarrow> string" where
  "text_of v = (case canonicalize v of Inl _ \<Rightarrow> [] | Inr t \<Rightarrow> t)"

definition member_text :: "string \<times> json \<Rightarrow> string" where
  "member_text m = json_quote (fst m) @ CHR '':'' # text_of (snd m)"

lemma seq_res_Inr: "seq_res rs = Inr ts \<longleftrightarrow> rs = map Inr ts"
  by (induction rs arbitrary: ts) (auto simp: result_simps Cons_eq_map_conv)

lemma map_sum_Inr_iff: "map_sum id f r = Inr t \<longleftrightarrow> (\<exists>x. r = Inr x \<and> t = f x)"
  by (cases r) auto

lemma canonicalize_JArr_Inr:
  assumes "canonicalize (JArr xs) = Inr s"
  shows "s = CHR ''['' # join_comma (map text_of xs) @ [CHR '']''] \<and> (\<forall>v \<in> set xs. canonicalize v = Inr (text_of v))"
proof -
  from assms obtain ts where ts: "map canonicalize xs = map Inr ts" "s = ''['' @ join_comma ts @ '']''"
    by (auto simp: map_sum_Inr_iff seq_res_Inr)
  have ok: "\<forall>v \<in> set xs. canonicalize v = Inr (text_of v)"
  proof
    fix v assume "v \<in> set xs"
    then have "canonicalize v \<in> set (map canonicalize xs)" by simp
    then have "canonicalize v \<in> set (map Inr ts)" by (simp only: ts(1))
    then show "canonicalize v = Inr (text_of v)" by (auto simp: text_of_def)
  qed
  then have "map canonicalize xs = map Inr (map text_of xs)" by simp
  with ts(1) have "ts = map text_of xs" by (metis (mono_tags, lifting) inj_Inr inj_map_eq_map)
  with ts(2) ok show ?thesis by simp
qed

lemma canonicalize_JObj_Inr:
  assumes "canonicalize (JObj ms) = Inr s"
  shows "s = CHR ''{'' # join_comma (map member_text (sort_key fst ms)) @ [CHR ''}'']
    \<and> (\<forall>m \<in> set ms. canonicalize (snd m) = Inr (text_of (snd m)))"
proof -
  let ?f = "\<lambda>m :: string \<times> json. map_sum id (\<lambda>t. json_quote (fst m) @ '':'' @ t) (canonicalize (snd m))"
  have shape: "map (\<lambda>(k, r). map_sum id (\<lambda>t. json_quote k @ '':'' @ t) r)
       (sort_key fst (map (\<lambda>(k, v). (k, canonicalize v)) ms)) = map ?f (sort_key fst ms)"
    by (simp only: sort_key_fst_map map_map) (simp add: comp_def case_prod_unfold)
  from assms obtain ts where ts: "map ?f (sort_key fst ms) = map Inr ts" "s = ''{'' @ join_comma ts @ ''}''"
    unfolding canonicalize.simps shape by (auto simp: map_sum_Inr_iff seq_res_Inr)
  have ok: "\<forall>m \<in> set (sort_key fst ms). canonicalize (snd m) = Inr (text_of (snd m))"
  proof
    fix m assume "m \<in> set (sort_key fst ms)"
    then have "?f m \<in> set (map ?f (sort_key fst ms))" by simp
    then have "?f m \<in> set (map Inr ts)" by (simp only: ts(1))
    then show "canonicalize (snd m) = Inr (text_of (snd m))" by (auto simp: text_of_def map_sum_Inr_iff)
  qed
  then have "map ?f (sort_key fst ms) = map Inr (map member_text (sort_key fst ms))"
    by (simp add: member_text_def)
  with ts(1) have "ts = map member_text (sort_key fst ms)" by (metis (mono_tags, lifting) inj_Inr inj_map_eq_map)
  with ts(2) ok show ?thesis by simp
qed

text \<open>The first character tells the kinds of document apart.\<close>

fun starts :: "json \<Rightarrow> char \<Rightarrow> bool" where
  "starts JNull c \<longleftrightarrow> c = CHR ''n''"
| "starts (JBool b) c \<longleftrightarrow> b \<and> c = CHR ''t'' \<or> \<not> b \<and> c = CHR ''f''"
| "starts (JNum n) c \<longleftrightarrow> is_digit c \<or> c = CHR ''-''"
| "starts (JStr s) c \<longleftrightarrow> c = CHR 0x22"
| "starts (JArr xs) c \<longleftrightarrow> c = CHR ''[''"
| "starts (JObj ms) c \<longleftrightarrow> c = CHR ''{''"
| "starts _ c \<longleftrightarrow> False"

lemma canonicalize_starts:
  "canonicalize v = Inr t \<Longrightarrow> \<exists>c r. t = c # r \<and> starts v c"
proof (cases v)
  case (JNum n)
  assume "canonicalize v = Inr t"
  with JNum have "t = int_string n" by (simp split: if_splits)
  then show ?thesis
    using JNum hd_dec_string [of "nat n"] dec_string_not_Nil [of "nat n"]
    by (cases "dec_string (nat n)") (auto simp: int_string_def)
qed (auto simp: json_quote_def map_sum_Inr_iff split: if_splits)

lemma text_of_not_closing:
  assumes "canonicalize v = Inr (text_of v)" "c = CHR '']'' \<or> c = CHR ''}''"
  shows "text_of v @ z \<noteq> c # w"
  using canonicalize_starts [OF assms(1)] assms(2) by (cases v) (auto simp: is_digit_def)

lemma canonicalize_append_inject:
  "canonicalize a = Inr s \<Longrightarrow> canonicalize b = Inr t \<Longrightarrow> follow x \<Longrightarrow> follow y \<Longrightarrow> s @ x = t @ y
    \<Longrightarrow> jnorm a = jnorm b \<and> x = y"
proof (induction a arbitrary: b s t x y rule: canonicalize.induct)
  case 1
  then show ?case using canonicalize_starts [of b t] by (cases b) (auto simp: is_digit_def)
next
  case (2 p)
  then show ?case using canonicalize_starts [of b t] by (cases b) (auto simp: is_digit_def split: if_splits)
next
  case (3 n)
  then have s: "s = int_string n" by (simp split: if_splits)
  from 3 canonicalize_starts [of b t] canonicalize_starts [of "JNum n" s]
  obtain m where b: "b = JNum m" by (cases b) (auto simp: is_digit_def split: if_splits)
  with 3 have "t = int_string m" by (simp split: if_splits)
  with 3 s b int_string_append_inject [of n x m y] show ?case by simp
next
  case (5 u)
  then show ?case
    using canonicalize_starts [of b t] json_quote_append_inject [of u x _ y]
    by (cases b) (auto simp: json_quote_def is_digit_def split: if_splits)
next
  case (6 xs)
  from canonicalize_JArr_Inr [OF "6.prems"(1)]
  have s: "s = CHR ''['' # join_comma (map text_of xs) @ [CHR '']'']"
    and ok: "\<forall>v \<in> set xs. canonicalize v = Inr (text_of v)" by auto
  from canonicalize_starts [OF "6.prems"(2)] "6.prems"(5) s obtain ys where b: "b = JArr ys"
    by (cases b) (auto simp: is_digit_def split: if_splits)
  from canonicalize_JArr_Inr "6.prems"(2) b
  have t: "t = CHR ''['' # join_comma (map text_of ys) @ [CHR '']'']"
    and ok': "\<forall>v \<in> set ys. canonicalize v = Inr (text_of v)" by auto
  have "list_all2 (\<lambda>u v. jnorm u = jnorm v) xs ys \<and> x = y"
  proof (rule join_append_inject [where f = text_of and g = text_of and c = "CHR '']''"])
    show "jnorm u = jnorm v \<and> z = w"
      if "u \<in> set xs" "v \<in> set ys" "follow z" "follow w" "text_of u @ z = text_of v @ w" for u v z w
      using "6.IH" [OF that(1)] that ok ok' by blast
    show "join_comma (map text_of xs) @ CHR '']'' # x = join_comma (map text_of ys) @ CHR '']'' # y"
      using "6.prems"(5) s t by simp
  qed (use ok ok' text_of_not_closing in blast)+
  then show ?case using b by (simp add: list_all2_conv_all_nth list_eq_iff_nth_eq)
next
  case (7 ms)
  from canonicalize_JObj_Inr [OF "7.prems"(1)]
  have s: "s = CHR ''{'' # join_comma (map member_text (sort_key fst ms)) @ [CHR ''}'']"
    and ok: "\<forall>m \<in> set ms. canonicalize (snd m) = Inr (text_of (snd m))" by auto
  from canonicalize_starts [OF "7.prems"(2)] "7.prems"(5) s obtain ns where b: "b = JObj ns"
    by (cases b) (auto simp: is_digit_def split: if_splits)
  from canonicalize_JObj_Inr "7.prems"(2) b
  have t: "t = CHR ''{'' # join_comma (map member_text (sort_key fst ns)) @ [CHR ''}'']"
    and ok': "\<forall>m \<in> set ns. canonicalize (snd m) = Inr (text_of (snd m))" by auto
  let ?n = "\<lambda>(k, v). (k :: string, jnorm v)"
  have "list_all2 (\<lambda>m n. ?n m = ?n n) (sort_key fst ms) (sort_key fst ns) \<and> x = y"
  proof (rule join_append_inject [where f = member_text and g = member_text and c = "CHR ''}''"])
    show "?n m = ?n n \<and> z = w"
      if "m \<in> set (sort_key fst ms)" "n \<in> set (sort_key fst ns)" "follow z" "follow w"
        "member_text m @ z = member_text n @ w" for m n z w
    proof -
      from that(5) have k: "fst m = fst n" "text_of (snd m) @ z = text_of (snd n) @ w"
        by (auto simp: member_text_def dest: json_quote_append_inject)
      have "jnorm (snd m) = jnorm (snd n) \<and> z = w"
        using "7.IH" [of m "fst m" "snd m"] that k(2) ok ok' by auto
      with k(1) show ?thesis by (simp add: case_prod_unfold)
    qed
    show "join_comma (map member_text (sort_key fst ms)) @ CHR ''}'' # x
        = join_comma (map member_text (sort_key fst ns)) @ CHR ''}'' # y"
      using "7.prems"(5) s t by simp
  qed (auto simp: member_text_def json_quote_def)
  then have "map ?n (sort_key fst ms) = map ?n (sort_key fst ns) \<and> x = y"
    by (simp add: list_all2_conv_all_nth list_eq_iff_nth_eq)
  then show ?case using b by (simp add: sort_key_fst_map)
qed auto

text \<open>
  Two documents with the same canonical text are the same document up to the order of keys, and
  documents that differ only in that order have the same text: the text identifies the document.
\<close>

lemma canonicalize_inject:
  "canonicalize a = Inr s \<Longrightarrow> canonicalize b = Inr s \<Longrightarrow> jnorm a = jnorm b"
  using canonicalize_append_inject [of a s b s "[]" "[]"] by simp

end
