(* ===== verification/EventLog.thy ===== *)
theory EventLog
  imports Canonical
begin

section \<open>The Session Event Log (domain/eventlog.mjs)\<close>

text \<open>
  Chained events: building the next one, replaying a whole log, and the incremental verifier
  the resolvers hold. The hash function (\<open>keccak256\<close> of the hex of a text, from viem) and the
  signature check are parameters.
\<close>

type_synonym hash_fun = "string \<Rightarrow> string"

subsection \<open>Events\<close>

record event =
  ev_room_id :: string
  ev_seq :: int
  ev_source :: string
  ev_source_event_id :: string
  ev_participant :: "string option"
  ev_observed_at :: string
  ev_ingested_at :: string
  ev_kind :: string
  ev_facts :: json
  ev_derived :: json
  ev_raw_ref :: string
  ev_raw_hash :: string
  ev_raw_query :: json
  ev_corrects :: "string option"
  ev_prev_hash :: string
  ev_hash :: string
  ev_signature :: "string option"
  ev_corrected_by :: "string option"

text \<open>An event with every optional field empty, the starting point of the concrete logs.\<close>

definition blank_event :: "string \<Rightarrow> int \<Rightarrow> event" where
  "blank_event room n =
     \<lparr> ev_room_id = room, ev_seq = n, ev_source = [], ev_source_event_id = [], ev_participant = None,
       ev_observed_at = [], ev_ingested_at = [], ev_kind = [], ev_facts = JObj [], ev_derived = JObj [],
       ev_raw_ref = [], ev_raw_hash = [], ev_raw_query = JNull, ev_corrects = None, ev_prev_hash = [],
       ev_hash = [], ev_signature = None, ev_corrected_by = None \<rparr>"

text \<open>
  What a source adapter supplies for one fact, and the fields the connector adds. A field that
  is \<open>None\<close> is one the draft leaves out.
\<close>

record draft =
  dr_source_event_id :: string
  dr_participant :: "string option"
  dr_observed_at :: string
  dr_kind :: string
  dr_facts :: "json option"
  dr_derived :: "json option"

record full_draft = draft +
  dr_room_id :: string
  dr_source :: string
  dr_raw_ref :: string
  dr_raw_hash :: string
  dr_raw_query :: json
  dr_corrects :: "string option"

definition GENESIS_HASH :: string where
  "GENESIS_HASH = ''0x'' @ replicate 64 (CHR ''0'')"

definition json_or_null :: "string option \<Rightarrow> json" where
  "json_or_null x = (case x of None \<Rightarrow> JNull | Some s \<Rightarrow> JStr s)"

text \<open>The event fields covered by the chain hash.\<close>

definition covered_fields :: "event \<Rightarrow> (string \<times> json) list" where
  "covered_fields e =
    [(''room_id'', JStr (ev_room_id e)),
     (''seq'', JNum (ev_seq e)),
     (''source'', JStr (ev_source e)),
     (''source_event_id'', JStr (ev_source_event_id e)),
     (''participant'', json_or_null (ev_participant e)),
     (''observed_at'', JStr (ev_observed_at e)),
     (''ingested_at'', JStr (ev_ingested_at e)),
     (''kind'', JStr (ev_kind e)),
     (''facts'', ev_facts e),
     (''derived'', ev_derived e),
     (''raw_ref'', JStr (ev_raw_ref e)),
     (''raw_hash'', JStr (ev_raw_hash e)),
     (''raw_query'', ev_raw_query e),
     (''corrects'', json_or_null (ev_corrects e)),
     (''prev_hash'', JStr (ev_prev_hash e))]"

definition covered :: "event \<Rightarrow> json" where
  "covered e = JObj (covered_fields e)"

definition eventHash :: "hash_fun \<Rightarrow> event \<Rightarrow> canon_error + string" where
  "eventHash H e = map_sum id H (canonicalize (covered e))"

definition buildEvent :: "hash_fun \<Rightarrow> event option \<Rightarrow> full_draft \<Rightarrow> string \<Rightarrow> canon_error + event" where
  "buildEvent H tip d ingestedAt =
     (let seq = (case tip of Some t \<Rightarrow> ev_seq t + 1 | None \<Rightarrow> 1);
          prevHash = (case tip of Some t \<Rightarrow> ev_hash t | None \<Rightarrow> GENESIS_HASH);
          e = \<lparr> ev_room_id = dr_room_id d, ev_seq = seq, ev_source = dr_source d,
                ev_source_event_id = dr_source_event_id d, ev_participant = dr_participant d,
                ev_observed_at = dr_observed_at d, ev_ingested_at = ingestedAt, ev_kind = dr_kind d,
                ev_facts = (case dr_facts d of None \<Rightarrow> JObj [] | Some f \<Rightarrow> f),
                ev_derived = (case dr_derived d of None \<Rightarrow> JObj [] | Some f \<Rightarrow> f),
                ev_raw_ref = dr_raw_ref d, ev_raw_hash = dr_raw_hash d, ev_raw_query = dr_raw_query d,
                ev_corrects = dr_corrects d, ev_prev_hash = prevHash, ev_hash = [],
                ev_signature = None, ev_corrected_by = None \<rparr>
      in bind_res (eventHash H e) (\<lambda>h. Inr (e\<lparr>ev_hash := h\<rparr>)))"

subsection \<open>Replaying a log\<close>

datatype chain_reason = Gap int | BrokenChain | HashMismatch | BadSignature

type_synonym failure = "int \<times> chain_reason"

text \<open>
  One pass over the events with the previous hash and sequence carried along. \<open>verifySig\<close> is
  \<open>None\<close> when no verifier was injected; \<open>signaturesAfter\<close> skips the signature check at or
  below a sequence. A hash that cannot be computed is a throw.
\<close>

fun verify_from :: "hash_fun \<Rightarrow> (event \<Rightarrow> bool) option \<Rightarrow> int option \<Rightarrow> string \<Rightarrow> int \<Rightarrow> event list
    \<Rightarrow> canon_error + failure list" where
  "verify_from H verifySig signaturesAfter prevHash prevSeq [] = Inr []"
| "verify_from H verifySig signaturesAfter prevHash prevSeq (e # es) =
     bind_res (eventHash H e) (\<lambda>recomputed.
       let gap = (if ev_seq e \<noteq> prevSeq + 1 then [(ev_seq e, Gap (prevSeq + 1))] else []);
           broken = (if ev_prev_hash e \<noteq> prevHash then [(ev_seq e, BrokenChain)] else []);
           mismatch = (if ev_hash e \<noteq> recomputed then [(ev_seq e, HashMismatch)] else []);
           bad = (case verifySig of
                    None \<Rightarrow> []
                  | Some check \<Rightarrow>
                      if (case signaturesAfter of None \<Rightarrow> True | Some w \<Rightarrow> w < ev_seq e) \<and> \<not> check e
                      then [(ev_seq e, BadSignature)] else [])
       in bind_res (verify_from H verifySig signaturesAfter (ev_hash e) (ev_seq e) es) (\<lambda>rest.
            Inr (gap @ broken @ mismatch @ bad @ rest)))"

definition verifyChain :: "hash_fun \<Rightarrow> (event \<Rightarrow> bool) option \<Rightarrow> (int \<times> string) option \<Rightarrow> int option \<Rightarrow> event list
    \<Rightarrow> canon_error + (bool \<times> failure list)" where
  "verifyChain H verifySig from signaturesAfter events =
     bind_res (verify_from H verifySig signaturesAfter
                 (case from of Some (s, h) \<Rightarrow> h | None \<Rightarrow> GENESIS_HASH)
                 (case from of Some (s, h) \<Rightarrow> s | None \<Rightarrow> 0) events)
       (\<lambda>failures. Inr (failures = [], failures))"

subsection \<open>Deduplication keys\<close>

definition dedupeKey :: "string \<Rightarrow> string \<Rightarrow> string" where
  "dedupeKey source source_event_id = source @ '':'' @ source_event_id"

definition contentKey :: "string \<Rightarrow> string \<Rightarrow> json \<Rightarrow> canon_error + string" where
  "contentKey source source_event_id facts =
     map_sum id (\<lambda>t. dedupeKey source source_event_id @ '':'' @ t) (canonicalize facts)"

subsection \<open>The incremental verifier\<close>

record chain_verifier =
  verifiedSeq :: int
  verifiedHash :: string

definition new_verifier :: chain_verifier where
  "new_verifier = \<lparr> verifiedSeq = 0, verifiedHash = GENESIS_HASH \<rparr>"

definition cv_verify :: "hash_fun \<Rightarrow> (event \<Rightarrow> bool) option \<Rightarrow> chain_verifier \<Rightarrow> event list
    \<Rightarrow> canon_error + ((bool \<times> failure list) \<times> chain_verifier)" where
  "cv_verify H verifySig v events =
     bind_res (verifyChain H verifySig None (if verifiedSeq v = 0 then None else Some (verifiedSeq v)) events)
       (\<lambda>result. Inr (result,
          (if fst result \<and> events \<noteq> []
           then v\<lparr>verifiedSeq := ev_seq (last events), verifiedHash := ev_hash (last events)\<rparr>
           else v)))"

subsection \<open>What a clean replay means\<close>

text \<open>Gap-free from the given sequence, linked from the given hash, each hash the event's own.\<close>

fun linked :: "hash_fun \<Rightarrow> string \<Rightarrow> int \<Rightarrow> event list \<Rightarrow> bool" where
  "linked H h s [] \<longleftrightarrow> True"
| "linked H h s (e # es) \<longleftrightarrow>
     ev_seq e = s + 1 \<and> ev_prev_hash e = h \<and> eventHash H e = Inr (ev_hash e)
     \<and> linked H (ev_hash e) (ev_seq e) es"

definition well_chained :: "hash_fun \<Rightarrow> event list \<Rightarrow> bool" where
  "well_chained H es \<longleftrightarrow> linked H GENESIS_HASH 0 es"

definition signed_after :: "(event \<Rightarrow> bool) option \<Rightarrow> int option \<Rightarrow> event list \<Rightarrow> bool" where
  "signed_after verifySig w es \<longleftrightarrow>
     (case verifySig of None \<Rightarrow> True
      | Some check \<Rightarrow> \<forall>e \<in> set es. (case w of None \<Rightarrow> True | Some s \<Rightarrow> s < ev_seq e) \<longrightarrow> check e)"

lemma signed_after_Nil [simp]: "signed_after vs w []"
  by (simp add: signed_after_def split: option.splits)

lemma signed_after_append: "signed_after vs w (es @ fs) \<longleftrightarrow> signed_after vs w es \<and> signed_after vs w fs"
  by (auto simp: signed_after_def split: option.splits)

lemma verify_from_clean:
  "verify_from H vs w h s es = Inr [] \<longleftrightarrow> linked H h s es \<and> signed_after vs w es"
proof (induction es arbitrary: h s)
  case Nil
  then show ?case by simp
next
  case (Cons e es)
  show ?case
  proof (cases "eventHash H e")
    case (Inl x)
    then show ?thesis by simp
  next
    case (Inr r)
    then show ?thesis
      using Cons.IH [of "ev_hash e" "ev_seq e"]
      by (auto simp: result_simps Let_def signed_after_def split: option.splits if_splits)
  qed
qed

lemma verifyChain_clean:
  "verifyChain H vs None w es = Inr (True, fs) \<longleftrightarrow> fs = [] \<and> well_chained H es \<and> signed_after vs w es"
  by (auto simp: verifyChain_def well_chained_def result_simps verify_from_clean)

lemma linked_append:
  "linked H h s (es @ fs) \<longleftrightarrow> linked H h s es
     \<and> linked H (if es = [] then h else ev_hash (last es)) (if es = [] then s else ev_seq (last es)) fs"
  by (induction es arbitrary: h s) auto

lemma linked_seq: "linked H h s es \<Longrightarrow> i < length es \<Longrightarrow> ev_seq (es ! i) = s + 1 + int i"
proof (induction es arbitrary: h s i)
  case (Cons e es)
  show ?case
  proof (cases i)
    case 0
    with Cons.prems show ?thesis by simp
  next
    case (Suc j)
    with Cons.prems Cons.IH [of "ev_hash e" "ev_seq e" j] show ?thesis by auto
  qed
qed simp

lemma linked_hash: "linked H h s es \<Longrightarrow> i < length es \<Longrightarrow> eventHash H (es ! i) = Inr (ev_hash (es ! i))"
proof (induction es arbitrary: h s i)
  case (Cons e es)
  show ?case
  proof (cases i)
    case 0
    with Cons.prems show ?thesis by simp
  next
    case (Suc j)
    with Cons.prems Cons.IH [of "ev_hash e" "ev_seq e" j] show ?thesis by auto
  qed
qed simp

lemma well_chained_seq: "well_chained H es \<Longrightarrow> i < length es \<Longrightarrow> ev_seq (es ! i) = int i + 1"
  using linked_seq [of H GENESIS_HASH 0 es i] by (simp add: well_chained_def)

lemma well_chained_tip_seq: "well_chained H es \<Longrightarrow> es \<noteq> [] \<Longrightarrow> ev_seq (last es) = int (length es)"
  using well_chained_seq [of H es "length es - 1"] by (cases es rule: rev_cases) (simp_all add: nth_append)

lemma well_chained_append:
  "well_chained H (es @ [e]) \<longleftrightarrow> well_chained H es
     \<and> ev_seq e = int (length es) + 1
     \<and> ev_prev_hash e = (if es = [] then GENESIS_HASH else ev_hash (last es))
     \<and> eventHash H e = Inr (ev_hash e)"
  using well_chained_tip_seq [of H es] by (auto simp: well_chained_def linked_append)

lemma covered_hash [simp]: "covered (e\<lparr>ev_hash := h\<rparr>) = covered e"
  "covered (e\<lparr>ev_signature := g\<rparr>) = covered e"
  "covered (e\<lparr>ev_corrected_by := c\<rparr>) = covered e"
  by (simp_all add: covered_def covered_fields_def)

lemma eventHash_signature [simp]: "eventHash H (e\<lparr>ev_signature := g\<rparr>) = eventHash H e"
  by (simp add: eventHash_def)

text \<open>Building on the tip of a well-chained log keeps the log well chained.\<close>

lemma buildEvent_fields:
  assumes "buildEvent H tip d at = Inr e"
  shows "ev_seq e = (case tip of Some t \<Rightarrow> ev_seq t + 1 | None \<Rightarrow> 1)"
    "ev_prev_hash e = (case tip of Some t \<Rightarrow> ev_hash t | None \<Rightarrow> GENESIS_HASH)"
    "eventHash H e = Inr (ev_hash e)"
    "ev_source e = dr_source d" "ev_source_event_id e = dr_source_event_id d"
    "ev_room_id e = dr_room_id d" "ev_corrects e = dr_corrects d"
    "ev_facts e = (case dr_facts d of None \<Rightarrow> JObj [] | Some f \<Rightarrow> f)"
    "ev_participant e = dr_participant d" "ev_kind e = dr_kind d" "ev_observed_at e = dr_observed_at d"
  using assms by (auto simp: buildEvent_def Let_def result_simps eventHash_def covered_def covered_fields_def)

lemma buildEvent_extends:
  assumes "well_chained H es" "buildEvent H (last_opt es) d at = Inr e"
  shows "well_chained H (es @ [e\<lparr>ev_signature := g\<rparr>])"
  using assms(1) buildEvent_fields(1-3) [OF assms(2)] well_chained_tip_seq [OF assms(1)]
  by (auto simp: well_chained_append last_opt_def split: if_splits)

subsection \<open>The tip commits to the whole history\<close>

text \<open>Two events the chain cannot tell apart: every covered field the same, key order aside.\<close>

definition same_content :: "event \<Rightarrow> event \<Rightarrow> bool" where
  "same_content e f \<longleftrightarrow> jnorm (covered e) = jnorm (covered f)"

lemma sorted_keys_map_of:
  assumes "distinct (map fst xs)"
  shows "map_of (sort_key fst xs) = map_of xs"
proof -
  have "distinct (map fst (sort_key fst xs))"
    using assms mset_eq_imp_distinct_iff [of "map fst xs" "map fst (sort_key fst xs)"] by simp
  then show ?thesis using assms by (intro map_of_inject_set [THEN iffD2]) simp_all
qed

lemma covered_fields_distinct: "distinct (map fst (covered_fields e))"
  by (simp add: covered_fields_def)

lemma same_content_field:
  assumes "same_content e f"
  shows "map_option jnorm (map_of (covered_fields e) k) = map_option jnorm (map_of (covered_fields f) k)"
proof -
  let ?n = "\<lambda>g. map (\<lambda>(k, v). (k, jnorm v)) (covered_fields g)"
  have dist: "distinct (map fst (?n g))" for g
    using covered_fields_distinct [of g] by (simp add: comp_def case_prod_unfold)
  have "sort_key fst (?n e) = sort_key fst (?n f)" using assms by (simp add: same_content_def covered_def)
  then have "map_of (?n e) = map_of (?n f)"
    using sorted_keys_map_of [OF dist [of e]] sorted_keys_map_of [OF dist [of f]] by simp
  then show ?thesis by (simp add: map_of_map fun_eq_iff)
qed

lemma jnorm_json_or_null [simp]: "jnorm (json_or_null a) = jnorm (json_or_null b) \<longleftrightarrow> a = b"
  by (cases a; cases b) (simp_all add: json_or_null_def)

lemma same_content_fields:
  assumes "same_content e f"
  shows "ev_seq e = ev_seq f" "ev_prev_hash e = ev_prev_hash f" "ev_source_event_id e = ev_source_event_id f"
    "jnorm (ev_facts e) = jnorm (ev_facts f)" "ev_raw_hash e = ev_raw_hash f"
    "ev_corrects e = ev_corrects f" "ev_participant e = ev_participant f"
proof -
  have "map_of (covered_fields g) ''seq'' = Some (JNum (ev_seq g))" for g
    by (simp add: covered_fields_def)
  from same_content_field [OF assms, of "''seq''", unfolded this]
  show "ev_seq e = ev_seq f" by simp
  have "map_of (covered_fields g) ''prev_hash'' = Some (JStr (ev_prev_hash g))" for g
    by (simp add: covered_fields_def)
  from same_content_field [OF assms, of "''prev_hash''", unfolded this]
  show "ev_prev_hash e = ev_prev_hash f" by simp
  have "map_of (covered_fields g) ''source_event_id'' = Some (JStr (ev_source_event_id g))" for g
    by (simp add: covered_fields_def)
  from same_content_field [OF assms, of "''source_event_id''", unfolded this]
  show "ev_source_event_id e = ev_source_event_id f" by simp
  have "map_of (covered_fields g) ''facts'' = Some (ev_facts g)" for g
    by (simp add: covered_fields_def)
  from same_content_field [OF assms, of "''facts''", unfolded this]
  show "jnorm (ev_facts e) = jnorm (ev_facts f)" by simp
  have "map_of (covered_fields g) ''raw_hash'' = Some (JStr (ev_raw_hash g))" for g
    by (simp add: covered_fields_def)
  from same_content_field [OF assms, of "''raw_hash''", unfolded this]
  show "ev_raw_hash e = ev_raw_hash f" by simp
  have "map_of (covered_fields g) ''corrects'' = Some (json_or_null (ev_corrects g))" for g
    by (simp add: covered_fields_def)
  from same_content_field [OF assms, of "''corrects''", unfolded this]
  show "ev_corrects e = ev_corrects f" by simp
  have "map_of (covered_fields g) ''participant'' = Some (json_or_null (ev_participant g))" for g
    by (simp add: covered_fields_def)
  from same_content_field [OF assms, of "''participant''", unfolded this]
  show "ev_participant e = ev_participant f" by simp
qed

definition canonical_texts :: "event list \<Rightarrow> string set" where
  "canonical_texts es = {t. \<exists>e \<in> set es. canonicalize (covered e) = Inr t}"

lemma same_hash_same_content:
  assumes "eventHash H e = Inr h" "eventHash H f = Inr h"
    and "inj_on H (canonical_texts es)" "e \<in> set es" "f \<in> set es"
  shows "same_content e f"
proof -
  from assms(1,2) obtain s t where st: "canonicalize (covered e) = Inr s" "canonicalize (covered f) = Inr t"
      "H s = H t"
    by (auto simp: eventHash_def map_sum_Inr_iff)
  have "s \<in> canonical_texts es" "t \<in> canonical_texts es"
    using st(1,2) assms(4,5) by (auto simp: canonical_texts_def)
  with assms(3) st(3) have "s = t" by (rule inj_onD)
  with st(2) have "canonicalize (covered f) = Inr s" by simp
  then show ?thesis unfolding same_content_def by (rule canonicalize_inject [OF st(1)])
qed

text \<open>C20: the tip commits to the whole history. Two well-chained logs with the same tip
  hash have the same number of events and the same covered content in every one of them, as long
  as the hash does not collide on the texts it was applied to.\<close>

lemma tip_commits:
  assumes "well_chained H es" "well_chained H fs" "es \<noteq> []" "fs \<noteq> []"
    and "ev_hash (last es) = ev_hash (last fs)"
    and "inj_on H (canonical_texts (es @ fs))"
  shows "list_all2 same_content es fs"
  using assms
proof (induction es arbitrary: fs rule: rev_induct)
  case Nil
  then show ?case by simp
next
  case (snoc e es)
  from snoc.prems(4) obtain f gs where fs: "fs = gs @ [f]" by (cases fs rule: rev_cases) auto
  note chained = snoc.prems(1,2) [unfolded fs well_chained_append]
  have "ev_hash e = ev_hash f" using snoc.prems(5) fs by simp
  then have same: "same_content e f"
    using chained snoc.prems(6) by (intro same_hash_same_content) (auto simp: fs)
  have lens: "length es = length gs" and prev: "ev_prev_hash e = ev_prev_hash f"
    using same_content_fields(1,2) [OF same] chained by auto
  show ?case
  proof (cases "es = []")
    case True
    with lens same fs show ?thesis by simp
  next
    case False
    with lens have "gs \<noteq> []" by auto
    have "canonical_texts (es @ gs) \<subseteq> canonical_texts ((es @ [e]) @ fs)"
      by (auto simp: canonical_texts_def fs)
    with snoc.prems(6) have "inj_on H (canonical_texts (es @ gs))" by (rule inj_on_subset)
    then have "list_all2 same_content es gs"
      using chained False \<open>gs \<noteq> []\<close> prev by (intro snoc.IH) auto
    with same fs show ?thesis by (simp add: list_all2_appendI)
  qed
qed

subsection \<open>The incremental verifier on an append-only log\<close>

text \<open>What a verifier may rely on: it has checked exactly the events of \<open>es\<close>, signatures included.\<close>

definition cv_knows :: "hash_fun \<Rightarrow> (event \<Rightarrow> bool) option \<Rightarrow> chain_verifier \<Rightarrow> event list \<Rightarrow> bool" where
  "cv_knows H vs v es \<longleftrightarrow>
     verifiedSeq v = int (length es) \<and> well_chained H es \<and> signed_after vs None es"

lemma cv_knows_new: "cv_knows H vs new_verifier []"
  by (simp add: cv_knows_def new_verifier_def well_chained_def)

lemma signed_after_watermark:
  assumes "well_chained H (es @ fs)" "w = int (length es)" "0 < w"
  shows "signed_after vs (Some w) (es @ fs) \<longleftrightarrow> signed_after vs None fs"
proof -
  have "\<not> w < ev_seq e" if "e \<in> set es" for e
  proof -
    from that obtain i where "i < length es" "e = es ! i" by (auto simp: in_set_conv_nth)
    with well_chained_seq [OF assms(1), of i] assms(2) show ?thesis by (simp add: nth_append)
  qed
  moreover have "w < ev_seq e" if "e \<in> set fs" for e
  proof -
    from that obtain i where "i < length fs" "e = fs ! i" by (auto simp: in_set_conv_nth)
    with well_chained_seq [OF assms(1), of "length es + i"] assms(2) show ?thesis by (simp add: nth_append)
  qed
  ultimately show ?thesis by (fastforce simp: signed_after_def split: option.splits)
qed

lemma cv_verify_full:
  assumes "cv_knows H vs v es"
  shows "(\<exists>v'. cv_verify H vs v (es @ fs) = Inr ((True, []), v'))
     \<longleftrightarrow> verifyChain H vs None None (es @ fs) = Inr (True, [])"
proof (cases "verifiedSeq v = 0")
  case True
  then show ?thesis by (auto simp: cv_verify_def result_simps)
next
  case False
  then have w: "0 < verifiedSeq v" "verifiedSeq v = int (length es)" using assms by (simp_all add: cv_knows_def)
  have "(\<exists>v'. cv_verify H vs v (es @ fs) = Inr ((True, []), v'))
      \<longleftrightarrow> verifyChain H vs None (Some (verifiedSeq v)) (es @ fs) = Inr (True, [])"
    using False by (auto simp: cv_verify_def result_simps)
  also have "\<dots> \<longleftrightarrow> well_chained H (es @ fs) \<and> signed_after vs None (es @ fs)"
    using assms signed_after_watermark [OF _ w(2,1), of H fs vs]
    by (auto simp: verifyChain_clean signed_after_append cv_knows_def)
  also have "\<dots> \<longleftrightarrow> verifyChain H vs None None (es @ fs) = Inr (True, [])"
    by (simp add: verifyChain_clean)
  finally show ?thesis .
qed

lemma cv_verify_keeps_knowing:
  assumes "cv_knows H vs v es" "cv_verify H vs v (es @ fs) = Inr ((True, fl), v')"
  shows "cv_knows H vs v' (es @ fs)"
proof -
  have "fl = []" using assms(2) by (auto simp: cv_verify_def verifyChain_def result_simps)
  with assms have full: "well_chained H (es @ fs)" "signed_after vs None (es @ fs)"
    using cv_verify_full [OF assms(1), of fs] by (auto simp: verifyChain_clean)
  have "v' = (if es @ fs \<noteq> [] then v\<lparr>verifiedSeq := ev_seq (last (es @ fs)), verifiedHash := ev_hash (last (es @ fs))\<rparr> else v)"
    using assms(2) by (auto simp: cv_verify_def result_simps)
  with full well_chained_tip_seq [OF full(1)] assms(1) show ?thesis by (auto simp: cv_knows_def)
qed

text \<open>
  The watermark is a sequence number only: below it no signature is looked at, and the hash the
  verifier remembers is never compared with the log it is shown.
\<close>

text \<open>The incremental verifier never compares the hash it remembers. Any
  well-chained log that is no longer than the verified sequence passes, with no signature of it
  looked at, also when it is not the log that was verified.\<close>

lemma cv_verify_below_watermark:
  assumes "well_chained H es" "es \<noteq> []" "int (length es) \<le> verifiedSeq v"
  shows "\<exists>v'. cv_verify H vs v es = Inr ((True, []), v')"
proof -
  have "verifiedSeq v \<noteq> 0" using assms(2,3) by auto
  moreover have "signed_after vs (Some (verifiedSeq v)) es"
  proof -
    have "\<not> verifiedSeq v < ev_seq e" if "e \<in> set es" for e
    proof -
      from that obtain i where "i < length es" "e = es ! i" by (auto simp: in_set_conv_nth)
      with well_chained_seq [OF assms(1), of i] assms(3) show ?thesis by simp
    qed
    then show ?thesis by (auto simp: signed_after_def split: option.splits)
  qed
  ultimately have "verifyChain H vs None (Some (verifiedSeq v)) es = Inr (True, [])"
    using assms(1) by (simp add: verifyChain_clean)
  with \<open>verifiedSeq v \<noteq> 0\<close> show ?thesis by (simp add: cv_verify_def)
qed

end
