(* ===== verification/Decimal.thy ===== *)
theory Decimal
  imports Prelude
begin

section \<open>Exact decimal arithmetic (domain/decimal.mjs)\<close>

text \<open>
  Settlement figures are decimal strings; the code computes on them as integers scaled by
  \<open>10^6\<close>. The regular expression \<open>^(-?)(\d+)(?:\.(\d+))?$\<close> is matched by taking an
  optional sign, the digits, and an optional point with at least one digit to the end of the
  string. A \<open>number\<close> argument is turned into its text by \<open>String\<close> before the match, so the
  functions here take the text. Every division is that of \<open>BigInt\<close>, towards zero.
\<close>

datatype decimal_error =
    NotADecimal string
  | DivisionByZeroBaseline

definition SCALE :: nat where
  "SCALE = 6"

definition ONE :: int where
  "ONE = 10 ^ SCALE"

lemma ONE_value [simp]: "ONE = 1000000"
  by (simp add: ONE_def SCALE_def)

subsection \<open>Operations\<close>

text \<open>The match of the regular expression: sign, whole digits, fraction digits.\<close>

definition split_sign :: "string \<Rightarrow> string \<times> string" where
  "split_sign text = (if text \<noteq> [] \<and> hd text = CHR ''-'' then (''-'', tl text) else ([], text))"

definition match_decimal :: "string \<Rightarrow> (string \<times> string \<times> string) option" where
  "match_decimal text =
     (let (sign, body) = split_sign text;
          whole = takeWhile is_digit body;
          rest = dropWhile is_digit body
      in if whole = [] then None
         else case rest of
             [] \<Rightarrow> Some (sign, whole, [])
           | c # frac \<Rightarrow>
               (if c = CHR ''.'' \<and> frac \<noteq> [] \<and> list_all is_digit frac then Some (sign, whole, frac)
                else None))"

definition applySign :: "string \<Rightarrow> int \<Rightarrow> int" where
  "applySign sign magnitude = (if sign = ''-'' then - magnitude else magnitude)"

definition toScaled :: "string \<Rightarrow> decimal_error + int" where
  "toScaled value =
     (case match_decimal value of
        None \<Rightarrow> Inl (NotADecimal value)
      | Some (sign, whole, frac) \<Rightarrow>
          (if SCALE < length frac
           then Inr (applySign sign (int (dec_val whole) * ONE + int (dec_val (pad_end SCALE (take SCALE frac)))))
           else Inr (applySign sign (int (dec_val whole) * ONE + int (dec_val (pad_end SCALE frac))))))"

definition fromScaled :: "int \<Rightarrow> string" where
  "fromScaled scaled =
     (let negative = scaled < 0;
          magnitude = (if negative then - scaled else scaled);
          whole = magnitude div ONE;
          frac = trim_zeros_end (pad_start SCALE (dec_string (nat (magnitude mod ONE))))
      in (if negative then ''-'' else []) @ dec_string (nat whole) @ (if frac \<noteq> [] then ''.'' @ frac else []))"

definition addDecimal :: "string \<Rightarrow> string \<Rightarrow> decimal_error + string" where
  "addDecimal a b =
     bind_res (toScaled a) (\<lambda>x. bind_res (toScaled b) (\<lambda>y. Inr (fromScaled (x + y))))"

definition compareDecimal :: "string \<Rightarrow> string \<Rightarrow> decimal_error + int" where
  "compareDecimal a b =
     bind_res (toScaled a) (\<lambda>x. bind_res (toScaled b) (\<lambda>y.
       Inr (if x < y then -1 else if y < x then 1 else 0)))"

text \<open>\<open>BigInt\<close> division: the quotient truncated towards zero.\<close>

definition trunc_div :: "int \<Rightarrow> int \<Rightarrow> int" where
  "trunc_div a b = sgn a * sgn b * (\<bar>a\<bar> div \<bar>b\<bar>)"

definition percentOf :: "string \<Rightarrow> string \<Rightarrow> decimal_error + string" where
  "percentOf a b =
     bind_res (toScaled b) (\<lambda>bScaled.
       if bScaled = 0 then Inl DivisionByZeroBaseline
       else bind_res (toScaled a) (\<lambda>aScaled. Inr (fromScaled (trunc_div (aScaled * 100 * ONE) bScaled))))"

subsection \<open>The canonical text is read back exactly\<close>

lemma digits_takeWhile_append:
  assumes "list_all is_digit w" and "rest = [] \<or> \<not> is_digit (hd rest)"
  shows "takeWhile is_digit (w @ rest) = w \<and> dropWhile is_digit (w @ rest) = rest"
proof -
  have w: "\<forall>c \<in> set w. is_digit c" using assms(1) by (simp add: list_all_iff)
  have "takeWhile is_digit rest = [] \<and> dropWhile is_digit rest = rest"
    using assms(2) by (cases rest) auto
  then show ?thesis using w by (simp add: takeWhile_append2 dropWhile_append2)
qed

lemma match_decimal_plain:
  assumes "list_all is_digit w" "w \<noteq> []" "list_all is_digit f"
  shows "match_decimal ((if neg then ''-'' else []) @ w @ (if f \<noteq> [] then ''.'' @ f else []))
         = Some (if neg then ''-'' else [], w, f)"
proof -
  define rest where "rest = (if f \<noteq> [] then ''.'' @ f else [])"
  have "hd w \<noteq> CHR ''-''" using assms(1,2) by (cases w) (auto simp: text_simps)
  then have sign: "split_sign ((if neg then ''-'' else []) @ w @ rest) = (if neg then ''-'' else [], w @ rest)"
    using assms(2) by (simp add: split_sign_def)
  have tw: "takeWhile is_digit (w @ rest) = w \<and> dropWhile is_digit (w @ rest) = rest"
    by (rule digits_takeWhile_append) (simp_all add: assms rest_def text_simps)
  have "(case rest of [] \<Rightarrow> Some (s, w, []) | c # frac \<Rightarrow>
      if c = CHR ''.'' \<and> frac \<noteq> [] \<and> list_all is_digit frac then Some (s, w, frac) else None)
      = Some (s, w, f)" for s :: string
    using assms(3) by (simp add: rest_def)
  then show ?thesis
    unfolding match_decimal_def rest_def [symmetric] Let_def sign prod.case
      conjunct1 [OF tw] conjunct2 [OF tw]
    using assms(2) by simp
qed

lemma applySign_abs:
  "applySign (if n < 0 then ''-'' else []) (if n < 0 then - n else n) = n"
  by (simp add: applySign_def)

lemma fraction_read_back:
  assumes "r < 1000000"
  shows "dec_val (pad_end SCALE (trim_zeros_end (pad_start SCALE (dec_string r)))) = r"
proof -
  have "length (dec_string r) \<le> 6"
    using assms dec_string_length [of r 6] by simp
  then have "length (pad_start SCALE (dec_string r)) = SCALE"
    by (simp add: SCALE_def text_simps)
  then show ?thesis by (simp add: text_simps)
qed

lemma toScaled_fromScaled [simp]: "toScaled (fromScaled n) = Inr n"
proof -
  let ?m = "if n < 0 then - n else n"
  let ?r = "nat (?m mod ONE)"
  let ?f = "trim_zeros_end (pad_start SCALE (dec_string ?r))"
  have r: "?r < 1000000" by (simp add: nat_less_iff)
  have len: "length ?f \<le> SCALE"
    using dec_string_length [of ?r 6] r length_trim_zeros_end [of "pad_start SCALE (dec_string ?r)"]
    by (simp add: SCALE_def text_simps)
  have digits: "list_all is_digit ?f" by (simp add: text_simps)
  have "match_decimal (fromScaled n)
          = Some (if n < 0 then ''-'' else [], dec_string (nat (?m div ONE)), ?f)"
    unfolding fromScaled_def Let_def
    using match_decimal_plain [OF dec_string_digits dec_string_not_Nil digits] by simp
  then have "toScaled (fromScaled n)
      = Inr (applySign (if n < 0 then ''-'' else [])
               (int (nat (?m div ONE)) * ONE + int (dec_val (pad_end SCALE ?f))))"
    using len by (simp add: toScaled_def text_simps)
  moreover have "int (dec_val (pad_end SCALE ?f)) = ?m mod ONE"
    using fraction_read_back [OF r] by simp
  moreover have "int (nat (?m div ONE)) = ?m div ONE" by simp
  ultimately have "toScaled (fromScaled n)
      = Inr (applySign (if n < 0 then ''-'' else []) (?m div ONE * ONE + ?m mod ONE))"
    by presburger
  then show ?thesis by (simp only: div_mult_mod_eq applySign_abs)
qed

lemma fromScaled_inject: "fromScaled m = fromScaled n \<longleftrightarrow> m = n"
  by (metis sum.inject(2) toScaled_fromScaled)

text \<open>The figure a well-formed text stands for, as a multiple of one millionth.\<close>

definition is_decimal :: "string \<Rightarrow> bool" where
  "is_decimal s \<longleftrightarrow> returns (toScaled s)"

definition scaled :: "string \<Rightarrow> int" where
  "scaled s = (case toScaled s of Inl _ \<Rightarrow> 0 | Inr n \<Rightarrow> n)"

lemma is_decimalE: "is_decimal s \<Longrightarrow> toScaled s = Inr (scaled s)"
  by (auto simp: is_decimal_def scaled_def returns_def)

lemma is_decimal_fromScaled [simp]: "is_decimal (fromScaled n)" "scaled (fromScaled n) = n"
  by (simp_all add: is_decimal_def scaled_def)

lemma is_decimal_zero [simp]: "is_decimal ''0''" "scaled ''0'' = 0"
  by (simp_all add: is_decimal_def scaled_def toScaled_def match_decimal_def split_sign_def applySign_def SCALE_def
      pad_end_def numeral_eq_Suc dec_val_def text_simps)

lemma toScaled_error: "toScaled s = Inl e \<Longrightarrow> e = NotADecimal s"
  by (auto simp: toScaled_def split: option.splits if_splits)

subsection \<open>Arithmetic on texts is arithmetic on figures\<close>

lemma addDecimal_ok: "is_decimal a \<Longrightarrow> is_decimal b \<Longrightarrow> addDecimal a b = Inr (fromScaled (scaled a + scaled b))"
  by (simp add: addDecimal_def is_decimalE)

lemma addDecimal_returns: "addDecimal a b = Inr c \<Longrightarrow> is_decimal a \<and> is_decimal b \<and> c = fromScaled (scaled a + scaled b)"
  by (auto simp: addDecimal_def result_simps is_decimal_def scaled_def)

lemma compareDecimal_ok:
  "is_decimal a \<Longrightarrow> is_decimal b \<Longrightarrow> compareDecimal a b = Inr (sgn (scaled a - scaled b))"
  by (simp add: compareDecimal_def is_decimalE sgn_if)

lemma trunc_div_toward_zero:
  assumes "b \<noteq> 0"
  shows "\<bar>trunc_div a b * b\<bar> \<le> \<bar>a\<bar> \<and> \<bar>a - trunc_div a b * b\<bar> < \<bar>b\<bar>"
proof -
  have decomp: "a - trunc_div a b * b = sgn a * (\<bar>a\<bar> mod \<bar>b\<bar>)"
  proof -
    have "trunc_div a b * b = sgn a * (\<bar>a\<bar> div \<bar>b\<bar> * \<bar>b\<bar>)"
      using assms by (simp add: trunc_div_def abs_sgn algebra_simps)
    moreover have "a = sgn a * (\<bar>a\<bar> div \<bar>b\<bar> * \<bar>b\<bar> + \<bar>a\<bar> mod \<bar>b\<bar>)"
      by (simp add: sgn_mult_abs)
    ultimately show ?thesis by (metis add_diff_cancel_left' distrib_left)
  qed
  have bound: "0 \<le> \<bar>a\<bar> mod \<bar>b\<bar>" "\<bar>a\<bar> mod \<bar>b\<bar> < \<bar>b\<bar>" using assms by simp_all
  have "\<bar>trunc_div a b * b\<bar> \<le> \<bar>a\<bar>"
    using bound(1) minus_mod_eq_div_mult [of "\<bar>a\<bar>" "\<bar>b\<bar>", symmetric] assms
      pos_imp_zdiv_nonneg_iff [of "\<bar>b\<bar>" "\<bar>a\<bar>"]
    by (cases "a = 0") (simp_all add: trunc_div_def abs_mult abs_sgn_eq)
  moreover have "\<bar>a - trunc_div a b * b\<bar> < \<bar>b\<bar>"
    unfolding decomp using bound assms by (simp add: abs_mult abs_sgn_eq)
  ultimately show ?thesis by simp
qed

subsection \<open>Properties\<close>

text \<open>C39: A decimal text printed by \<open>fromScaled\<close> parses back to the same figure, so figures are carried
  as texts without loss; \<open>addDecimal\<close> and \<open>compareDecimal\<close> on such texts are exact addition and
  comparison of the figures.\<close>

theorem decimal_texts_exact:
  "toScaled (fromScaled m) = Inr m \<and> (fromScaled m = fromScaled n \<longleftrightarrow> m = n)
    \<and> addDecimal (fromScaled m) (fromScaled n) = Inr (fromScaled (m + n))
    \<and> compareDecimal (fromScaled m) (fromScaled n) = Inr (sgn (m - n))"
  by (simp add: fromScaled_inject addDecimal_ok compareDecimal_ok)

end
