(* ===== verification/Conditions.thy ===== *)
theory Conditions
  imports EventLog Decimal
begin

section \<open>Condition evaluation (domain/conditions.mjs)\<close>

text \<open>
  A pure function from a frozen condition document and a window of the log to a decision. The
  document is a JSON object, because its canonical hash is what the chain binds; an exception
  is an \<open>eval_error\<close> carrying the values its message interpolates.
\<close>

subsection \<open>Date.parse\<close>

text \<open>
  The milliseconds of a text in the form \<open>toISOString\<close> writes, \<open>YYYY-MM-DDTHH:MM:SS.mmmZ\<close>:
  the form of every \<open>observed_at\<close> in the log. Any other text is \<open>NaN\<close>, here \<open>None\<close>.
\<close>

definition days_from_civil :: "int \<Rightarrow> int \<Rightarrow> int \<Rightarrow> int" where
  "days_from_civil y m d =
     (let y' = (if m \<le> 2 then y - 1 else y);
          era = y' div 400;
          yoe = y' - era * 400;
          doy = (153 * (if 2 < m then m - 3 else m + 9) + 2) div 5 + d - 1;
          doe = yoe * 365 + yoe div 4 - yoe div 100 + doy
      in era * 146097 + doe - 719468)"

definition iso_shape :: "string \<Rightarrow> bool" where
  "iso_shape s \<longleftrightarrow> length s = 24
     \<and> s ! 4 = CHR ''-'' \<and> s ! 7 = CHR ''-'' \<and> s ! 10 = CHR ''T'' \<and> s ! 13 = CHR '':''
     \<and> s ! 16 = CHR '':'' \<and> s ! 19 = CHR ''.'' \<and> s ! 23 = CHR ''Z''
     \<and> (\<forall>i \<in> set [0, 1, 2, 3, 5, 6, 8, 9, 11, 12, 14, 15, 17, 18, 20, 21, 22]. is_digit (s ! i))"

definition date_parse :: "string \<Rightarrow> int option" where
  "date_parse s =
     (if iso_shape s then
        let num = (\<lambda>i n. int (dec_val (take n (drop i s))));
            mo = num 5 2; d = num 8 2; h = num 11 2; mi = num 14 2; sec = num 17 2
        in if 1 \<le> mo \<and> mo \<le> 12 \<and> 1 \<le> d \<and> d \<le> 31 \<and> h \<le> 23 \<and> mi \<le> 59 \<and> sec \<le> 59
           then Some (((days_from_civil (num 0 4) mo d * 24 + h) * 60 + mi) * 60000 + sec * 1000 + num 20 3)
           else None
      else None)"

definition freshnessAgeMs :: "event option \<Rightarrow> int \<Rightarrow> int option option" where
  \<comment> \<open>\<open>None\<close> is infinity (no tip); \<open>Some None\<close> is \<open>NaN\<close>\<close>
  "freshnessAgeMs tip nowMs =
     (case tip of None \<Rightarrow> None
      | Some t \<Rightarrow> Some (map_option (\<lambda>at. nowMs - at) (date_parse (ev_observed_at t))))"

text \<open>\<open>age > threshold\<close>: true of infinity, false of \<open>NaN\<close>.\<close>

definition age_exceeds :: "int option option \<Rightarrow> int \<Rightarrow> bool" where
  "age_exceeds age threshold = (case age of None \<Rightarrow> True | Some None \<Rightarrow> False | Some (Some a) \<Rightarrow> threshold < a)"

subsection \<open>Documents, decisions, errors\<close>

type_synonym condition = json

definition template_of :: "condition \<Rightarrow> json" where
  "template_of c = json_get c ''template''"

definition param_of :: "condition \<Rightarrow> string \<Rightarrow> json" where
  "param_of c k = json_get (json_get c ''params'') k"

definition EVALUATOR_VERSION :: string where
  "EVALUATOR_VERSION = ''1.0.0''"

definition conditionHash :: "hash_fun \<Rightarrow> condition \<Rightarrow> canon_error + string" where
  "conditionHash H c = map_sum id H (canonicalize c)"

datatype eval_error =
    DecimalError decimal_error
  | UnknownOperator string
  | NoBaseline string
  | UnknownMetric string
  | UnknownTemplate string
  | NotInRoster string "string list"

datatype decision =
    Undecided
  | Decided string int
  | Unevaluable eval_error

definition lift_dec :: "decimal_error + 'a \<Rightarrow> eval_error + 'a" where
  "lift_dec r = map_sum DecimalError id r"

definition satisfies :: "json \<Rightarrow> string \<Rightarrow> json \<Rightarrow> eval_error + bool" where
  "satisfies operator left right =
     bind_res (lift_dec (compareDecimal left (json_text right))) (\<lambda>cmp.
       if operator = JStr ''>='' then Inr (cmp \<ge> 0)
       else if operator = JStr ''>'' then Inr (cmp > 0)
       else if operator = JStr ''<='' then Inr (cmp \<le> 0)
       else if operator = JStr ''<'' then Inr (cmp < 0)
       else Inl (UnknownOperator (json_text operator)))"

subsection \<open>The rectified timeline\<close>

text \<open>One event of the first loop: \<open>slotOf\<close> maps an event hash to its place in the timeline.\<close>

definition rectify_step :: "(string, nat) js_map \<times> event list \<Rightarrow> event \<Rightarrow> (string, nat) js_map \<times> event list" where
  "rectify_step st e =
     (case st of (slotOf, timeline) \<Rightarrow>
       (case Option.bind (truthy_text (ev_corrects e)) (js_get slotOf) of
          None \<Rightarrow> (js_set (ev_hash e) (length timeline) slotOf, timeline @ [e])
        | Some supersedes \<Rightarrow>
            (js_set (ev_hash e) supersedes slotOf,
             timeline[supersedes := (timeline ! supersedes)
               \<lparr>ev_facts := ev_facts e, ev_derived := ev_derived e, ev_corrected_by := Some (ev_hash e)\<rparr>])))"

definition rectify_slots :: "event list \<Rightarrow> (string, nat) js_map \<times> event list" where
  "rectify_slots events = foldl rectify_step ([], []) events"

definition tid_text :: "event \<Rightarrow> string" where
  "tid_text e = (let tid = json_get (ev_facts e) ''tid'' in if nullish tid then [] else json_text tid)"

text \<open>
  The comparator: provider time, then the text of the trade id, then the index, which is what
  stability gives. Trade ids are decimal digits, on which \<open>localeCompare\<close> is the order of
  character codes; an \<open>observed_at\<close> that does not parse makes the comparator return \<open>NaN\<close>
  and the order engine-defined, and sorts first here.
\<close>

definition timeline_key :: "event \<Rightarrow> int option \<times> string" where
  "timeline_key e = (date_parse (ev_observed_at e), tid_text e)"

definition rectify :: "event list \<Rightarrow> event list" where
  "rectify events = sort_key timeline_key (snd (rectify_slots events))"

subsection \<open>Metric state\<close>

record metric_state =
  ms_baseline :: json
  ms_cumRealizedPnlUsd :: string

type_synonym metrics_map = "(string, metric_state) js_map"

definition new_metric_state :: metric_state where
  "new_metric_state = \<lparr> ms_baseline = JNull, ms_cumRealizedPnlUsd = ''0'' \<rparr>"

definition pnl_text :: "event \<Rightarrow> string" where
  "pnl_text e = json_text (json_get (ev_facts e) ''realized_pnl_usd'')"

definition metricValue :: "metrics_map \<Rightarrow> string option \<Rightarrow> json \<Rightarrow> eval_error + string option" where
  "metricValue state participant metric =
     (case Option.bind participant (js_get state) of
        None \<Rightarrow> Inr None
      | Some entry \<Rightarrow>
          if metric = JStr ''realized_pnl_usd'' then Inr (Some (ms_cumRealizedPnlUsd entry))
          else if metric = JStr ''return_pct'' then
            if ms_baseline entry = JNull then Inl (NoBaseline (the participant))
            else map_sum id Some (lift_dec (percentOf (ms_cumRealizedPnlUsd entry) (json_text (ms_baseline entry))))
          else Inl (UnknownMetric (json_text metric)))"

text \<open>\<open>foldMetrics\<close>: contributions held per fact id, summed at the end.\<close>

type_synonym contributions = "(string, (string, json) js_map) js_map"

definition fold_event :: "int option \<Rightarrow> metrics_map \<times> contributions \<Rightarrow> event \<Rightarrow> metrics_map \<times> contributions" where
  "fold_event upToSeq st e =
     (case st of (state, contributions) \<Rightarrow>
       if (case upToSeq of None \<Rightarrow> False | Some u \<Rightarrow> u < ev_seq e) then (state, contributions)
       else (case truthy_text (ev_participant e) of
          None \<Rightarrow> (state, contributions)
        | Some p \<Rightarrow>
            (let (state1, contributions1) =
                   (if js_has state p then (state, contributions)
                    else (js_set p new_metric_state state, js_set p [] contributions));
                 entry = (case js_get state1 p of Some s \<Rightarrow> s | None \<Rightarrow> new_metric_state)
             in if ev_kind e = ''baseline'' then
                  (js_set p (entry\<lparr>ms_baseline := json_get (ev_facts e) ''account_value_usd''\<rparr>) state1, contributions1)
                else if ev_kind e = ''trade_closed'' then
                  (state1, js_set p (js_set (ev_source_event_id e) (json_get (ev_facts e) ''realized_pnl_usd'')
                     (case js_get contributions1 p of Some m \<Rightarrow> m | None \<Rightarrow> [])) contributions1)
                else (state1, contributions1))))"

fun sum_contributions :: "string \<Rightarrow> (string \<times> json) list \<Rightarrow> decimal_error + string" where
  "sum_contributions acc [] = Inr acc"
| "sum_contributions acc ((source_event_id, value) # rest) =
     bind_res (addDecimal acc (json_text value)) (\<lambda>t. sum_contributions t rest)"

definition foldMetrics :: "event list \<Rightarrow> int option \<Rightarrow> decimal_error + metrics_map" where
  "foldMetrics events upToSeq =
     (let (state, contributions) = foldl (fold_event upToSeq) ([], []) (rectify events)
      in seq_res (map (\<lambda>(p, entry).
           map_sum id (\<lambda>t. (p, entry\<lparr>ms_cumRealizedPnlUsd := t\<rparr>))
             (sum_contributions ''0'' (case js_get contributions p of Some m \<Rightarrow> m | None \<Rightarrow> []))) state))"

subsection \<open>The incremental scan\<close>

definition scan_event :: "metrics_map \<Rightarrow> event \<Rightarrow> eval_error + metrics_map" where
  "scan_event state e =
     (case truthy_text (ev_participant e) of
        None \<Rightarrow> Inr state
      | Some p \<Rightarrow>
          (let entry = (case js_get state p of Some s \<Rightarrow> s | None \<Rightarrow> new_metric_state)
           in if ev_kind e = ''baseline'' then
                Inr (js_set p (entry\<lparr>ms_baseline := json_get (ev_facts e) ''account_value_usd''\<rparr>) state)
              else if ev_kind e = ''trade_closed'' then
                bind_res (lift_dec (addDecimal (ms_cumRealizedPnlUsd entry) (pnl_text e)))
                  (\<lambda>t. Inr (js_set p (entry\<lparr>ms_cumRealizedPnlUsd := t\<rparr>) state))
              else Inr (js_set p entry state)))"

fun scanning :: "(metrics_map \<Rightarrow> event \<Rightarrow> eval_error + decision option) \<Rightarrow> metrics_map \<Rightarrow> event list \<Rightarrow> eval_error + decision" where
  "scanning decide state [] = Inr Undecided"
| "scanning decide state (e # es) =
     bind_res (scan_event state e) (\<lambda>state'.
       bind_res (decide state' e) (\<lambda>d.
         case d of Some decision \<Rightarrow> Inr decision | None \<Rightarrow> scanning decide state' es))"

text \<open>The per-event predicates of the templates.\<close>

definition meets :: "metrics_map \<Rightarrow> event \<Rightarrow> json \<Rightarrow> json \<Rightarrow> json \<Rightarrow> eval_error + bool" where
  "meets state e metric operator value =
     bind_res (metricValue state (ev_participant e) metric) (\<lambda>v.
       case v of None \<Rightarrow> Inr False | Some left \<Rightarrow> satisfies operator left value)"

definition decide_race :: "json \<Rightarrow> json \<Rightarrow> json \<Rightarrow> metrics_map \<Rightarrow> event \<Rightarrow> eval_error + decision option" where
  "decide_race metric operator value state e =
     (if ev_kind e \<noteq> ''trade_closed'' then Inr None
      else bind_res (meets state e metric operator value) (\<lambda>ok.
        Inr (if ok then Some (Decided (the (ev_participant e)) (ev_seq e)) else None)))"

definition decide_threshold :: "condition \<Rightarrow> metrics_map \<Rightarrow> event \<Rightarrow> eval_error + decision option" where
  "decide_threshold c state e =
     (if ev_kind e \<noteq> ''trade_closed'' \<or> json_or_null (ev_participant e) \<noteq> param_of c ''participant'' then Inr None
      else bind_res (meets state e (param_of c ''metric'') (param_of c ''operator'') (param_of c ''value'')) (\<lambda>ok.
        Inr (if ok then Some (Decided ''yes'' (ev_seq e)) else None)))"

definition caught :: "eval_error + decision \<Rightarrow> decision" where
  "caught r = (case r of Inl err \<Rightarrow> Unevaluable err | Inr d \<Rightarrow> d)"

definition evaluateWindow :: "condition \<Rightarrow> event list \<Rightarrow> string list option \<Rightarrow> decision" where
  "evaluateWindow c events roster =
     caught
      (if template_of c = JStr ''first_to_realized_pnl'' then
         scanning (decide_race (JStr ''realized_pnl_usd'') (JStr ''>='') (param_of c ''target'')) [] events
       else if template_of c = JStr ''participant_metric_threshold'' then
         (case roster of
            Some keys \<Rightarrow>
              if to_lower (json_text (param_of c ''participant'')) \<notin> set keys
              then Inr (Unevaluable (NotInRoster (json_text (param_of c ''participant'')) keys))
              else scanning (decide_threshold c) [] events
          | None \<Rightarrow> scanning (decide_threshold c) [] events)
       else if template_of c = JStr ''first_to_metric'' then
         scanning (decide_race (param_of c ''metric'') (param_of c ''operator'') (param_of c ''value'')) [] events
       else Inr (Unevaluable (UnknownTemplate (json_text (template_of c)))))"

subsection \<open>The evaluation entry point\<close>

definition undecidedAtSessionEnd :: "condition \<Rightarrow> string option" where
  "undecidedAtSessionEnd c =
     (if template_of c = JStr ''participant_metric_threshold'' then Some ''no''
      else if template_of c = JStr ''first_to_metric'' then Some ''tie''
      else None)"

text \<open>
  The options of \<open>evaluateCondition\<close>. \<open>headlineCondition !== condition\<close> compares object
  identity: \<open>opt_headline_is_self\<close> says that the very same document object was passed.
\<close>

record eval_options =
  opt_terminalSeq :: "int option"
  opt_headline :: "condition option"
  opt_headline_is_self :: bool
  opt_participants :: "string list option"

definition default_options :: eval_options where
  "default_options = \<lparr> opt_terminalSeq = None, opt_headline = None, opt_headline_is_self = False,
     opt_participants = None \<rparr>"

definition roster_of :: "string list option \<Rightarrow> string list option" where
  "roster_of participants =
     (case participants of Some (k # ks) \<Rightarrow> Some (rev (remdups (rev (map to_lower (k # ks))))) | _ \<Rightarrow> None)"

definition known_events :: "int option \<Rightarrow> event list \<Rightarrow> event list" where
  "known_events terminalSeq timeline =
     (case terminalSeq of None \<Rightarrow> timeline | Some t \<Rightarrow> filter (\<lambda>e. ev_seq e \<le> t) timeline)"

text \<open>Where the session ended on the provider's timeline, when the headline decides it.\<close>

definition terminal_index :: "eval_options \<Rightarrow> string list option \<Rightarrow> event list \<Rightarrow> nat option" where
  "terminal_index opts roster known =
     (case opt_headline opts of
        None \<Rightarrow> None
      | Some headline \<Rightarrow>
          if opt_headline_is_self opts then None
          else (case evaluateWindow headline known roster of
                  Decided outcome seq \<Rightarrow> find_index (\<lambda>e. ev_seq e = seq) known
                | _ \<Rightarrow> None))"

definition evaluateCondition :: "condition \<Rightarrow> event list \<Rightarrow> eval_options \<Rightarrow> decision" where
  "evaluateCondition c events opts =
     (let roster = roster_of (opt_participants opts);
          known = known_events (opt_terminalSeq opts) (rectify events);
          terminalIndex = terminal_index opts roster known;
          window = (case terminalIndex of Some i \<Rightarrow> take (i + 1) known | None \<Rightarrow> known);
          decision = evaluateWindow c window roster
      in if decision \<noteq> Undecided then decision
         else if terminalIndex \<noteq> None \<or> opt_terminalSeq opts \<noteq> None then
           (case undecidedAtSessionEnd c of
              Some fallback \<Rightarrow>
                Decided fallback (if terminalIndex \<noteq> None then ev_seq (last window) else the (opt_terminalSeq opts))
            | None \<Rightarrow> decision)
         else decision)"

definition outcomeToMarketEnum :: "string \<Rightarrow> string \<Rightarrow> string \<Rightarrow> string + int" where
  "outcomeToMarketEnum outcome participantAKey participantBKey =
     (if outcome = participantAKey \<or> outcome = ''yes'' then Inr 1
      else if outcome = participantBKey \<or> outcome = ''no'' then Inr 2
      else if outcome = ''tie'' then Inr 3
      else Inl outcome)"

subsection \<open>The scan decides at the first satisfying event\<close>

lemma scanning_append:
  assumes "scanning decide st es = Inr d" "d \<noteq> Undecided"
  shows "scanning decide st (es @ fs) = Inr d"
  using assms by (induction es arbitrary: st) (auto simp: result_simps split: option.splits)

lemma scanning_append_error:
  "scanning decide st es = Inl err \<Longrightarrow> scanning decide st (es @ fs) = Inl err"
proof (induction es arbitrary: st)
  case (Cons e es)
  then show ?case by (fastforce simp: result_simps split: option.splits)
qed simp

lemma scanning_prefix_undecided:
  assumes "scanning decide st (es @ fs) = Inr Undecided"
  shows "scanning decide st es = Inr Undecided"
proof (cases "scanning decide st es")
  case (Inl err)
  with assms scanning_append_error [OF this, of fs] show ?thesis by simp
next
  case (Inr d)
  with assms scanning_append [OF this, of fs] show ?thesis by fastforce
qed

text \<open>A window that is extended at its end keeps its decision.\<close>

lemma evaluateWindow_append:
  assumes "evaluateWindow c es roster = Decided outcome seq"
  shows "evaluateWindow c (es @ fs) roster = Decided outcome seq"
proof -
  have keep: "caught (scanning decide st (es @ fs)) = Decided outcome seq"
    if "caught (scanning decide st es) = Decided outcome seq" for decide st
    using that scanning_append [of decide st es _ fs]
    by (auto simp: caught_def split: sum.splits)
  from assms show ?thesis
    unfolding evaluateWindow_def by (auto simp: caught_def [of "Inr _"] intro: keep split: if_splits option.splits)
qed

subsection \<open>Figures of well-formed logs\<close>

definition is_trade :: "event \<Rightarrow> bool" where
  "is_trade e \<longleftrightarrow> ev_kind e = ''trade_closed''"

text \<open>
  The facts the connector writes: a closed trade names its participant, and its realized PnL is
  the text of an exact decimal.
\<close>

definition wf_event :: "event \<Rightarrow> bool" where
  "wf_event e \<longleftrightarrow> (is_trade e \<longrightarrow> truthy_text (ev_participant e) \<noteq> None \<and> is_decimal (pnl_text e))"

definition figure :: "event \<Rightarrow> int" where
  "figure e = scaled (pnl_text e)"

text \<open>The realized PnL of a participant over a list of events, in millionths.\<close>

definition realized :: "event list \<Rightarrow> string \<Rightarrow> int" where
  "realized es p = (\<Sum>e \<leftarrow> filter (\<lambda>e. is_trade e \<and> ev_participant e = Some p) es. figure e)"

definition baseline_after :: "event list \<Rightarrow> string \<Rightarrow> json" where
  "baseline_after es p =
     (case last_opt (filter (\<lambda>e. ev_kind e = ''baseline'' \<and> ev_participant e = Some p) es) of
        None \<Rightarrow> JNull | Some e \<Rightarrow> json_get (ev_facts e) ''account_value_usd'')"

definition seen :: "event list \<Rightarrow> string \<Rightarrow> bool" where
  "seen es p \<longleftrightarrow> p \<noteq> [] \<and> (\<exists>e \<in> set es. ev_participant e = Some p)"

definition state_after :: "event list \<Rightarrow> string \<Rightarrow> metric_state option" where
  "state_after es p =
     (if seen es p
      then Some \<lparr> ms_baseline = baseline_after es p, ms_cumRealizedPnlUsd = fromScaled (realized es p) \<rparr>
      else None)"

lemma realized_simps [simp]:
  "realized [] p = 0"
  "realized (es @ fs) p = realized es p + realized fs p"
  "realized [e] p = (if is_trade e \<and> ev_participant e = Some p then figure e else 0)"
  by (simp_all add: realized_def)

lemma seen_simps [simp]:
  "\<not> seen [] p"
  "seen (es @ [e]) p \<longleftrightarrow> seen es p \<or> p \<noteq> [] \<and> ev_participant e = Some p"
  by (auto simp: seen_def)

lemma baseline_after_snoc [simp]:
  "baseline_after (es @ [e]) p =
     (if ev_kind e = ''baseline'' \<and> ev_participant e = Some p then json_get (ev_facts e) ''account_value_usd''
      else baseline_after es p)"
  by (simp add: baseline_after_def)

lemma seen_empty_name [simp]: "\<not> seen es []"
  by (simp add: seen_def)

lemma realized_unseen: "p \<noteq> [] \<Longrightarrow> \<not> seen es p \<Longrightarrow> realized es p = 0"
  by (induction es rule: rev_induct) auto

lemma baseline_unseen: "p \<noteq> [] \<Longrightarrow> \<not> seen es p \<Longrightarrow> baseline_after es p = JNull"
  by (induction es rule: rev_induct) (auto simp: baseline_after_def)

lemma fromScaled_zero: "fromScaled 0 = ''0''"
proof -
  have "digit_char 0 = CHR ''0''"
  proof -
    have "(of_char (digit_char 0) :: nat) = of_char (CHR ''0'')" by (simp add: digit_char_def)
    then show ?thesis by (simp only: of_char_eq_iff)
  qed
  then have "dec_string 0 = ''0''" by (simp add: dec_string.simps [of 0])
  then show ?thesis
    by (simp add: fromScaled_def pad_start_def trim_zeros_end_def SCALE_def numeral_eq_Suc)
qed

lemma new_state_unseen:
  "p \<noteq> [] \<Longrightarrow> (case state_after es p of Some s \<Rightarrow> s | None \<Rightarrow> new_metric_state)
     = \<lparr> ms_baseline = baseline_after es p, ms_cumRealizedPnlUsd = fromScaled (realized es p) \<rparr>"
  by (simp add: state_after_def new_metric_state_def realized_unseen baseline_unseen fromScaled_zero)

text \<open>The state the scan carries is the state of the events it has read.\<close>

definition tracks :: "metrics_map \<Rightarrow> event list \<Rightarrow> bool" where
  "tracks st es \<longleftrightarrow> (\<forall>p. js_get st p = state_after es p)"

lemma tracks_Nil: "tracks [] []"
  by (simp add: tracks_def state_after_def)

lemma scan_event_tracks:
  assumes "tracks st es" "wf_event e"
  shows "\<exists>st'. scan_event st e = Inr st' \<and> tracks st' (es @ [e])"
proof (cases "truthy_text (ev_participant e)")
  case None
  then have "state_after (es @ [e]) p = state_after es p" for p
    by (auto simp: truthy_text_None state_after_def)
  with None assms(1) show ?thesis by (simp add: scan_event_def tracks_def)
next
  case (Some p)
  then have p: "ev_participant e = Some p" "p \<noteq> []" by (simp_all add: truthy_text_Some)
  have entry: "(case js_get st p of Some s \<Rightarrow> s | None \<Rightarrow> new_metric_state)
      = \<lparr> ms_baseline = baseline_after es p, ms_cumRealizedPnlUsd = fromScaled (realized es p) \<rparr>"
    using assms(1) new_state_unseen [OF p(2)] by (simp add: tracks_def)
  have other: "state_after (es @ [e]) q = state_after es q" if "q \<noteq> p" for q
    using that p by (auto simp: state_after_def)
  show ?thesis
  proof (cases "is_trade e")
    case True
    then have "is_decimal (pnl_text e)" using assms(2) by (simp add: wf_event_def)
    then have "addDecimal (fromScaled (realized es p)) (pnl_text e) = Inr (fromScaled (realized (es @ [e]) p))"
      using True p by (simp add: addDecimal_ok figure_def)
    with True Some p entry other assms(1) show ?thesis
      by (auto simp: scan_event_def Let_def lift_dec_def is_trade_def tracks_def js_get_set state_after_def)
  next
    case False
    with Some p entry other assms(1) show ?thesis
      by (auto simp: scan_event_def Let_def is_trade_def tracks_def js_get_set state_after_def)
  qed
qed

subsection \<open>The abstract rule a condition stands for\<close>

text \<open>
  What a well-formed condition asks at one trade: the participant's figure up to and including
  it, compared with the threshold, on integers. The first trade that answers yes decides.
\<close>

definition PNL :: json where
  "PNL = JStr ''realized_pnl_usd''"

definition RETURN :: json where
  "RETURN = JStr ''return_pct''"

definition is_threshold :: "condition \<Rightarrow> bool" where
  "is_threshold c \<longleftrightarrow> template_of c = JStr ''participant_metric_threshold''"

definition is_headline :: "condition \<Rightarrow> bool" where
  "is_headline c \<longleftrightarrow> template_of c = JStr ''first_to_realized_pnl''"

definition rule_metric :: "condition \<Rightarrow> json" where
  "rule_metric c = (if is_headline c then PNL else param_of c ''metric'')"

definition rule_operator :: "condition \<Rightarrow> json" where
  "rule_operator c = (if is_headline c then JStr ''>='' else param_of c ''operator'')"

definition rule_value :: "condition \<Rightarrow> json" where
  "rule_value c = (if is_headline c then param_of c ''target'' else param_of c ''value'')"

definition rule_outcome :: "condition \<Rightarrow> event \<Rightarrow> string" where
  "rule_outcome c e = (if is_threshold c then ''yes'' else the (ev_participant e))"

definition wf_condition :: "condition \<Rightarrow> bool" where
  "wf_condition c \<longleftrightarrow>
     (is_headline c \<or> is_threshold c \<or> template_of c = JStr ''first_to_metric'')
     \<and> (rule_metric c = PNL \<or> rule_metric c = RETURN)
     \<and> rule_operator c \<in> {JStr ''>='', JStr ''>'', JStr ''<='', JStr ''<''}
     \<and> is_decimal (json_text (rule_value c))"

definition holds_op :: "json \<Rightarrow> int \<Rightarrow> int \<Rightarrow> bool" where
  "holds_op operator x y =
     (if operator = JStr ''>='' then y \<le> x
      else if operator = JStr ''>'' then y < x
      else if operator = JStr ''<='' then x \<le> y
      else x < y)"

definition rule_figure :: "json \<Rightarrow> event list \<Rightarrow> string \<Rightarrow> int" where
  "rule_figure metric es p =
     (if metric = PNL then realized es p
      else trunc_div (realized es p * 100 * ONE) (scaled (json_text (baseline_after es p))))"

definition rule_hit :: "condition \<Rightarrow> event list \<Rightarrow> event \<Rightarrow> bool" where
  "rule_hit c pre e \<longleftrightarrow>
     is_trade e \<and> (is_threshold c \<longrightarrow> json_or_null (ev_participant e) = param_of c ''participant'')
     \<and> holds_op (rule_operator c) (rule_figure (rule_metric c) (pre @ [e]) (the (ev_participant e)))
         (scaled (json_text (rule_value c)))"

fun first_hit :: "(event list \<Rightarrow> event \<Rightarrow> bool) \<Rightarrow> event list \<Rightarrow> event list \<Rightarrow> event option" where
  "first_hit hit pre [] = None"
| "first_hit hit pre (e # es) = (if hit pre e then Some e else first_hit hit (pre @ [e]) es)"

text \<open>A return needs a usable baseline before the trade it is asked at.\<close>

definition usable_baseline :: "json \<Rightarrow> bool" where
  "usable_baseline b \<longleftrightarrow> b \<noteq> JNull \<and> is_decimal (json_text b) \<and> scaled (json_text b) \<noteq> 0"

definition ready :: "condition \<Rightarrow> event list \<Rightarrow> event \<Rightarrow> bool" where
  "ready c pre e \<longleftrightarrow> wf_event e
     \<and> (is_trade e \<and> rule_metric c = RETURN \<longrightarrow> usable_baseline (baseline_after (pre @ [e]) (the (ev_participant e))))"

fun all_ready :: "condition \<Rightarrow> event list \<Rightarrow> event list \<Rightarrow> bool" where
  "all_ready c pre [] \<longleftrightarrow> True"
| "all_ready c pre (e # es) \<longleftrightarrow> ready c pre e \<and> all_ready c (pre @ [e]) es"

lemma first_hit_Some:
  "first_hit hit pre es = Some e \<longleftrightarrow>
     (\<exists>xs ys. es = xs @ e # ys \<and> hit (pre @ xs) e \<and> (\<forall>as a bs. xs = as @ a # bs \<longrightarrow> \<not> hit (pre @ as) a))"
proof (induction es arbitrary: pre)
  case Nil
  then show ?case by simp
next
  case (Cons a es)
  show ?case
  proof (cases "hit pre a")
    case True
    show ?thesis
    proof
      assume "first_hit hit pre (a # es) = Some e"
      with True show "\<exists>xs ys. a # es = xs @ e # ys \<and> hit (pre @ xs) e
          \<and> (\<forall>as b bs. xs = as @ b # bs \<longrightarrow> \<not> hit (pre @ as) b)"
        by (intro exI [of _ "[]"] exI [of _ es]) simp
    next
      assume "\<exists>xs ys. a # es = xs @ e # ys \<and> hit (pre @ xs) e
          \<and> (\<forall>as b bs. xs = as @ b # bs \<longrightarrow> \<not> hit (pre @ as) b)"
      then obtain xs ys where xs: "a # es = xs @ e # ys"
          "\<forall>as b bs. xs = as @ b # bs \<longrightarrow> \<not> hit (pre @ as) b" by blast
      have "xs = []"
      proof (cases xs)
        case (Cons b bs)
        with xs(1) have "b = a" by simp
        with xs(2) [rule_format, of "[]" b bs] Cons True show ?thesis by simp
      qed simp
      with xs(1) True show "first_hit hit pre (a # es) = Some e" by simp
    qed
  next
    case False
    show ?thesis
    proof
      assume "first_hit hit pre (a # es) = Some e"
      with False Cons.IH [of "pre @ [a]"] obtain xs ys where
        xs: "es = xs @ e # ys" "hit ((pre @ [a]) @ xs) e" "\<forall>as b bs. xs = as @ b # bs \<longrightarrow> \<not> hit ((pre @ [a]) @ as) b"
        by auto
      have "\<not> hit (pre @ as) b" if "a # xs = as @ b # bs" for as b bs
        using that False xs(3) by (cases as) auto
      with xs show "\<exists>xs ys. a # es = xs @ e # ys \<and> hit (pre @ xs) e
          \<and> (\<forall>as b bs. xs = as @ b # bs \<longrightarrow> \<not> hit (pre @ as) b)"
        by (intro exI [of _ "a # xs"] exI [of _ ys]) simp
    next
      assume "\<exists>xs ys. a # es = xs @ e # ys \<and> hit (pre @ xs) e
          \<and> (\<forall>as b bs. xs = as @ b # bs \<longrightarrow> \<not> hit (pre @ as) b)"
      then obtain xs ys where xs: "a # es = xs @ e # ys" "hit (pre @ xs) e"
          "\<forall>as b bs. xs = as @ b # bs \<longrightarrow> \<not> hit (pre @ as) b" by blast
      with False obtain zs where zs: "xs = a # zs" by (cases xs) auto
      have "first_hit hit (pre @ [a]) es = Some e"
        unfolding Cons.IH
      proof (intro exI conjI allI impI)
        show "es = zs @ e # ys" "hit ((pre @ [a]) @ zs) e" using xs zs by auto
        show "\<not> hit ((pre @ [a]) @ as) b" if "zs = as @ b # bs" for as b bs
          using xs(3) [rule_format, of "a # as" b bs] zs that by simp
      qed
      with False show "first_hit hit pre (a # es) = Some e" by simp
    qed
  qed
qed

lemma first_hit_append:
  "first_hit hit pre (xs @ ys) = (case first_hit hit pre xs of Some e \<Rightarrow> Some e | None \<Rightarrow> first_hit hit (pre @ xs) ys)"
proof (induction xs arbitrary: pre)
  case Nil
  then show ?case by simp
next
  case (Cons a xs)
  show ?case using Cons [of "pre @ [a]"] by (simp split: option.splits)
qed

lemma all_ready_append: "all_ready c pre (xs @ ys) \<longleftrightarrow> all_ready c pre xs \<and> all_ready c (pre @ xs) ys"
  by (induction xs arbitrary: pre) auto

lemma all_ready_wf: "all_ready c pre es \<Longrightarrow> e \<in> set es \<Longrightarrow> wf_event e"
  by (induction es arbitrary: pre) (auto simp: ready_def)

subsection \<open>The scan implements the rule\<close>

lemma satisfies_holds_op:
  assumes "is_decimal left" "is_decimal (json_text right)"
    and "operator \<in> {JStr ''>='', JStr ''>'', JStr ''<='', JStr ''<''}"
  shows "satisfies operator left right = Inr (holds_op operator (scaled left) (scaled (json_text right)))"
  using assms by (auto simp: satisfies_def compareDecimal_ok lift_dec_def holds_op_def sgn_if)

lemma metricValue_figure:
  assumes "tracks st (pre @ [e])" "wf_event e" "is_trade e" "metric = PNL \<or> metric = RETURN"
    and "metric = RETURN \<Longrightarrow> usable_baseline (baseline_after (pre @ [e]) (the (ev_participant e)))"
  shows "metricValue st (ev_participant e) metric
    = Inr (Some (fromScaled (rule_figure metric (pre @ [e]) (the (ev_participant e)))))"
proof -
  from assms(2,3) obtain p where p: "ev_participant e = Some p" "p \<noteq> []"
    by (auto simp: wf_event_def truthy_text_None truthy_text_Some)
  then have st: "js_get st p = Some \<lparr> ms_baseline = baseline_after (pre @ [e]) p,
      ms_cumRealizedPnlUsd = fromScaled (realized (pre @ [e]) p) \<rparr>"
    using assms(1) by (simp add: tracks_def state_after_def)
  show ?thesis
  proof (cases "metric = PNL")
    case True
    with p st show ?thesis by (simp add: metricValue_def rule_figure_def PNL_def)
  next
    case False
    with assms(4) have ret: "metric = RETURN" by simp
    from assms(5) [OF ret] p have b: "baseline_after (pre @ [e]) p \<noteq> JNull"
        "toScaled (json_text (baseline_after (pre @ [e]) p)) = Inr (scaled (json_text (baseline_after (pre @ [e]) p)))"
        "scaled (json_text (baseline_after (pre @ [e]) p)) \<noteq> 0"
      by (auto simp: usable_baseline_def intro: is_decimalE)
    with False ret p st show ?thesis
      by (simp add: metricValue_def rule_figure_def PNL_def RETURN_def percentOf_def lift_dec_def)
  qed
qed

lemma scanning_first_hit:
  assumes hit: "\<And>st pre e. tracks st (pre @ [e]) \<Longrightarrow> ready c pre e \<Longrightarrow>
      decide st e = Inr (if hit pre e then Some (D e) else None)"
  shows "tracks st pre \<Longrightarrow> all_ready c pre es \<Longrightarrow>
    scanning decide st es = Inr (case first_hit hit pre es of None \<Rightarrow> Undecided | Some e \<Rightarrow> D e)"
proof (induction es arbitrary: st pre)
  case Nil
  then show ?case by simp
next
  case (Cons e es)
  from Cons.prems(2) have rdy: "ready c pre e" and wf: "wf_event e" by (simp_all add: ready_def)
  from scan_event_tracks [OF Cons.prems(1) wf]
  obtain st' where st': "scan_event st e = Inr st'" "tracks st' (pre @ [e])" by blast
  from hit [OF st'(2) rdy] Cons.IH [OF st'(2)] Cons.prems(2) st'(1) show ?case by simp
qed

lemma meets_rule:
  assumes "wf_condition c" "tracks st (pre @ [e])" "ready c pre e" "is_trade e"
  shows "meets st e (rule_metric c) (rule_operator c) (rule_value c)
    = Inr (holds_op (rule_operator c) (rule_figure (rule_metric c) (pre @ [e]) (the (ev_participant e)))
            (scaled (json_text (rule_value c))))"
  using assms metricValue_figure [OF assms(2), of "rule_metric c"]
    satisfies_holds_op [OF is_decimal_fromScaled(1), of "rule_value c" "rule_operator c"]
  by (simp add: meets_def wf_condition_def ready_def)

lemma evaluateWindow_rule:
  assumes "wf_condition c" "all_ready c [] es"
    and "\<And>keys. roster = Some keys \<Longrightarrow> is_threshold c \<Longrightarrow> to_lower (json_text (param_of c ''participant'')) \<in> set keys"
  shows "evaluateWindow c es roster =
    (case first_hit (rule_hit c) [] es of None \<Rightarrow> Undecided | Some e \<Rightarrow> Decided (rule_outcome c e) (ev_seq e))"
proof -
  let ?D = "\<lambda>e. Decided (rule_outcome c e) (ev_seq e)"
  have race: "decide_race (rule_metric c) (rule_operator c) (rule_value c) st e
      = Inr (if rule_hit c pre e then Some (?D e) else None)"
    if "\<not> is_threshold c" "tracks st (pre @ [e])" "ready c pre e" for st pre e
    using that meets_rule [OF assms(1) that(2,3)]
    by (cases "is_trade e") (simp_all add: decide_race_def rule_hit_def rule_outcome_def is_trade_def)
  have threshold: "decide_threshold c st e = Inr (if rule_hit c pre e then Some (?D e) else None)"
    if "is_threshold c" "tracks st (pre @ [e])" "ready c pre e" for st pre e
  proof -
    have "\<not> is_headline c" using that(1) by (simp add: is_threshold_def is_headline_def)
    then show ?thesis
      using that meets_rule [OF assms(1) that(2,3)]
      by (cases "is_trade e")
        (simp_all add: decide_threshold_def rule_hit_def rule_outcome_def is_trade_def
          rule_metric_def rule_operator_def rule_value_def)
  qed
  note run = scanning_first_hit [OF _ tracks_Nil assms(2), where D = ?D and hit = "rule_hit c"]
  consider "is_headline c" | "is_threshold c" | "template_of c = JStr ''first_to_metric''"
    using assms(1) by (auto simp: wf_condition_def)
  then show ?thesis
  proof cases
    case 1
    then have "\<not> is_threshold c" by (simp add: is_threshold_def is_headline_def)
    from run [OF race [OF this]] 1 show ?thesis
      by (simp add: evaluateWindow_def is_headline_def rule_metric_def rule_operator_def rule_value_def PNL_def caught_def)
  next
    case 2
    from run [OF threshold [OF this]] 2 assms(3) show ?thesis
      by (simp add: evaluateWindow_def is_threshold_def caught_def split: option.splits)
  next
    case 3
    then have "\<not> is_threshold c" "\<not> is_headline c" by (simp_all add: is_threshold_def is_headline_def)
    from run [OF race [OF this(1)]] 3 this show ?thesis
      by (simp add: evaluateWindow_def rule_metric_def rule_operator_def rule_value_def caught_def)
  qed
qed

end
