(* ===== verification/Projection.thy ===== *)
theory Projection
  imports Canonical
begin

section \<open>The projection store (indexer/projection.mjs)\<close>

text \<open>
  The read model the chain indexer writes. A row that is upserted is a JavaScript object built by
  spreading partial rows over each other, so it is kept as its own members in insertion order,
  with the values of \<open>json\<close> (\<open>JNum\<close> a number, \<open>JBig\<close> a bigint, \<open>JUndefined\<close> an absent member).
  Rows that are always written whole (holdings, skips, trades, claims, attestations, verdicts,
  safe epochs) are records. The maps are keyed by the texts the code builds.
\<close>

subsection \<open>Rows\<close>

type_synonym row = "(string \<times> json) list"

definition row_get :: "row \<Rightarrow> string \<Rightarrow> json" where
  "row_get r k = (case map_of r k of None \<Rightarrow> JUndefined | Some v \<Rightarrow> v)"

text \<open>\<open>{ ...existing, ...row }\<close>\<close>

definition spread_row :: "row \<Rightarrow> row \<Rightarrow> row" where
  "spread_row existing r = foldl (\<lambda>acc (k, v). js_set k v acc) existing r"

text \<open>\<open>key(address)\<close>: a text is lower-cased, any other value is left alone.\<close>

fun key_cell :: "json \<Rightarrow> json" where
  "key_cell (JStr s) = JStr (to_lower s)"
| "key_cell v = v"

text \<open>A member read into a template text, and an address member read through \<open>key\<close>.\<close>

definition row_text :: "row \<Rightarrow> string \<Rightarrow> string" where
  "row_text r k = json_text (row_get r k)"

definition row_key :: "row \<Rightarrow> string \<Rightarrow> string" where
  "row_key r k = json_text (key_cell (row_get r k))"

text \<open>\<open>a ?? b\<close>\<close>

definition coalesce :: "json \<Rightarrow> json \<Rightarrow> json" where
  "coalesce a b = (if nullish a then b else a)"

text \<open>\<open>Number(value)\<close> of a number or bigint; the rows hold nothing else where it is used.\<close>

fun num_of :: "json \<Rightarrow> int" where
  "num_of (JNum n) = n"
| "num_of (JBig n) = n"
| "num_of _ = 0"

definition colon :: "string \<Rightarrow> string \<Rightarrow> string" where
  "colon a b = a @ '':'' @ b"

record holding =
  hd_market :: string
  hd_account :: string
  hd_a :: int
  hd_b :: int
  hd_lp :: int
  hd_block :: nat

record skip_row =
  sk_room :: string
  sk_market :: string
  sk_epoch :: int
  sk_selector :: string
  sk_reason :: string
  sk_block :: nat

record trade_row =
  tr_market :: string
  tr_account :: string
  tr_outcome_a :: bool
  tr_is_buy :: bool
  tr_amount_in :: int
  tr_amount_out :: int
  tr_block :: nat

record claim_row =
  cl_market :: string
  cl_account :: string
  cl_kind :: string
  cl_amount :: int
  cl_block :: nat

record attestation_row =
  at_market :: string
  at_resolver :: string
  at_outcome :: int
  at_evidence :: string
  at_count :: int
  at_block :: nat

record challenge_verdict_row =
  vd_market :: string
  vd_resolver :: string
  vd_accept :: bool
  vd_count :: int
  vd_block :: nat

record safe_epoch =
  se_market :: string
  se_epoch :: int
  se_sequence :: int
  se_block :: nat

record projection =
  pj_rooms :: "(string, row) js_map"
  pj_slots :: "(string, row) js_map"
  pj_markets :: "(string, row) js_map"
  pj_actions :: "(string, row) js_map"
  pj_holdings :: "(string, holding) js_map"
  pj_skips :: "skip_row list"
  pj_trades :: "trade_row list"
  pj_claims :: "claim_row list"
  pj_attestations :: "attestation_row list"
  pj_verdicts :: "challenge_verdict_row list"
  pj_integrity :: "(string, row) js_map"
  pj_bonds :: "(string, row) js_map"
  pj_safe :: "(string, safe_epoch) js_map"
  pj_cursor :: nat

definition reset_store :: projection where
  "reset_store = \<lparr> pj_rooms = [], pj_slots = [], pj_markets = [], pj_actions = [], pj_holdings = [],
     pj_skips = [], pj_trades = [], pj_claims = [], pj_attestations = [], pj_verdicts = [],
     pj_integrity = [], pj_bonds = [], pj_safe = [], pj_cursor = 0 \<rparr>"

text \<open>\<open>map.set(k, { ...(map.get(k) ?? {}), ...row })\<close>\<close>

definition upsert :: "string \<Rightarrow> row \<Rightarrow> (string, row) js_map \<Rightarrow> (string, row) js_map" where
  "upsert k r m = js_set k (spread_row (case js_get m k of Some existing \<Rightarrow> existing | None \<Rightarrow> []) r) m"

subsection \<open>Rooms, slots, markets\<close>

definition upsertRoom :: "row \<Rightarrow> projection \<Rightarrow> projection" where
  "upsertRoom r p = p\<lparr>pj_rooms := upsert (row_text r ''room_id'') r (pj_rooms p)\<rparr>"

definition getRoom :: "projection \<Rightarrow> string \<Rightarrow> row option" where
  "getRoom p room_id = js_get (pj_rooms p) room_id"

definition listRooms :: "projection \<Rightarrow> string option \<Rightarrow> row list" where
  "listRooms p state = filter (\<lambda>room. case truthy_text state of
     Some s \<Rightarrow> row_get room ''state'' = JStr s | None \<Rightarrow> True) (map snd (pj_rooms p))"

definition upsertSlot :: "row \<Rightarrow> projection \<Rightarrow> projection" where
  "upsertSlot r p =
     p\<lparr>pj_slots := upsert (colon (row_text r ''room_id'') (row_text r ''slot_index'')) r (pj_slots p)\<rparr>"

definition getSlot :: "projection \<Rightarrow> string \<Rightarrow> int \<Rightarrow> row option" where
  "getSlot p room_id slot_index = js_get (pj_slots p) (colon room_id (int_string slot_index))"

definition listSlots :: "projection \<Rightarrow> string \<Rightarrow> row list" where
  "listSlots p room_id = sort_key (\<lambda>s. num_of (row_get s ''slot_index''))
     (filter (\<lambda>s. row_get s ''room_id'' = JStr room_id) (map snd (pj_slots p)))"

definition slotByMarket :: "projection \<Rightarrow> string \<Rightarrow> row option" where
  "slotByMarket p market =
     find (\<lambda>s. key_cell (row_get s ''market_address'') = JStr (to_lower market)) (map snd (pj_slots p))"

definition upsertMarket :: "row \<Rightarrow> projection \<Rightarrow> projection" where
  "upsertMarket r p =
     (let id = row_key r ''market_address'';
          existing = (case js_get (pj_markets p) id of Some e \<Rightarrow> e | None \<Rightarrow> [])
      in p\<lparr>pj_markets := js_set id
            (spread_row (spread_row existing r)
               [(''market_address'', coalesce (row_get existing ''market_address'') (row_get r ''market_address''))])
            (pj_markets p)\<rparr>)"

definition getMarket :: "projection \<Rightarrow> string \<Rightarrow> row option" where
  "getMarket p market = js_get (pj_markets p) (to_lower market)"

subsection \<open>Actions\<close>

definition upsertAction :: "row \<Rightarrow> projection \<Rightarrow> projection" where
  "upsertAction r p =
     p\<lparr>pj_actions := upsert (colon (row_key r ''market_address'') (row_text r ''action_id'')) r (pj_actions p)\<rparr>"

definition listActions :: "projection \<Rightarrow> string option \<Rightarrow> string option \<Rightarrow> int option \<Rightarrow> row list" where
  "listActions p market account status = sort_key (\<lambda>a. num_of (row_get a ''action_id''))
     (filter (\<lambda>a. case status of None \<Rightarrow> True | Some s \<Rightarrow> row_get a ''status'' = JNum s)
       (filter (\<lambda>a. case truthy_text account of None \<Rightarrow> True
           | Some x \<Rightarrow> key_cell (row_get a ''account'') = JStr (to_lower x))
         (filter (\<lambda>a. case truthy_text market of None \<Rightarrow> True
             | Some m \<Rightarrow> key_cell (row_get a ''market_address'') = JStr (to_lower m))
           (map snd (pj_actions p)))))"

definition listAccountActions :: "projection \<Rightarrow> string \<Rightarrow> row list" where
  "listAccountActions p account = sort_key (\<lambda>a. num_of (row_get a ''submitted_block''))
     (filter (\<lambda>a. key_cell (row_get a ''account'') = JStr (to_lower account)) (map snd (pj_actions p)))"

subsection \<open>Holdings\<close>

definition holding_key :: "string \<Rightarrow> string \<Rightarrow> string" where
  "holding_key market account = colon (to_lower market) (to_lower account)"

definition empty_holding :: "string \<Rightarrow> string \<Rightarrow> nat \<Rightarrow> holding" where
  "empty_holding market account block =
     \<lparr> hd_market = market, hd_account = account, hd_a = 0, hd_b = 0, hd_lp = 0, hd_block = block \<rparr>"

text \<open>A delta names the amounts it changes; an absent one is \<open>0n\<close>.\<close>

record delta =
  dl_a :: int
  dl_b :: int
  dl_lp :: int

definition adjustHolding :: "string \<Rightarrow> string \<Rightarrow> delta \<Rightarrow> nat \<Rightarrow> projection \<Rightarrow> projection" where
  "adjustHolding market account d block p =
     (let id = holding_key market account;
          h = (case js_get (pj_holdings p) id of Some h \<Rightarrow> h | None \<Rightarrow> empty_holding market account block)
      in p\<lparr>pj_holdings := js_set id (h\<lparr>hd_a := hd_a h + dl_a d, hd_b := hd_b h + dl_b d,
            hd_lp := hd_lp h + dl_lp d, hd_block := block\<rparr>) (pj_holdings p)\<rparr>)"

definition getHolding :: "projection \<Rightarrow> string \<Rightarrow> string \<Rightarrow> holding" where
  "getHolding p market account =
     (case js_get (pj_holdings p) (holding_key market account) of Some h \<Rightarrow> h
      | None \<Rightarrow> empty_holding market account (pj_cursor p))"

definition listAccountHoldings :: "projection \<Rightarrow> string \<Rightarrow> holding list" where
  "listAccountHoldings p account =
     filter (\<lambda>h. to_lower (hd_account h) = to_lower account \<and> (0 < hd_a h \<or> 0 < hd_b h \<or> 0 < hd_lp h))
       (map snd (pj_holdings p))"

subsection \<open>The append-only tables\<close>

definition appendSkip :: "skip_row \<Rightarrow> projection \<Rightarrow> projection" where
  "appendSkip r p = p\<lparr>pj_skips := pj_skips p @ [r]\<rparr>"

definition of_market :: "string option \<Rightarrow> string \<Rightarrow> bool" where
  "of_market market m = (case truthy_text market of None \<Rightarrow> True | Some x \<Rightarrow> to_lower m = to_lower x)"

definition listSkips :: "projection \<Rightarrow> string option \<Rightarrow> skip_row list" where
  "listSkips p market = filter (\<lambda>r. of_market market (sk_market r)) (pj_skips p)"

definition appendTrade :: "trade_row \<Rightarrow> projection \<Rightarrow> projection" where
  "appendTrade r p = p\<lparr>pj_trades := pj_trades p @ [r]\<rparr>"

definition listTrades :: "projection \<Rightarrow> string option \<Rightarrow> nat \<Rightarrow> trade_row list" where
  "listTrades p market sinceBlock =
     filter (\<lambda>r. of_market market (tr_market r) \<and> sinceBlock < tr_block r) (pj_trades p)"

definition appendClaim :: "claim_row \<Rightarrow> projection \<Rightarrow> projection" where
  "appendClaim r p = p\<lparr>pj_claims := pj_claims p @ [r]\<rparr>"

definition listClaims :: "projection \<Rightarrow> string option \<Rightarrow> claim_row list" where
  "listClaims p account = filter (\<lambda>r. of_market account (cl_account r)) (pj_claims p)"

definition appendAttestation :: "attestation_row \<Rightarrow> projection \<Rightarrow> projection" where
  "appendAttestation r p = p\<lparr>pj_attestations := pj_attestations p @ [r]\<rparr>"

definition listAttestations :: "projection \<Rightarrow> string \<Rightarrow> attestation_row list" where
  "listAttestations p market = filter (\<lambda>r. to_lower (at_market r) = to_lower market) (pj_attestations p)"

definition appendChallengeVerdict :: "challenge_verdict_row \<Rightarrow> projection \<Rightarrow> projection" where
  "appendChallengeVerdict r p = p\<lparr>pj_verdicts := pj_verdicts p @ [r]\<rparr>"

definition listChallengeVerdicts :: "projection \<Rightarrow> string \<Rightarrow> challenge_verdict_row list" where
  "listChallengeVerdicts p market = filter (\<lambda>r. to_lower (vd_market r) = to_lower market) (pj_verdicts p)"

subsection \<open>Integrity claims, bonds, safe epochs\<close>

definition upsertIntegrityClaim :: "row \<Rightarrow> projection \<Rightarrow> projection" where
  "upsertIntegrityClaim r p =
     p\<lparr>pj_integrity := upsert (colon (row_text r ''room_id'') (row_text r ''claim_id'')) r (pj_integrity p)\<rparr>"

definition listIntegrityClaims :: "projection \<Rightarrow> string \<Rightarrow> row list" where
  "listIntegrityClaims p room_id = filter (\<lambda>r. row_get r ''room_id'' = JStr room_id) (map snd (pj_integrity p))"

definition upsertBond :: "row \<Rightarrow> projection \<Rightarrow> projection" where
  "upsertBond r p =
     p\<lparr>pj_bonds := upsert (colon (row_text r ''room_id'') (row_text r ''participant'')) r (pj_bonds p)\<rparr>"

definition listBonds :: "projection \<Rightarrow> string \<Rightarrow> row list" where
  "listBonds p room_id = filter (\<lambda>r. row_get r ''room_id'' = JStr room_id) (map snd (pj_bonds p))"

definition epoch_key :: "string \<Rightarrow> int \<Rightarrow> string" where
  "epoch_key market epoch = colon (to_lower market) (int_string epoch)"

definition recordSafeEpoch :: "string \<Rightarrow> int \<Rightarrow> int \<Rightarrow> nat \<Rightarrow> projection \<Rightarrow> projection" where
  "recordSafeEpoch market epoch sourceSequence block p = p\<lparr>pj_safe := js_set (epoch_key market epoch)
     \<lparr> se_market = market, se_epoch = epoch, se_sequence = sourceSequence, se_block = block \<rparr> (pj_safe p)\<rparr>"

definition isEpochSafe_indexed :: "projection \<Rightarrow> string \<Rightarrow> int \<Rightarrow> bool" where
  "isEpochSafe_indexed p market epoch = js_has (pj_safe p) (epoch_key market epoch)"

subsection \<open>Pending pressure and staleness\<close>

record pressure =
  pp_count :: nat
  pp_buyA :: int
  pp_buyB :: int
  pp_liquidity :: int

definition add_pressure :: "pressure \<Rightarrow> row \<Rightarrow> pressure" where
  "add_pressure acc a =
     (let amount = num_of (row_get a ''amount'') in
      if row_get a ''kind'' = JNum 0 then
        (if \<not> falsy (row_get a ''outcome_a'') then acc\<lparr>pp_buyA := pp_buyA acc + amount\<rparr>
         else acc\<lparr>pp_buyB := pp_buyB acc + amount\<rparr>)
      else if row_get a ''kind'' = JNum 2 then acc\<lparr>pp_liquidity := pp_liquidity acc + amount\<rparr>
      else acc)"

definition pendingPressure :: "projection \<Rightarrow> string \<Rightarrow> pressure" where
  "pendingPressure p market =
     (let pending = listActions p (Some market) None (Some 0) in
      foldl add_pressure \<lparr> pp_count = length pending, pp_buyA = 0, pp_buyB = 0, pp_liquidity = 0 \<rparr> pending)"

definition staleness :: "projection \<Rightarrow> int \<Rightarrow> int \<Rightarrow> int \<times> bool" where
  "staleness p headBlock threshold =
     (let lag = headBlock - int (pj_cursor p) in (lag, threshold < lag))"

end
