(* ===== verification/Indexer.thy ===== *)
theory Indexer
  imports Projection
begin

section \<open>The chain indexer's handlers (indexer/indexer.mjs)\<close>

text \<open>
  What one decoded chain log does to the projections. A log is a record of where it was emitted
  and its event, whose arguments have the types the contracts declare; a numeric argument of up
  to 48 bits is a JavaScript number, a wider one a bigint. A handler that throws leaves the
  indexer as it was, because each looks its room up before it writes.
\<close>

subsection \<open>Room identifiers\<close>

definition hex_digit :: "char \<Rightarrow> nat option" where
  "hex_digit c = (let n = (of_char c :: nat) in
     if 48 \<le> n \<and> n \<le> 57 then Some (n - 48)
     else if 97 \<le> n \<and> n \<le> 102 then Some (n - 87)
     else if 65 \<le> n \<and> n \<le> 70 then Some (n - 55)
     else None)"

text \<open>\<open>Buffer.from(text, "hex")\<close>: whole bytes, up to the first pair that is not hexadecimal.\<close>

fun hex_bytes :: "string \<Rightarrow> nat list" where
  "hex_bytes (a # b # rest) =
     (case (hex_digit a, hex_digit b) of (Some x, Some y) \<Rightarrow> (16 * x + y) # hex_bytes rest | _ \<Rightarrow> [])"
| "hex_bytes _ = []"

definition printable :: "nat \<Rightarrow> bool" where
  "printable n \<longleftrightarrow> 32 \<le> n \<and> n \<le> 126"

definition decodeRoomId :: "string \<Rightarrow> string" where
  "decodeRoomId value =
     (if take 2 value \<noteq> ''0x'' then value
      else (let bytes = hex_bytes (drop 2 value);
                body = takeWhile (\<lambda>n. n \<noteq> 0) bytes;
                padding = dropWhile (\<lambda>n. n \<noteq> 0) bytes
            in if body = [] then value
               else if list_ex (\<lambda>n. n \<noteq> 0) padding then value
               else if list_all printable body then map char_of body else value))"

subsection \<open>Logs\<close>

text \<open>
  The events the contracts declare, each with the arguments the handlers read, in the order of
  their handlers. A log whose name has no handler is an \<open>UnhandledEvent\<close>.
\<close>

datatype chain_event =
    RoomCreated string string string string
      \<comment> \<open>roomId, room, publisher, gateSigner\<close>
  | MarketCreated string string int string string string string
      \<comment> \<open>market, roomId, slotIndex, templateId, conditionHash, question, streamUrl\<close>
  | SlotPublished string int string string string int int int
      \<comment> \<open>market, slotIndex, templateId, requestHash, conditionHash, nonce, undecidedThroughSequence, opensAt\<close>
  | RoomEpochsMarkedSafe int
  | RoomSuspended int
  | RoomReopened int
  | SlotsClosed int
  | RoomClosed int
  | RoomClosedByGateStall int
  | SlotCallSkipped string int string string
  | IntegrityBondPosted string int
  | IntegrityBondClaimed string int
  | IntegrityBondForfeited string int int
  | IntegrityClaimFiled int string string string
  | IntegrityClaimAdjudicated int bool
  | IntegrityClaimExpired int
  | ActionSubmitted int int int string int
  | ActionExecuted int int
  | ActionRefunded int int
  | EpochMarkedSafe int int
  | GateSuspended
  | GateReopened
  | ForecastingClosed int
  | Trade string bool bool int int
  | LiquidityAdded string int "int option" "int option"
  | PositionTransferred string string bool int
  | PositionsRedeemed string int int int
  | LpInventorySettled string int int
  | LpFeesClaimed string int
  | WinnerRewardClaimed string int
  | InvalidWinnerFeeRefunded string int
  | ResultAttested string int string int
  | ProvisionalResultRegistered int string int
  | ResultChallenged string string
  | ChallengeVerdictAttested string bool int
  | ResultFinalized int
  | UnhandledEvent string

record log =
  lg_block :: nat
  lg_index :: nat
  lg_address :: string
  lg_event :: chain_event

definition log_id :: "log \<Rightarrow> string" where
  "log_id l = colon (dec_string (lg_block l)) (colon (dec_string (lg_index l)) (to_lower (lg_address l)))"

subsection \<open>The indexer's state\<close>

record pending_clear =
  pc_submitted :: nat
  pc_executed :: "nat option"

record indexer =
  ix_store :: projection
  ix_cursor :: nat
  ix_touched :: "string list"
  ix_applied :: "string list"
  ix_hashes :: "(nat, string) js_map"
  ix_samples :: "int list"
  ix_pending :: "(string, pending_clear) js_map"

definition new_indexer :: indexer where
  "new_indexer = \<lparr> ix_store = reset_store, ix_cursor = 0, ix_touched = [], ix_applied = [],
     ix_hashes = [], ix_samples = [], ix_pending = [] \<rparr>"

datatype sync_error = UnknownRoom string | PortError string

text \<open>\<open>set.add(x)\<close>: a set keeps its members in insertion order.\<close>

definition set_add :: "'a \<Rightarrow> 'a list \<Rightarrow> 'a list" where
  "set_add x xs = (if x \<in> set xs then xs else xs @ [x])"

definition touch :: "string \<Rightarrow> indexer \<Rightarrow> indexer" where
  "touch market st = st\<lparr>ix_touched := set_add (to_lower market) (ix_touched st)\<rparr>"

definition on_store :: "(projection \<Rightarrow> projection) \<Rightarrow> indexer \<Rightarrow> indexer" where
  "on_store f st = st\<lparr>ix_store := f (ix_store st)\<rparr>"

definition num :: "nat \<Rightarrow> json" where
  "num n = JNum (int n)"

definition roomByAddress :: "projection \<Rightarrow> string \<Rightarrow> sync_error + row" where
  "roomByAddress p address =
     (case find (\<lambda>entry. to_lower (row_text entry ''live_room_address'') = to_lower address) (map snd (pj_rooms p)) of
        None \<Rightarrow> Inl (UnknownRoom address)
      | Some r \<Rightarrow> Inr r)"

definition roomById :: "projection \<Rightarrow> string \<Rightarrow> row option" where
  "roomById p room_id = find (\<lambda>entry. row_get entry ''room_id'' = JStr room_id) (map snd (pj_rooms p))"

definition with_room :: "log \<Rightarrow> (json \<Rightarrow> indexer \<Rightarrow> indexer) \<Rightarrow> indexer \<Rightarrow> sync_error + indexer" where
  "with_room l f st = map_sum id (\<lambda>r. f (row_get r ''room_id'') st) (roomByAddress (ix_store st) (lg_address l))"

subsection \<open>Factory events\<close>

definition onRoomCreated :: "log \<Rightarrow> string \<Rightarrow> string \<Rightarrow> string \<Rightarrow> string \<Rightarrow> indexer \<Rightarrow> indexer" where
  "onRoomCreated l roomId room publisher gateSigner = on_store (upsertRoom
     [(''room_id'', JStr (decodeRoomId roomId)), (''room_id_bytes32'', JStr roomId),
      (''live_room_address'', JStr room), (''factory_address'', JStr (lg_address l)),
      (''state'', JStr ''armed''), (''gate_signer'', JStr gateSigner), (''publisher'', JStr publisher),
      (''last_observed_seq'', JBig 0), (''closed_source_seq'', JNull), (''room_seq'', JNum 0),
      (''block_number'', num (lg_block l))])"

definition onMarketCreated ::
  "log \<Rightarrow> string \<Rightarrow> string \<Rightarrow> int \<Rightarrow> string \<Rightarrow> string \<Rightarrow> string \<Rightarrow> string \<Rightarrow> indexer \<Rightarrow> indexer" where
  "onMarketCreated l market rawRoomId slotIndex templateId conditionHash question streamUrl st =
     (let roomId = decodeRoomId rawRoomId;
          roomIdCell = (case roomById (ix_store st) roomId of Some r \<Rightarrow> row_get r ''room_id'' | None \<Rightarrow> JStr roomId)
      in touch market (on_store (upsertMarket
           [(''market_address'', JStr market), (''room_id'', roomIdCell), (''slot_index'', JNum slotIndex),
            (''template_id'', JStr templateId), (''condition_hash'', JStr conditionHash),
            (''question'', JStr question), (''stream_url'', JStr streamUrl), (''final_outcome'', JNum 0),
            (''block_number'', num (lg_block l))]) st))"

subsection \<open>Room events\<close>

type_synonym slot_meta = "(string, row) js_map"

definition row_of :: "row option \<Rightarrow> row" where
  "row_of x = (case x of Some r \<Rightarrow> r | None \<Rightarrow> [])"

definition slot_published_row ::
  "log \<Rightarrow> json \<Rightarrow> row \<Rightarrow> row \<Rightarrow> string \<Rightarrow> int \<Rightarrow> string \<Rightarrow> string \<Rightarrow> string \<Rightarrow> int \<Rightarrow> int \<Rightarrow> int \<Rightarrow> row" where
  "slot_published_row l roomId info existingMarket market slotIndex templateId requestHash conditionHash nonce through opensAt =
     [(''room_id'', roomId), (''slot_index'', JNum slotIndex), (''state'', JStr ''announced''),
      (''shape'', coalesce (row_get info ''shape'') JNull),
      (''question'', coalesce (row_get info ''question'') (coalesce (row_get existingMarket ''question'') (JStr []))),
      (''template_id'', JStr templateId), (''params'', coalesce (row_get info ''params'') (JObj [])),
      (''opening_condition'', coalesce (row_get info ''openingCondition'') (JObj [])),
      (''closing_condition'', coalesce (row_get info ''closingCondition'') (JObj [])),
      (''condition_hash'', JStr conditionHash), (''request_hash'', JStr requestHash), (''permit_nonce'', JBig nonce),
      (''winner_reward_bps'',
         coalesce (row_get info ''winnerRewardBps'') (coalesce (row_get existingMarket ''winner_reward_bps'') JNull)),
      (''market_address'', JStr market), (''published_seq'', JBig through), (''opens_at'', JBig opensAt),
      (''block_number'', num (lg_block l))]"

definition onSlotPublished ::
  "slot_meta \<Rightarrow> log \<Rightarrow> string \<Rightarrow> int \<Rightarrow> string \<Rightarrow> string \<Rightarrow> string \<Rightarrow> int \<Rightarrow> int \<Rightarrow> int \<Rightarrow> indexer \<Rightarrow> sync_error + indexer" where
  "onSlotPublished slotMeta l market slotIndex templateId requestHash conditionHash nonce through opensAt =
     with_room l (\<lambda>roomId st.
       (let info = row_of (js_get slotMeta market);
            existingMarket = row_of (getMarket (ix_store st) market)
        in touch market
          (on_store (upsertMarket [(''market_address'', JStr market), (''room_id'', roomId), (''slot_index'', JNum slotIndex),
             (''block_number'', num (lg_block l))])
          (on_store (upsertRoom [(''room_id'', roomId), (''state'', JStr ''live''), (''last_observed_seq'', JBig through),
             (''block_number'', num (lg_block l))])
          (on_store (upsertSlot (slot_published_row l roomId info existingMarket market slotIndex templateId requestHash
             conditionHash nonce through opensAt)) st)))))"

definition onRoomSequence :: "log \<Rightarrow> int \<Rightarrow> indexer \<Rightarrow> sync_error + indexer" where
  "onRoomSequence l sequence = with_room l (\<lambda>roomId. on_store (upsertRoom
     [(''room_id'', roomId), (''last_observed_seq'', JBig sequence), (''block_number'', num (lg_block l))]))"

definition onRoomClosed :: "log \<Rightarrow> int \<Rightarrow> indexer \<Rightarrow> sync_error + indexer" where
  "onRoomClosed l decisive = with_room l (\<lambda>roomId. on_store (upsertRoom
     [(''room_id'', roomId), (''state'', JStr ''closing''), (''closed_source_seq'', JBig decisive),
      (''last_observed_seq'', JBig decisive), (''block_number'', num (lg_block l))]))"

definition onRoomClosedByGateStall :: "log \<Rightarrow> int \<Rightarrow> indexer \<Rightarrow> sync_error + indexer" where
  "onRoomClosedByGateStall l stalledSince = with_room l (\<lambda>roomId. on_store (upsertRoom
     [(''room_id'', roomId), (''state'', JStr ''closing''), (''closed_by_stall'', JBool True),
      (''stalled_since'', JBig stalledSince), (''block_number'', num (lg_block l))]))"

definition onSlotCallSkipped :: "log \<Rightarrow> string \<Rightarrow> int \<Rightarrow> string \<Rightarrow> string \<Rightarrow> indexer \<Rightarrow> sync_error + indexer" where
  "onSlotCallSkipped l market epoch selector reason = with_room l (\<lambda>roomId. on_store (appendSkip
     \<lparr> sk_room = json_text roomId, sk_market = market, sk_epoch = epoch, sk_selector = selector,
       sk_reason = reason, sk_block = lg_block l \<rparr>))"

definition bond :: "log \<Rightarrow> string \<Rightarrow> row \<Rightarrow> indexer \<Rightarrow> sync_error + indexer" where
  "bond l participant members = with_room l (\<lambda>roomId. on_store (upsertBond
     ([(''room_id'', roomId), (''participant'', JStr participant)] @ members @ [(''block_number'', num (lg_block l))])))"

definition integrityClaim :: "log \<Rightarrow> int \<Rightarrow> row \<Rightarrow> indexer \<Rightarrow> sync_error + indexer" where
  "integrityClaim l claimId members = with_room l (\<lambda>roomId. on_store (upsertIntegrityClaim
     ([(''room_id'', roomId), (''claim_id'', JNum claimId)] @ members @ [(''block_number'', num (lg_block l))])))"

definition onIntegrityClaimFiled :: "log \<Rightarrow> int \<Rightarrow> string \<Rightarrow> string \<Rightarrow> string \<Rightarrow> indexer \<Rightarrow> sync_error + indexer" where
  "onIntegrityClaimFiled l claimId claimant participant violationCode = integrityClaim l claimId
     [(''claimant'', JStr claimant), (''participant'', JStr participant), (''violation_code'', JStr violationCode),
      (''status'', JStr ''open'')]"

definition onIntegrityClaimAdjudicated :: "log \<Rightarrow> int \<Rightarrow> bool \<Rightarrow> indexer \<Rightarrow> sync_error + indexer" where
  "onIntegrityClaimAdjudicated l claimId upheld = integrityClaim l claimId
     [(''status'', JStr (if upheld then ''upheld'' else ''rejected''))]"

definition onIntegrityClaimExpired :: "log \<Rightarrow> int \<Rightarrow> indexer \<Rightarrow> sync_error + indexer" where
  "onIntegrityClaimExpired l claimId = integrityClaim l claimId [(''status'', JStr ''expired'')]"

subsection \<open>Market events: the action book\<close>

definition onActionSubmitted :: "log \<Rightarrow> int \<Rightarrow> int \<Rightarrow> int \<Rightarrow> string \<Rightarrow> int \<Rightarrow> indexer \<Rightarrow> indexer" where
  "onActionSubmitted l actionId epoch kind user amount st =
     touch (lg_address l) (on_store (upsertAction
       [(''market_address'', JStr (lg_address l)), (''action_id'', JNum actionId), (''epoch'', JNum epoch),
        (''kind'', JNum kind), (''status'', JNum 0), (''account'', JStr user), (''outcome_a'', JNull),
        (''amount'', JBig amount), (''return_amount'', JNull), (''submitted_block'', num (lg_block l)),
        (''settled_block'', JNull)])
       (st\<lparr>ix_pending := js_set (colon (to_lower (lg_address l)) (int_string actionId))
          \<lparr> pc_submitted = lg_block l, pc_executed = None \<rparr> (ix_pending st)\<rparr>))"

definition onActionExecuted :: "log \<Rightarrow> int \<Rightarrow> int \<Rightarrow> indexer \<Rightarrow> indexer" where
  "onActionExecuted l actionId returnAmount st =
     (let key = colon (to_lower (lg_address l)) (int_string actionId);
          pendings = (case js_get (ix_pending st) key of None \<Rightarrow> ix_pending st
            | Some pc \<Rightarrow> js_set key (pc\<lparr>pc_executed := Some (lg_block l)\<rparr>) (ix_pending st))
      in touch (lg_address l) (on_store (upsertAction
           [(''market_address'', JStr (lg_address l)), (''action_id'', JNum actionId), (''status'', JNum 1),
            (''return_amount'', JBig returnAmount), (''settled_block'', num (lg_block l))])
           (st\<lparr>ix_pending := pendings\<rparr>)))"

definition onActionRefunded :: "log \<Rightarrow> int \<Rightarrow> int \<Rightarrow> indexer \<Rightarrow> indexer" where
  "onActionRefunded l actionId amount st = touch (lg_address l) (on_store (upsertAction
     [(''market_address'', JStr (lg_address l)), (''action_id'', JNum actionId), (''status'', JNum 2),
      (''refunded_amount'', JBig amount), (''settled_block'', num (lg_block l))]) st)"

definition onEpochMarkedSafe :: "log \<Rightarrow> int \<Rightarrow> int \<Rightarrow> indexer \<Rightarrow> indexer" where
  "onEpochMarkedSafe l epoch sourceSequence st =
     touch (lg_address l) (on_store (recordSafeEpoch (lg_address l) epoch sourceSequence (lg_block l)) st)"

subsection \<open>Market events: positions and payouts\<close>

definition no_delta :: delta where
  "no_delta = \<lparr> dl_a = 0, dl_b = 0, dl_lp = 0 \<rparr>"

text \<open>\<open>{ position_a: n }\<close> or \<open>{ position_b: n }\<close>\<close>

definition side_delta :: "bool \<Rightarrow> int \<Rightarrow> delta" where
  "side_delta outcomeA n = (if outcomeA then no_delta\<lparr>dl_a := n\<rparr> else no_delta\<lparr>dl_b := n\<rparr>)"

definition adjust :: "log \<Rightarrow> string \<Rightarrow> delta \<Rightarrow> indexer \<Rightarrow> indexer" where
  "adjust l account d = on_store (adjustHolding (lg_address l) account d (lg_block l))"

definition onTrade :: "log \<Rightarrow> string \<Rightarrow> bool \<Rightarrow> bool \<Rightarrow> int \<Rightarrow> int \<Rightarrow> indexer \<Rightarrow> indexer" where
  "onTrade l user outcomeA isBuy amountIn amountOut st =
     touch (lg_address l)
      (on_store (appendTrade \<lparr> tr_market = lg_address l, tr_account = user, tr_outcome_a = outcomeA, tr_is_buy = isBuy,
           tr_amount_in = amountIn, tr_amount_out = amountOut, tr_block = lg_block l \<rparr>)
        (adjust l user (side_delta outcomeA (if isBuy then amountOut else - amountIn)) st))"

definition onLiquidityAdded :: "log \<Rightarrow> string \<Rightarrow> int \<Rightarrow> int option \<Rightarrow> int option \<Rightarrow> indexer \<Rightarrow> indexer" where
  "onLiquidityAdded l provider sharesMinted adjustmentA adjustmentB st =
     touch (lg_address l) (adjust l provider
       \<lparr> dl_a = (case adjustmentA of Some n \<Rightarrow> n | None \<Rightarrow> 0), dl_b = (case adjustmentB of Some n \<Rightarrow> n | None \<Rightarrow> 0),
         dl_lp = sharesMinted \<rparr> st)"

definition onPositionTransferred :: "log \<Rightarrow> string \<Rightarrow> string \<Rightarrow> bool \<Rightarrow> int \<Rightarrow> indexer \<Rightarrow> indexer" where
  "onPositionTransferred l sender recipient outcomeA amount st =
     touch (lg_address l)
      (adjust l recipient (side_delta outcomeA amount) (adjust l sender (side_delta outcomeA (- amount)) st))"

definition claimed :: "log \<Rightarrow> string \<Rightarrow> string \<Rightarrow> int \<Rightarrow> indexer \<Rightarrow> indexer" where
  "claimed l account kind amount = on_store (appendClaim
     \<lparr> cl_market = lg_address l, cl_account = account, cl_kind = kind, cl_amount = amount, cl_block = lg_block l \<rparr>)"

definition onPositionsRedeemed :: "log \<Rightarrow> string \<Rightarrow> int \<Rightarrow> int \<Rightarrow> int \<Rightarrow> indexer \<Rightarrow> indexer" where
  "onPositionsRedeemed l user amountA amountB payout st =
     touch (lg_address l) (claimed l user ''redeem'' payout
       (adjust l user (no_delta\<lparr>dl_a := - amountA, dl_b := - amountB\<rparr>) st))"

definition onLpInventorySettled :: "log \<Rightarrow> string \<Rightarrow> int \<Rightarrow> int \<Rightarrow> indexer \<Rightarrow> indexer" where
  "onLpInventorySettled l provider shares payout st =
     touch (lg_address l) (claimed l provider ''lp_inventory'' payout
       (adjust l provider (no_delta\<lparr>dl_lp := - shares\<rparr>) st))"

definition onLpFeesClaimed :: "log \<Rightarrow> string \<Rightarrow> int \<Rightarrow> indexer \<Rightarrow> indexer" where
  "onLpFeesClaimed l provider amount st = touch (lg_address l) (claimed l provider ''lp_fees'' amount st)"

definition onWinnerRewardClaimed :: "log \<Rightarrow> string \<Rightarrow> int \<Rightarrow> indexer \<Rightarrow> indexer" where
  "onWinnerRewardClaimed l recipient amount st =
     touch (lg_address l) (claimed l recipient ''winner_reward'' amount st)"

definition onInvalidWinnerFeeRefunded :: "log \<Rightarrow> string \<Rightarrow> int \<Rightarrow> indexer \<Rightarrow> indexer" where
  "onInvalidWinnerFeeRefunded l forecaster amount st =
     touch (lg_address l) (claimed l forecaster ''winner_fee_refund'' amount st)"

subsection \<open>Market events: closing and resolution\<close>

text \<open>The row a slot's state change writes, when the market has a slot.\<close>

definition slot_state :: "row \<Rightarrow> string \<Rightarrow> row \<Rightarrow> nat \<Rightarrow> row" where
  "slot_state slot state extra block =
     [(''room_id'', row_get slot ''room_id''), (''slot_index'', row_get slot ''slot_index''), (''state'', JStr state)]
     @ extra @ [(''block_number'', num block)]"

definition set_slot :: "log \<Rightarrow> string \<Rightarrow> row \<Rightarrow> indexer \<Rightarrow> indexer" where
  "set_slot l state extra st =
     (case slotByMarket (ix_store st) (lg_address l) of
        None \<Rightarrow> st
      | Some slot \<Rightarrow> on_store (upsertSlot (slot_state slot state extra (lg_block l))) st)"

definition onForecastingClosed :: "log \<Rightarrow> int \<Rightarrow> indexer \<Rightarrow> indexer" where
  "onForecastingClosed l decisive st =
     touch (lg_address l) (set_slot l ''closed'' [(''closed_seq'', JBig decisive)] st)"

definition onResultAttested :: "log \<Rightarrow> string \<Rightarrow> int \<Rightarrow> string \<Rightarrow> int \<Rightarrow> indexer \<Rightarrow> indexer" where
  "onResultAttested l resolver outcome evidenceHash n = on_store (appendAttestation
     \<lparr> at_market = lg_address l, at_resolver = resolver, at_outcome = outcome, at_evidence = evidenceHash,
       at_count = n, at_block = lg_block l \<rparr>)"

definition onProvisionalResultRegistered :: "log \<Rightarrow> int \<Rightarrow> string \<Rightarrow> int \<Rightarrow> indexer \<Rightarrow> indexer" where
  "onProvisionalResultRegistered l outcome evidenceHash challengeEndsAt st =
     touch (lg_address l) (on_store (upsertMarket
       [(''market_address'', JStr (lg_address l)), (''provisional_outcome'', JNum outcome),
        (''provisional_evidence_hash'', JStr evidenceHash), (''challenge_ends_at'', JBig challengeEndsAt),
        (''block_number'', num (lg_block l))])
       (set_slot l ''provisional'' [] st))"

definition onResultChallenged :: "log \<Rightarrow> string \<Rightarrow> string \<Rightarrow> indexer \<Rightarrow> indexer" where
  "onResultChallenged l challenger evidenceHash st =
     touch (lg_address l) (on_store (upsertMarket
       [(''market_address'', JStr (lg_address l)), (''challenger'', JStr challenger),
        (''challenge_evidence_hash'', JStr evidenceHash), (''block_number'', num (lg_block l))])
       (set_slot l ''challenged'' [] st))"

definition onChallengeVerdictAttested :: "log \<Rightarrow> string \<Rightarrow> bool \<Rightarrow> int \<Rightarrow> indexer \<Rightarrow> indexer" where
  "onChallengeVerdictAttested l resolver acceptChallenge n st =
     touch (lg_address l) (on_store (appendChallengeVerdict
       \<lparr> vd_market = lg_address l, vd_resolver = resolver, vd_accept = acceptChallenge, vd_count = n,
         vd_block = lg_block l \<rparr>) st)"

definition slot_terminal :: "row \<Rightarrow> bool" where
  "slot_terminal slot \<longleftrightarrow> row_get slot ''state'' = JStr ''final'' \<or> row_get slot ''state'' = JStr ''invalid''"

definition slot_resolving :: "row \<Rightarrow> bool" where
  "slot_resolving slot \<longleftrightarrow> row_get slot ''state'' = JStr ''provisional'' \<or> row_get slot ''state'' = JStr ''challenged''"

definition settle_room_state :: "json \<Rightarrow> string \<Rightarrow> nat \<Rightarrow> indexer \<Rightarrow> indexer" where
  "settle_room_state roomId state block = on_store (upsertRoom
     [(''room_id'', roomId), (''state'', JStr state), (''block_number'', num block)])"

definition maybeSettleRoom :: "json \<Rightarrow> nat \<Rightarrow> indexer \<Rightarrow> indexer" where
  "maybeSettleRoom roomId block st =
     (case getRoom (ix_store st) (json_text roomId) of
        None \<Rightarrow> st
      | Some room \<Rightarrow>
          if nullish (row_get room ''closed_source_seq'') then st
          else (let slots = listSlots (ix_store st) (json_text roomId) in
            if \<not> (slots \<noteq> [] \<and> list_all slot_terminal slots) then settle_room_state roomId ''settling'' block st
            else settle_room_state roomId
              (if list_ex (\<lambda>s. row_get s ''state'' = JStr ''final'') slots then ''final'' else ''invalid'') block st))"

definition onResultFinalized :: "log \<Rightarrow> int \<Rightarrow> indexer \<Rightarrow> indexer" where
  "onResultFinalized l outcome st =
     (let st1 = on_store (upsertMarket
            [(''market_address'', JStr (lg_address l)), (''final_outcome'', JNum outcome),
             (''finalized_block_number'', num (lg_block l)), (''block_number'', num (lg_block l))]) st;
          st2 = (case slotByMarket (ix_store st1) (lg_address l) of
            None \<Rightarrow> st1
          | Some slot \<Rightarrow> maybeSettleRoom (row_get slot ''room_id'') (lg_block l)
              (on_store (upsertSlot (slot_state slot (if outcome = 4 then ''invalid'' else ''final'') [] (lg_block l))) st1))
      in touch (lg_address l) st2)"

subsection \<open>Dispatch\<close>

fun apply_event :: "slot_meta \<Rightarrow> log \<Rightarrow> chain_event \<Rightarrow> indexer \<Rightarrow> sync_error + indexer" where
  "apply_event meta l (RoomCreated r a p g) st = Inr (onRoomCreated l r a p g st)"
| "apply_event meta l (MarketCreated m r i t c q u) st = Inr (onMarketCreated l m r i t c q u st)"
| "apply_event meta l (SlotPublished m i t r c n u x) st = onSlotPublished meta l m i t r c n u x st"
| "apply_event meta l (RoomEpochsMarkedSafe s) st = onRoomSequence l s st"
| "apply_event meta l (RoomSuspended s) st = onRoomSequence l s st"
| "apply_event meta l (RoomReopened s) st = onRoomSequence l s st"
| "apply_event meta l (SlotsClosed s) st = onRoomSequence l s st"
| "apply_event meta l (RoomClosed s) st = onRoomClosed l s st"
| "apply_event meta l (RoomClosedByGateStall s) st = onRoomClosedByGateStall l s st"
| "apply_event meta l (SlotCallSkipped m e s r) st = onSlotCallSkipped l m e s r st"
| "apply_event meta l (IntegrityBondPosted p n) st = bond l p [(''posted'', JBig n)] st"
| "apply_event meta l (IntegrityBondClaimed p n) st = bond l p [(''claimed'', JBig n)] st"
| "apply_event meta l (IntegrityBondForfeited p n c) st = bond l p [(''forfeited'', JBig n), (''claim_id'', JNum c)] st"
| "apply_event meta l (IntegrityClaimFiled c a p v) st = onIntegrityClaimFiled l c a p v st"
| "apply_event meta l (IntegrityClaimAdjudicated c u) st = onIntegrityClaimAdjudicated l c u st"
| "apply_event meta l (IntegrityClaimExpired c) st = onIntegrityClaimExpired l c st"
| "apply_event meta l (ActionSubmitted i e k u n) st = Inr (onActionSubmitted l i e k u n st)"
| "apply_event meta l (ActionExecuted i n) st = Inr (onActionExecuted l i n st)"
| "apply_event meta l (ActionRefunded i n) st = Inr (onActionRefunded l i n st)"
| "apply_event meta l (EpochMarkedSafe e s) st = Inr (onEpochMarkedSafe l e s st)"
| "apply_event meta l GateSuspended st = Inr (touch (lg_address l) st)"
| "apply_event meta l GateReopened st = Inr (touch (lg_address l) st)"
| "apply_event meta l (ForecastingClosed s) st = Inr (onForecastingClosed l s st)"
| "apply_event meta l (Trade u a b i q) st = Inr (onTrade l u a b i q st)"
| "apply_event meta l (LiquidityAdded p s a b) st = Inr (onLiquidityAdded l p s a b st)"
| "apply_event meta l (PositionTransferred f t a n) st = Inr (onPositionTransferred l f t a n st)"
| "apply_event meta l (PositionsRedeemed u a b n) st = Inr (onPositionsRedeemed l u a b n st)"
| "apply_event meta l (LpInventorySettled p s n) st = Inr (onLpInventorySettled l p s n st)"
| "apply_event meta l (LpFeesClaimed p n) st = Inr (onLpFeesClaimed l p n st)"
| "apply_event meta l (WinnerRewardClaimed r n) st = Inr (onWinnerRewardClaimed l r n st)"
| "apply_event meta l (InvalidWinnerFeeRefunded f n) st = Inr (onInvalidWinnerFeeRefunded l f n st)"
| "apply_event meta l (ResultAttested r q e c) st = Inr (onResultAttested l r q e c st)"
| "apply_event meta l (ProvisionalResultRegistered q e c) st = Inr (onProvisionalResultRegistered l q e c st)"
| "apply_event meta l (ResultChallenged c e) st = Inr (onResultChallenged l c e st)"
| "apply_event meta l (ChallengeVerdictAttested r a c) st = Inr (onChallengeVerdictAttested l r a c st)"
| "apply_event meta l (ResultFinalized q) st = Inr (onResultFinalized l q st)"
| "apply_event meta l (UnhandledEvent n) st = Inr st"

definition apply_log :: "slot_meta \<Rightarrow> log \<Rightarrow> indexer \<Rightarrow> sync_error + indexer" where
  "apply_log meta l st = apply_event meta l (lg_event l) st"

end
