(* ===== verification/Settlement.thy ===== *)
theory Settlement
  imports Conditions Indexer
begin

section \<open>Settlement records and replay (settlement/settlement.mjs)\<close>

text \<open>
  The published account of how a market settled, computed from the projections and the session
  event log, and its replay. A condition document is an object: \<open>condition_doc\<close> pairs it with its
  identity, which is what \<open>headlineCondition !== condition\<close> compares in the evaluator.
\<close>

type_synonym condition_doc = "nat \<times> condition"

definition OUTCOME_LABEL :: "int \<Rightarrow> string option" where
  "OUTCOME_LABEL n = map_of [(0, ''unset''), (1, ''outcome_a''), (2, ''outcome_b''), (3, ''tie''), (4, ''invalid'')] n"

subsection \<open>Curated references and indexed rows\<close>

record attestation =
  an_resolver :: "string option"
  an_outcome :: int
  an_evidence :: "string option"
  an_count :: "int option"
  an_block :: int

record challenge_verdict =
  cv_resolver :: string
  cv_accept :: bool
  cv_block :: int

record challenge_view =
  ch_challenger :: string
  ch_evidence :: "string option"
  ch_upheld :: "bool option"
  ch_unreviewed :: bool
  ch_verdicts :: "challenge_verdict list"

record chain_refs =
  rf_attestations :: "attestation list option"
  rf_challenge :: "challenge_view option"
  rf_invalidationReason :: "string option"
  rf_closeTx :: "string option"
  rf_finalizeTx :: "string option"
  rf_claims :: "json list"

definition no_refs :: chain_refs where
  "no_refs = \<lparr> rf_attestations = None, rf_challenge = None, rf_invalidationReason = None, rf_closeTx = None,
     rf_finalizeTx = None, rf_claims = [] \<rparr>"

record settlement_service =
  sv_conditionForMarket :: "(string \<Rightarrow> json \<Rightarrow> json \<Rightarrow> condition_doc option) option"
  sv_conditions :: "(string, condition_doc) js_map"
  sv_participantA :: string
  sv_participantB :: string
  sv_playback :: "(int \<Rightarrow> int option) option"
  sv_chainRefs :: "(string, chain_refs) js_map"
  sv_hash :: hash_fun

text \<open>\<open>eventLogForRoom?.(roomId) ?? eventLog\<close> and its \<open>all()\<close> are one parameter: the room's events.\<close>

type_synonym room_events = "json \<Rightarrow> event list"

definition lower_or_empty :: "string option \<Rightarrow> string" where
  "lower_or_empty x = to_lower (case x of Some s \<Rightarrow> s | None \<Rightarrow> [])"

subsection \<open>Quorum\<close>

definition result_key :: "attestation \<Rightarrow> string" where
  "result_key a = colon (int_string (an_outcome a)) (lower_or_empty (an_evidence a))"

definition resolvers_by_result :: "attestation list \<Rightarrow> (string, string list) js_map" where
  "resolvers_by_result as = foldl (\<lambda>m a.
     js_set (result_key a) (List.insert (lower_or_empty (an_resolver a))
       (case js_get m (result_key a) of Some rs \<Rightarrow> rs | None \<Rightarrow> [])) m) [] as"

definition reachedQuorum :: "attestation list \<Rightarrow> bool" where
  "reachedQuorum as \<longleftrightarrow> list_ex (\<lambda>(_, rs). 2 \<le> length rs) (resolvers_by_result as)
     \<or> list_ex (\<lambda>a. 2 \<le> (case an_count a of Some n \<Rightarrow> n | None \<Rightarrow> 0)) as"

definition entry_of :: "attestation_row \<Rightarrow> attestation" where
  "entry_of r = \<lparr> an_resolver = Some (at_resolver r), an_outcome = at_outcome r, an_evidence = Some (at_evidence r),
     an_count = Some (at_count r), an_block = int (at_block r) \<rparr>"

definition indexedAttestations :: "projection \<Rightarrow> string \<Rightarrow> attestation list" where
  "indexedAttestations p market =
     sort_key (\<lambda>a. (an_block a, the (an_count a))) (map entry_of (listAttestations p market))"

subsection \<open>Challenges and invalidation\<close>

definition truthy_cell :: "json \<Rightarrow> json option" where
  "truthy_cell v = (if falsy v then None else Some v)"

definition indexedChallenge :: "projection \<Rightarrow> string \<Rightarrow> row \<Rightarrow> challenge_view option" where
  "indexedChallenge p market marketRow =
     (case truthy_cell (row_get marketRow ''challenger'') of
        None \<Rightarrow> None
      | Some challenger \<Rightarrow>
          (let verdicts = listChallengeVerdicts p market;
               accepting = remdups (map (to_lower \<circ> vd_resolver) (filter vd_accept verdicts));
               rejecting = remdups (map (to_lower \<circ> vd_resolver) (filter (Not \<circ> vd_accept) verdicts))
           in Some \<lparr> ch_challenger = json_text challenger,
                ch_evidence = (let h = row_get marketRow ''challenge_evidence_hash'' in
                  if nullish h then None else Some (json_text h)),
                ch_upheld = (if 2 \<le> length accepting then Some True else if 2 \<le> length rejecting then Some False else None),
                ch_unreviewed = False,
                ch_verdicts = map (\<lambda>v. \<lparr> cv_resolver = vd_resolver v, cv_accept = vd_accept v, cv_block = int (vd_block v) \<rparr>)
                  verdicts \<rparr>))"

definition invalidationReason :: "projection \<Rightarrow> string \<Rightarrow> attestation list \<Rightarrow> bool \<Rightarrow> challenge_view option \<Rightarrow> string" where
  "invalidationReason p market attestations quorum challenge =
     (if (case challenge of Some c \<Rightarrow> ch_unreviewed c | None \<Rightarrow> False) then ''challenge_unreviewed''
      else if (case challenge of Some c \<Rightarrow> ch_upheld c = Some True | None \<Rightarrow> False) then ''challenge_upheld''
      else if (case challenge of Some c \<Rightarrow> ch_upheld c = None | None \<Rightarrow> False) then ''challenge_filed''
      else if 2 \<le> length (listSkips p (Some market)) then ''persistent_skip''
      else if attestations \<noteq> [] \<and> \<not> quorum then ''no_quorum''
      else if attestations = [] then ''no_quorum''
      else ''unknown'')"

text \<open>The codes \<open>INVALIDATION_REASONS\<close> explains; the explanation shown is the text of the code returned.\<close>

definition INVALIDATION_REASONS :: "string list" where
  "INVALIDATION_REASONS = [''no_quorum'', ''challenge_upheld'', ''challenge_unreviewed'', ''challenge_filed'',
     ''unrecoverable_source'', ''resolver_divergence'', ''persistent_skip'', ''unknown'']"

definition explained_as :: "string \<Rightarrow> string" where
  "explained_as code = (if code \<in> set INVALIDATION_REASONS then code else ''unknown'')"

subsection \<open>Conditions, deciding events, epochs, payouts\<close>

definition conditionFor_market :: "settlement_service \<Rightarrow> string \<Rightarrow> json \<Rightarrow> json \<Rightarrow> condition_doc option" where
  "conditionFor_market sv market roomId expectedHash =
     (case Option.bind (sv_conditionForMarket sv) (\<lambda>read. read market roomId expectedHash) of
        Some d \<Rightarrow> Some d
      | None \<Rightarrow> (case js_get (sv_conditions sv) market of
          Some d \<Rightarrow> Some d
        | None \<Rightarrow> js_get (sv_conditions sv) (to_lower market)))"

definition headlineCondition :: "settlement_service \<Rightarrow> condition_doc option" where
  "headlineCondition sv = find (\<lambda>d. undecidedAtSessionEnd (snd d) = None) (map snd (sv_conditions sv))"

record deciding_event =
  de_seq :: int
  de_kind :: string
  de_participant :: "string option"
  de_observed_at :: string
  de_facts :: json
  de_corrected :: bool
  de_raw_ref :: string
  de_raw_hash :: string
  de_raw_query :: json
  de_offset :: "int option"

definition last_n :: "nat \<Rightarrow> 'a list \<Rightarrow> 'a list" where
  "last_n n xs = drop (length xs - n) xs"

definition offset_of :: "settlement_service \<Rightarrow> int \<Rightarrow> int option" where
  "offset_of sv seq = Option.bind (sv_playback sv) (\<lambda>f. f seq)"

definition decidingEvents :: "settlement_service \<Rightarrow> decision option \<Rightarrow> event list \<Rightarrow> deciding_event list" where
  "decidingEvents sv decision events =
     (case decision of
        Some (Decided outcome seq) \<Rightarrow>
          map (\<lambda>e. \<lparr> de_seq = ev_seq e, de_kind = ev_kind e, de_participant = ev_participant e,
              de_observed_at = ev_observed_at e, de_facts = ev_facts e, de_corrected = (truthy_text (ev_corrected_by e) \<noteq> None),
              de_raw_ref = ev_raw_ref e, de_raw_hash = ev_raw_hash e, de_raw_query = ev_raw_query e,
              de_offset = offset_of sv (ev_seq e) \<rparr>)
            (last_n 5 (filter (\<lambda>e. ev_seq e \<le> seq \<and> ev_kind e \<noteq> ''heartbeat'') (rectify events)))
      | _ \<Rightarrow> [])"

record epoch_row =
  ep_epoch :: json
  ep_executed :: nat
  ep_refunded :: nat
  ep_pending :: nat

definition count_action :: "(json, epoch_row) js_map \<Rightarrow> row \<Rightarrow> (json, epoch_row) js_map" where
  "count_action m a =
     (let epoch = row_get a ''epoch'';
          entry = (case js_get m epoch of Some e \<Rightarrow> e
            | None \<Rightarrow> \<lparr> ep_epoch = epoch, ep_executed = 0, ep_refunded = 0, ep_pending = 0 \<rparr>)
      in js_set epoch
          (if row_get a ''status'' = JNum 1 then entry\<lparr>ep_executed := ep_executed entry + 1\<rparr>
           else if row_get a ''status'' = JNum 2 then entry\<lparr>ep_refunded := ep_refunded entry + 1\<rparr>
           else entry\<lparr>ep_pending := ep_pending entry + 1\<rparr>) m)"

definition epochSummary :: "projection \<Rightarrow> string \<Rightarrow> epoch_row list" where
  "epochSummary p market = sort_key (\<lambda>e. num_of (ep_epoch e))
     (map snd (foldl count_action [] (listActions p (Some market) None None)))"

definition payoutVector :: "int \<Rightarrow> (string \<times> string) option" where
  "payoutVector outcome =
     (if outcome = 1 then Some (''1'', ''0'') else if outcome = 2 then Some (''0'', ''1'')
      else if outcome = 3 \<or> outcome = 4 then Some (''0.5'', ''0.5'') else None)"

subsection \<open>The record\<close>

record settlement_record =
  rd_market :: string
  rd_room_id :: json
  rd_slot_index :: json
  rd_question :: json
  rd_participants :: "json \<times> json"
  rd_closing_condition :: "condition option"
  rd_condition_hash :: json
  rd_evaluator_version :: string
  rd_decisive_event :: "(int \<times> string) option"
  rd_deciding_events :: "deciding_event list"
  rd_epochs :: "epoch_row list"
  rd_outcome :: int
  rd_outcome_label :: string
  rd_winner_name :: json
  rd_payout_vector :: "(string \<times> string) option"
  rd_attestations :: "attestation list"
  rd_quorum :: bool
  rd_challenge :: "challenge_view option"
  rd_provisional_at :: json
  rd_challenge_ends_at :: json
  rd_invalidation :: "(string \<times> string) option"
  rd_close_tx :: "string option"
  rd_finalize_tx :: "string option"
  rd_claims :: "json list"
  rd_finalized_block :: json
  rd_block :: json
  rd_stream_offset :: "int option"
  rd_log_range :: "(int \<times> int) option"

text \<open>\<open>room?.closed_source_seq ? Number(room.closed_source_seq) : null\<close>\<close>

definition terminalSeq_of :: "row option \<Rightarrow> int option" where
  "terminalSeq_of room = map_option num_of (truthy_cell (row_get (row_of room) ''closed_source_seq''))"

definition or_null_cell :: "json \<Rightarrow> json" where
  "or_null_cell v = (if falsy v then JNull else v)"

text \<open>The decision a record states: the evaluator bounded by the closing sequence and the headline.\<close>

definition record_options :: "settlement_service \<Rightarrow> int option \<Rightarrow> condition_doc \<Rightarrow> eval_options" where
  "record_options sv terminalSeq d = default_options\<lparr>opt_terminalSeq := terminalSeq,
     opt_headline := map_option snd (headlineCondition sv),
     opt_headline_is_self := (case headlineCondition sv of Some h \<Rightarrow> fst h = fst d | None \<Rightarrow> False)\<rparr>"

definition record_decision :: "settlement_service \<Rightarrow> condition_doc option \<Rightarrow> int option \<Rightarrow> event list \<Rightarrow> decision option" where
  "record_decision sv condition terminalSeq events =
     map_option (\<lambda>d. evaluateCondition (snd d) events (record_options sv terminalSeq d)) condition"

definition settlement :: "settlement_service \<Rightarrow> projection \<Rightarrow> room_events \<Rightarrow> string \<Rightarrow> canon_error + settlement_record option" where
  "settlement sv p eventsFor market =
     (case getMarket p market of
        None \<Rightarrow> Inr None
      | Some marketRow \<Rightarrow>
          (let slot = slotByMarket p market;
               slotRow = row_of slot;
               roomId = row_get marketRow ''room_id'';
               condition = conditionFor_market sv market roomId (coalesce (row_get slotRow ''condition_hash'') JNull);
               refs = (case js_get (sv_chainRefs sv) market of Some r \<Rightarrow> r | None \<Rightarrow> no_refs);
               terminalSeq = terminalSeq_of (getRoom p (json_text roomId));
               events = eventsFor roomId;
               decision = record_decision sv condition terminalSeq events;
               outcome = num_of (coalesce (row_get marketRow ''final_outcome'') (JNum 0));
               attestations = (case rf_attestations refs of Some as \<Rightarrow> as | None \<Rightarrow> indexedAttestations p market);
               participantA = or_null_cell (row_get marketRow ''participant_a_name'');
               participantB = or_null_cell (row_get marketRow ''participant_b_name'');
               quorum = reachedQuorum attestations;
               challenge = (case rf_challenge refs of Some c \<Rightarrow> Some c | None \<Rightarrow> indexedChallenge p market marketRow);
               reason = (case rf_invalidationReason refs of Some c \<Rightarrow> c
                 | None \<Rightarrow> invalidationReason p market attestations quorum challenge)
           in bind_res (case condition of
                  Some d \<Rightarrow> map_sum id JStr (conditionHash (sv_hash sv) (snd d))
                | None \<Rightarrow> Inr (coalesce (row_get slotRow ''condition_hash'') JNull)) (\<lambda>hash.
              Inr (Some
               \<lparr> rd_market = market, rd_room_id = roomId, rd_slot_index = row_get marketRow ''slot_index'',
                 rd_question = coalesce (row_get slotRow ''question'') JNull,
                 rd_participants = (participantA, participantB),
                 rd_closing_condition = map_option snd condition,
                 rd_condition_hash = hash,
                 rd_evaluator_version = EVALUATOR_VERSION,
                 rd_decisive_event = (case decision of Some (Decided out seq) \<Rightarrow> Some (seq, out) | _ \<Rightarrow> None),
                 rd_deciding_events = decidingEvents sv decision events,
                 rd_epochs = epochSummary p market,
                 rd_outcome = outcome,
                 rd_outcome_label = (case OUTCOME_LABEL outcome of Some s \<Rightarrow> s | None \<Rightarrow> ''unknown''),
                 rd_winner_name = (if outcome = 1 then participantA else if outcome = 2 then participantB else JNull),
                 rd_payout_vector = payoutVector outcome,
                 rd_attestations = attestations,
                 rd_quorum = quorum,
                 rd_challenge = challenge,
                 rd_provisional_at = coalesce (row_get marketRow ''provisional_at'') JNull,
                 rd_challenge_ends_at = coalesce (row_get marketRow ''challenge_ends_at'') JNull,
                 rd_invalidation = (if outcome = 4 then Some (reason, explained_as reason) else None),
                 rd_close_tx = rf_closeTx refs, rd_finalize_tx = rf_finalizeTx refs, rd_claims = rf_claims refs,
                 rd_finalized_block = coalesce (row_get marketRow ''finalized_block_number'') JNull,
                 rd_block = row_get marketRow ''block_number'',
                 rd_stream_offset = (case decision of Some (Decided out seq) \<Rightarrow>
                     if seq = 0 then None else offset_of sv seq | _ \<Rightarrow> None),
                 rd_log_range = (if events = [] then None else Some (ev_seq (hd events), ev_seq (last events))) \<rparr>))))"

subsection \<open>Replay\<close>

definition enumFor :: "settlement_service \<Rightarrow> string \<Rightarrow> string + int" where
  "enumFor sv outcome =
     (if outcome = ''yes'' then Inr 1 else if outcome = ''no'' then Inr 2 else if outcome = ''tie'' then Inr 3
      else if outcome = sv_participantA sv then Inr 1 else if outcome = sv_participantB sv then Inr 2
      else Inl outcome)"

datatype replay =
    NoDocument
  | Undecidable bool decision
  | UnknownOutcome string
  | Replayed bool decision int int

text \<open>The \<open>ok\<close> of a replay.\<close>

fun replay_ok :: "replay \<Rightarrow> bool" where
  "replay_ok NoDocument = False"
| "replay_ok (Undecidable ok d) = ok"
| "replay_ok (UnknownOutcome out) = False"
| "replay_ok (Replayed ok d expected recorded) = ok"

definition verifyReplay :: "settlement_service \<Rightarrow> projection \<Rightarrow> room_events \<Rightarrow> string \<Rightarrow> canon_error + replay" where
  "verifyReplay sv p eventsFor market =
     bind_res (settlement sv p eventsFor market) (\<lambda>r.
       case r of
         None \<Rightarrow> Inr NoDocument
       | Some rec \<Rightarrow>
           (case rd_closing_condition rec of
              None \<Rightarrow> Inr NoDocument
            | Some c \<Rightarrow>
                (let terminalSeq = terminalSeq_of (getRoom p (json_text (rd_room_id rec)));
                     decision = evaluateCondition c (eventsFor (rd_room_id rec)) (default_options\<lparr>opt_terminalSeq := terminalSeq\<rparr>)
                 in Inr (case decision of
                      Decided out seq \<Rightarrow>
                        (case enumFor sv out of
                           Inl e \<Rightarrow> UnknownOutcome e
                         | Inr expected \<Rightarrow> Replayed (expected = rd_outcome rec) decision expected (rd_outcome rec))
                    | _ \<Rightarrow> Undecidable (rd_outcome rec = 4) decision))))"

subsection \<open>Claims\<close>

record claim_view =
  cw_market :: string
  cw_outcome_label :: "string option"
  cw_position_a :: int
  cw_position_b :: int
  cw_lp_shares :: int
  cw_redeemable :: int
  cw_lp_note :: bool
  cw_claimable :: bool
  cw_payout_vector :: "(string \<times> string) option"

definition redeemable :: "int \<Rightarrow> int \<Rightarrow> int \<Rightarrow> int" where
  "redeemable outcome a b =
     (if outcome = 3 \<or> outcome = 4 then trunc_div (a + b) 2
      else if outcome = 1 then a else if outcome = 2 then b else 0)"

definition claim_view_of :: "projection \<Rightarrow> holding \<Rightarrow> claim_view option" where
  "claim_view_of p h =
     (case getMarket p (hd_market h) of
        None \<Rightarrow> None
      | Some marketRow \<Rightarrow>
          (let outcome = num_of (coalesce (row_get marketRow ''final_outcome'') (JNum 0));
               value = redeemable outcome (hd_a h) (hd_b h)
           in if outcome = 0 then None
              else Some \<lparr> cw_market = hd_market h, cw_outcome_label = OUTCOME_LABEL outcome, cw_position_a = hd_a h,
                cw_position_b = hd_b h, cw_lp_shares = hd_lp h, cw_redeemable = value, cw_lp_note = (0 < hd_lp h),
                cw_claimable = (0 < value \<or> 0 < hd_lp h), cw_payout_vector = payoutVector outcome \<rparr>))"

definition claimsFor :: "projection \<Rightarrow> string \<Rightarrow> claim_view list" where
  "claimsFor p account = List.map_filter (claim_view_of p) (listAccountHoldings p account)"

end
