(* ===== verification/Portfolio.thy ===== *)
theory Portfolio
  imports Settlement
begin

section \<open>The portfolio of one account (discovery/portfolio.mjs)\<close>

text \<open>
  Positions, settled markets, transactions and payouts of an account, from the projections and
  two balances read from the contracts. Amounts are bigints. The sentences shown beside a settled
  market are the constructors of \<open>settled_detail\<close>; its notes are fixed texts and are left out.
\<close>

definition FEE_SCALE :: int where
  "FEE_SCALE = 10 ^ 18"

text \<open>\<open>known = False\<close>: no reader, or a read that failed.\<close>

record owed =
  ow_known :: bool
  ow_lp_fees :: int
  ow_winner_fee_refund :: int

definition hasSomethingToClaim :: "int \<Rightarrow> int \<Rightarrow> int \<Rightarrow> int \<Rightarrow> owed \<Rightarrow> bool option" where
  "hasSomethingToClaim outcome positionA positionB lpShares bal =
     (let positionsOwed =
            (if outcome = 3 \<or> outcome = 4 then 0 < positionA \<or> 0 < positionB
             else if outcome = 1 then 0 < positionA
             else if outcome = 2 then 0 < positionB else False)
      in if positionsOwed \<or> 0 < lpShares then Some True
         else if \<not> ow_known bal then None
         else Some (0 < ow_lp_fees bal \<or> 0 < ow_winner_fee_refund bal))"

definition refundableWinnerFee :: "int \<Rightarrow> int \<Rightarrow> int" where
  "refundableWinnerFee outcome winnerFeePaid = (if outcome = 4 then winnerFeePaid else 0)"

definition heldTheLosingSide :: "int \<Rightarrow> int \<Rightarrow> int \<Rightarrow> bool" where
  "heldTheLosingSide outcome positionA positionB =
     (if outcome = 1 then positionA = 0 \<and> 0 < positionB
      else if outcome = 2 then positionB = 0 \<and> 0 < positionA else False)"

text \<open>
  \<open>Number((bps / 100).toFixed(2))\<close> and a percent sign, for a whole number of basis points.
\<close>

definition rewardRate :: "json \<Rightarrow> string option" where
  "rewardRate bps =
     (if nullish bps then None
      else (let n = num_of bps; whole = int_string (\<bar>n\<bar> div 100);
                cents = trim_zeros_end (pad_start 2 (dec_string (nat (\<bar>n\<bar> mod 100))));
                sign = (if n < 0 then ''-'' else [])
            in Some (sign @ whole @ (if cents = [] then [] else CHR ''.'' # cents) @ ''%'')))"

datatype settled_detail =
    Unreadable
  | InvalidFeeWaiting "string option"
  | InvalidCollateralWaiting
  | InvalidReturned "string option"
  | InvalidAllClaimed
  | InvalidNothingOwed
  | TieWaiting
  | TieClaimed
  | TieNothingOwed
  | NotResolved
  | AgainstPosition
  | SettledFully
  | FeeCreditWaiting
  | StillUnclaimed

definition settledDetail :: "int \<Rightarrow> bool option \<Rightarrow> bool \<Rightarrow> owed \<Rightarrow> json \<Rightarrow> bool \<Rightarrow> int \<Rightarrow> settled_detail" where
  "settledDetail outcome claimable lost bal rewardBps refunded claimed_amount =
     (case claimable of
        None \<Rightarrow> Unreadable
      | Some c \<Rightarrow>
          if outcome = 4 then
            (if c then (if 0 < ow_winner_fee_refund bal then InvalidFeeWaiting (rewardRate rewardBps) else InvalidCollateralWaiting)
             else if refunded then InvalidReturned (rewardRate rewardBps)
             else if 0 < claimed_amount then InvalidAllClaimed else InvalidNothingOwed)
          else if outcome = 3 then
            (if c then TieWaiting else if 0 < claimed_amount then TieClaimed else TieNothingOwed)
          else if outcome = 0 then NotResolved
          else if lost then AgainstPosition
          else if \<not> c then SettledFully
          else if 0 < ow_lp_fees bal then FeeCreditWaiting
          else StillUnclaimed)"

subsection \<open>The balances no event carries\<close>

text \<open>An absent field of the reading is \<open>0n\<close>; a read may fail.\<close>

record account_state =
  as_lpFeeCredit :: int
  as_winnerFeePaid :: int
  as_lpShares :: int
  as_lpFeeDebt :: int
  as_feePerShare :: int

type_synonym account_reader = "string \<Rightarrow> string \<Rightarrow> string + account_state"

definition unknown_owed :: owed where
  "unknown_owed = \<lparr> ow_known = False, ow_lp_fees = 0, ow_winner_fee_refund = 0 \<rparr>"

definition owed_of :: "account_reader option \<Rightarrow> string \<Rightarrow> string \<Rightarrow> int \<Rightarrow> owed" where
  "owed_of reader market account outcome =
     (case reader of
        None \<Rightarrow> unknown_owed
      | Some read \<Rightarrow>
          (case read market (to_lower account) of
             Inl e \<Rightarrow> unknown_owed
           | Inr s \<Rightarrow>
               (let accumulated = trunc_div (as_lpShares s * as_feePerShare s) FEE_SCALE;
                    pending = (if as_lpFeeDebt s < accumulated then accumulated - as_lpFeeDebt s else 0)
                in \<lparr> ow_known = True, ow_lp_fees = as_lpFeeCredit s + pending,
                     ow_winner_fee_refund = refundableWinnerFee outcome (as_winnerFeePaid s) \<rparr>)))"

subsection \<open>Markets of the account\<close>

definition add_amount :: "string \<Rightarrow> int \<Rightarrow> (string, int) js_map \<Rightarrow> (string, int) js_map" where
  "add_amount k n m = js_set k ((case js_get m k of Some x \<Rightarrow> x | None \<Rightarrow> 0) + n) m"

definition claimedByMarket :: "claim_row list \<Rightarrow> (string, int) js_map" where
  "claimedByMarket claims = foldl (\<lambda>m c. add_amount (to_lower (cl_market c)) (cl_amount c) m) [] claims"

definition refundedByMarket :: "claim_row list \<Rightarrow> string list" where
  "refundedByMarket claims = foldl (\<lambda>s c. if cl_kind c = ''winner_fee_refund'' then set_add (to_lower (cl_market c)) s else s) [] claims"

definition market_ids :: "holding list \<Rightarrow> claim_row list \<Rightarrow> trade_row list \<Rightarrow> string list" where
  "market_ids holdings claims trades = foldl (\<lambda>s m. set_add m s) []
     (map (to_lower \<circ> hd_market) holdings @ map (to_lower \<circ> cl_market) claims @ map (to_lower \<circ> tr_market) trades)"

record open_position =
  op_market :: string
  op_question :: json
  op_room_id :: json
  op_slot_index :: json
  op_side :: string
  op_size :: int
  op_implied_prob_a :: json
  op_route :: string

record settled_market =
  sm_market :: string
  sm_question :: json
  sm_room_id :: json
  sm_slot_index :: json
  sm_outcome_label :: string
  sm_held_a :: int
  sm_held_b :: int
  sm_claimed :: int
  sm_claimable :: "bool option"
  sm_owed :: "(int \<times> int) option"
  sm_detail :: settled_detail
  sm_route :: string

record liquidity_position =
  lq_market :: string
  lq_question :: json
  lq_lp_shares :: int
  lq_room_id :: json

record transaction =
  tx_type :: string
  tx_block :: int
  tx_market :: string
  tx_kind :: string
  tx_side :: "string option"
  tx_amounts :: "int list"
  tx_summary :: string
  tx_route :: string

definition activity_route :: "string \<Rightarrow> string" where
  "activity_route market = ''/activity/'' @ market"

record market_view =
  mv_open :: "open_position list"
  mv_settled :: "settled_market list"
  mv_liquidity :: "liquidity_position list"

definition outcome_of :: "row \<Rightarrow> int" where
  "outcome_of r = num_of (coalesce (row_get r ''final_outcome'') (JNum 0))"

definition market_view ::
  "projection \<Rightarrow> account_reader option \<Rightarrow> string \<Rightarrow> holding list \<Rightarrow> claim_row list \<Rightarrow> trade_row list \<Rightarrow> string \<Rightarrow> market_view" where
  "market_view p reader account holdings claims trades market =
     (let r = row_of (getMarket p market);
          outcome = outcome_of r;
          holding = find (\<lambda>h. to_lower (hd_market h) = market) holdings;
          positionA = (case holding of Some h \<Rightarrow> hd_a h | None \<Rightarrow> 0);
          positionB = (case holding of Some h \<Rightarrow> hd_b h | None \<Rightarrow> 0);
          lpShares = (case holding of Some h \<Rightarrow> hd_lp h | None \<Rightarrow> 0);
          question = coalesce (row_get r ''question'') (JStr []);
          roomId = coalesce (row_get r ''room_id'') JNull;
          liquidity = (if 0 < lpShares then [\<lparr> lq_market = market, lq_question = question, lq_lp_shares = lpShares,
            lq_room_id = roomId \<rparr>] else [])
      in if outcome = 0 then
           \<lparr> mv_open = map (\<lambda>(size, side). \<lparr> op_market = market, op_question = question, op_room_id = roomId,
                 op_slot_index = coalesce (row_get r ''slot_index'') JNull, op_side = side, op_size = size,
                 op_implied_prob_a = coalesce (row_get r ''implied_prob_a'') JNull,
                 op_route = activity_route market \<rparr>)
               (filter (\<lambda>(size, side). 0 < size) [(positionA, ''outcome_a''), (positionB, ''outcome_b'')]),
             mv_settled = [], mv_liquidity = liquidity \<rparr>
         else
           (let bal = owed_of reader market account outcome;
                claimable = hasSomethingToClaim outcome positionA positionB lpShares bal;
                held = (0 < positionA \<or> 0 < positionB \<or> 0 < lpShares);
                claimed_amount = (case js_get (claimedByMarket claims) market of Some n \<Rightarrow> n | None \<Rightarrow> 0)
            in if \<not> held \<and> \<not> js_has (claimedByMarket claims) market \<and> \<not> list_ex (\<lambda>t. to_lower (tr_market t) = market) trades
               then \<lparr> mv_open = [], mv_settled = [], mv_liquidity = liquidity \<rparr>
               else \<lparr> mv_open = [], mv_settled =
                 [\<lparr> sm_market = market, sm_question = question, sm_room_id = roomId,
                    sm_slot_index = coalesce (row_get r ''slot_index'') JNull,
                    sm_outcome_label = (case OUTCOME_LABEL outcome of Some s \<Rightarrow> s | None \<Rightarrow> ''unknown''),
                    sm_held_a = positionA, sm_held_b = positionB, sm_claimed = claimed_amount, sm_claimable = claimable,
                    sm_owed = (if ow_known bal then Some (ow_lp_fees bal, ow_winner_fee_refund bal) else None),
                    sm_detail = settledDetail outcome claimable
                      (heldTheLosingSide outcome positionA positionB \<and> lpShares = 0 \<and> ow_known bal
                        \<and> ow_lp_fees bal = 0 \<and> ow_winner_fee_refund bal = 0)
                      bal (coalesce (row_get r ''winner_reward_bps'') JNull)
                      (market \<in> set (refundedByMarket claims)) claimed_amount,
                    sm_route = activity_route market \<rparr>],
                 mv_liquidity = liquidity \<rparr>))"

subsection \<open>Transactions and payouts\<close>

definition CLAIM_LABEL :: "string \<Rightarrow> string option" where
  "CLAIM_LABEL k = map_of [(''redeem'', ''Winning position redeemed''), (''lp_inventory'', ''LP inventory settled''),
     (''lp_fees'', ''LP fees claimed''), (''winner_reward'', ''Winning-participant reward''),
     (''winner_fee_refund'', ''Winner-fee refund on an invalid market'')] k"

definition claim_label :: "string \<Rightarrow> string" where
  "claim_label k = (case CLAIM_LABEL k of Some s \<Rightarrow> s | None \<Rightarrow> k)"

definition trade_transaction :: "trade_row \<Rightarrow> transaction" where
  "trade_transaction t = \<lparr> tx_type = ''trade'', tx_block = int (tr_block t), tx_market = to_lower (tr_market t),
     tx_kind = (if tr_is_buy t then ''buy'' else ''sell''),
     tx_side = Some (if tr_outcome_a t then ''outcome_a'' else ''outcome_b''),
     tx_amounts = [tr_amount_in t, tr_amount_out t],
     tx_summary = (if tr_is_buy t then ''Bought '' else ''Sold '') @ (if tr_outcome_a t then ''Outcome A'' else ''Outcome B''),
     tx_route = activity_route (to_lower (tr_market t)) \<rparr>"

definition claim_transaction :: "claim_row \<Rightarrow> transaction" where
  "claim_transaction c = \<lparr> tx_type = ''claim'', tx_block = int (cl_block c), tx_market = to_lower (cl_market c),
     tx_kind = cl_kind c, tx_side = None, tx_amounts = [cl_amount c], tx_summary = claim_label (cl_kind c),
     tx_route = activity_route (to_lower (cl_market c)) \<rparr>"

definition by_kind :: "claim_row list \<Rightarrow> (string, int) js_map" where
  "by_kind claims = foldl (\<lambda>m c. add_amount (cl_kind c) (cl_amount c) m) [] claims"

record portfolio =
  po_account :: string
  po_open :: "open_position list"
  po_settled :: "settled_market list"
  po_claimable_count :: nat
  po_unknown_count :: nat
  po_transactions :: "transaction list"
  po_total_credited :: int
  po_by_kind :: "(string \<times> int \<times> string) list"
  po_liquidity :: "liquidity_position list"
  po_fees_claimed :: int
  po_empty :: bool

text \<open>\<open>Number(row.slot_index ?? 0)\<close>, the key by which settled markets are shown, newest slot first.\<close>

definition slot_rank :: "settled_market \<Rightarrow> int" where
  "slot_rank s = - num_of (coalesce (sm_slot_index s) (JNum 0))"

definition portfolio_of :: "projection \<Rightarrow> account_reader option \<Rightarrow> string \<Rightarrow> portfolio" where
  "portfolio_of p reader account =
     (let key = to_lower account;
          holdings = listAccountHoldings p account;
          claims = listClaims p (Some account);
          trades = filter (\<lambda>t. to_lower (tr_account t) = key) (listTrades p None 0);
          views = map (market_view p reader account holdings claims trades) (market_ids holdings claims trades);
          settled = sort_key slot_rank (concat (map mv_settled views));
          opens = concat (map mv_open views);
          transactions = sort_key (\<lambda>t. - tx_block t) (map trade_transaction trades @ map claim_transaction claims);
          kinds = by_kind claims
      in \<lparr> po_account = key, po_open = sort_key (\<lambda>v. - op_size v) opens, po_settled = settled,
           po_claimable_count = length (filter (\<lambda>s. sm_claimable s = Some True) settled),
           po_unknown_count = length (filter (\<lambda>s. sm_claimable s = None) settled),
           po_transactions = transactions,
           po_total_credited = foldl (+) 0 (map snd kinds),
           po_by_kind = map (\<lambda>(k, n). (k, n, claim_label k)) kinds,
           po_liquidity = concat (map mv_liquidity views),
           po_fees_claimed = (case js_get kinds ''lp_fees'' of Some n \<Rightarrow> n | None \<Rightarrow> 0),
           po_empty = (opens = [] \<and> settled = [] \<and> transactions = []) \<rparr>)"

end
