(* ===== verification/IndexerSync.thy ===== *)
theory IndexerSync
  imports Indexer
begin

section \<open>Indexing the chain (indexer/indexer.mjs, app.mjs)\<close>

text \<open>
  The indexer's passes over the chain: the sweep of a block range until it reveals no new
  contract, the reading of market state, the ring of block hashes, the detection of a rewritten
  history, the rebuild, and the poll of the process that chooses among them. The node is a
  parameter: what it answers may differ from call to call, and any call may throw. A pass that
  throws keeps what it had written, so every pass returns its state beside its result.
\<close>

subsection \<open>The node\<close>

record market_reading =
  mr_participantAName :: "string option"
  mr_participantBName :: "string option"
  mr_gateState :: int
  mr_winnerRewardBps :: int
  mr_reserveA :: int
  mr_reserveB :: int
  mr_spotPriceA :: int
  mr_totalLpShares :: int
  mr_winnerRewardPool :: int
  mr_pendingCollateral :: int
  mr_collateralBacking :: int
  mr_unclaimedLpFees :: int
  mr_currentEpoch :: int
  mr_lastSafeSequence :: int
  mr_finalOutcome :: int

text \<open>
  The log source may answer each sweep of a sync differently, and fetches from the contracts the
  projections know. An optional port is \<open>None\<close> where the object lacks the method.
\<close>

record node =
  nd_getLogs :: "nat \<Rightarrow> projection \<Rightarrow> nat \<Rightarrow> nat \<Rightarrow> string + log list"
  nd_reader :: "(string \<Rightarrow> nat \<Rightarrow> string + market_reading) option"
  nd_blockTimestamp :: "(nat \<Rightarrow> string + int option) option"
  nd_blockHash :: "(nat \<Rightarrow> string + string option) option"
  nd_slotMeta :: slot_meta

definition REORG_WINDOW :: nat where
  "REORG_WINDOW = 128"

definition CLEAR_SAMPLE_WINDOW :: nat where
  "CLEAR_SAMPLE_WINDOW = 64"

definition port_result :: "string + 'a \<Rightarrow> sync_error + 'a" where
  "port_result r = map_sum PortError id r"

subsection \<open>Applying a range\<close>

fun apply_logs :: "slot_meta \<Rightarrow> log list \<Rightarrow> indexer \<Rightarrow> nat \<Rightarrow> indexer \<times> (sync_error + nat)" where
  "apply_logs meta [] st applied = (st, Inr applied)"
| "apply_logs meta (l # ls) st applied =
     (if log_id l \<in> set (ix_applied st) then apply_logs meta ls st applied
      else (case apply_log meta l st of
          Inl e \<Rightarrow> (st, Inl e)
        | Inr st' \<Rightarrow> apply_logs meta ls (st'\<lparr>ix_applied := set_add (log_id l) (ix_applied st')\<rparr>) (applied + 1)))"

definition knownAddressCount :: "projection \<Rightarrow> nat" where
  "knownAddressCount p = length (pj_rooms p) + length (pj_markets p)"

text \<open>The sweeps, at most eight: \<open>k\<close> sweeps are left, \<open>n\<close> were made, \<open>seen\<close> is the last count.\<close>

fun sweep :: "node \<Rightarrow> nat \<Rightarrow> nat \<Rightarrow> nat \<Rightarrow> nat \<Rightarrow> nat option \<Rightarrow> indexer \<Rightarrow> nat \<Rightarrow> indexer \<times> (sync_error + nat)" where
  "sweep nd 0 n fromBlock headBlock seen st applied = (st, Inr applied)"
| "sweep nd (Suc k) n fromBlock headBlock seen st applied =
     (case port_result (nd_getLogs nd n (ix_store st) fromBlock headBlock) of
        Inl e \<Rightarrow> (st, Inl e)
      | Inr logs \<Rightarrow>
          (case apply_logs (nd_slotMeta nd) logs st applied of
             (st1, Inl e) \<Rightarrow> (st1, Inl e)
           | (st1, Inr applied1) \<Rightarrow>
               (let addresses = knownAddressCount (ix_store st1) in
                if seen = Some addresses then (st1, Inr applied1)
                else sweep nd k (n + 1) fromBlock headBlock (Some addresses) st1 applied1)))"

subsection \<open>Clear latencies\<close>

fun measure_pairs :: "(nat \<Rightarrow> string + int option) \<Rightarrow> (string \<times> pending_clear) list \<Rightarrow> indexer \<Rightarrow> indexer \<times> sync_error option" where
  "measure_pairs time_of [] st = (st, None)"
| "measure_pairs time_of ((key, pair) # rest) st =
     (case pc_executed pair of
        None \<Rightarrow> measure_pairs time_of rest st
      | Some executed \<Rightarrow>
          (case (time_of (pc_submitted pair), time_of executed) of
             (Inl e, _) \<Rightarrow> (st, Some (PortError e))
           | (_, Inl e) \<Rightarrow> (st, Some (PortError e))
           | (Inr from_time, Inr to_time) \<Rightarrow>
               (let st1 = st\<lparr>ix_pending := js_delete key (ix_pending st)\<rparr> in
                (case (from_time, to_time) of
                   (Some f, Some t) \<Rightarrow> measure_pairs time_of rest (st1\<lparr>ix_samples := ix_samples st1 @ [max 0 (t - f)]\<rparr>)
                 | _ \<Rightarrow> measure_pairs time_of rest st1))))"

definition last_samples :: "int list \<Rightarrow> int list" where
  "last_samples xs = (if CLEAR_SAMPLE_WINDOW < length xs then drop (length xs - CLEAR_SAMPLE_WINDOW) xs else xs)"

definition measureClears :: "node \<Rightarrow> indexer \<Rightarrow> indexer \<times> sync_error option" where
  "measureClears nd st =
     (case nd_blockTimestamp nd of
        None \<Rightarrow> (st, None)
      | Some time_of \<Rightarrow>
          (case measure_pairs time_of (ix_pending st) st of
             (st1, Some e) \<Rightarrow> (st1, Some e)
           | (st1, None) \<Rightarrow> (st1\<lparr>ix_samples := last_samples (ix_samples st1)\<rparr>, None)))"

definition epochClearSeconds :: "indexer \<Rightarrow> int option" where
  "epochClearSeconds st = (if ix_samples st = [] then None else Some (Max (set (ix_samples st))))"

subsection \<open>Reading market state\<close>

definition opt_text :: "string option \<Rightarrow> json" where
  "opt_text x = (case x of Some t \<Rightarrow> JStr t | None \<Rightarrow> JNull)"

definition reading_row :: "string \<Rightarrow> row \<Rightarrow> market_reading \<Rightarrow> nat \<Rightarrow> row" where
  "reading_row market existing m block =
     spread_row (spread_row [(''market_address'', JStr market)] existing)
      [(''participant_a_name'', coalesce (opt_text (mr_participantAName m)) (coalesce (row_get existing ''participant_a_name'') JNull)),
       (''participant_b_name'', coalesce (opt_text (mr_participantBName m)) (coalesce (row_get existing ''participant_b_name'') JNull)),
       (''gate_state'', JNum (mr_gateState m)), (''winner_reward_bps'', JNum (mr_winnerRewardBps m)),
       (''reserve_a'', JBig (mr_reserveA m)), (''reserve_b'', JBig (mr_reserveB m)),
       (''implied_prob_a'', JBig (mr_spotPriceA m)), (''total_lp_shares'', JBig (mr_totalLpShares m)),
       (''winner_reward_pool'', JBig (mr_winnerRewardPool m)), (''pending_collateral'', JBig (mr_pendingCollateral m)),
       (''collateral_backing'', JBig (mr_collateralBacking m)), (''unclaimed_lp_fees'', JBig (mr_unclaimedLpFees m)),
       (''current_epoch'', JBig (mr_currentEpoch m)), (''last_safe_seq'', JBig (mr_lastSafeSequence m)),
       (''final_outcome'', JNum (mr_finalOutcome m)), (''block_number'', num block)]"

definition gate_state_is :: "row \<Rightarrow> int \<Rightarrow> bool" where
  "gate_state_is r n \<longleftrightarrow> row_get r ''gate_state'' = JNum n"

definition derived_state :: "row \<Rightarrow> string" where
  "derived_state r =
     (if num_of (coalesce (row_get r ''final_outcome'') (JNum 0)) \<noteq> 0 then
        (if num_of (row_get r ''final_outcome'') = 4 then ''invalid'' else ''final'')
      else if gate_state_is r 2 then ''closed''
      else if gate_state_is r 1 then ''suspended''
      else if coalesce (row_get r ''total_lp_shares'') (JBig 0) = JBig 0 then ''awaiting-liquidity''
      else ''open'')"

definition syncSlotState :: "string \<Rightarrow> nat \<Rightarrow> projection \<Rightarrow> projection" where
  "syncSlotState market block p =
     (case slotByMarket p market of
        None \<Rightarrow> p
      | Some slot \<Rightarrow>
          if slot_terminal slot \<or> slot_resolving slot then p
          else (case getMarket p market of
             None \<Rightarrow> p
           | Some r \<Rightarrow>
               if JStr (derived_state r) \<noteq> row_get slot ''state''
               then upsertSlot (slot_state slot (derived_state r) [] block) p else p))"

fun refresh_markets :: "(string \<Rightarrow> nat \<Rightarrow> string + market_reading) \<Rightarrow> nat \<Rightarrow> string list \<Rightarrow> projection \<Rightarrow> projection \<times> sync_error option" where
  "refresh_markets read block [] p = (p, None)"
| "refresh_markets read block (market # rest) p =
     (case read market block of
        Inl e \<Rightarrow> (p, Some (PortError e))
      | Inr m \<Rightarrow>
          refresh_markets read block rest
            (syncSlotState market block (upsertMarket (reading_row market (row_of (getMarket p market)) m block) p)))"

definition refreshTouchedMarkets :: "node \<Rightarrow> nat \<Rightarrow> indexer \<Rightarrow> indexer \<times> sync_error option" where
  "refreshTouchedMarkets nd block st =
     (case nd_reader nd of
        None \<Rightarrow> (st, None)
      | Some read \<Rightarrow>
          (case refresh_markets read block (ix_touched st) (ix_store st) of
             (p, Some e) \<Rightarrow> (st\<lparr>ix_store := p\<rparr>, Some e)
           | (p, None) \<Rightarrow> (st\<lparr>ix_store := p, ix_touched := []\<rparr>, None)))"

subsection \<open>Block hashes and log identities\<close>

fun fetch_hashes :: "(nat \<Rightarrow> string + string option) \<Rightarrow> nat list \<Rightarrow> (nat, string) js_map \<Rightarrow> (nat, string) js_map \<times> sync_error option" where
  "fetch_hashes hash_at [] hs = (hs, None)"
| "fetch_hashes hash_at (b # bs) hs =
     (case hash_at b of
        Inl e \<Rightarrow> (hs, Some (PortError e))
      | Inr h \<Rightarrow> fetch_hashes hash_at bs (case truthy_text h of Some t \<Rightarrow> js_set b t hs | None \<Rightarrow> hs))"

definition rememberHashes :: "node \<Rightarrow> nat \<Rightarrow> nat \<Rightarrow> indexer \<Rightarrow> indexer \<times> sync_error option" where
  "rememberHashes nd fromBlock toBlock st =
     (case nd_blockHash nd of
        None \<Rightarrow> (st, None)
      | Some hash_at \<Rightarrow>
          (let start = max fromBlock (toBlock + 1 - REORG_WINDOW) in
           case fetch_hashes hash_at [start..<toBlock + 1] (ix_hashes st) of
             (hs, Some e) \<Rightarrow> (st\<lparr>ix_hashes := hs\<rparr>, Some e)
           | (hs, None) \<Rightarrow> (st\<lparr>ix_hashes := filter (\<lambda>(b, _). \<not> b < toBlock - REORG_WINDOW) hs\<rparr>, None)))"

definition cursorHash :: "indexer \<Rightarrow> string option" where
  "cursorHash st = js_get (ix_hashes st) (ix_cursor st)"

text \<open>The block number a log identity starts with, read back from its text.\<close>

definition id_block :: "string \<Rightarrow> nat" where
  "id_block i = dec_val (takeWhile (\<lambda>c. c \<noteq> CHR '':'') i)"

definition forgetAppliedThrough :: "nat \<Rightarrow> indexer \<Rightarrow> indexer" where
  "forgetAppliedThrough block st = st\<lparr>ix_applied := filter (\<lambda>i. \<not> id_block i \<le> block) (ix_applied st)\<rparr>"

subsection \<open>One sync\<close>

definition advance_cursor :: "nat \<Rightarrow> indexer \<Rightarrow> indexer" where
  "advance_cursor block st = st\<lparr>ix_cursor := block, ix_store := (ix_store st)\<lparr>pj_cursor := block\<rparr>\<rparr>"

definition finish_sync :: "node \<Rightarrow> nat \<Rightarrow> nat \<Rightarrow> indexer \<Rightarrow> nat \<Rightarrow> indexer \<times> (sync_error + nat)" where
  "finish_sync nd fromBlock headBlock st applied =
     (case measureClears nd st of
        (st1, Some e) \<Rightarrow> (st1, Inl e)
      | (st1, None) \<Rightarrow>
          (case refreshTouchedMarkets nd headBlock st1 of
             (st2, Some e) \<Rightarrow> (st2, Inl e)
           | (st2, None) \<Rightarrow>
               (case rememberHashes nd fromBlock headBlock (forgetAppliedThrough headBlock (advance_cursor headBlock st2)) of
                  (st3, Some e) \<Rightarrow> (st3, Inl e)
                | (st3, None) \<Rightarrow> (st3, Inr applied))))"

definition syncTo :: "node \<Rightarrow> nat \<Rightarrow> indexer \<Rightarrow> indexer \<times> (sync_error + nat)" where
  "syncTo nd headBlock st =
     (let fromBlock = ix_cursor st + 1 in
      if headBlock < fromBlock then (st, Inr 0)
      else (case sweep nd 8 0 fromBlock headBlock None st 0 of
          (st1, Inl e) \<Rightarrow> (st1, Inl e)
        | (st1, Inr applied) \<Rightarrow> finish_sync nd fromBlock headBlock st1 applied))"

subsection \<open>Reorganisations\<close>

datatype reorg = Reorg (rg_ancestor: "nat option") (rg_from: nat) (rg_beyond: bool)

fun find_ancestor :: "(nat \<Rightarrow> string + string option) \<Rightarrow> indexer \<Rightarrow> nat list \<Rightarrow> sync_error + reorg option" where
  "find_ancestor hash_at st [] = Inr (Some (Reorg None (ix_cursor st) True))"
| "find_ancestor hash_at st (b # bs) =
     (if ix_cursor st \<le> b then find_ancestor hash_at st bs
      else bind_res (port_result (hash_at b)) (\<lambda>theirs.
        if truthy_text theirs \<noteq> None \<and> theirs = js_get (ix_hashes st) b
        then Inr (Some (Reorg (Some b) (ix_cursor st) False))
        else find_ancestor hash_at st bs))"

definition detectReorg :: "node \<Rightarrow> indexer \<Rightarrow> sync_error + reorg option" where
  "detectReorg nd st =
     (case nd_blockHash nd of
        None \<Rightarrow> Inr None
      | Some hash_at \<Rightarrow>
          if ix_cursor st = 0 \<or> ix_hashes st = [] then Inr None
          else (case truthy_text (js_get (ix_hashes st) (ix_cursor st)) of
             None \<Rightarrow> Inr None
           | Some known \<Rightarrow>
               bind_res (port_result (hash_at (ix_cursor st))) (\<lambda>current.
                 if truthy_text current = None \<or> current = Some known then Inr None
                 else find_ancestor hash_at st (rev (sort (map fst (ix_hashes st)))))))"

definition rebuild_index :: "node \<Rightarrow> nat \<Rightarrow> indexer \<Rightarrow> indexer \<times> (sync_error + nat)" where
  "rebuild_index nd headBlock st = syncTo nd headBlock
     (st\<lparr>ix_store := reset_store, ix_cursor := 0, ix_touched := [], ix_applied := [], ix_hashes := []\<rparr>)"

definition rewindTo :: "node \<Rightarrow> nat \<Rightarrow> nat \<Rightarrow> indexer \<Rightarrow> indexer \<times> (sync_error + nat)" where
  "rewindTo nd block headBlock st =
     rebuild_index nd headBlock (st\<lparr>ix_hashes := filter (\<lambda>(b, _). \<not> block < b) (ix_hashes st)\<rparr>)"

text \<open>The part of the process's poll that drives the indexer: one reading of the head, one pass.\<close>

definition poll_chain :: "node \<Rightarrow> nat \<Rightarrow> indexer \<Rightarrow> indexer \<times> sync_error option" where
  "poll_chain nd head st =
     (let failed = (\<lambda>(st', r). (st', case r of Inl e \<Rightarrow> Some e | Inr _ \<Rightarrow> None)) in
      case detectReorg nd st of
        Inl e \<Rightarrow> (st, Some e)
      | Inr (Some r) \<Rightarrow> failed (rewindTo nd (case rg_ancestor r of Some b \<Rightarrow> b | None \<Rightarrow> 0) head st)
      | Inr None \<Rightarrow> if ix_cursor st < head then failed (syncTo nd head st) else (st, None))"

subsection \<open>The log source (indexer/chain-source.mjs) as the process wires it\<close>

text \<open>
  \<open>publicClient.getLogs\<close> followed by viem's \<open>parseEventLogs\<close> is the parameter \<open>raw_logs\<close>: the
  decoded logs a set of addresses emitted in a range, or a throw. The source asks it for the
  factories, the configured rooms and the markets of the store, keeps the events that are
  indexed for each kind of contract, and orders them by block and index.
\<close>

type_synonym raw_logs = "string list \<Rightarrow> nat \<Rightarrow> nat \<Rightarrow> string + log list"

fun factory_event :: "chain_event \<Rightarrow> bool" where
  "factory_event (RoomCreated _ _ _ _) = True"
| "factory_event (MarketCreated _ _ _ _ _ _ _) = True"
| "factory_event _ = False"

fun room_event :: "chain_event \<Rightarrow> bool" where
  "room_event (SlotPublished _ _ _ _ _ _ _ _) = True"
| "room_event (RoomSuspended _) = True"
| "room_event (RoomReopened _) = True"
| "room_event (SlotsClosed _) = True"
| "room_event (RoomClosed _) = True"
| "room_event (RoomClosedByGateStall _) = True"
| "room_event (RoomEpochsMarkedSafe _) = True"
| "room_event (SlotCallSkipped _ _ _ _) = True"
| "room_event (IntegrityBondPosted _ _) = True"
| "room_event (IntegrityBondClaimed _ _) = True"
| "room_event (IntegrityBondForfeited _ _ _) = True"
| "room_event (IntegrityClaimFiled _ _ _ _) = True"
| "room_event (IntegrityClaimAdjudicated _ _) = True"
| "room_event (IntegrityClaimExpired _) = True"
| "room_event _ = False"

fun market_event :: "chain_event \<Rightarrow> bool" where
  "market_event (ActionSubmitted _ _ _ _ _) = True"
| "market_event (ActionExecuted _ _) = True"
| "market_event (ActionRefunded _ _) = True"
| "market_event (EpochMarkedSafe _ _) = True"
| "market_event GateSuspended = True"
| "market_event GateReopened = True"
| "market_event (ForecastingClosed _) = True"
| "market_event (Trade _ _ _ _ _) = True"
| "market_event (PositionTransferred _ _ _ _) = True"
| "market_event (LiquidityAdded _ _ _ _) = True"
| "market_event (LpFeesClaimed _ _) = True"
| "market_event (PositionsRedeemed _ _ _ _) = True"
| "market_event (LpInventorySettled _ _ _) = True"
| "market_event (ResultAttested _ _ _ _) = True"
| "market_event (ProvisionalResultRegistered _ _ _) = True"
| "market_event (ResultChallenged _ _) = True"
| "market_event (ChallengeVerdictAttested _ _ _) = True"
| "market_event (ResultFinalized _) = True"
| "market_event (WinnerRewardClaimed _ _) = True"
| "market_event (InvalidWinnerFeeRefunded _ _) = True"
| "market_event _ = False"

definition fetch_logs :: "raw_logs \<Rightarrow> string list \<Rightarrow> (chain_event \<Rightarrow> bool) \<Rightarrow> nat \<Rightarrow> nat \<Rightarrow> string + log list" where
  "fetch_logs raw addresses wanted fromBlock toBlock =
     (if addresses = [] then Inr []
      else map_sum id (filter (\<lambda>l. wanted (lg_event l))) (raw addresses fromBlock toBlock))"

definition known_markets :: "projection \<Rightarrow> string list" where
  "known_markets p = map (\<lambda>(_, r). row_text r ''market_address'') (pj_markets p)"

definition source_getLogs :: "raw_logs \<Rightarrow> string list \<Rightarrow> string list \<Rightarrow> projection \<Rightarrow> nat \<Rightarrow> nat \<Rightarrow> string + log list" where
  "source_getLogs raw factories rooms p fromBlock toBlock =
     (if toBlock < fromBlock then Inr []
      else bind_res (fetch_logs raw factories factory_event fromBlock toBlock) (\<lambda>fs.
        bind_res (fetch_logs raw rooms room_event fromBlock toBlock) (\<lambda>rs.
          bind_res (fetch_logs raw (known_markets p) market_event fromBlock toBlock) (\<lambda>ms.
            Inr (sort_key (\<lambda>l. (lg_block l, lg_index l)) (fs @ rs @ ms))))))"

end
