(* ===== verification/IndexerLedger.thy ===== *)
theory IndexerLedger
  imports IndexerSync
begin

section \<open>What the projections owe the logs\<close>

text \<open>
  The tables of the projection that decide money and outcomes, as sums and concatenations over
  the logs that were applied: every handler adds its log's share, no other step of the indexer
  touches them.
\<close>

subsection \<open>The ledger of a list of logs\<close>

datatype asset = PositionA | PositionB | LpShares

definition holding_amount :: "asset \<Rightarrow> holding \<Rightarrow> int" where
  "holding_amount x h = (case x of PositionA \<Rightarrow> hd_a h | PositionB \<Rightarrow> hd_b h | LpShares \<Rightarrow> hd_lp h)"

definition delta_amount :: "asset \<Rightarrow> delta \<Rightarrow> int" where
  "delta_amount x d = (case x of PositionA \<Rightarrow> dl_a d | PositionB \<Rightarrow> dl_b d | LpShares \<Rightarrow> dl_lp d)"

definition balance :: "projection \<Rightarrow> string \<Rightarrow> asset \<Rightarrow> int" where
  "balance p k x = (case js_get (pj_holdings p) k of Some h \<Rightarrow> holding_amount x h | None \<Rightarrow> 0)"

text \<open>What a log moves of an asset for the holding keyed \<open>k\<close>.\<close>

fun moves :: "log \<Rightarrow> chain_event \<Rightarrow> string \<Rightarrow> asset \<Rightarrow> int" where
  "moves l (Trade u a b i q) k x =
     (if k = holding_key (lg_address l) u then delta_amount x (side_delta a (if b then q else - i)) else 0)"
| "moves l (LiquidityAdded p s a b) k x =
     (if k = holding_key (lg_address l) p
      then delta_amount x \<lparr> dl_a = case_option 0 id a, dl_b = case_option 0 id b, dl_lp = s \<rparr> else 0)"
| "moves l (PositionTransferred f t a n) k x =
     (if k = holding_key (lg_address l) t then delta_amount x (side_delta a n) else 0)
     + (if k = holding_key (lg_address l) f then delta_amount x (side_delta a (- n)) else 0)"
| "moves l (PositionsRedeemed u a b n) k x =
     (if k = holding_key (lg_address l) u then delta_amount x \<lparr> dl_a = - a, dl_b = - b, dl_lp = 0 \<rparr> else 0)"
| "moves l (LpInventorySettled p s n) k x =
     (if k = holding_key (lg_address l) p then delta_amount x \<lparr> dl_a = 0, dl_b = 0, dl_lp = - s \<rparr> else 0)"
| "moves l _ k x = 0"

definition move :: "string \<Rightarrow> asset \<Rightarrow> log \<Rightarrow> int" where
  "move k x l = moves l (lg_event l) k x"

definition log_trades :: "log \<Rightarrow> trade_row list" where
  "log_trades l = (case lg_event l of
     Trade u a b i q \<Rightarrow> [\<lparr> tr_market = lg_address l, tr_account = u, tr_outcome_a = a, tr_is_buy = b,
       tr_amount_in = i, tr_amount_out = q, tr_block = lg_block l \<rparr>]
   | _ \<Rightarrow> [])"

definition claim_of :: "log \<Rightarrow> string \<Rightarrow> string \<Rightarrow> int \<Rightarrow> claim_row list" where
  "claim_of l account kind amount = [\<lparr> cl_market = lg_address l, cl_account = account, cl_kind = kind,
     cl_amount = amount, cl_block = lg_block l \<rparr>]"

definition log_claims :: "log \<Rightarrow> claim_row list" where
  "log_claims l = (case lg_event l of
     PositionsRedeemed u a b n \<Rightarrow> claim_of l u ''redeem'' n
   | LpInventorySettled p s n \<Rightarrow> claim_of l p ''lp_inventory'' n
   | LpFeesClaimed p n \<Rightarrow> claim_of l p ''lp_fees'' n
   | WinnerRewardClaimed r n \<Rightarrow> claim_of l r ''winner_reward'' n
   | InvalidWinnerFeeRefunded f n \<Rightarrow> claim_of l f ''winner_fee_refund'' n
   | _ \<Rightarrow> [])"

definition log_attestations :: "log \<Rightarrow> attestation_row list" where
  "log_attestations l = (case lg_event l of
     ResultAttested r q e c \<Rightarrow> [\<lparr> at_market = lg_address l, at_resolver = r, at_outcome = q, at_evidence = e,
       at_count = c, at_block = lg_block l \<rparr>]
   | _ \<Rightarrow> [])"

definition log_verdicts :: "log \<Rightarrow> challenge_verdict_row list" where
  "log_verdicts l = (case lg_event l of
     ChallengeVerdictAttested r a c \<Rightarrow> [\<lparr> vd_market = lg_address l, vd_resolver = r, vd_accept = a, vd_count = c,
       vd_block = lg_block l \<rparr>]
   | _ \<Rightarrow> [])"

record ledger =
  le_balance :: "string \<Rightarrow> asset \<Rightarrow> int"
  le_trades :: "trade_row list"
  le_claims :: "claim_row list"
  le_attestations :: "attestation_row list"
  le_verdicts :: "challenge_verdict_row list"

definition ledger_of :: "projection \<Rightarrow> ledger" where
  "ledger_of p = \<lparr> le_balance = balance p, le_trades = pj_trades p, le_claims = pj_claims p,
     le_attestations = pj_attestations p, le_verdicts = pj_verdicts p \<rparr>"

definition post_log :: "log \<Rightarrow> ledger \<Rightarrow> ledger" where
  "post_log l e = \<lparr> le_balance = (\<lambda>k x. le_balance e k x + move k x l), le_trades = le_trades e @ log_trades l,
     le_claims = le_claims e @ log_claims l, le_attestations = le_attestations e @ log_attestations l,
     le_verdicts = le_verdicts e @ log_verdicts l \<rparr>"

definition empty_ledger :: ledger where
  "empty_ledger = \<lparr> le_balance = (\<lambda>_ _. 0), le_trades = [], le_claims = [], le_attestations = [], le_verdicts = [] \<rparr>"

definition posted :: "log list \<Rightarrow> ledger" where
  "posted ls = foldl (\<lambda>e l. post_log l e) empty_ledger ls"

lemma posted_simps [simp]: "posted [] = empty_ledger" "posted (ls @ [l]) = post_log l (posted ls)"
  by (simp_all add: posted_def)

lemma posted_parts:
  "le_balance (posted ls) k x = (\<Sum>l \<leftarrow> ls. move k x l)" "le_trades (posted ls) = concat (map log_trades ls)"
  "le_claims (posted ls) = concat (map log_claims ls)"
  "le_attestations (posted ls) = concat (map log_attestations ls)"
  "le_verdicts (posted ls) = concat (map log_verdicts ls)"
  by (induction ls rule: rev_induct) (simp_all add: empty_ledger_def post_log_def)

subsection \<open>What leaves the ledger alone\<close>

named_theorems quiet_simps \<open>operations that do not touch the ledger\<close>

lemma ledger_upserts [quiet_simps]:
  "ledger_of (upsertRoom r p) = ledger_of p" "ledger_of (upsertSlot r p) = ledger_of p"
  "ledger_of (upsertMarket r p) = ledger_of p" "ledger_of (upsertAction r p) = ledger_of p"
  "ledger_of (upsertIntegrityClaim r p) = ledger_of p" "ledger_of (upsertBond r p) = ledger_of p"
  "ledger_of (appendSkip s p) = ledger_of p" "ledger_of (recordSafeEpoch m e q b p) = ledger_of p"
  "ledger_of (p\<lparr>pj_cursor := b\<rparr>) = ledger_of p"
  by (simp_all add: ledger_of_def upsertRoom_def upsertSlot_def upsertMarket_def upsertAction_def
      upsertIntegrityClaim_def upsertBond_def appendSkip_def recordSafeEpoch_def balance_def Let_def fun_eq_iff)

lemma ledger_reset [simp]: "ledger_of reset_store = empty_ledger"
  by (simp add: ledger_of_def empty_ledger_def reset_store_def balance_def fun_eq_iff)

lemma append_tables [simp]:
  "balance (appendTrade t p) = balance p" "pj_trades (appendTrade t p) = pj_trades p @ [t]"
  "pj_claims (appendTrade t p) = pj_claims p" "pj_attestations (appendTrade t p) = pj_attestations p"
  "pj_verdicts (appendTrade t p) = pj_verdicts p"
  "balance (appendClaim c p) = balance p" "pj_trades (appendClaim c p) = pj_trades p"
  "pj_claims (appendClaim c p) = pj_claims p @ [c]" "pj_attestations (appendClaim c p) = pj_attestations p"
  "pj_verdicts (appendClaim c p) = pj_verdicts p"
  "balance (appendAttestation a p) = balance p" "pj_trades (appendAttestation a p) = pj_trades p"
  "pj_claims (appendAttestation a p) = pj_claims p" "pj_attestations (appendAttestation a p) = pj_attestations p @ [a]"
  "pj_verdicts (appendAttestation a p) = pj_verdicts p"
  "balance (appendChallengeVerdict v p) = balance p" "pj_trades (appendChallengeVerdict v p) = pj_trades p"
  "pj_claims (appendChallengeVerdict v p) = pj_claims p" "pj_attestations (appendChallengeVerdict v p) = pj_attestations p"
  "pj_verdicts (appendChallengeVerdict v p) = pj_verdicts p @ [v]"
  by (simp_all add: appendTrade_def appendClaim_def appendAttestation_def appendChallengeVerdict_def balance_def fun_eq_iff)

lemma balance_adjust:
  "balance (adjustHolding m a d b p) k x = balance p k x + (if k = holding_key m a then delta_amount x d else 0)"
  by (auto simp: balance_def adjustHolding_def Let_def port_simps holding_amount_def delta_amount_def
      empty_holding_def split: asset.splits option.splits)

lemma tables_adjust [simp]:
  "pj_trades (adjustHolding m a d b p) = pj_trades p" "pj_claims (adjustHolding m a d b p) = pj_claims p"
  "pj_attestations (adjustHolding m a d b p) = pj_attestations p" "pj_verdicts (adjustHolding m a d b p) = pj_verdicts p"
  by (simp_all add: adjustHolding_def Let_def)

lemma store_steps [simp]:
  "ix_store (touch m st) = ix_store st" "ix_store (on_store f st) = f (ix_store st)"
  "ix_applied (touch m st) = ix_applied st" "ix_applied (on_store f st) = ix_applied st"
  "ix_cursor (touch m st) = ix_cursor st" "ix_cursor (on_store f st) = ix_cursor st"
  by (simp_all add: touch_def on_store_def)

lemma with_room_Inr: "with_room l f st = Inr st' \<longleftrightarrow>
  (\<exists>r. roomByAddress (ix_store st) (lg_address l) = Inr r \<and> st' = f (row_get r ''room_id'') st)"
  by (cases "roomByAddress (ix_store st) (lg_address l)") (auto simp: with_room_def)

subsection \<open>A handler posts its log\<close>

abbreviation ledger :: "indexer \<Rightarrow> ledger" where
  "ledger st \<equiv> ledger_of (ix_store st)"

lemma ledger_pending [simp]: "ix_store (st\<lparr>ix_pending := x\<rparr>) = ix_store st"
  by simp

lemma ledger_touch [simp]: "ledger (touch m st) = ledger st"
  by simp

lemma ledger_set_slot [simp]: "ledger (set_slot l s r st) = ledger st"
  by (simp add: set_slot_def quiet_simps split: option.split)

lemma ledger_settle [simp]: "ledger (maybeSettleRoom r b st) = ledger st"
  by (simp add: maybeSettleRoom_def settle_room_state_def quiet_simps Let_def split: option.split)

lemma ledger_with_room:
  assumes "with_room l f st = Inr st'" "\<And>r. ledger (f r st) = ledger st"
  shows "ledger st' = ledger st"
  using assms by (auto simp: with_room_Inr)

lemma quiet_room_events:
  "onSlotPublished slotMeta l m i t r c n u x st = Inr st' \<Longrightarrow> ledger st' = ledger st"
  "onRoomSequence l s st = Inr st' \<Longrightarrow> ledger st' = ledger st"
  "onRoomClosed l s st = Inr st' \<Longrightarrow> ledger st' = ledger st"
  "onRoomClosedByGateStall l s st = Inr st' \<Longrightarrow> ledger st' = ledger st"
  "onSlotCallSkipped l m s a b st = Inr st' \<Longrightarrow> ledger st' = ledger st"
  "bond l p ms st = Inr st' \<Longrightarrow> ledger st' = ledger st"
  "integrityClaim l s ms st = Inr st' \<Longrightarrow> ledger st' = ledger st"
  unfolding onSlotPublished_def onRoomSequence_def onRoomClosed_def onRoomClosedByGateStall_def onSlotCallSkipped_def
    bond_def integrityClaim_def
  by (erule ledger_with_room, simp add: quiet_simps Let_def)+

lemma quiet_market_events:
  "ledger (onRoomCreated l r a p g st) = ledger st" "ledger (onMarketCreated l m r i t c q u st) = ledger st"
  "ledger (onActionSubmitted l i e k u n st) = ledger st" "ledger (onActionExecuted l i n st) = ledger st"
  "ledger (onActionRefunded l i n st) = ledger st" "ledger (onEpochMarkedSafe l e s st) = ledger st"
  "ledger (onForecastingClosed l s st) = ledger st" "ledger (onProvisionalResultRegistered l i q n st) = ledger st"
  "ledger (onResultChallenged l q c st) = ledger st"
  by (simp_all add: onRoomCreated_def onMarketCreated_def onActionSubmitted_def onActionExecuted_def
      onActionRefunded_def onEpochMarkedSafe_def onForecastingClosed_def onProvisionalResultRegistered_def
      onResultChallenged_def quiet_simps Let_def)

lemma quiet_finalized: "ledger (onResultFinalized l q st) = ledger st"
  by (simp add: onResultFinalized_def quiet_simps Let_def split: option.split)

subsection \<open>A handler posts its log\<close>

lemmas post_simps = post_log_def move_def log_trades_def log_claims_def claim_of_def log_attestations_def log_verdicts_def

lemma post_money:
  "lg_event l = Trade u a b i q \<Longrightarrow> ledger (onTrade l u a b i q st) = post_log l (ledger st)"
  "lg_event l = LiquidityAdded p s x y \<Longrightarrow> ledger (onLiquidityAdded l p s x y st) = post_log l (ledger st)"
  "lg_event l = PositionTransferred f t a n \<Longrightarrow> ledger (onPositionTransferred l f t a n st) = post_log l (ledger st)"
  by (simp_all add: post_simps onTrade_def onLiquidityAdded_def onPositionTransferred_def adjust_def
      ledger_of_def balance_adjust fun_eq_iff option.case_eq_if)

lemma post_claims:
  "lg_event l = PositionsRedeemed u x y n \<Longrightarrow> ledger (onPositionsRedeemed l u x y n st) = post_log l (ledger st)"
  "lg_event l = LpInventorySettled p s n \<Longrightarrow> ledger (onLpInventorySettled l p s n st) = post_log l (ledger st)"
  "lg_event l = LpFeesClaimed p n \<Longrightarrow> ledger (onLpFeesClaimed l p n st) = post_log l (ledger st)"
  "lg_event l = WinnerRewardClaimed r n \<Longrightarrow> ledger (onWinnerRewardClaimed l r n st) = post_log l (ledger st)"
  "lg_event l = InvalidWinnerFeeRefunded f n \<Longrightarrow> ledger (onInvalidWinnerFeeRefunded l f n st) = post_log l (ledger st)"
  by (simp_all add: post_simps onPositionsRedeemed_def onLpInventorySettled_def onLpFeesClaimed_def
      onWinnerRewardClaimed_def onInvalidWinnerFeeRefunded_def claimed_def adjust_def
      ledger_of_def balance_adjust no_delta_def fun_eq_iff)

lemma post_votes:
  "lg_event l = ResultAttested r q e c \<Longrightarrow> ledger (onResultAttested l r q e c st) = post_log l (ledger st)"
  "lg_event l = ChallengeVerdictAttested r a c \<Longrightarrow> ledger (onChallengeVerdictAttested l r a c st) = post_log l (ledger st)"
  by (simp_all add: post_simps onResultAttested_def onChallengeVerdictAttested_def ledger_of_def)

lemma post_quiet: "post_log l e = e" if
  "log_trades l = []" "log_claims l = []" "log_attestations l = []" "log_verdicts l = []" "\<And>k x. move k x l = 0"
  using that by (simp add: post_log_def)

lemmas quiet_log = post_quiet [unfolded log_trades_def log_claims_def log_attestations_def log_verdicts_def move_def]

lemma apply_log_posts:
  assumes "apply_log meta l st = Inr st'"
  shows "ledger st' = post_log l (ledger st)"
  using assms unfolding apply_log_def
  by (cases "lg_event l")
    (auto simp: post_money post_claims post_votes quiet_market_events quiet_finalized quiet_log
      onIntegrityClaimFiled_def onIntegrityClaimAdjudicated_def onIntegrityClaimExpired_def dest!: quiet_room_events)

subsection \<open>What a handler leaves of the bookkeeping\<close>

text \<open>The parts of the indexer only the passes change.\<close>

definition sync_part :: "indexer \<Rightarrow> string list \<times> nat \<times> (nat, string) js_map \<times> int list" where
  "sync_part st = (ix_applied st, ix_cursor st, ix_hashes st, ix_samples st)"

lemma frame_steps [simp]: "sync_part (touch m st) = sync_part st" "sync_part (on_store f st) = sync_part st"
  "sync_part (st\<lparr>ix_pending := x\<rparr>) = sync_part st"
  by (simp_all add: sync_part_def touch_def on_store_def)

lemma frame_slot [simp]: "sync_part (set_slot l s r st) = sync_part st" "sync_part (maybeSettleRoom c b st) = sync_part st"
  by (simp_all add: set_slot_def maybeSettleRoom_def settle_room_state_def Let_def split: option.split)

lemma frame_with_room: "with_room l f st = Inr st' \<Longrightarrow> (\<And>r. sync_part (f r st) = sync_part st) \<Longrightarrow> sync_part st' = sync_part st"
  by (auto simp: with_room_Inr)

lemma frame_room_events:
  "onSlotPublished slotMeta l m i t r c n u x st = Inr st' \<Longrightarrow> sync_part st' = sync_part st"
  "onRoomSequence l s st = Inr st' \<Longrightarrow> sync_part st' = sync_part st" "onRoomClosed l s st = Inr st' \<Longrightarrow> sync_part st' = sync_part st"
  "onRoomClosedByGateStall l s st = Inr st' \<Longrightarrow> sync_part st' = sync_part st"
  "onSlotCallSkipped l m s a b st = Inr st' \<Longrightarrow> sync_part st' = sync_part st" "bond l p ms st = Inr st' \<Longrightarrow> sync_part st' = sync_part st"
  "integrityClaim l s ms st = Inr st' \<Longrightarrow> sync_part st' = sync_part st"
  unfolding onSlotPublished_def onRoomSequence_def onRoomClosed_def onRoomClosedByGateStall_def onSlotCallSkipped_def
    bond_def integrityClaim_def
  by (erule frame_with_room, simp add: Let_def)+

lemmas market_handler_defs = onRoomCreated_def onMarketCreated_def onActionSubmitted_def onActionExecuted_def
  onActionRefunded_def onEpochMarkedSafe_def onTrade_def onLiquidityAdded_def onPositionTransferred_def claimed_def
  adjust_def onPositionsRedeemed_def onLpInventorySettled_def onLpFeesClaimed_def onWinnerRewardClaimed_def
  onInvalidWinnerFeeRefunded_def onForecastingClosed_def onResultAttested_def onProvisionalResultRegistered_def
  onResultChallenged_def onChallengeVerdictAttested_def

lemma frame_finalized: "sync_part (onResultFinalized l q st) = sync_part st"
  by (simp add: onResultFinalized_def Let_def split: option.split)

lemmas claim_events = onIntegrityClaimFiled_def onIntegrityClaimAdjudicated_def onIntegrityClaimExpired_def

lemma apply_log_frame:
  assumes "apply_log meta l st = Inr st'"
  shows "sync_part st' = sync_part st"
  using assms unfolding apply_log_def
  by (cases "lg_event l") (auto simp: market_handler_defs claim_events frame_finalized Let_def dest!: frame_room_events)

lemma frame_eq: "sync_part st' = sync_part st \<longleftrightarrow> ix_applied st' = ix_applied st \<and> ix_cursor st' = ix_cursor st
  \<and> ix_hashes st' = ix_hashes st \<and> ix_samples st' = ix_samples st"
  by (auto simp: sync_part_def)

subsection \<open>Log identities\<close>

lemma digits_no_colon: "list_all is_digit s \<Longrightarrow> CHR '':'' \<notin> set s"
  by (auto simp: list_all_iff is_digit_def)

lemma takeWhile_colon: "CHR '':'' \<notin> set a \<Longrightarrow> takeWhile (\<lambda>c. c \<noteq> CHR '':'') (colon a b) = a"
  by (induction a) (auto simp: colon_def)

lemma id_block_log_id [simp]: "id_block (log_id l) = lg_block l"
  by (simp add: id_block_def log_id_def takeWhile_colon digits_no_colon text_simps)

lemma set_set_add [simp]: "set (set_add x xs) = insert x (set xs)"
  by (auto simp: set_add_def)

subsection \<open>The books\<close>

text \<open>
  A state is in order with a list of logs when the ledger is that of these logs, no two of them
  share an identity, and the identities it remembers are those above its cursor.
\<close>

definition books :: "log list \<Rightarrow> indexer \<Rightarrow> bool" where
  "books ls st \<longleftrightarrow> distinct (map log_id ls) \<and> ledger st = posted ls
     \<and> set (ix_applied st) = log_id ` {l \<in> set ls. ix_cursor st < lg_block l}"

lemma books_new [simp]: "books [] new_indexer"
  by (simp add: books_def new_indexer_def)

lemma books_cong: "books ls st \<Longrightarrow> ledger st' = ledger st \<Longrightarrow> ix_applied st' = ix_applied st \<Longrightarrow> ix_cursor st' = ix_cursor st
  \<Longrightarrow> books ls st'"
  by (simp add: books_def)

lemma books_fresh:
  assumes "books ls st" "ix_cursor st < lg_block l" "log_id l \<notin> set (ix_applied st)"
  shows "log_id l \<notin> log_id ` set ls"
proof
  assume "log_id l \<in> log_id ` set ls"
  then obtain l' where l': "l' \<in> set ls" "log_id l' = log_id l" by auto
  then have "lg_block l' = lg_block l" by (metis id_block_log_id)
  with assms(2) l'(1) have "log_id l' \<in> log_id ` {l \<in> set ls. ix_cursor st < lg_block l}" by simp
  with assms(1,3) l'(2) show False by (simp add: books_def)
qed

lemma books_apply:
  assumes "books ls st" "ix_cursor st < lg_block l" "log_id l \<notin> set (ix_applied st)" "apply_log meta l st = Inr st1"
  shows "books (ls @ [l]) (st1\<lparr>ix_applied := set_add (log_id l) (ix_applied st1)\<rparr>)"
proof -
  from apply_log_frame [OF assms(4)] have f: "ix_applied st1 = ix_applied st" "ix_cursor st1 = ix_cursor st"
    by (simp_all add: frame_eq)
  have "{l' \<in> set (ls @ [l]). ix_cursor st < lg_block l'} = insert l {l' \<in> set ls. ix_cursor st < lg_block l'}"
    using assms(2) by auto
  with assms(1) books_fresh [OF assms(1-3)] apply_log_posts [OF assms(4)] f show ?thesis
    by (simp add: books_def)
qed

text \<open>The logs a pass applied, as a step relation between its states.\<close>

inductive applies :: "slot_meta \<Rightarrow> indexer \<Rightarrow> log list \<Rightarrow> indexer \<Rightarrow> bool" for meta where
  applies_Nil: "applies meta st [] st"
| applies_Cons: "log_id l \<notin> set (ix_applied st) \<Longrightarrow> apply_log meta l st = Inr st1 \<Longrightarrow>
    applies meta (st1\<lparr>ix_applied := set_add (log_id l) (ix_applied st1)\<rparr>) ls st' \<Longrightarrow> applies meta st (l # ls) st'"

lemma apply_logs_applies:
  assumes "apply_logs meta logs st n = (st', r)"
  shows "\<exists>new. applies meta st new st' \<and> set new \<subseteq> set logs
    \<and> (\<forall>m. r = Inr m \<longrightarrow> log_id ` set logs \<subseteq> log_id ` set new \<union> set (ix_applied st))"
  using assms
proof (induction meta logs st n rule: apply_logs.induct)
  case (1 meta st applied)
  then show ?case by (auto intro: applies_Nil)
next
  case (2 meta l logs st applied)
  show ?case
  proof (cases "log_id l \<in> set (ix_applied st)")
    case True
    with 2(3) have "apply_logs meta logs st applied = (st', r)" by simp
    from 2(1) [OF True this] True show ?thesis by auto
  next
    case False
    show ?thesis
    proof (cases "apply_log meta l st")
      case (Inl e)
      with False 2(3) show ?thesis by (auto intro: applies_Nil)
    next
      case (Inr st1)
      with 2(2) [OF False Inr] 2(3) False obtain new where
        "applies meta (st1\<lparr>ix_applied := set_add (log_id l) (ix_applied st1)\<rparr>) new st'" "set new \<subseteq> set logs"
        "\<forall>m. r = Inr m \<longrightarrow> log_id ` set logs \<subseteq> log_id ` set new \<union> insert (log_id l) (set (ix_applied st))"
        using apply_log_frame [OF Inr] by (auto simp: frame_eq)
      with applies_Cons [OF False Inr] show ?thesis by (intro exI [of _ "l # new"]) auto
    qed
  qed
qed

lemma applies_append: "applies meta st xs st1 \<Longrightarrow> applies meta st1 ys st2 \<Longrightarrow> applies meta st (xs @ ys) st2"
  by (induction rule: applies.induct) (auto intro: applies_Cons)

lemma applies_cursor: "applies meta st new st' \<Longrightarrow> ix_cursor st' = ix_cursor st"
  by (induction rule: applies.induct) (auto dest: apply_log_frame simp: frame_eq)

lemma applies_books:
  assumes "applies meta st new st'" "books ls st" "\<forall>l \<in> set new. ix_cursor st < lg_block l"
  shows "books (ls @ new) st'"
  using assms
proof (induction arbitrary: ls rule: applies.induct)
  case (applies_Cons l st st1 new st')
  from apply_log_frame [OF applies_Cons.hyps(2)] have c: "ix_cursor st1 = ix_cursor st" by (simp add: frame_eq)
  have "books (ls @ [l]) (st1\<lparr>ix_applied := set_add (log_id l) (ix_applied st1)\<rparr>)"
    using applies_Cons.prems applies_Cons.hyps(1,2) by (intro books_apply) auto
  from applies_Cons.IH [OF this] applies_Cons.prems(2) c show ?case by simp
qed simp

end
