(* ===== verification/IndexerRuns.thy ===== *)
theory IndexerRuns
  imports IndexerLedger
begin

section \<open>Whatever the node answers, each log is posted at most once\<close>

text \<open>
  A pass of the indexer, from any state in order with some logs, ends in a state in order with
  those and the new ones it applied, also when the pass throws.
\<close>

definition in_range :: "node \<Rightarrow> bool" where
  "in_range nd \<longleftrightarrow> (\<forall>n p f t ls. nd_getLogs nd n p f t = Inr ls \<longrightarrow> (\<forall>l \<in> set ls. f \<le> lg_block l \<and> lg_block l \<le> t))"

definition offered :: "node \<Rightarrow> log \<Rightarrow> bool" where
  "offered nd l \<longleftrightarrow> (\<exists>n p f t ls. nd_getLogs nd n p f t = Inr ls \<and> l \<in> set ls)"

subsection \<open>The passes that only read\<close>

text \<open>What the bookkeeping of the ledger depends on.\<close>

definition same_books :: "indexer \<Rightarrow> indexer \<Rightarrow> bool" where
  "same_books st st' \<longleftrightarrow> ledger st' = ledger st \<and> ix_applied st' = ix_applied st \<and> ix_cursor st' = ix_cursor st"

lemma same_books_refl [simp]: "same_books st st"
  by (simp add: same_books_def)

lemma same_books_trans: "same_books st st' \<Longrightarrow> same_books st' st'' \<Longrightarrow> same_books st st''"
  by (simp add: same_books_def)

lemma books_same: "books ls st \<Longrightarrow> same_books st st' \<Longrightarrow> books ls st'"
  by (simp add: books_def same_books_def)

lemma measure_pairs_store:
  "measure_pairs time_of ps st = (st', r) \<Longrightarrow>
    ix_store st' = ix_store st \<and> ix_applied st' = ix_applied st \<and> ix_cursor st' = ix_cursor st"
proof (induction time_of ps st rule: measure_pairs.induct)
  case (2 time_of key pair rest st)
  then show ?case
    by (auto split: option.splits sum.splits simp: Let_def)
qed simp

lemma measureClears_store: "measureClears nd st = (st', r) \<Longrightarrow>
    ix_store st' = ix_store st \<and> ix_applied st' = ix_applied st \<and> ix_cursor st' = ix_cursor st"
  by (auto simp: measureClears_def dest!: measure_pairs_store split: option.splits prod.splits)

lemma ledger_syncSlotState [simp]: "ledger_of (syncSlotState m b p) = ledger_of p"
  by (simp add: syncSlotState_def quiet_simps split: option.split)

lemma refresh_markets_ledger: "refresh_markets read b ms p = (p', r) \<Longrightarrow> ledger_of p' = ledger_of p"
  by (induction read b ms p rule: refresh_markets.induct) (auto simp: quiet_simps split: sum.splits)

lemma refreshTouched_books: "refreshTouchedMarkets nd b st = (st', r) \<Longrightarrow> same_books st st'"
  by (auto simp: refreshTouchedMarkets_def same_books_def dest!: refresh_markets_ledger split: option.splits prod.splits)

lemma rememberHashes_store: "rememberHashes nd f t st = (st', r) \<Longrightarrow>
    ix_store st' = ix_store st \<and> ix_applied st' = ix_applied st \<and> ix_cursor st' = ix_cursor st"
  by (auto simp: rememberHashes_def Let_def split: option.splits prod.splits)

lemma measureClears_books: "measureClears nd st = (st', r) \<Longrightarrow> same_books st st'"
  by (auto simp: same_books_def dest!: measureClears_store)

lemma rememberHashes_books: "rememberHashes nd f t st = (st', r) \<Longrightarrow> same_books st st'"
  by (auto simp: same_books_def dest!: rememberHashes_store)

lemma books_advance:
  assumes "books ls st" "ix_cursor st \<le> b"
  shows "books ls (forgetAppliedThrough b (advance_cursor b st))"
proof -
  have "log_id ` {l \<in> set ls. b < lg_block l}
      = {i \<in> log_id ` {l \<in> set ls. ix_cursor st < lg_block l}. \<not> id_block i \<le> b}"
    using assms(2) by (auto simp: image_iff)
  with assms(1) show ?thesis
    by (simp add: books_def forgetAppliedThrough_def advance_cursor_def quiet_simps)
qed

subsection \<open>A sync\<close>

text \<open>One sweep: what it fetched, what it applied, and how the sync goes on.\<close>

lemma sweep_step:
  assumes "sweep nd (Suc k) n f t seen st c = (st', r)"
  obtains (failed) e where "st' = st" "r = Inl e"
    | (swept) logs new st1 c1 where "nd_getLogs nd n (ix_store st) f t = Inr logs" "applies (nd_slotMeta nd) st new st1"
        "set new \<subseteq> set logs" "log_id ` set logs \<subseteq> log_id ` set new \<union> set (ix_applied st) \<or> (\<exists>e. r = Inl e)"
        "st1 = st' \<and> (seen = None \<longrightarrow> (\<exists>e. r = Inl e))
          \<or> sweep nd k (n + 1) f t (Some (knownAddressCount (ix_store st1))) st1 c1 = (st', r)"
proof (cases "nd_getLogs nd n (ix_store st) f t")
  case (Inl e)
  with assms show ?thesis by (intro failed [of "PortError e"]) (simp_all add: port_result_def)
next
  case (Inr logs)
  obtain st1 r1 where a: "apply_logs (nd_slotMeta nd) logs st c = (st1, r1)" by fastforce
  from apply_logs_applies [OF a] obtain new where new: "applies (nd_slotMeta nd) st new st1" "set new \<subseteq> set logs"
      "\<forall>m. r1 = Inr m \<longrightarrow> log_id ` set logs \<subseteq> log_id ` set new \<union> set (ix_applied st)" by blast
  show ?thesis
  proof (cases r1)
    case (Inl e)
    with a Inr assms have "st1 = st'" "r = Inl e" by (simp_all add: port_result_def)
    with swept [OF Inr new(1,2)] show ?thesis by blast
  next
    case (Inr m)
    with a \<open>nd_getLogs nd n (ix_store st) f t = Inr logs\<close> assms
    have "if seen = Some (knownAddressCount (ix_store st1)) then (st1, Inr m) = (st', r)
        else sweep nd k (n + 1) f t (Some (knownAddressCount (ix_store st1))) st1 m = (st', r)"
      by (simp add: port_result_def Let_def split: if_splits)
    with swept [OF \<open>nd_getLogs nd n (ix_store st) f t = Inr logs\<close> new(1,2)] new(3) Inr show ?thesis
      by (auto split: if_splits)
  qed
qed

lemma sweep_applies:
  assumes "sweep nd k n f t seen st c = (st', r)"
  shows "\<exists>new. applies (nd_slotMeta nd) st new st' \<and> (\<forall>l \<in> set new. \<exists>n p ls. nd_getLogs nd n p f t = Inr ls \<and> l \<in> set ls)"
  using assms
proof (induction k arbitrary: n seen st c)
  case 0
  then show ?case by (auto intro!: exI [of _ "[]"] applies_Nil)
next
  case (Suc k)
  from Suc.prems show ?case
  proof (cases rule: sweep_step)
    case failed
    then show ?thesis by (auto intro!: exI [of _ "[]"] applies_Nil)
  next
    case (swept logs new st1 c1)
    from swept(1,3) have o: "\<forall>l \<in> set new. \<exists>n p ls. nd_getLogs nd n p f t = Inr ls \<and> l \<in> set ls" by blast
    from swept(5) show ?thesis
    proof
      assume "st1 = st' \<and> (seen = None \<longrightarrow> (\<exists>e. r = Inl e))"
      with swept(2) o show ?thesis by blast
    next
      assume "sweep nd k (n + 1) f t (Some (knownAddressCount (ix_store st1))) st1 c1 = (st', r)"
      from Suc.IH [OF this] obtain new' where "applies (nd_slotMeta nd) st1 new' st'"
        "\<forall>l \<in> set new'. \<exists>n p ls. nd_getLogs nd n p f t = Inr ls \<and> l \<in> set ls" by blast
      with applies_append [OF swept(2)] o show ?thesis by (intro exI [of _ "new @ new'"]) auto
    qed
  qed
qed

lemma sweep_books:
  assumes "sweep nd k n f t seen st c = (st', r)" "books ls st" "in_range nd" "ix_cursor st < f"
  shows "\<exists>new. books (ls @ new) st' \<and> ix_cursor st' = ix_cursor st \<and> (\<forall>l \<in> set new. offered nd l)"
proof -
  from sweep_applies [OF assms(1)] obtain new where
    new: "applies (nd_slotMeta nd) st new st'" "\<forall>l \<in> set new. \<exists>n p ls. nd_getLogs nd n p f t = Inr ls \<and> l \<in> set ls"
    by blast
  from new(2) assms(3,4) have "\<forall>l \<in> set new. ix_cursor st < lg_block l"
    unfolding in_range_def by (meson less_le_trans)
  from applies_books [OF new(1) assms(2) this] applies_cursor [OF new(1)] new(2) show ?thesis
    unfolding offered_def by blast
qed

lemma finish_sync_books:
  assumes "finish_sync nd f b st c = (st', r)" "books ls st" "ix_cursor st \<le> b"
  shows "books ls st'"
proof -
  obtain st1 r1 where 1: "measureClears nd st = (st1, r1)" by fastforce
  obtain st2 r2 where 2: "refreshTouchedMarkets nd b st1 = (st2, r2)" by fastforce
  obtain st3 r3 where 3: "rememberHashes nd f b (forgetAppliedThrough b (advance_cursor b st2)) = (st3, r3)" by fastforce
  from books_same [OF assms(2) measureClears_books [OF 1]] have b1: "books ls st1" .
  from books_same [OF b1 refreshTouched_books [OF 2]] have b2: "books ls st2" .
  from measureClears_books [OF 1] refreshTouched_books [OF 2] assms(3) have "ix_cursor st2 \<le> b"
    by (simp add: same_books_def)
  from books_same [OF books_advance [OF b2 this] rememberHashes_books [OF 3]] have "books ls st3" .
  with 1 2 3 b1 b2 assms(1) show ?thesis by (auto simp: finish_sync_def split: option.splits)
qed

lemma syncTo_books:
  assumes "syncTo nd b st = (st', r)" "books ls st" "in_range nd"
  shows "\<exists>new. books (ls @ new) st' \<and> (\<forall>l \<in> set new. offered nd l)"
proof (cases "b < ix_cursor st + 1")
  case True
  with assms show ?thesis by (intro exI [of _ "[]"]) (simp add: syncTo_def Let_def)
next
  case False
  obtain st1 r1 where s: "sweep nd 8 0 (ix_cursor st + 1) b None st 0 = (st1, r1)" by fastforce
  from sweep_books [OF s assms(2,3)] obtain new where
    n: "books (ls @ new) st1" "ix_cursor st1 = ix_cursor st" "\<forall>l \<in> set new. offered nd l" by auto
  have "books (ls @ new) st'"
  proof (cases r1)
    case (Inl e)
    with False s n assms(1) show ?thesis by (simp add: syncTo_def Let_def)
  next
    case (Inr c)
    with False s assms(1) have "finish_sync nd (ix_cursor st + 1) b st1 c = (st', r)" by (simp add: syncTo_def Let_def)
    from finish_sync_books [OF this n(1)] n(2) False show ?thesis by simp
  qed
  with n(3) show ?thesis by blast
qed

subsection \<open>Polls\<close>

lemma rebuild_books:
  assumes "rebuild_index nd b st = (st', r)" "in_range nd"
  shows "\<exists>ls. books ls st' \<and> (\<forall>l \<in> set ls. offered nd l)"
proof -
  have "books [] (st\<lparr>ix_store := reset_store, ix_cursor := 0, ix_touched := [], ix_applied := [], ix_hashes := []\<rparr>)"
    by (simp add: books_def)
  from syncTo_books [OF assms(1) [unfolded rebuild_index_def] this assms(2)] show ?thesis by fastforce
qed

lemma poll_books:
  assumes "poll_chain nd head st = (st', r)" "books ls st" "in_range nd"
  shows "\<exists>ls'. books ls' st' \<and> (\<forall>l \<in> set ls'. l \<in> set ls \<or> offered nd l)"
proof -
  consider (none) "st' = st" | (rewind) b r' where "rewindTo nd b head st = (st', r')"
    | (sync) r' where "syncTo nd head st = (st', r')"
    using assms(1) unfolding poll_chain_def Let_def
    by (auto split: sum.splits option.splits if_splits prod.splits)
  then show ?thesis
  proof cases
    case none
    with assms(2) show ?thesis by blast
  next
    case rewind
    with rebuild_books assms(3) show ?thesis unfolding rewindTo_def by blast
  next
    case sync
    from syncTo_books [OF this assms(2,3)] obtain new where
      "books (ls @ new) st'" "\<forall>l \<in> set new. offered nd l" by auto
    then show ?thesis by (intro exI [of _ "ls @ new"]) auto
  qed
qed

fun run_polls :: "(node \<times> nat) list \<Rightarrow> indexer \<Rightarrow> indexer" where
  "run_polls [] st = st"
| "run_polls ((nd, head) # rest) st = run_polls rest (fst (poll_chain nd head st))"

lemma run_polls_books:
  assumes "\<forall>(nd, head) \<in> set polls. in_range nd" "books ls st"
  shows "\<exists>ls'. books ls' (run_polls polls st) \<and> (\<forall>l \<in> set ls'. l \<in> set ls \<or> (\<exists>(nd, head) \<in> set polls. offered nd l))"
  using assms
proof (induction polls st arbitrary: ls rule: run_polls.induct)
  case (2 nd head rest st)
  obtain st1 r where p: "poll_chain nd head st = (st1, r)" by fastforce
  with poll_books [OF p 2(3)] 2(2) obtain ls1 where
    1: "books ls1 st1" "\<forall>l \<in> set ls1. l \<in> set ls \<or> offered nd l" by auto
  from p 2(1) [of ls1] 2(2) 1(1) obtain ls' where
    "books ls' (run_polls rest st1)" "\<forall>l \<in> set ls'. l \<in> set ls1 \<or> (\<exists>(nd, head) \<in> set rest. offered nd l)" by auto
  with 1(2) p show ?case by (intro exI [of _ ls']) auto
qed auto

end
