(* ===== verification/IndexerChain.thy ===== *)
theory IndexerChain
  imports IndexerRuns
begin

section \<open>Against an honest node, the projections are the chain's\<close>

text \<open>
  A deployment is the factories, the configured rooms and the indexed logs of the chain. An honest
  source answers a range with exactly the logs the addresses emitted in it, when it answers. Then
  nothing a market emitted is lost, though markets are only discovered by indexing: every
  row of the market table is keyed by its own address, and the table never forgets a market.
\<close>

subsection \<open>The market and holding tables\<close>

text \<open>Every market row is keyed by its own address, every holding by its own market and account.\<close>

definition keyed_holdings :: "projection \<Rightarrow> bool" where
  "keyed_holdings p \<longleftrightarrow> distinct (map fst (pj_holdings p))
     \<and> (\<forall>k h. js_get (pj_holdings p) k = Some h \<longrightarrow> k = holding_key (hd_market h) (hd_account h))"

definition keyed :: "projection \<Rightarrow> bool" where
  "keyed p \<longleftrightarrow> (\<forall>k r. js_get (pj_markets p) k = Some r \<longrightarrow> distinct (map fst r)
       \<and> (\<exists>a. row_get r ''market_address'' = JStr a \<and> to_lower a = k))
     \<and> distinct (map fst (pj_markets p)) \<and> keyed_holdings p"

definition grows :: "projection \<Rightarrow> projection \<Rightarrow> bool" where
  "grows p p' \<longleftrightarrow> (keyed p \<longrightarrow> keyed p') \<and> (\<forall>k. js_has (pj_markets p) k \<longrightarrow> js_has (pj_markets p') k)"

lemma grows_refl [simp]: "grows p p"
  by (simp add: grows_def)

lemma grows_trans: "grows p p' \<Longrightarrow> grows p' p'' \<Longrightarrow> grows p p''"
  by (auto simp: grows_def)

lemma grows_same: "pj_markets p' = pj_markets p \<Longrightarrow> pj_holdings p' = pj_holdings p \<Longrightarrow> grows p p'"
  by (simp add: grows_def keyed_def keyed_holdings_def)

lemma grows_adjustHolding [simp]: "grows p (adjustHolding m a d b p)"
  unfolding grows_def keyed_def keyed_holdings_def adjustHolding_def Let_def
  by (auto simp: port_simps empty_holding_def distinct_update split: option.splits)

lemma row_get_js_set: "row_get (js_set k v r) k' = (if k' = k then v else row_get r k')"
  by (simp add: row_get_def port_simps)

lemma row_get_spread_single [simp]: "row_get (spread_row r [(k, v)]) k' = (if k' = k then v else row_get r k')"
  by (simp add: spread_row_def row_get_js_set)

lemma distinct_spread: "distinct (map fst r) \<Longrightarrow> distinct (map fst (spread_row r rs))"
proof (induction rs arbitrary: r)
  case (Cons x rs)
  then show ?case by (cases x) (simp add: spread_row_def distinct_update)
qed (simp add: spread_row_def)

lemma grows_upsertMarket:
  assumes "row_get r ''market_address'' = JStr a"
  shows "grows p (upsertMarket r p)" "js_has (pj_markets (upsertMarket r p)) (to_lower a)"
proof -
  have id: "row_key r ''market_address'' = to_lower a" by (simp add: row_key_def assms)
  show "js_has (pj_markets (upsertMarket r p)) (to_lower a)"
    by (simp add: upsertMarket_def Let_def id port_simps)
  show "grows p (upsertMarket r p)"
    unfolding grows_def keyed_def keyed_holdings_def upsertMarket_def Let_def id
    by (auto simp: port_simps assms coalesce_def row_get_def [of "[]"] distinct_update distinct_spread split: option.splits)
qed

lemma grows_upserts [simp]:
  "grows p (upsertRoom r p)" "grows p (upsertSlot r p)" "grows p (upsertAction r p)" "grows p (upsertBond r p)"
  "grows p (upsertIntegrityClaim r p)" "grows p (appendSkip s p)"
  "grows p (appendTrade t p)" "grows p (appendClaim c p)" "grows p (appendAttestation at p)"
  "grows p (appendChallengeVerdict v p)" "grows p (recordSafeEpoch m e q b p)" "grows p (p\<lparr>pj_cursor := b\<rparr>)"
  by (rule grows_same; simp add: upsertRoom_def upsertSlot_def upsertAction_def upsertBond_def upsertIntegrityClaim_def
      appendSkip_def appendTrade_def appendClaim_def appendAttestation_def appendChallengeVerdict_def
      recordSafeEpoch_def Let_def)+

lemma known_markets:
  assumes "keyed p" "js_has (pj_markets p) (to_lower m)"
  shows "to_lower m \<in> to_lower ` set (known_markets p)"
proof -
  from assms(2) obtain r where r: "js_get (pj_markets p) (to_lower m) = Some r" by (auto simp: js_has_def)
  with assms(1) obtain a where a: "row_get r ''market_address'' = JStr a" "to_lower a = to_lower m"
    unfolding keyed_def by blast
  from r have "(to_lower m, r) \<in> set (pj_markets p)" by (rule map_of_SomeD)
  then have "a \<in> set (known_markets p)"
    using a(1) by (force simp: known_markets_def row_text_def)
  with a(2) show ?thesis by (metis imageI)
qed

subsection \<open>No handler forgets a market\<close>

definition grew :: "indexer \<Rightarrow> indexer \<Rightarrow> bool" where
  "grew st st' \<longleftrightarrow> grows (ix_store st) (ix_store st')"

lemma grew_refl [simp]: "grew st st"
  by (simp add: grew_def)

lemma grew_touch [simp]: "grew st (touch m st') = grew st st'"
  by (simp add: grew_def)

lemma grew_on_store: "grows (ix_store st') (f (ix_store st')) \<Longrightarrow> grew st st' \<Longrightarrow> grew st (on_store f st')"
  by (auto simp: grew_def intro: grows_trans)

lemmas grew_steps = grew_on_store [where f = "upsertRoom _"] grew_on_store [where f = "upsertSlot _"]
  grew_on_store [where f = "upsertAction _"] grew_on_store [where f = "upsertBond _"]
  grew_on_store [where f = "upsertIntegrityClaim _"] grew_on_store [where f = "adjustHolding _ _ _ _"]
  grew_on_store [where f = "appendSkip _"] grew_on_store [where f = "appendTrade _"]
  grew_on_store [where f = "appendClaim _"] grew_on_store [where f = "appendAttestation _"]
  grew_on_store [where f = "appendChallengeVerdict _"] grew_on_store [where f = "recordSafeEpoch _ _ _ _"]

lemma grew_upsertMarket:
  "row_get r ''market_address'' = JStr a \<Longrightarrow> grew st st' \<Longrightarrow> grew st (on_store (upsertMarket r) st')"
  by (rule grew_on_store) (simp_all add: grows_upsertMarket(1))

lemma row_get_Cons: "row_get ((k, v) # r) k' = (if k' = k then v else row_get r k')"
  by (simp add: row_get_def)

lemma grew_pending [simp]: "grew st (st'\<lparr>ix_pending := x\<rparr>) = grew st st'"
  by (simp add: grew_def)

lemma grew_set_slot: "grew st st' \<Longrightarrow> grew st (set_slot l s r st')"
  by (auto simp: set_slot_def intro: grew_steps split: option.split)

lemma grew_settle: "grew st st' \<Longrightarrow> grew st (maybeSettleRoom c b st')"
  by (auto simp: maybeSettleRoom_def settle_room_state_def Let_def intro: grew_steps split: option.split)

lemma grew_with_room: "with_room l f st = Inr st' \<Longrightarrow> (\<And>r. grew st (f r st)) \<Longrightarrow> grew st st'"
  by (auto simp: with_room_Inr)

lemma grew_room_events:
  "onSlotPublished slotMeta l m i t r c n u x st = Inr st' \<Longrightarrow> grew st st'"
  "onRoomSequence l s st = Inr st' \<Longrightarrow> grew st st'" "onRoomClosed l s st = Inr st' \<Longrightarrow> grew st st'"
  "onRoomClosedByGateStall l s st = Inr st' \<Longrightarrow> grew st st'"
  "onSlotCallSkipped l m s a b st = Inr st' \<Longrightarrow> grew st st'" "bond l p ms st = Inr st' \<Longrightarrow> grew st st'"
  "integrityClaim l s ms st = Inr st' \<Longrightarrow> grew st st'"
  unfolding onSlotPublished_def onRoomSequence_def onRoomClosed_def onRoomClosedByGateStall_def onSlotCallSkipped_def
    bond_def integrityClaim_def
  by (erule grew_with_room, simp add: Let_def row_get_Cons grew_upsertMarket grew_steps)+

lemma grew_finalized: "grew st (onResultFinalized l q st)"
  by (auto simp: onResultFinalized_def Let_def row_get_Cons
      intro!: grew_upsertMarket grew_settle grew_steps split: option.split)

lemma apply_log_grew:
  assumes "apply_log meta l st = Inr st'"
  shows "grew st st'"
  using assms unfolding apply_log_def
  by (cases "lg_event l")
    (auto simp: market_handler_defs claim_events grew_finalized Let_def row_get_Cons
      intro!: grew_upsertMarket grew_steps grew_set_slot dest!: grew_room_events)

lemma apply_log_market:
  assumes "apply_log meta l st = Inr st'" "lg_event l = MarketCreated m r i t c q u"
  shows "js_has (pj_markets (ix_store st')) (to_lower m)"
  using assms by (auto simp: apply_log_def onMarketCreated_def Let_def row_get_Cons intro!: grows_upsertMarket(2))

subsection \<open>The deployment and its source\<close>

definition from_one_of :: "string list \<Rightarrow> log \<Rightarrow> bool" where
  "from_one_of as l \<longleftrightarrow> to_lower (lg_address l) \<in> to_lower ` set as"

fun created :: "chain_event \<Rightarrow> string option" where
  "created (MarketCreated m _ _ _ _ _ _) = Some (to_lower m)"
| "created _ = None"

text \<open>A market's own logs follow the log of a factory that announces it, or share its block.\<close>

definition announced :: "string list \<Rightarrow> log list \<Rightarrow> log \<Rightarrow> bool" where
  "announced fs C l \<longleftrightarrow> (\<exists>c \<in> set C. from_one_of fs c \<and> lg_block c \<le> lg_block l
     \<and> created (lg_event c) = Some (to_lower (lg_address l)))"

definition deployment :: "string list \<Rightarrow> string list \<Rightarrow> log list \<Rightarrow> bool" where
  "deployment fs rs C \<longleftrightarrow> distinct (map log_id C) \<and> (\<forall>l \<in> set C.
     0 < lg_block l \<and> (factory_event (lg_event l) \<and> from_one_of fs l \<or> room_event (lg_event l) \<and> from_one_of rs l
      \<or> market_event (lg_event l) \<and> announced fs C l))"

definition honest :: "raw_logs \<Rightarrow> log list \<Rightarrow> bool" where
  "honest raw C \<longleftrightarrow> (\<forall>as f t ls. raw as f t = Inr ls \<longrightarrow>
     set ls = {l \<in> set C. f \<le> lg_block l \<and> lg_block l \<le> t \<and> from_one_of as l})"

definition wired :: "string list \<Rightarrow> string list \<Rightarrow> log list \<Rightarrow> node \<Rightarrow> bool" where
  "wired fs rs C nd \<longleftrightarrow> (\<exists>raw. honest raw C \<and> nd_getLogs nd = (\<lambda>_. source_getLogs raw fs rs))"

lemma from_none [simp]: "\<not> from_one_of [] l"
  by (simp add: from_one_of_def)

lemma fetch_set:
  assumes "honest raw C" "fetch_logs raw as wanted f t = Inr ls"
  shows "set ls = {l \<in> set C. f \<le> lg_block l \<and> lg_block l \<le> t \<and> from_one_of as l \<and> wanted (lg_event l)}"
proof (cases "as = []")
  case False
  with assms(2) obtain us where "raw as f t = Inr us" "ls = filter (\<lambda>l. wanted (lg_event l)) us"
    by (cases "raw as f t") (auto simp: fetch_logs_def)
  with assms(1) show ?thesis unfolding honest_def by auto
qed (use assms in \<open>simp add: fetch_logs_def\<close>)

lemma source_set:
  assumes "wired fs rs C nd" "nd_getLogs nd n p f t = Inr ls" "f \<le> t"
  shows "set ls = {l \<in> set C. f \<le> lg_block l \<and> lg_block l \<le> t \<and>
    (from_one_of fs l \<and> factory_event (lg_event l) \<or> from_one_of rs l \<and> room_event (lg_event l)
     \<or> from_one_of (known_markets p) l \<and> market_event (lg_event l))}"
proof -
  from assms(1) obtain raw where raw: "honest raw C" "nd_getLogs nd = (\<lambda>_. source_getLogs raw fs rs)"
    unfolding wired_def by blast
  with assms(2,3) obtain as bs cs where
    "fetch_logs raw fs factory_event f t = Inr as" "fetch_logs raw rs room_event f t = Inr bs"
    "fetch_logs raw (known_markets p) market_event f t = Inr cs"
    "ls = sort_key (\<lambda>l. (lg_block l, lg_index l)) (as @ bs @ cs)"
    by (auto simp: source_getLogs_def bind_res_eq_Inr)
  with fetch_set [OF raw(1)] show ?thesis by auto
qed

lemma wired_offers:
  assumes "wired fs rs C nd" "nd_getLogs nd n p f t = Inr ls" "l \<in> set ls"
  shows "l \<in> set C \<and> f \<le> lg_block l \<and> lg_block l \<le> t"
proof (cases "f \<le> t")
  case True
  from source_set [OF assms(1,2) this] assms(3) show ?thesis by simp
next
  case False
  with assms show ?thesis by (auto simp: wired_def source_getLogs_def)
qed

lemma wired_in_range: "wired fs rs C nd \<Longrightarrow> in_range nd"
  unfolding in_range_def by (blast dest: wired_offers)

subsection \<open>What is tracked\<close>

definition created_known :: "projection \<Rightarrow> log \<Rightarrow> bool" where
  "created_known p l \<longleftrightarrow> (\<forall>m. created (lg_event l) = Some m \<longrightarrow> js_has (pj_markets p) m)"

definition tracks_chain :: "log list \<Rightarrow> log list \<Rightarrow> indexer \<Rightarrow> bool" where
  "tracks_chain C ls st \<longleftrightarrow> books ls st \<and> set ls \<subseteq> set C \<and> keyed (ix_store st) \<and> (\<forall>l \<in> set ls. created_known (ix_store st) l)"

lemma created_known_grows: "created_known p l \<Longrightarrow> grows p p' \<Longrightarrow> created_known p' l"
  by (simp add: created_known_def grows_def)

lemma created_Some: "created e = Some m \<Longrightarrow> \<exists>a r i t c q u. e = MarketCreated a r i t c q u \<and> m = to_lower a"
  by (cases e) auto

lemma apply_log_created: "apply_log meta l st = Inr st' \<Longrightarrow> created_known (ix_store st') l"
  unfolding created_known_def by (auto dest!: created_Some intro: apply_log_market)

lemma applies_grew:
  "applies meta st new st' \<Longrightarrow> grew st st' \<and> (\<forall>l \<in> set new. created_known (ix_store st') l)"
proof (induction rule: applies.induct)
  case (applies_Cons l st st1 new st')
  then have "grows (ix_store st1) (ix_store st')" by (simp add: grew_def)
  with apply_log_created [OF applies_Cons.hyps(2)] apply_log_grew [OF applies_Cons.hyps(2)] applies_Cons.IH
  show ?case by (auto simp: grew_def intro: created_known_grows grows_trans)
qed simp

lemma applies_tracks:
  assumes "applies meta st new st'" "tracks_chain C ls st" "set new \<subseteq> set C" "\<forall>l \<in> set new. ix_cursor st < lg_block l"
  shows "tracks_chain C (ls @ new) st'"
  using applies_books [OF assms(1) _ assms(4)] applies_grew [OF assms(1)] assms(2,3)
  by (auto simp: tracks_chain_def grew_def grows_def created_known_def)

lemma tracks_quiet:
  assumes "tracks_chain C ls st" "same_books st st'" "grew st st'"
  shows "tracks_chain C ls st'"
  using assms books_same by (auto simp: tracks_chain_def grew_def grows_def created_known_def)

lemma log_id_inj: "distinct (map log_id C) \<Longrightarrow> l \<in> set C \<Longrightarrow> l' \<in> set C \<Longrightarrow> log_id l = log_id l' \<Longrightarrow> l = l'"
  by (simp add: distinct_map inj_on_def)

text \<open>After a sweep that did not throw, everything it fetched has been applied, now or before.\<close>

lemma swept_applied:
  assumes "deployment fs rs C" "tracks_chain C ls st" "tracks_chain C (ls @ new) st1" "set logs \<subseteq> set C"
    and "log_id ` set logs \<subseteq> log_id ` set new \<union> set (ix_applied st)"
  shows "set logs \<subseteq> set (ls @ new)"
proof
  fix l assume l: "l \<in> set logs"
  with assms(5) have "log_id l \<in> log_id ` set (ls @ new)"
    using assms(2) unfolding tracks_chain_def books_def by force
  then obtain l' where "l' \<in> set (ls @ new)" "log_id l = log_id l'" by auto
  with l assms(1,3,4) show "l \<in> set (ls @ new)"
    unfolding tracks_chain_def deployment_def by (metis log_id_inj subsetD)
qed

subsection \<open>A sync that returns has applied the range\<close>

definition complete_to :: "log list \<Rightarrow> log list \<Rightarrow> nat \<Rightarrow> bool" where
  "complete_to C ls b \<longleftrightarrow> {l \<in> set C. lg_block l \<le> b} \<subseteq> set ls"

lemma sweep_tracks:
  assumes "sweep nd k n f t seen st c = (st', r)" "wired fs rs C nd" "tracks_chain C ls st" "ix_cursor st < f"
  shows "\<exists>new. tracks_chain C (ls @ new) st' \<and> ix_cursor st' = ix_cursor st"
proof -
  from sweep_applies [OF assms(1)] obtain new where new: "applies (nd_slotMeta nd) st new st'"
    "\<forall>l \<in> set new. \<exists>n p ls. nd_getLogs nd n p f t = Inr ls \<and> l \<in> set ls" by blast
  from new(2) wired_offers [OF assms(2)] have "\<forall>l \<in> set new. l \<in> set C \<and> f \<le> lg_block l" by blast
  then have "set new \<subseteq> set C" "\<forall>l \<in> set new. ix_cursor st < lg_block l" using assms(4) by fastforce+
  with applies_tracks [OF new(1) assms(3)] applies_cursor [OF new(1)] show ?thesis by blast
qed

text \<open>What a sweep that did not throw fetched and applied.\<close>

definition swept :: "node \<Rightarrow> nat \<Rightarrow> nat \<Rightarrow> nat \<Rightarrow> indexer \<Rightarrow> log list \<Rightarrow> log list \<Rightarrow> indexer \<Rightarrow> bool" where
  "swept nd n f t st logs new st1 \<longleftrightarrow> nd_getLogs nd n (ix_store st) f t = Inr logs \<and> applies (nd_slotMeta nd) st new st1
     \<and> set new \<subseteq> set logs \<and> log_id ` set logs \<subseteq> log_id ` set new \<union> set (ix_applied st)"

lemma swept_tracks:
  assumes "deployment fs rs C" "wired fs rs C nd" "tracks_chain C ls st" "ix_cursor st < f" "swept nd n f t st logs new st1"
  shows "tracks_chain C (ls @ new) st1" "set logs \<subseteq> set (ls @ new)" "ix_cursor st1 = ix_cursor st"
proof -
  note sw = assms(5) [unfolded swept_def]
  from sw wired_offers [OF assms(2)] have logs: "\<forall>l \<in> set logs. l \<in> set C \<and> f \<le> lg_block l" by blast
  with sw have sub: "set new \<subseteq> set C" by blast
  from logs assms(4) sw have "\<forall>l \<in> set new. ix_cursor st < lg_block l" by (metis less_le_trans subsetD)
  with applies_tracks [OF _ assms(3) sub] sw show t: "tracks_chain C (ls @ new) st1" by blast
  from swept_applied [OF assms(1,3) t] logs sw show "set logs \<subseteq> set (ls @ new)" by blast
  from sw show "ix_cursor st1 = ix_cursor st" using applies_cursor by blast
qed

text \<open>The first sweep finds every market announced in the range, the second every log of theirs.\<close>

lemma factory_logs_created: "created (lg_event c) = Some m \<Longrightarrow> factory_event (lg_event c)"
  by (cases "lg_event c") auto

lemma announced_known:
  assumes "tracks_chain C ls st" "announced fs C l" "lg_block l \<le> t" "{c \<in> set C. lg_block c \<le> t \<and> from_one_of fs c
      \<and> factory_event (lg_event c)} \<subseteq> set ls"
  shows "from_one_of (known_markets (ix_store st)) l"
proof -
  from assms(2) obtain c where c: "c \<in> set C" "from_one_of fs c" "lg_block c \<le> lg_block l"
    "created (lg_event c) = Some (to_lower (lg_address l))" unfolding announced_def by blast
  with assms(3,4) factory_logs_created [OF c(4)] have "c \<in> set ls" by auto
  with assms(1) c(4) have "js_has (pj_markets (ix_store st)) (to_lower (lg_address l))"
    by (simp add: tracks_chain_def created_known_def)
  with known_markets assms(1) show ?thesis unfolding tracks_chain_def from_one_of_def by blast
qed

lemma two_sweeps:
  assumes "deployment fs rs C" "wired fs rs C nd" "tracks_chain C ls st" "complete_to C ls (ix_cursor st)"
    and "f = ix_cursor st + 1" "f \<le> t" "swept nd n f t st logs1 new1 st1" "swept nd n' f t st1 logs2 new2 st2"
  shows "tracks_chain C (ls @ new1 @ new2) st2" "complete_to C (ls @ new1 @ new2) t" "ix_cursor st2 = ix_cursor st"
proof -
  have cur: "ix_cursor st < f" using assms(5) by simp
  note t1 = swept_tracks [OF assms(1-3) cur assms(7)]
  from assms(7,8) have g: "nd_getLogs nd n (ix_store st) f t = Inr logs1" "nd_getLogs nd n' (ix_store st1) f t = Inr logs2"
    by (simp_all add: swept_def)
  have fac: "{c \<in> set C. lg_block c \<le> t \<and> from_one_of fs c \<and> factory_event (lg_event c)} \<subseteq> set (ls @ new1)"
  proof
    fix c assume c: "c \<in> {c \<in> set C. lg_block c \<le> t \<and> from_one_of fs c \<and> factory_event (lg_event c)}"
    show "c \<in> set (ls @ new1)"
    proof (cases "lg_block c \<le> ix_cursor st")
      case True
      with c assms(4) show ?thesis by (auto simp: complete_to_def)
    next
      case False
      with c assms(5) source_set [OF assms(2) g(1) assms(6)] have "c \<in> set logs1" by simp
      with t1(2) show ?thesis by blast
    qed
  qed
  have cur1: "ix_cursor st1 < f" using cur t1(3) by simp
  note t2 = swept_tracks [OF assms(1,2) t1(1) cur1 assms(8)]
  have "{l \<in> set C. f \<le> lg_block l \<and> lg_block l \<le> t} \<subseteq> set logs2"
    using assms(1) announced_known [OF t1(1) _ _ fac] source_set [OF assms(2) g(2) assms(6)]
    unfolding deployment_def by auto
  with t2(2) have late: "{l \<in> set C. f \<le> lg_block l \<and> lg_block l \<le> t} \<subseteq> set ((ls @ new1) @ new2)" by blast
  have "{l \<in> set C. lg_block l \<le> t} \<subseteq> {l \<in> set C. lg_block l \<le> ix_cursor st} \<union> {l \<in> set C. f \<le> lg_block l \<and> lg_block l \<le> t}"
    using assms(5) by auto
  with late assms(4) show "complete_to C (ls @ new1 @ new2) t"
    unfolding complete_to_def by auto
  from t2(1) show "tracks_chain C (ls @ new1 @ new2) st2" by simp
  from t1(3) t2(3) show "ix_cursor st2 = ix_cursor st" by simp
qed

lemma sweep_complete:
  assumes "sweep nd (Suc (Suc k)) n f t None st c = (st', Inr m)" "deployment fs rs C" "wired fs rs C nd"
    and "tracks_chain C ls st" "complete_to C ls (ix_cursor st)" "f = ix_cursor st + 1" "f \<le> t"
  shows "\<exists>new. tracks_chain C (ls @ new) st' \<and> complete_to C (ls @ new) t \<and> ix_cursor st' = ix_cursor st"
proof -
  from assms(1) obtain logs1 new1 st1 c1 where 1: "swept nd n f t st logs1 new1 st1"
    and go1: "sweep nd (Suc k) (n + 1) f t (Some (knownAddressCount (ix_store st1))) st1 c1 = (st', Inr m)"
    by (cases rule: sweep_step) (auto simp: swept_def)
  from go1 obtain logs2 new2 st2 c2 where 2: "swept nd (n + 1) f t st1 logs2 new2 st2"
    and go2: "st2 = st' \<or> (\<exists>seen c2. sweep nd k (n + 1 + 1) f t seen st2 c2 = (st', Inr m))"
    unfolding swept_def by (cases rule: sweep_step) blast+
  note two = two_sweeps [OF assms(2-7) 1 2]
  have cur2: "ix_cursor st2 < f" using two(3) assms(6) by simp
  from go2 sweep_tracks [OF _ assms(3) two(1) cur2] obtain new3 where
    "tracks_chain C ((ls @ new1 @ new2) @ new3) st'" "ix_cursor st' = ix_cursor st2"
    by (metis append_Nil2 two(1))
  with two show ?thesis
    by (intro exI [of _ "new1 @ new2 @ new3"]) (auto simp: complete_to_def)
qed

subsection \<open>Three sweeps are enough\<close>

lemma apply_logs_known:
  "log_id ` set logs \<subseteq> set (ix_applied st) \<Longrightarrow> apply_logs meta logs st c = (st, Inr c)"
  by (induction logs) auto

lemma complete_known:
  assumes "tracks_chain C ls st" "complete_to C ls t" "l \<in> set C" "ix_cursor st < lg_block l" "lg_block l \<le> t"
  shows "log_id l \<in> set (ix_applied st)"
  using assms by (auto simp: tracks_chain_def books_def complete_to_def)

lemma apply_logs_swept:
  assumes "apply_logs (nd_slotMeta nd) logs st c = (st1, Inr c1)" "nd_getLogs nd n (ix_store st) f t = Inr logs"
  obtains new where "swept nd n f t st logs new st1"
  using apply_logs_applies [OF assms(1)] assms(2) by (auto simp: swept_def)

text \<open>The third sweep finds nothing it has not applied, so it learns no address and ends the loop.\<close>

lemma third_sweep:
  assumes "wired fs rs C nd" "tracks_chain C ls st" "complete_to C ls t" "f = ix_cursor st + 1"
    and "seen = Some (knownAddressCount (ix_store st))"
  shows "sweep nd (Suc k) n f t seen st c = sweep nd (Suc 0) n f t seen st c"
proof (cases "nd_getLogs nd n (ix_store st) f t")
  case (Inr logs)
  with wired_offers [OF assms(1) this] complete_known [OF assms(2,3)] assms(4)
  have "apply_logs (nd_slotMeta nd) logs st c = (st, Inr c)" by (intro apply_logs_known) (simp add: image_subset_iff Suc_le_eq)
  with Inr assms(5) show ?thesis by (simp add: port_result_def)
qed (simp add: port_result_def)

lemma sweep_three:
  assumes "deployment fs rs C" "wired fs rs C nd" "tracks_chain C ls st" "complete_to C ls (ix_cursor st)"
    and "f = ix_cursor st + 1" "f \<le> t"
  shows "sweep nd (k + 3) n f t None st c = sweep nd 3 n f t None st c"
proof (cases "nd_getLogs nd n (ix_store st) f t")
  case (Inr logs1)
  obtain st1 r1 where a1: "apply_logs (nd_slotMeta nd) logs1 st c = (st1, r1)" by fastforce
  show ?thesis
  proof (cases r1)
    case r1: (Inr c1)
    from apply_logs_swept [OF a1 [unfolded r1] Inr] obtain new1 where 1: "swept nd n f t st logs1 new1 st1" .
    let ?seen = "Some (knownAddressCount (ix_store st1))"
    have "sweep nd (Suc (Suc k)) (n + 1) f t ?seen st1 c1 = sweep nd (Suc (Suc 0)) (n + 1) f t ?seen st1 c1"
    proof (cases "nd_getLogs nd (n + 1) (ix_store st1) f t")
      case g2: (Inr logs2)
      obtain st2 r2 where a2: "apply_logs (nd_slotMeta nd) logs2 st1 c1 = (st2, r2)" by fastforce
      show ?thesis
      proof (cases r2)
        case r2: (Inr c2)
        from apply_logs_swept [OF a2 [unfolded r2] g2] obtain new2 where 2: "swept nd (n + 1) f t st1 logs2 new2 st2" .
        note two = two_sweeps [OF assms 1 2]
        from two(3) assms(5) have "f = ix_cursor st2 + 1" by simp
        note third = third_sweep [OF assms(2) two(1,2) this refl, of k "n + 1 + 1" c2]
        have go: "sweep nd (Suc (Suc i)) (n + 1) f t ?seen st1 c1 =
          (if knownAddressCount (ix_store st1) = knownAddressCount (ix_store st2) then (st2, Inr c2)
           else sweep nd (Suc i) (n + 1 + 1) f t (Some (knownAddressCount (ix_store st2))) st2 c2)" for i
          using g2 a2 r2 by (subst sweep.simps(2)) (simp add: port_result_def Let_def del: sweep.simps)
        show ?thesis unfolding go third ..
      qed (use g2 a2 in \<open>simp add: port_result_def\<close>)
    qed (simp add: port_result_def)
    with Inr a1 r1 show ?thesis by (simp add: port_result_def eval_nat_numeral)
  qed (use Inr a1 in \<open>simp add: port_result_def eval_nat_numeral\<close>)
qed (simp add: port_result_def eval_nat_numeral)

lemma grew_same_store: "ix_store st' = ix_store st \<Longrightarrow> grew st st'"
  by (simp add: grew_def)

lemma grows_syncSlotState: "grows p (syncSlotState m b p)"
  by (auto simp: syncSlotState_def split: option.split)

lemma row_get_spread: "row_get (spread_row r rs) k = (case map_of (rev rs) k of Some v \<Rightarrow> v | None \<Rightarrow> row_get r k)"
proof (induction rs rule: rev_induct)
  case (snoc x rs)
  then show ?case by (cases x) (simp add: spread_row_def row_get_js_set)
qed (simp add: spread_row_def)

lemma map_of_rev_distinct: "distinct (map fst r) \<Longrightarrow> map_of (rev r) = map_of r"
  by (subst map_of_inject_set) (simp_all add: rev_map [symmetric])

lemma grows_reading:
  assumes "keyed p"
  shows "grows p (upsertMarket (reading_row m (row_of (getMarket p m)) r b) p)"
proof -
  let ?e = "row_of (getMarket p m)"
  have "row_get (spread_row [(''market_address'', JStr m)] ?e) ''market_address'' \<in> range JStr"
  proof (cases "js_get (pj_markets p) (to_lower m)")
    case None
    then show ?thesis by (simp add: row_of_def getMarket_def spread_row_def row_get_def)
  next
    case (Some e)
    with assms obtain a where "row_get e ''market_address'' = JStr a" "distinct (map fst e)" unfolding keyed_def by blast
    moreover from this(1) have "map_of e ''market_address'' = Some (JStr a)" by (simp add: row_get_def split: option.splits)
    ultimately have "row_get (spread_row [(''market_address'', JStr m)] e) ''market_address'' = JStr a"
      by (simp only: row_get_spread map_of_rev_distinct option.case)
    with Some show ?thesis by (simp add: row_of_def getMarket_def)
  qed
  then obtain a where "row_get (reading_row m ?e r b) ''market_address'' = JStr a"
    unfolding reading_row_def by (auto simp: row_get_spread [of "spread_row _ _"])
  then show ?thesis by (rule grows_upsertMarket(1))
qed

lemma refresh_grows: "refresh_markets read b ms p = (p', r) \<Longrightarrow> keyed p \<Longrightarrow> grows p p'"
proof (induction read b ms p rule: refresh_markets.induct)
  case (2 read b m ms p)
  show ?case
  proof (cases "read m b")
    case (Inr x)
    let ?p1 = "syncSlotState m b (upsertMarket (reading_row m (row_of (getMarket p m)) x b) p)"
    have g: "grows p ?p1" using grows_trans grows_reading [OF 2(3)] grows_syncSlotState by blast
    with 2 Inr have "grows ?p1 p'" by (auto simp: grows_def)
    with g show ?thesis by (rule grows_trans)
  qed (use 2 in simp)
qed simp

lemma refreshTouched_grew: "refreshTouchedMarkets nd b st = (st', r) \<Longrightarrow> keyed (ix_store st) \<Longrightarrow> grew st st'"
  by (auto simp: refreshTouchedMarkets_def grew_def dest!: refresh_grows split: option.splits prod.splits)

lemma grew_forget_advance: "grew st (forgetAppliedThrough b (advance_cursor b st))"
  by (simp add: grew_def forgetAppliedThrough_def advance_cursor_def)

lemma finish_sync_tracks:
  assumes "finish_sync nd f b st c = (st', r)" "tracks_chain C ls st" "ix_cursor st \<le> b"
  shows "tracks_chain C ls st' \<and> ix_cursor st' \<le> b"
proof -
  obtain st1 r1 where 1: "measureClears nd st = (st1, r1)" by fastforce
  obtain st2 r2 where 2: "refreshTouchedMarkets nd b st1 = (st2, r2)" by fastforce
  obtain st3 r3 where 3: "rememberHashes nd f b (forgetAppliedThrough b (advance_cursor b st2)) = (st3, r3)" by fastforce
  have t1: "tracks_chain C ls st1" "ix_cursor st1 \<le> b"
    using tracks_quiet [OF assms(2) measureClears_books [OF 1]] measureClears_store [OF 1] assms(3)
    by (simp_all add: grew_same_store)
  have t2: "tracks_chain C ls st2" "ix_cursor st2 \<le> b"
    using tracks_quiet [OF t1(1) refreshTouched_books [OF 2]] refreshTouched_grew [OF 2] refreshTouched_books [OF 2] t1
    by (simp_all add: tracks_chain_def same_books_def)
  let ?adv = "forgetAppliedThrough b (advance_cursor b st2)"
  have ta: "tracks_chain C ls ?adv" "ix_cursor ?adv = b"
    using t2 books_advance [OF _ t2(2)] grew_forget_advance [of st2 b]
    by (auto simp: tracks_chain_def grew_def grows_def created_known_def forgetAppliedThrough_def advance_cursor_def)
  have t3: "tracks_chain C ls st3" "ix_cursor st3 \<le> b"
    using tracks_quiet [OF ta(1) rememberHashes_books [OF 3]] rememberHashes_store [OF 3] ta(2)
    by (simp_all add: grew_same_store)
  from 1 2 3 t1 t2 t3 assms(1) show ?thesis by (auto simp: finish_sync_def split: option.splits)
qed

definition follows_chain :: "log list \<Rightarrow> indexer \<Rightarrow> bool" where
  "follows_chain C st \<longleftrightarrow> (\<exists>ls. tracks_chain C ls st \<and> complete_to C ls (ix_cursor st))"

lemma syncTo_follows:
  assumes "syncTo nd b st = (st', r)" "deployment fs rs C" "wired fs rs C nd" "follows_chain C st"
  shows "follows_chain C st'"
proof (cases "b < ix_cursor st + 1")
  case True
  with assms show ?thesis by (simp add: syncTo_def Let_def)
next
  case False
  from assms(4) obtain ls where ls: "tracks_chain C ls st" "complete_to C ls (ix_cursor st)" by (auto simp: follows_chain_def)
  obtain st1 r1 where s: "sweep nd 8 0 (ix_cursor st + 1) b None st 0 = (st1, r1)" by fastforce
  show ?thesis
  proof (cases r1)
    case (Inl e)
    with False s assms(1) have [simp]: "st1 = st'" by (simp add: syncTo_def Let_def)
    from sweep_tracks [OF s assms(3) ls(1)] obtain new where
      "tracks_chain C (ls @ new) st'" "ix_cursor st' = ix_cursor st" by auto
    moreover from ls(2) this(2) have "complete_to C (ls @ new) (ix_cursor st')" by (auto simp: complete_to_def)
    ultimately show ?thesis unfolding follows_chain_def by blast
  next
    case (Inr c)
    have "sweep nd (Suc (Suc 6)) 0 (ix_cursor st + 1) b None st 0 = (st1, Inr c)"
      using s Inr by (simp add: eval_nat_numeral)
    from sweep_complete [OF this assms(2,3) ls refl] False obtain new where
      new: "tracks_chain C (ls @ new) st1" "complete_to C (ls @ new) b" "ix_cursor st1 = ix_cursor st" by auto
    from False s Inr assms(1) have "finish_sync nd (ix_cursor st + 1) b st1 c = (st', r)" by (simp add: syncTo_def Let_def)
    from finish_sync_tracks [OF this new(1)] new(3) False have "tracks_chain C (ls @ new) st'" "ix_cursor st' \<le> b" by auto
    moreover from this(2) new(2) have "complete_to C (ls @ new) (ix_cursor st')" by (auto simp: complete_to_def)
    ultimately show ?thesis unfolding follows_chain_def by blast
  qed
qed

lemma follows_reset:
  assumes "deployment fs rs C"
  shows "follows_chain C (st\<lparr>ix_store := reset_store, ix_cursor := 0, ix_touched := [], ix_applied := [], ix_hashes := []\<rparr>)"
proof -
  have "tracks_chain C [] (st\<lparr>ix_store := reset_store, ix_cursor := 0, ix_touched := [], ix_applied := [], ix_hashes := []\<rparr>)"
    by (simp add: tracks_chain_def books_def keyed_def keyed_holdings_def) (simp add: reset_store_def)
  moreover have "complete_to C [] 0" using assms by (auto simp: complete_to_def deployment_def)
  ultimately show ?thesis by (auto simp: follows_chain_def)
qed

lemma follows_new: "deployment fs rs C \<Longrightarrow> follows_chain C new_indexer"
  using follows_reset [of fs rs C new_indexer] by (simp add: new_indexer_def)

text \<open>A poll is one of: nothing, a rebuild, a sync.\<close>

lemma poll_cases:
  assumes "poll_chain nd head st = (st', r)"
  obtains (none) "st' = st" | (rewind) b g r' where "detectReorg nd st = Inr (Some g)" "rewindTo nd b head st = (st', r')"
    | (sync) r' where "detectReorg nd st = Inr None" "ix_cursor st < head" "syncTo nd head st = (st', r')"
  using assms unfolding poll_chain_def Let_def
  by (auto split: sum.splits option.splits if_splits prod.splits)

lemma poll_follows:
  assumes "poll_chain nd head st = (st', r)" "deployment fs rs C" "wired fs rs C nd" "follows_chain C st"
  shows "follows_chain C st'"
  using assms(1)
proof (cases rule: poll_cases)
  case rewind
  from rewind(2) show ?thesis unfolding rewindTo_def rebuild_index_def
    by (rule syncTo_follows [OF _ assms(2,3) follows_reset [OF assms(2)]])
qed (use assms syncTo_follows in blast)+

lemma run_polls_follows:
  assumes "\<forall>(nd, head) \<in> set polls. wired fs rs C nd" "deployment fs rs C" "follows_chain C st"
  shows "follows_chain C (run_polls polls st)"
  using assms
proof (induction polls st rule: run_polls.induct)
  case (2 nd head rest st)
  obtain st1 r where p: "poll_chain nd head st = (st1, r)" by fastforce
  with 2 poll_follows [OF p 2(3) _ 2(4)] show ?case by auto
qed simp

subsection \<open>The part of the chain a state has indexed\<close>

definition indexed_part :: "log list \<Rightarrow> indexer \<Rightarrow> log set" where
  "indexed_part C st = {l \<in> set C. lg_block l \<le> ix_cursor st \<or> log_id l \<in> set (ix_applied st)}"

lemma follows_posted:
  assumes "follows_chain C st" "deployment fs rs C"
  obtains ls where "distinct ls" "set ls = indexed_part C st" "ledger st = posted ls"
proof -
  from assms(1) obtain ls where ls: "tracks_chain C ls st" "complete_to C ls (ix_cursor st)" by (auto simp: follows_chain_def)
  then have b: "distinct (map log_id ls)" "ledger st = posted ls" "set ls \<subseteq> set C"
      "set (ix_applied st) = log_id ` {l \<in> set ls. ix_cursor st < lg_block l}"
    by (simp_all add: tracks_chain_def books_def)
  have "set ls \<subseteq> indexed_part C st"
    using b(3,4) by (auto simp: indexed_part_def not_le)
  moreover have "indexed_part C st \<subseteq> set ls"
  proof
    fix l assume l: "l \<in> indexed_part C st"
    show "l \<in> set ls"
    proof (cases "lg_block l \<le> ix_cursor st")
      case True
      with l ls(2) show ?thesis by (auto simp: complete_to_def indexed_part_def)
    next
      case False
      with l b(4) obtain l' where "l' \<in> set ls" "log_id l = log_id l'" by (auto simp: indexed_part_def)
      with l b(3) assms(2) show ?thesis
        unfolding deployment_def indexed_part_def by (metis (no_types, lifting) log_id_inj mem_Collect_eq subsetD)
    qed
  qed
  ultimately show ?thesis using that [of ls] b(1,2) by (auto simp: distinct_map)
qed

lemma sum_over_posted: "distinct ls \<Longrightarrow> (\<Sum>l \<leftarrow> ls. f l) = (\<Sum>l \<in> set ls. f l)"
  by (rule sum_list_distinct_conv_sum_set)

lemma mset_concat_map: "distinct ls \<Longrightarrow> mset (concat (map f ls)) = (\<Sum>l \<in> set ls. mset (f l))"
  by (induction ls) simp_all

lemma follows_ledger:
  assumes "follows_chain C st" "deployment fs rs C"
  shows "balance (ix_store st) k x = (\<Sum>l \<in> indexed_part C st. move k x l)"
    "mset (pj_trades (ix_store st)) = (\<Sum>l \<in> indexed_part C st. mset (log_trades l))"
    "mset (pj_claims (ix_store st)) = (\<Sum>l \<in> indexed_part C st. mset (log_claims l))"
    "mset (pj_attestations (ix_store st)) = (\<Sum>l \<in> indexed_part C st. mset (log_attestations l))"
    "mset (pj_verdicts (ix_store st)) = (\<Sum>l \<in> indexed_part C st. mset (log_verdicts l))"
proof -
  from follows_posted [OF assms] obtain ls where ls: "distinct ls" "set ls = indexed_part C st" "ledger st = posted ls" .
  from ls(3) have parts: "balance (ix_store st) = le_balance (posted ls)" "pj_trades (ix_store st) = le_trades (posted ls)"
    "pj_claims (ix_store st) = le_claims (posted ls)" "pj_attestations (ix_store st) = le_attestations (posted ls)"
    "pj_verdicts (ix_store st) = le_verdicts (posted ls)" by (simp_all add: ledger_of_def flip: ls(3))
  show "balance (ix_store st) k x = (\<Sum>l \<in> indexed_part C st. move k x l)"
    by (simp add: parts posted_parts sum_over_posted [OF ls(1)] ls(2))
  show "mset (pj_trades (ix_store st)) = (\<Sum>l \<in> indexed_part C st. mset (log_trades l))"
    "mset (pj_claims (ix_store st)) = (\<Sum>l \<in> indexed_part C st. mset (log_claims l))"
    "mset (pj_attestations (ix_store st)) = (\<Sum>l \<in> indexed_part C st. mset (log_attestations l))"
    "mset (pj_verdicts (ix_store st)) = (\<Sum>l \<in> indexed_part C st. mset (log_verdicts l))"
    by (simp_all add: parts posted_parts mset_concat_map [OF ls(1)] ls(2))
qed

end
