(* ===== verification/IndexerProperties.thy ===== *)
theory IndexerProperties
  imports IndexerChain
begin

section \<open>Properties of the chain indexer\<close>

text \<open>
  What the read models are worth: no answer of the node posts a log twice; over an honest node
  every balance is the chain's; a reorganisation report names the last block both histories
  share; and the limit of its detection, which only looks at blocks the cursor has reached.
\<close>

subsection \<open>Reorganisation reports\<close>

text \<open>Whether the node's hash of a block is known and equal to the remembered one.\<close>

definition agrees :: "(nat \<Rightarrow> string + string option) \<Rightarrow> indexer \<Rightarrow> nat \<Rightarrow> bool" where
  "agrees hash_at st b \<longleftrightarrow> (\<exists>h. hash_at b = Inr (Some h) \<and> h \<noteq> [] \<and> js_get (ix_hashes st) b = Some h)"

lemma find_ancestor_Some:
  assumes "find_ancestor hash_at st bs = Inr (Some g)" "sorted_wrt (\<lambda>a b. b \<le> a) bs"
  shows "rg_from g = ix_cursor st \<and> (rg_beyond g \<longleftrightarrow> rg_ancestor g = None) \<and>
    (case rg_ancestor g of
       Some a \<Rightarrow> a \<in> set bs \<and> a < ix_cursor st \<and> agrees hash_at st a
         \<and> (\<forall>b \<in> set bs. a < b \<and> b < ix_cursor st \<longrightarrow> \<not> agrees hash_at st b)
     | None \<Rightarrow> \<forall>b \<in> set bs. b < ix_cursor st \<longrightarrow> \<not> agrees hash_at st b)"
  using assms
proof (induction hash_at st bs rule: find_ancestor.induct)
  case (2 hash_at st b bs)
  show ?case
  proof (cases "ix_cursor st \<le> b")
    case True
    with 2 show ?thesis by (fastforce split: option.splits)
  next
    case False
    with 2(3) obtain theirs where t: "hash_at b = Inr theirs" by (cases "hash_at b") (auto simp: port_result_def)
    show ?thesis
    proof (cases "truthy_text theirs \<noteq> None \<and> theirs = js_get (ix_hashes st) b")
      case True
      with False t 2(3,4) show ?thesis
        by (fastforce simp: port_result_def agrees_def truthy_text_def split: option.splits if_splits)
    next
      case no: False
      with False t have "\<not> agrees hash_at st b" by (auto simp: agrees_def truthy_text_def)
      with no False t 2 show ?thesis by (fastforce simp: port_result_def split: option.splits)
    qed
  qed
qed auto

text \<open>C31: when the indexer reports a reorganisation, the node holds another block at the cursor; the
  common ancestor it names is the highest remembered block below the cursor on which both
  histories agree, and it reports retained history exceeded exactly when there is none.\<close>

theorem detectReorg_last_agreement:
  assumes "detectReorg nd st = Inr (Some g)"
  shows "\<exists>hash_at h known. nd_blockHash nd = Some hash_at \<and> rg_from g = ix_cursor st
    \<and> hash_at (ix_cursor st) = Inr (Some h) \<and> js_get (ix_hashes st) (ix_cursor st) = Some known \<and> h \<noteq> known
    \<and> (rg_beyond g \<longleftrightarrow> rg_ancestor g = None)
    \<and> (case rg_ancestor g of
         Some a \<Rightarrow> a < ix_cursor st \<and> agrees hash_at st a
           \<and> (\<forall>b. a < b \<and> b < ix_cursor st \<longrightarrow> \<not> agrees hash_at st b)
       | None \<Rightarrow> \<forall>b < ix_cursor st. \<not> agrees hash_at st b)"
proof -
  let ?bs = "rev (sort (map fst (ix_hashes st)))"
  from assms obtain hash_at known where n: "nd_blockHash nd = Some hash_at"
      "truthy_text (js_get (ix_hashes st) (ix_cursor st)) = Some known"
    by (auto simp: detectReorg_def split: option.splits if_splits)
  with assms obtain current where c: "hash_at (ix_cursor st) = Inr current" "truthy_text current \<noteq> None" "current \<noteq> Some known"
    and f: "find_ancestor hash_at st ?bs = Inr (Some g)"
    by (cases "hash_at (ix_cursor st)") (auto simp: detectReorg_def port_result_def split: if_splits)
  from c(2) obtain h where h: "current = Some h" by (auto simp: truthy_text_def split: option.splits)
  have "agrees hash_at st b \<Longrightarrow> b \<in> set ?bs" for b
    by (auto simp: agrees_def dest: map_of_SomeD intro: rev_image_eqI)
  with find_ancestor_Some [OF f] have
    "rg_from g = ix_cursor st \<and> (rg_beyond g \<longleftrightarrow> rg_ancestor g = None)
      \<and> (case rg_ancestor g of
           Some a \<Rightarrow> a < ix_cursor st \<and> agrees hash_at st a
             \<and> (\<forall>b. a < b \<and> b < ix_cursor st \<longrightarrow> \<not> agrees hash_at st b)
         | None \<Rightarrow> \<forall>b < ix_cursor st. \<not> agrees hash_at st b)"
    by (auto simp: sorted_wrt_rev split: option.splits)
  with n c h show ?thesis by (auto simp: truthy_text_Some)
qed

text \<open>The instance: an indexer at block 2 whose block 2 was replaced while block 1 was not.\<close>

definition sample_hashes :: "nat \<Rightarrow> string + string option" where
  "sample_hashes b = Inr (Some (if b = 1 then ''a'' else ''x''))"

definition quiet_node :: node where
  "quiet_node = \<lparr> nd_getLogs = (\<lambda>_ _ _ _. Inr []), nd_reader = None, nd_blockTimestamp = None,
     nd_blockHash = Some sample_hashes, nd_slotMeta = [] \<rparr>"

definition forked_indexer :: indexer where
  "forked_indexer = new_indexer\<lparr>ix_cursor := 2, ix_hashes := [(1, ''a''), (2, ''b'')]\<rparr>"

theorem detectReorg_last_agreement_witness:
  "\<exists>hash_at h known. nd_blockHash quiet_node = Some hash_at \<and> hash_at 2 = Inr (Some h)
     \<and> js_get (ix_hashes forked_indexer) 2 = Some known \<and> h \<noteq> known \<and> agrees hash_at forked_indexer 1"
proof -
  have "detectReorg quiet_node forked_indexer = Inr (Some (Reorg (Some 1) 2 False))"
    by (simp add: detectReorg_def quiet_node_def forked_indexer_def sample_hashes_def new_indexer_def
        port_result_def truthy_text_def)
  from detectReorg_last_agreement [OF this] show ?thesis by (auto simp: forked_indexer_def)
qed

subsection \<open>Every log once\<close>

text \<open>C13: over any sequence of polls, whatever logs of the requested block range a node answers (as \<open>eth_getLogs\<close>
  documents) and whichever call throws, the
  holdings, trades, claims, attestations and verdicts are those of a list of logs the node offered
  since the last rebuild, no two of which share block, index and address: a log re-served after a
  failed sync is never counted twice.\<close>

theorem index_exactly_once:
  assumes "\<forall>(nd, head) \<in> set polls. in_range nd"
  shows "\<exists>ls. distinct (map log_id ls) \<and> ledger_of (ix_store (run_polls polls new_indexer)) = posted ls
    \<and> (\<forall>l \<in> set ls. \<exists>(nd, head) \<in> set polls. offered nd l)"
proof -
  from run_polls_books [OF assms books_new] show ?thesis by (auto simp: books_def)
qed

subsection \<open>The chain's own figures\<close>

text \<open>C4: over an honest node that serves one chain, after any polls - syncs and rebuilds, with any
  call throwing anywhere - every balance, and the trades, claims, attestations and verdicts as
  multisets, are the sums over exactly the logs of the chain up to the cursor and those it
  remembers having applied above it, including all a market emitted before it was discovered.\<close>

theorem index_equals_chain:
  assumes "deployment fs rs C" "\<forall>(nd, head) \<in> set polls. wired fs rs C nd" "st = run_polls polls new_indexer"
  shows "balance (ix_store st) k x = (\<Sum>l \<in> indexed_part C st. move k x l)
    \<and> mset (pj_trades (ix_store st)) = (\<Sum>l \<in> indexed_part C st. mset (log_trades l))
    \<and> mset (pj_claims (ix_store st)) = (\<Sum>l \<in> indexed_part C st. mset (log_claims l))
    \<and> mset (pj_attestations (ix_store st)) = (\<Sum>l \<in> indexed_part C st. mset (log_attestations l))
    \<and> mset (pj_verdicts (ix_store st)) = (\<Sum>l \<in> indexed_part C st. mset (log_verdicts l))"
proof -
  have "follows_chain C st"
    unfolding assms(3) by (rule run_polls_follows [OF assms(2,1) follows_new [OF assms(1)]])
  from follows_ledger [OF this assms(1)] show ?thesis by blast
qed

text \<open>A deployment of one factory and one market, and a node that serves it.\<close>

definition sample_created :: log where
  "sample_created = \<lparr> lg_block = 1, lg_index = 0, lg_address = ''0xf'',
     lg_event = MarketCreated ''0xm'' ''r'' 0 ''t'' ''c'' ''q'' ''u'' \<rparr>"

definition sample_buy :: log where
  "sample_buy = \<lparr> lg_block = 2, lg_index = 0, lg_address = ''0xm'', lg_event = Trade ''0xa'' True True 10 7 \<rparr>"

definition sample_chain :: "log list" where
  "sample_chain = [sample_created, sample_buy]"

definition serving :: "log list \<Rightarrow> raw_logs" where
  "serving C as f t = Inr (filter (\<lambda>l. f \<le> lg_block l \<and> lg_block l \<le> t \<and> from_one_of as l) C)"

definition serving_node :: "log list \<Rightarrow> node" where
  "serving_node C = quiet_node\<lparr>nd_getLogs := (\<lambda>_. source_getLogs (serving C) [''0xf''] [])\<rparr>"

lemma sample_ids: "log_id sample_created \<noteq> log_id sample_buy"
  by (metis id_block_log_id sample_created_def sample_buy_def log.select_convs(1) numeral_One numeral_eq_iff semiring_norm(85))

lemma sample_deployment: "deployment [''0xf''] [] sample_chain"
proof -
  have "announced [''0xf''] sample_chain sample_buy"
    unfolding announced_def sample_chain_def
    by (intro bexI [of _ sample_created]) (simp_all add: sample_created_def sample_buy_def from_one_of_def)
  then show ?thesis using sample_ids
    by (simp add: deployment_def sample_chain_def sample_created_def sample_buy_def from_one_of_def)
qed

lemma honest_serving: "honest (serving C) C"
  by (auto simp: honest_def serving_def)

lemma wired_serving: "wired [''0xf''] [] C (serving_node C)"
  unfolding wired_def serving_node_def by (intro exI [of _ "serving C"]) (simp add: honest_serving)

theorem index_equals_chain_witness:
  "balance (ix_store (run_polls [(serving_node sample_chain, 2)] new_indexer)) (holding_key ''0xm'' ''0xa'') PositionA
    = (\<Sum>l \<in> indexed_part sample_chain (run_polls [(serving_node sample_chain, 2)] new_indexer).
         move (holding_key ''0xm'' ''0xa'') PositionA l)
    \<and> balance (ix_store (run_polls [(serving_node sample_chain, 2)] new_indexer)) (holding_key ''0xm'' ''0xa'') PositionA = 7"
proof (intro conjI)
  show "balance (ix_store (run_polls [(serving_node sample_chain, 2)] new_indexer)) (holding_key ''0xm'' ''0xa'') PositionA = 7"
    by code_simp
qed (use index_equals_chain [OF sample_deployment, of "[(serving_node sample_chain, 2)]" _ "holding_key ''0xm'' ''0xa''" PositionA]
    wired_serving in simp)

theorem index_exactly_once_witness:
  "\<exists>ls. distinct (map log_id ls) \<and> ledger_of (ix_store (run_polls [(serving_node sample_chain, 2)] new_indexer)) = posted ls"
  using index_exactly_once [of "[(serving_node sample_chain, 2)]"] wired_in_range [OF wired_serving] by auto

subsection \<open>What a failed sync leaves behind\<close>

text \<open>No poll of the sequence saw the block at its cursor replaced.\<close>

fun unnoticed :: "(node \<times> nat) list \<Rightarrow> indexer \<Rightarrow> bool" where
  "unnoticed [] st = True"
| "unnoticed ((nd, head) # rest) st \<longleftrightarrow> detectReorg nd st = Inr None \<and> unnoticed rest (fst (poll_chain nd head st))"

lemma unnoticed_books:
  assumes "books ls st" "\<forall>(nd, head) \<in> set polls. in_range nd" "unnoticed polls st"
  shows "\<exists>added. books (ls @ added) (run_polls polls st) \<and> (\<forall>l \<in> set added. \<exists>(nd, head) \<in> set polls. offered nd l)"
  using assms
proof (induction polls st arbitrary: ls rule: unnoticed.induct)
  case (2 nd head rest st)
  obtain st1 r where p: "poll_chain nd head st = (st1, r)" by fastforce
  then have "\<exists>new. books (ls @ new) st1 \<and> (\<forall>l \<in> set new. offered nd l)"
  proof (cases rule: poll_cases)
    case none
    with 2(2) show ?thesis by (intro exI [of _ "[]"]) simp
  next
    case sync
    from syncTo_books [OF sync(3) 2(2)] 2(3) show ?thesis by auto
  qed (use 2(4) in simp)
  then obtain new where n: "books (ls @ new) st1" "\<forall>l \<in> set new. offered nd l" by blast
  with 2(1) [of "ls @ new"] 2(3,4) p obtain added where m: "books ((ls @ new) @ added) (run_polls rest st1)"
    "\<forall>l \<in> set added. \<exists>(nd, head) \<in> set rest. offered nd l" by auto
  from m(2) n(2) have "\<forall>l \<in> set (new @ added). \<exists>(nd', head') \<in> set ((nd, head) # rest). offered nd' l" by auto
  with m(1) p show ?case by (intro exI [of _ "new @ added"]) simp
qed (intro exI [of _ "[]"], simp)

lemma books_more:
  assumes "books ls st" "books (ls @ new) st'"
  shows "distinct (map log_id new) \<and> (\<forall>l \<in> set new. log_id l \<notin> set (ix_applied st))
    \<and> balance (ix_store st') k x = balance (ix_store st) k x + (\<Sum>l \<leftarrow> new. move k x l)
    \<and> pj_trades (ix_store st') = pj_trades (ix_store st) @ concat (map log_trades new)
    \<and> pj_claims (ix_store st') = pj_claims (ix_store st) @ concat (map log_claims new)
    \<and> pj_attestations (ix_store st') = pj_attestations (ix_store st) @ concat (map log_attestations new)
    \<and> pj_verdicts (ix_store st') = pj_verdicts (ix_store st) @ concat (map log_verdicts new)"
proof -
  have tables: "balance (ix_store s) k x = le_balance (ledger s) k x" "pj_trades (ix_store s) = le_trades (ledger s)"
      "pj_claims (ix_store s) = le_claims (ledger s)" "pj_attestations (ix_store s) = le_attestations (ledger s)"
      "pj_verdicts (ix_store s) = le_verdicts (ledger s)" for s
    by (simp_all add: ledger_of_def)
  from assms have posted: "ledger st = posted ls" "ledger st' = posted (ls @ new)"
    and "distinct (map log_id (ls @ new))" "set (ix_applied st) \<subseteq> log_id ` set ls"
    by (auto simp: books_def)
  then show ?thesis by (auto simp: tables posted_parts simp del: posted_simps)
qed

text \<open>C38: a poll that does not see its cursor's block replaced only adds. Through any later polls of that
  kind, whatever the nodes serve in the requested ranges, every balance is what it was plus the moves
  of logs those nodes offered, and the trades, claims, attestations and verdicts keep all their rows,
  in order, and append those of the same logs; none of them has the identity of a log the indexer
  remembers having applied above its cursor. So the effects of what a sync applied before it threw are
  never taken back when its own block is replaced.\<close>

theorem unnoticed_reorg_keeps_logs:
  assumes "st = run_polls polls new_indexer" "st' = run_polls later st"
    and "\<forall>(nd, head) \<in> set (polls @ later). in_range nd" "unnoticed later st"
  shows "\<exists>new. (\<forall>l \<in> set new. (\<exists>(nd, head) \<in> set later. offered nd l) \<and> log_id l \<notin> set (ix_applied st))
    \<and> distinct (map log_id new)
    \<and> (\<forall>k x. balance (ix_store st') k x = balance (ix_store st) k x + (\<Sum>l \<leftarrow> new. move k x l))
    \<and> pj_trades (ix_store st') = pj_trades (ix_store st) @ concat (map log_trades new)
    \<and> pj_claims (ix_store st') = pj_claims (ix_store st) @ concat (map log_claims new)
    \<and> pj_attestations (ix_store st') = pj_attestations (ix_store st) @ concat (map log_attestations new)
    \<and> pj_verdicts (ix_store st') = pj_verdicts (ix_store st) @ concat (map log_verdicts new)"
proof -
  from run_polls_books [OF _ books_new, of polls] assms(1,3) obtain ls where ls: "books ls st" by auto
  from unnoticed_books [OF ls _ assms(4)] assms(2,3) obtain new where new: "books (ls @ new) st'"
    "\<forall>l \<in> set new. \<exists>(nd, head) \<in> set later. offered nd l" by auto
  from books_more [OF ls new(1)] new(2) show ?thesis by (intro exI [of _ new]) simp
qed

text \<open>The instance: the first poll applies a trade of block 2 and throws on reading the market; block 2 is
  then replaced by one without it; the second poll succeeds, and the position is still there.\<close>

definition failing_node :: node where
  "failing_node = (serving_node sample_chain)\<lparr>nd_reader := Some (\<lambda>_ _. Inl ''429'')\<rparr>"

definition forked_node :: node where
  "forked_node = serving_node [sample_created]"

lemma failing_in_range: "in_range failing_node" "in_range forked_node"
  using wired_in_range [OF wired_serving] by (simp_all add: failing_node_def forked_node_def in_range_def)

theorem unnoticed_reorg_keeps_logs_witness:
  "(\<exists>new. pj_trades (ix_store (run_polls [(forked_node, 2)] (run_polls [(failing_node, 2)] new_indexer)))
        = pj_trades (ix_store (run_polls [(failing_node, 2)] new_indexer)) @ concat (map log_trades new)
      \<and> balance (ix_store (run_polls [(forked_node, 2)] (run_polls [(failing_node, 2)] new_indexer)))
          (holding_key ''0xm'' ''0xa'') PositionA
        = 7 + (\<Sum>l \<leftarrow> new. move (holding_key ''0xm'' ''0xa'') PositionA l))
    \<and> balance (ix_store (run_polls [(failing_node, 2), (forked_node, 2)] new_indexer)) (holding_key ''0xm'' ''0xa'') PositionA = 7
    \<and> ix_cursor (run_polls [(failing_node, 2), (forked_node, 2)] new_indexer) = 2
    \<and> \<not> offered forked_node sample_buy"
proof (intro conjI)
  have held: "balance (ix_store (run_polls [(failing_node, 2)] new_indexer)) (holding_key ''0xm'' ''0xa'') PositionA = 7"
    and "unnoticed [(forked_node, 2)] (run_polls [(failing_node, 2)] new_indexer)"
    by code_simp+
  from unnoticed_reorg_keeps_logs [OF refl refl _ this(2)] failing_in_range held
  show "\<exists>new. pj_trades (ix_store (run_polls [(forked_node, 2)] (run_polls [(failing_node, 2)] new_indexer)))
        = pj_trades (ix_store (run_polls [(failing_node, 2)] new_indexer)) @ concat (map log_trades new)
      \<and> balance (ix_store (run_polls [(forked_node, 2)] (run_polls [(failing_node, 2)] new_indexer)))
          (holding_key ''0xm'' ''0xa'') PositionA
        = 7 + (\<Sum>l \<leftarrow> new. move (holding_key ''0xm'' ''0xa'') PositionA l)"
    by auto
  show "balance (ix_store (run_polls [(failing_node, 2), (forked_node, 2)] new_indexer)) (holding_key ''0xm'' ''0xa'') PositionA = 7"
    and "ix_cursor (run_polls [(failing_node, 2), (forked_node, 2)] new_indexer) = 2" by code_simp+
  show "\<not> offered forked_node sample_buy"
  proof
    assume "offered forked_node sample_buy"
    then have "sample_buy \<in> set [sample_created]"
      unfolding offered_def forked_node_def by (blast dest: wired_offers [OF wired_serving])
    then show False by (simp add: sample_buy_def sample_created_def)
  qed
qed

subsection \<open>The loop over a range ends\<close>

text \<open>C14: over an honest node, whatever state earlier polls left, the sweeps of a range settle by the third: a
  loop allowed any larger number of passes ends in the same state with the same answer, so the bound
  of eight never cuts a range short.\<close>

theorem sweep_settles:
  assumes "deployment fs rs C" "\<forall>(nd', head') \<in> set polls. wired fs rs C nd'" "st = run_polls polls new_indexer"
    and "wired fs rs C nd" "ix_cursor st < head"
  shows "sweep nd (k + 3) 0 (ix_cursor st + 1) head None st 0 = sweep nd 3 0 (ix_cursor st + 1) head None st 0"
proof -
  have "follows_chain C st"
    unfolding assms(3) by (rule run_polls_follows [OF assms(2,1) follows_new [OF assms(1)]])
  then obtain ls where "tracks_chain C ls st" "complete_to C ls (ix_cursor st)" by (auto simp: follows_chain_def)
  from sweep_three [OF assms(1,4) this refl] assms(5) show ?thesis by simp
qed

theorem sweep_settles_witness:
  "sweep (serving_node sample_chain) (5 + 3) 0 1 2 None new_indexer 0 = sweep (serving_node sample_chain) 3 0 1 2 None new_indexer 0
    \<and> snd (sweep (serving_node sample_chain) 3 0 1 2 None new_indexer 0) = Inr 2"
proof (intro conjI)
  have "ix_cursor (run_polls [] new_indexer) = 0" by (simp add: new_indexer_def)
  then show "sweep (serving_node sample_chain) (5 + 3) 0 1 2 None new_indexer 0 = sweep (serving_node sample_chain) 3 0 1 2 None new_indexer 0"
    using sweep_settles [OF sample_deployment _ refl wired_serving, of "[]" 2 5] by simp
qed code_simp

end
