(* ===== verification/AccountProperties.thy ===== *)
theory AccountProperties
  imports Portfolio IndexerProperties
begin

section \<open>What an account is shown, against the chain\<close>

text \<open>
  The portfolio of an account over the projections of an honest node: totals of claims and sizes
  of positions as sums over the logs of the chain, and its agreement with the claims the
  settlement service lists.
\<close>

subsection \<open>Totals\<close>

definition credited :: "string \<Rightarrow> log \<Rightarrow> int" where
  "credited account l = (\<Sum>c \<leftarrow> filter (\<lambda>c. to_lower (cl_account c) = to_lower account) (log_claims l). cl_amount c)"

lemma sum_add_amount: "(\<Sum>kn \<leftarrow> add_amount k x m. snd kn) = (\<Sum>kn \<leftarrow> m. snd kn) + x"
proof (induction m)
  case (Cons p m)
  then show ?case by (cases p) (auto simp: add_amount_def split: option.splits)
qed (simp add: add_amount_def)

lemma sum_by_kind: "(\<Sum>kn \<leftarrow> by_kind cs. snd kn) = (\<Sum>c \<leftarrow> cs. cl_amount c)"
  by (induction cs rule: rev_induct) (simp_all add: by_kind_def sum_add_amount)

lemma foldl_plus: "foldl (+) a xs = a + sum_list xs" for a :: int
  by (induction xs arbitrary: a) simp_all

lemma js_get_add_amount:
  "js_get (add_amount k x m) k' = (if k' = k then Some ((case js_get m k of Some n \<Rightarrow> n | None \<Rightarrow> 0) + x) else js_get m k')"
  by (simp add: add_amount_def port_simps)

lemma claimedByMarket_get:
  "(case js_get (claimedByMarket cs) m of Some n \<Rightarrow> n | None \<Rightarrow> 0)
    = (\<Sum>c \<leftarrow> filter (\<lambda>c. to_lower (cl_market c) = m) cs. cl_amount c)"
  by (induction cs rule: rev_induct) (auto simp: claimedByMarket_def js_get_add_amount split: option.splits)

lemma listClaims_filter: "account \<noteq> [] \<Longrightarrow>
    listClaims p (Some account) = filter (\<lambda>c. to_lower (cl_account c) = to_lower account) (pj_claims p)"
  by (simp add: listClaims_def of_market_def truthy_text_def)

lemma sum_over_logs: "distinct ls \<Longrightarrow>
    (\<Sum>c \<leftarrow> filter Q (concat (map log_claims ls)). cl_amount c) = (\<Sum>l \<in> set ls. \<Sum>c \<leftarrow> filter Q (log_claims l). cl_amount c)"
  by (induction ls) simp_all

lemma follows_claims:
  assumes "follows_chain C st" "deployment fs rs C"
  shows "(\<Sum>c \<leftarrow> filter Q (pj_claims (ix_store st)). cl_amount c)
    = (\<Sum>l \<in> indexed_part C st. \<Sum>c \<leftarrow> filter Q (log_claims l). cl_amount c)"
proof -
  from follows_posted [OF assms] obtain ls where ls: "distinct ls" "set ls = indexed_part C st" "ledger_of (ix_store st) = posted ls" .
  have "pj_claims (ix_store st) = le_claims (posted ls)" by (simp add: ledger_of_def flip: ls(3))
  with sum_over_logs [OF ls(1)] ls(2) show ?thesis by (simp add: posted_parts)
qed

lemma log_claims_market: "c \<in> set (log_claims l) \<Longrightarrow> cl_market c = lg_address l"
  by (auto simp: log_claims_def claim_of_def split: chain_event.splits)

lemma credited_market:
  "(\<Sum>c \<leftarrow> filter (\<lambda>c. to_lower (cl_market c) = m) (filter (\<lambda>c. to_lower (cl_account c) = to_lower account) (log_claims l)). cl_amount c)
    = (if to_lower (lg_address l) = m then credited account l else 0)"
proof -
  have "filter (\<lambda>c. to_lower (cl_market c) = m) cs = (if to_lower (lg_address l) = m then cs else [])"
    if "set cs \<subseteq> set (log_claims l)" for cs
    using that by (induction cs) (auto dest: log_claims_market)
  then show ?thesis by (simp add: credited_def del: filter_filter)
qed

subsection \<open>Sizes\<close>

lemma listed_balance:
  assumes "keyed p" "h \<in> set (listAccountHoldings p account)" "to_lower (hd_market h) = to_lower market"
  shows "balance p (holding_key market account) x = holding_amount x h"
proof -
  from assms(2) obtain k where k: "(k, h) \<in> set (pj_holdings p)" "to_lower (hd_account h) = to_lower account"
    by (auto simp: listAccountHoldings_def)
  from assms(1) k(1) have "js_get (pj_holdings p) k = Some h" by (simp add: keyed_def keyed_holdings_def)
  moreover from this assms(1) have "k = holding_key (hd_market h) (hd_account h)" unfolding keyed_def keyed_holdings_def by blast
  ultimately show ?thesis using k(2) assms(3) by (simp add: balance_def holding_key_def)
qed

lemma found_balance:
  assumes "keyed p" "find (\<lambda>h. to_lower (hd_market h) = m) (listAccountHoldings p account) = Some h"
  shows "balance p (holding_key m account) x = holding_amount x h"
proof -
  from assms(2) have h: "h \<in> set (listAccountHoldings p account)" "to_lower (hd_market h) = m"
    by (auto simp: find_Some_iff)
  then have "to_lower (hd_market h) = to_lower m" by auto
  from listed_balance [OF assms(1) h(1) this] show ?thesis .
qed

definition side_asset :: "string \<Rightarrow> asset" where
  "side_asset side = (if side = ''outcome_a'' then PositionA else PositionB)"

lemma market_view_open:
  assumes "keyed p" "v \<in> set (mv_open (market_view p reader account (listAccountHoldings p account) claims trades m))"
  shows "op_size v = balance p (holding_key (op_market v) account) (side_asset (op_side v))"
  using assms(2) found_balance [OF assms(1), of m account]
  by (cases "find (\<lambda>h. to_lower (hd_market h) = m) (listAccountHoldings p account)")
    (auto simp: market_view_def Let_def side_asset_def holding_amount_def split: if_splits)

lemma market_view_liquidity:
  assumes "keyed p" "v \<in> set (mv_liquidity (market_view p reader account (listAccountHoldings p account) claims trades m))"
  shows "lq_lp_shares v = balance p (holding_key (lq_market v) account) LpShares"
  using assms(2) found_balance [OF assms(1), of m account]
  by (cases "find (\<lambda>h. to_lower (hd_market h) = m) (listAccountHoldings p account)")
    (auto simp: market_view_def Let_def holding_amount_def split: if_splits)

lemma market_view_settled:
  assumes "keyed p" "s \<in> set (mv_settled (market_view p reader account (listAccountHoldings p account) claims trades m))"
  shows "sm_claimed s = (\<Sum>c \<leftarrow> filter (\<lambda>c. to_lower (cl_market c) = sm_market s) claims. cl_amount c)"
    "sm_held_a s \<noteq> 0 \<Longrightarrow> sm_held_a s = balance p (holding_key (sm_market s) account) PositionA"
    "sm_held_b s \<noteq> 0 \<Longrightarrow> sm_held_b s = balance p (holding_key (sm_market s) account) PositionB"
  using assms(2) found_balance [OF assms(1), of m account] claimedByMarket_get [of claims m]
  by (cases "find (\<lambda>h. to_lower (hd_market h) = m) (listAccountHoldings p account)";
    auto simp: market_view_def Let_def holding_amount_def split: if_splits)+

subsection \<open>The portfolio\<close>

abbreviation account_view :: "projection \<Rightarrow> account_reader option \<Rightarrow> string \<Rightarrow> trade_row list \<Rightarrow> string \<Rightarrow> market_view" where
  "account_view p reader account trades m \<equiv>
     market_view p reader account (listAccountHoldings p account) (listClaims p (Some account)) trades m"

lemma portfolio_total:
  "account \<noteq> [] \<Longrightarrow> po_total_credited (portfolio_of p reader account)
      = (\<Sum>c \<leftarrow> filter (\<lambda>c. to_lower (cl_account c) = to_lower account) (pj_claims p). cl_amount c)"
  using sum_by_kind [of "listClaims p (Some account)"]
  by (simp add: portfolio_of_def Let_def foldl_plus comp_def listClaims_filter)

lemma portfolio_rows:
  "s \<in> set (po_settled (portfolio_of p reader account)) \<Longrightarrow> \<exists>trades m. s \<in> set (mv_settled (account_view p reader account trades m))"
  "v \<in> set (po_open (portfolio_of p reader account)) \<Longrightarrow> \<exists>trades m. v \<in> set (mv_open (account_view p reader account trades m))"
  "q \<in> set (po_liquidity (portfolio_of p reader account)) \<Longrightarrow> \<exists>trades m. q \<in> set (mv_liquidity (account_view p reader account trades m))"
  by (auto simp: portfolio_of_def Let_def)

text \<open>C5: over an honest node, after any polls, what an account's portfolio adds up is the chain's: the total
  credited and the amount claimed on each settled market are sums over the indexed claim logs, every
  open position, liquidity position and surviving holding has the size the indexed logs moved to the
  account.\<close>

theorem portfolio_shows_the_chain:
  assumes "deployment fs rs C" "\<forall>(nd, head) \<in> set polls. wired fs rs C nd" "st = run_polls polls new_indexer"
    and "account \<noteq> []" "po = portfolio_of (ix_store st) reader account"
  shows "po_total_credited po = (\<Sum>l \<in> indexed_part C st. credited account l)
    \<and> (\<forall>s \<in> set (po_settled po). sm_claimed s =
          (\<Sum>l \<in> indexed_part C st. if to_lower (lg_address l) = sm_market s then credited account l else 0)
        \<and> sm_held_a s \<in> {0, \<Sum>l \<in> indexed_part C st. move (holding_key (sm_market s) account) PositionA l}
        \<and> sm_held_b s \<in> {0, \<Sum>l \<in> indexed_part C st. move (holding_key (sm_market s) account) PositionB l})
    \<and> (\<forall>v \<in> set (po_open po). op_size v =
          (\<Sum>l \<in> indexed_part C st. move (holding_key (op_market v) account) (side_asset (op_side v)) l))
    \<and> (\<forall>v \<in> set (po_liquidity po). lq_lp_shares v =
          (\<Sum>l \<in> indexed_part C st. move (holding_key (lq_market v) account) LpShares l))"
proof -
  have fol: "follows_chain C st"
    unfolding assms(3) by (rule run_polls_follows [OF assms(2,1) follows_new [OF assms(1)]])
  then have keyed: "keyed (ix_store st)" by (auto simp: follows_chain_def tracks_chain_def)
  note bal = follows_ledger(1) [OF fol assms(1)]
  note claims = follows_claims [OF fol assms(1)]
  have total: "po_total_credited po = (\<Sum>l \<in> indexed_part C st. credited account l)"
    unfolding assms(5) portfolio_total [OF assms(4)] claims credited_def ..
  have "sm_claimed s = (\<Sum>l \<in> indexed_part C st. if to_lower (lg_address l) = sm_market s then credited account l else 0)
      \<and> sm_held_a s \<in> {0, balance (ix_store st) (holding_key (sm_market s) account) PositionA}
      \<and> sm_held_b s \<in> {0, balance (ix_store st) (holding_key (sm_market s) account) PositionB}"
    if s: "s \<in> set (po_settled po)" for s
  proof -
    from s portfolio_rows(1) obtain trades m where m: "s \<in> set (mv_settled (account_view (ix_store st) reader account trades m))"
      unfolding assms(5) by blast
    have "sm_claimed s = (\<Sum>l \<in> indexed_part C st. if to_lower (lg_address l) = sm_market s then credited account l else 0)"
      unfolding market_view_settled(1) [OF keyed m] listClaims_filter [OF assms(4)] filter_filter claims credited_market [unfolded filter_filter] ..
    with market_view_settled(2,3) [OF keyed m] show ?thesis by blast
  qed
  moreover from portfolio_rows(2) market_view_open [OF keyed] have
    "\<forall>v \<in> set (po_open po). op_size v = balance (ix_store st) (holding_key (op_market v) account) (side_asset (op_side v))"
    unfolding assms(5) by blast
  moreover from portfolio_rows(3) market_view_liquidity [OF keyed] have
    "\<forall>v \<in> set (po_liquidity po). lq_lp_shares v = balance (ix_store st) (holding_key (lq_market v) account) LpShares"
    unfolding assms(5) by blast
  ultimately show ?thesis using total unfolding bal by blast
qed

text \<open>The instance: a buy, then a redemption of a part of it.\<close>

definition sample_redeem :: log where
  "sample_redeem = \<lparr> lg_block = 3, lg_index = 0, lg_address = ''0xm'', lg_event = PositionsRedeemed ''0xa'' 5 0 5 \<rparr>"

definition payout_chain :: "log list" where
  "payout_chain = [sample_created, sample_buy, sample_redeem]"

lemma payout_deployment: "deployment [''0xf''] [] payout_chain"
proof -
  have "announced [''0xf''] payout_chain sample_buy" "announced [''0xf''] payout_chain sample_redeem"
    unfolding announced_def payout_chain_def
    by (intro bexI [of _ sample_created]; simp add: sample_created_def sample_buy_def sample_redeem_def from_one_of_def)+
  moreover have "distinct (map log_id payout_chain)" by code_simp
  ultimately show ?thesis
    by (simp add: deployment_def payout_chain_def sample_created_def sample_buy_def sample_redeem_def from_one_of_def)
qed

definition payout_state :: indexer where
  "payout_state = run_polls [(serving_node payout_chain, 3)] new_indexer"

theorem portfolio_shows_the_chain_witness:
  "po_total_credited (portfolio_of (ix_store payout_state) None ''0xA'') = (\<Sum>l \<in> indexed_part payout_chain payout_state. credited ''0xA'' l)
    \<and> po_total_credited (portfolio_of (ix_store payout_state) None ''0xA'') = 5
    \<and> map op_size (po_open (portfolio_of (ix_store payout_state) None ''0xA'')) = [2]"
proof (intro conjI)
  show "po_total_credited (portfolio_of (ix_store payout_state) None ''0xA'') = (\<Sum>l \<in> indexed_part payout_chain payout_state. credited ''0xA'' l)"
    using portfolio_shows_the_chain [OF payout_deployment _ payout_state_def _ refl] wired_serving by simp
  show "po_total_credited (portfolio_of (ix_store payout_state) None ''0xA'') = 5"
    "map op_size (po_open (portfolio_of (ix_store payout_state) None ''0xA'')) = [2]"
    by code_simp+
qed

subsection \<open>The claims the settlement service lists\<close>

lemma listed_unique:
  assumes "keyed p" "h \<in> set (listAccountHoldings p account)" "h' \<in> set (listAccountHoldings p account)"
    and "to_lower (hd_market h) = to_lower (hd_market h')"
  shows "h = h'"
proof -
  from assms(2,3) obtain k k' where k: "(k, h) \<in> set (pj_holdings p)" "(k', h') \<in> set (pj_holdings p)"
      "to_lower (hd_account h) = to_lower (hd_account h')"
    by (auto simp: listAccountHoldings_def)
  with assms(1) have g: "js_get (pj_holdings p) k = Some h" "js_get (pj_holdings p) k' = Some h'"
    by (simp_all add: keyed_def keyed_holdings_def)
  with assms(1) have "k = holding_key (hd_market h) (hd_account h)" "k' = holding_key (hd_market h') (hd_account h')"
    unfolding keyed_def keyed_holdings_def by blast+
  with assms(4) k(3) have "k = k'" by (simp add: holding_key_def)
  with g show ?thesis by simp
qed

lemma set_market_ids: "set (market_ids hs cs ts) = (to_lower \<circ> hd_market) ` set hs \<union> (to_lower \<circ> cl_market) ` set cs
    \<union> (to_lower \<circ> tr_market) ` set ts"
proof -
  have "set (foldl (\<lambda>s m. set_add m s) acc ms) = set acc \<union> set ms" for acc and ms :: "string list"
    by (induction ms arbitrary: acc) (auto simp: set_add_def)
  then show ?thesis by (simp add: market_ids_def Un_assoc)
qed

lemma found_listed:
  assumes "keyed p" "h \<in> set (listAccountHoldings p account)"
  shows "find (\<lambda>h'. to_lower (hd_market h') = to_lower (hd_market h)) (listAccountHoldings p account) = Some h"
proof -
  let ?find = "find (\<lambda>h'. to_lower (hd_market h') = to_lower (hd_market h)) (listAccountHoldings p account)"
  have "?find \<noteq> None" using assms(2) by (auto simp: find_None_iff)
  then obtain h' where h': "?find = Some h'" by blast
  then have "h' \<in> set (listAccountHoldings p account)" "to_lower (hd_market h') = to_lower (hd_market h)"
    by (auto simp: find_Some_iff)
  with listed_unique [OF assms(1)] assms(2) h' show ?thesis by blast
qed

text \<open>The balances of a settled row say that fees or a refund are owed.\<close>

definition owed_more :: "settled_market \<Rightarrow> bool" where
  "owed_more s \<longleftrightarrow> (\<exists>fees refund. sm_owed s = Some (fees, refund) \<and> (0 < fees \<or> 0 < refund))"

text \<open>A claim of a single unit on a market that pays half: redeeming it pays nothing.\<close>

definition dust :: "claim_view \<Rightarrow> bool" where
  "dust v \<longleftrightarrow> cw_outcome_label v \<in> {Some ''tie'', Some ''invalid''} \<and> (0 < cw_position_a v \<or> 0 < cw_position_b v)
     \<and> cw_position_a v + cw_position_b v < 2"

lemma redeemable_half: "0 < trunc_div n 2 \<longleftrightarrow> 2 \<le> n"
proof -
  have "0 < n \<Longrightarrow> 0 < n div 2 \<longleftrightarrow> 2 \<le> n" by linarith
  then show ?thesis by (cases "0 < n") (auto simp: trunc_div_def sgn_if)
qed

lemma claimable_agree:
  assumes "cw_outcome_label v = OUTCOME_LABEL outcome" "outcome \<noteq> 0"
    and "cw_claimable v = (0 < redeemable outcome (cw_position_a v) (cw_position_b v) \<or> 0 < cw_lp_shares v)"
  shows "hasSomethingToClaim outcome (cw_position_a v) (cw_position_b v) (cw_lp_shares v) bal = Some True
    \<longleftrightarrow> cw_claimable v \<or> dust v \<or> ow_known bal \<and> (0 < ow_lp_fees bal \<or> 0 < ow_winner_fee_refund bal)"
  using assms by (auto simp: hasSomethingToClaim_def redeemable_def dust_def OUTCOME_LABEL_def redeemable_half split: if_splits)

lemma claim_view_row:
  assumes "keyed p" "v \<in> set (claimsFor p account)"
  shows "\<exists>s \<in> set (po_settled (portfolio_of p reader account)). sm_market s = to_lower (cw_market v)
    \<and> sm_held_a s = cw_position_a v \<and> sm_held_b s = cw_position_b v
    \<and> (sm_claimable s = Some True \<longleftrightarrow> cw_claimable v \<or> dust v \<or> owed_more s)"
proof -
  let ?hs = "listAccountHoldings p account" and ?cs = "listClaims p (Some account)"
    and ?ts = "filter (\<lambda>t. to_lower (tr_account t) = to_lower account) (listTrades p None 0)"
  from assms(2) obtain h where h: "h \<in> set ?hs" "claim_view_of p h = Some v"
    by (auto simp: claimsFor_def map_filter_def)
  let ?m = "to_lower (hd_market h)"
  let ?out = "outcome_of (row_of (getMarket p ?m))"
  have same: "getMarket p ?m = getMarket p (hd_market h)" by (simp add: getMarket_def)
  from h(2) have v: "?out \<noteq> 0" "cw_market v = hd_market h" "cw_outcome_label v = OUTCOME_LABEL ?out"
      "cw_position_a v = hd_a h" "cw_position_b v = hd_b h" "cw_lp_shares v = hd_lp h"
      "cw_claimable v = (0 < redeemable ?out (hd_a h) (hd_b h) \<or> 0 < hd_lp h)"
    unfolding same by (auto simp: claim_view_of_def Let_def row_of_def outcome_of_def split: option.splits if_splits)
  have held: "0 < hd_a h \<or> 0 < hd_b h \<or> 0 < hd_lp h" using h(1) by (simp add: listAccountHoldings_def)
  let ?bal = "owed_of reader ?m account ?out"
  from found_listed [OF assms(1) h(1)] v(1) held obtain s where
    s: "mv_settled (market_view p reader account ?hs ?cs ?ts ?m) = [s]" "sm_market s = ?m" "sm_held_a s = hd_a h"
      "sm_held_b s = hd_b h" "sm_claimable s = hasSomethingToClaim ?out (hd_a h) (hd_b h) (hd_lp h) ?bal"
      "sm_owed s = (if ow_known ?bal then Some (ow_lp_fees ?bal, ow_winner_fee_refund ?bal) else None)"
    by (auto simp: market_view_def Let_def)
  have "?m \<in> set (market_ids ?hs ?cs ?ts)" using h(1) by (auto simp: set_market_ids)
  with s(1) have "s \<in> set (po_settled (portfolio_of p reader account))"
    by (force simp: portfolio_of_def Let_def)
  moreover from claimable_agree [OF v(3,1), of ?bal] v(4-7) s(5,6) have
    "sm_claimable s = Some True \<longleftrightarrow> cw_claimable v \<or> dust v \<or> owed_more s" by (auto simp: owed_more_def)
  ultimately show ?thesis using s(2-4) v(2,4,5) by auto
qed

text \<open>C25: over an honest node, every claim the settlement service lists for an account has a settled row in
  the account's portfolio with the same positions, and the row is shown claimable exactly when the
  claim is, or fees or a refund are owed, or the holding is a single unit of a market that pays
  half.\<close>

theorem claims_match_portfolio:
  assumes "deployment fs rs C" "\<forall>(nd, head) \<in> set polls. wired fs rs C nd" "p = ix_store (run_polls polls new_indexer)"
    and "v \<in> set (claimsFor p account)"
  shows "\<exists>s \<in> set (po_settled (portfolio_of p reader account)). sm_market s = to_lower (cw_market v)
    \<and> sm_held_a s = cw_position_a v \<and> sm_held_b s = cw_position_b v
    \<and> (sm_claimable s = Some True \<longleftrightarrow> cw_claimable v \<or> dust v \<or> owed_more s)"
proof -
  have "follows_chain C (run_polls polls new_indexer)" by (rule run_polls_follows [OF assms(2,1) follows_new [OF assms(1)]])
  then have "keyed p" unfolding assms(3) by (auto simp: follows_chain_def tracks_chain_def)
  from claim_view_row [OF this assms(4)] show ?thesis .
qed

text \<open>The instance: one unit of a market that tied.\<close>

definition sample_unit :: log where
  "sample_unit = \<lparr> lg_block = 2, lg_index = 0, lg_address = ''0xm'', lg_event = Trade ''0xa'' True True 10 1 \<rparr>"

definition sample_tie :: log where
  "sample_tie = \<lparr> lg_block = 3, lg_index = 0, lg_address = ''0xm'', lg_event = ResultFinalized 3 \<rparr>"

definition tied_chain :: "log list" where
  "tied_chain = [sample_created, sample_unit, sample_tie]"

lemma tied_deployment: "deployment [''0xf''] [] tied_chain"
proof -
  have "announced [''0xf''] tied_chain sample_unit" "announced [''0xf''] tied_chain sample_tie"
    unfolding announced_def tied_chain_def
    by (intro bexI [of _ sample_created]; simp add: sample_created_def sample_unit_def sample_tie_def from_one_of_def)+
  moreover have "distinct (map log_id tied_chain)" by code_simp
  ultimately show ?thesis
    by (simp add: deployment_def tied_chain_def sample_created_def sample_unit_def sample_tie_def from_one_of_def)
qed

definition tied_store :: projection where
  "tied_store = ix_store (run_polls [(serving_node tied_chain, 3)] new_indexer)"

theorem claims_match_portfolio_witness:
  "\<exists>v \<in> set (claimsFor tied_store ''0xa''). \<not> cw_claimable v \<and>
     (\<exists>s \<in> set (po_settled (portfolio_of tied_store None ''0xa'')). sm_market s = to_lower (cw_market v)
       \<and> (sm_claimable s = Some True \<longleftrightarrow> cw_claimable v \<or> dust v \<or> owed_more s))"
proof -
  let ?v = "hd (claimsFor tied_store ''0xa'')"
  have "claimsFor tied_store ''0xa'' \<noteq> []" "\<not> cw_claimable ?v" by code_simp+
  then have v: "?v \<in> set (claimsFor tied_store ''0xa'')" by simp
  from claims_match_portfolio [OF tied_deployment _ tied_store_def v, of None] wired_serving obtain s where
    "s \<in> set (po_settled (portfolio_of tied_store None ''0xa''))" "sm_market s = to_lower (cw_market ?v)"
    "sm_claimable s = Some True \<longleftrightarrow> cw_claimable ?v \<or> dust ?v \<or> owed_more s" by auto
  with v \<open>\<not> cw_claimable ?v\<close> show ?thesis by blast
qed

text \<open>The row of that unit says there is something to claim, the listed claim says there is not.\<close>

lemma dust_claims_disagree:
  "map cw_claimable (claimsFor tied_store ''0xa'') = [False]"
  "map sm_claimable (po_settled (portfolio_of tied_store None ''0xa'')) = [Some True]"
  by code_simp+

end
