(* ===== verification/Actions.thy ===== *)
theory Actions
  imports Prelude
begin

section \<open>Stateful calls that may throw\<close>

text \<open>
  An async method of a service: it changes the state it shares and returns or throws; a throw
  keeps the changes made before it. \<open>only\<close> says what every run of a call does to the state,
  whatever its result, and composes along the calls a method makes.
\<close>

named_theorems only_intros \<open>rules to show what a call does to the state\<close>

type_synonym ('s, 'e, 'a) action = "'s \<Rightarrow> 's \<times> ('e + 'a)"

definition ret :: "'a \<Rightarrow> ('s, 'e, 'a) action" where
  "ret x = (\<lambda>s. (s, Inr x))"

definition raise :: "'e \<Rightarrow> ('s, 'e, 'a) action" where
  "raise e = (\<lambda>s. (s, Inl e))"

definition bind_act :: "('s, 'e, 'a) action \<Rightarrow> ('a \<Rightarrow> ('s, 'e, 'b) action) \<Rightarrow> ('s, 'e, 'b) action" where
  "bind_act m f = (\<lambda>s. case m s of (s', Inl e) \<Rightarrow> (s', Inl e) | (s', Inr x) \<Rightarrow> f x s')"

definition gets :: "('s \<Rightarrow> 'a) \<Rightarrow> ('s, 'e, 'a) action" where
  "gets f = (\<lambda>s. (s, Inr (f s)))"

definition modify :: "('s \<Rightarrow> 's) \<Rightarrow> ('s, 'e, unit) action" where
  "modify f = (\<lambda>s. (f s, Inr ()))"

definition lift_res :: "('x \<Rightarrow> 'e) \<Rightarrow> 'x + 'a \<Rightarrow> ('s, 'e, 'a) action" where
  "lift_res g r = (\<lambda>s. (s, map_sum g id r))"

definition when_act :: "bool \<Rightarrow> ('s, 'e, unit) action \<Rightarrow> ('s, 'e, unit) action" where
  "when_act b m = (if b then m else ret ())"

fun each_act :: "('x \<Rightarrow> ('s, 'e, unit) action) \<Rightarrow> 'x list \<Rightarrow> ('s, 'e, unit) action" where
  "each_act f [] = ret ()"
| "each_act f (x # xs) = bind_act (f x) (\<lambda>u. each_act f xs)"

fun map_act :: "('x \<Rightarrow> ('s, 'e, 'a) action) \<Rightarrow> 'x list \<Rightarrow> ('s, 'e, 'a list) action" where
  "map_act f [] = ret []"
| "map_act f (x # xs) = bind_act (f x) (\<lambda>y. bind_act (map_act f xs) (\<lambda>ys. ret (y # ys)))"

text \<open>The first element a query answers yes to, asking no further.\<close>

fun find_act :: "('x \<Rightarrow> ('s, 'e, bool) action) \<Rightarrow> 'x list \<Rightarrow> ('s, 'e, 'x option) action" where
  "find_act f [] = ret None"
| "find_act f (x # xs) = bind_act (f x) (\<lambda>b. if b then ret (Some x) else find_act f xs)"

lemma action_simps [simp]:
  "ret x s = (s, Inr x)" "raise e s = (s, Inl e)" "gets f s = (s, Inr (f s))" "modify g s = (g s, Inr ())"
  "lift_res h r s = (s, map_sum h id r)"
  by (simp_all add: ret_def raise_def gets_def modify_def lift_res_def)

lemma bind_act_run: "bind_act m f s = (case m s of (s', Inl e) \<Rightarrow> (s', Inl e) | (s', Inr x) \<Rightarrow> f x s')"
  by (simp add: bind_act_def)

lemma bind_act_Inr: "bind_act m f s = (s2, Inr y) \<longleftrightarrow> (\<exists>s1 x. m s = (s1, Inr x) \<and> f x s1 = (s2, Inr y))"
  by (auto simp: bind_act_def split: prod.splits sum.splits)

lemma bind_act_simps [simp]:
  "m s = (s1, Inr x) \<Longrightarrow> bind_act m f s = f x s1"
  "m s = (s1, Inl e) \<Longrightarrow> bind_act m f s = (s1, Inl e)"
  by (simp_all add: bind_act_def)

lemma when_act_Inr: "when_act b m s = (s1, Inr u) \<longleftrightarrow> (if b then m s = (s1, Inr u) else s1 = s)"
  by (cases u) (auto simp: when_act_def)

lemma find_act_member: "find_act f xs s = (s', Inr (Some x)) \<Longrightarrow> x \<in> set xs"
  by (induction xs arbitrary: s) (auto simp: bind_act_Inr split: if_splits)

lemma each_act_append: "each_act f (xs @ ys) = bind_act (each_act f xs) (\<lambda>u. each_act f ys)"
  by (induction xs) (auto simp: bind_act_def fun_eq_iff split: prod.splits sum.splits)

subsection \<open>What every run does to the state\<close>

definition only :: "('s \<Rightarrow> 's \<Rightarrow> bool) \<Rightarrow> ('s, 'e, 'a) action \<Rightarrow> bool" where
  "only R m \<longleftrightarrow> (\<forall>s. R s (fst (m s)))"

lemma onlyD: "only R m \<Longrightarrow> m s = (s', r) \<Longrightarrow> R s s'"
  unfolding only_def by (metis fst_conv)

locale preorder_on =
  fixes R :: "'s \<Rightarrow> 's \<Rightarrow> bool"
  assumes refl: "R s s" and trans: "R s t \<Longrightarrow> R t u \<Longrightarrow> R s u"
begin

lemma only_ret [only_intros]: "only R (ret x)"
  and only_raise [only_intros]: "only R (raise e)"
  and only_gets [only_intros]: "only R (gets f)"
  and only_lift [only_intros]: "only R (lift_res h r)"
  by (simp_all add: only_def refl)

lemma only_modify: "(\<And>s. R s (f s)) \<Longrightarrow> only R (modify f)"
  by (simp add: only_def)

lemma only_bind [only_intros]: "only R m \<Longrightarrow> (\<And>x. only R (f x)) \<Longrightarrow> only R (bind_act m f)"
  unfolding only_def bind_act_def
  by (auto split: prod.splits sum.splits) (metis fst_conv trans)+

lemma only_when [only_intros]: "only R m \<Longrightarrow> only R (when_act b m)"
  by (simp add: when_act_def only_ret)

lemma only_each [only_intros]: "(\<And>x. only R (f x)) \<Longrightarrow> only R (each_act f xs)"
  by (induction xs) (auto intro: only_intros)

lemma only_map [only_intros]: "(\<And>x. only R (f x)) \<Longrightarrow> only R (map_act f xs)"
  by (induction xs) (auto intro!: only_intros)

lemma only_find [only_intros]: "(\<And>x. only R (f x)) \<Longrightarrow> only R (find_act f xs)"
  by (induction xs) (auto intro!: only_intros)

text \<open>At one state, with what the first call returned at hand.\<close>

lemma bind_at:
  assumes "R s (fst (m s))" "\<And>s' x. m s = (s', Inr x) \<Longrightarrow> R s s' \<Longrightarrow> R s' (fst (f x s'))"
  shows "R s (fst (bind_act m f s))"
proof -
  obtain s' r where run: "m s = (s', r)" by fastforce
  with assms(1) have "R s s'" by simp
  with run assms(2) trans show ?thesis by (cases r) (auto simp: bind_act_def)
qed

lemma map_act_result:
  assumes "\<And>x. only R (f x)" "map_act f xs s = (s', Inr ys)" "y \<in> set ys"
  shows "\<exists>x \<in> set xs. \<exists>t t'. R s t \<and> f x t = (t', Inr y)"
  using assms(2,3)
proof (induction xs arbitrary: s ys)
  case (Cons x xs)
  from Cons.prems(1) obtain t z zs where run: "f x s = (t, Inr z)" "map_act f xs t = (s', Inr zs)" "ys = z # zs"
    by (auto simp: bind_act_Inr)
  have "R s t" using onlyD [OF assms(1) run(1)] .
  show ?case
  proof (cases "y = z")
    case True
    with run(1) refl show ?thesis by auto
  next
    case False
    with Cons.prems(2) run(3) have "y \<in> set zs" by simp
    from Cons.IH [OF run(2) this] trans [OF \<open>R s t\<close>] show ?thesis by auto
  qed
qed (simp add: ret_def)

end

end
