(* ===== verification/Stores.thy ===== *)
theory Stores
  imports EventLog
begin

section \<open>Storage ports (ports/stores.mjs)\<close>

text \<open>
  The in-memory adapters: the event store with its per-room views, the raw archive, the
  key-value store and the leader lease. The components that use a store take it as a record of
  operations, as the code takes a port; the laws they rely on are locales, interpreted here on
  the adapters.
\<close>

subsection \<open>The event store\<close>

record event_store =
  es_events :: "event list"
  es_roomId :: "string option"

datatype store_error =
    WrongRoom string string
  | AppendGap int int
  | MissingBlob string

definition es_visible :: "event_store \<Rightarrow> event list" where
  "es_visible s =
     (case es_roomId s of None \<Rightarrow> es_events s | Some room \<Rightarrow> filter (\<lambda>e. ev_room_id e = room) (es_events s))"

definition es_tip :: "event_store \<Rightarrow> event option" where
  "es_tip s = last_opt (es_visible s)"

text \<open>A missing \<open>room_id\<close> reads as the empty text.\<close>

definition es_append :: "event_store \<Rightarrow> event \<Rightarrow> store_error + event_store" where
  "es_append s e =
     (let eventRoom = ev_room_id e in
      if (case es_roomId s of None \<Rightarrow> False | Some room \<Rightarrow> eventRoom \<noteq> [] \<and> eventRoom \<noteq> room)
      then Inl (WrongRoom eventRoom (the (es_roomId s)))
      else
        let room = (case es_roomId s of Some r \<Rightarrow> r | None \<Rightarrow> eventRoom);
            normalized = (if es_roomId s \<noteq> None \<and> eventRoom = [] then e\<lparr>ev_room_id := the (es_roomId s)\<rparr> else e);
            tip = last_opt (filter (\<lambda>x. ev_room_id x = room) (es_events s));
            expected = (case tip of Some t \<Rightarrow> ev_seq t + 1 | None \<Rightarrow> 1)
        in if ev_seq e \<noteq> expected then Inl (AppendGap (ev_seq e) expected)
           else Inr (s\<lparr>es_events := es_events s @ [normalized]\<rparr>))"

definition es_all :: "event_store \<Rightarrow> event list" where
  "es_all s = es_visible s"

definition es_slice :: "event_store \<Rightarrow> int \<Rightarrow> int option \<Rightarrow> event list" where
  "es_slice s fromSeq toSeq =
     filter (\<lambda>e. fromSeq \<le> ev_seq e \<and> (case toSeq of None \<Rightarrow> True | Some t \<Rightarrow> ev_seq e \<le> t)) (es_visible s)"

definition es_count :: "event_store \<Rightarrow> nat" where
  "es_count s = length (es_visible s)"

definition es_forRoom :: "event_store \<Rightarrow> string \<Rightarrow> event_store" where
  "es_forRoom s roomId = \<lparr> es_events = es_events s, es_roomId = Some roomId \<rparr>"

subsection \<open>Raw archive and key-value store\<close>

definition raw_ref :: "string \<Rightarrow> string" where
  "raw_ref i = ''mem://raw/'' @ i"

definition raw_put :: "(string, string) js_map \<Rightarrow> string \<Rightarrow> string \<Rightarrow> (string, string) js_map \<times> string" where
  "raw_put blobs i bytes = (js_set (raw_ref i) bytes blobs, raw_ref i)"

definition raw_get :: "(string, string) js_map \<Rightarrow> string \<Rightarrow> store_error + string" where
  "raw_get blobs ref = (case js_get blobs ref of None \<Rightarrow> Inl (MissingBlob ref) | Some bytes \<Rightarrow> Inr bytes)"

definition kv_get :: "(string, 'v) js_map \<Rightarrow> string \<Rightarrow> 'v \<Rightarrow> 'v" where
  "kv_get data key fallback = (case js_get data key of Some v \<Rightarrow> v | None \<Rightarrow> fallback)"

definition kv_set :: "(string, 'v) js_map \<Rightarrow> string \<Rightarrow> 'v \<Rightarrow> (string, 'v) js_map" where
  "kv_set data key v = js_set key v data"

subsection \<open>The leader lease\<close>

record lease =
  ls_holder :: string
  ls_term :: int
  ls_expiresAt :: int

definition tryAcquire :: "(string, lease) js_map \<Rightarrow> string \<Rightarrow> string \<Rightarrow> int \<Rightarrow> int
    \<Rightarrow> (string, lease) js_map \<times> lease option" where
  "tryAcquire leases roomId holder ttlMs now =
     (let current = js_get leases roomId in
      if (case current of Some c \<Rightarrow> ls_holder c \<noteq> holder \<and> now < ls_expiresAt c | None \<Rightarrow> False)
      then (leases, None)
      else
        let t = (case current of Some c \<Rightarrow> ls_term c + (if ls_holder c = holder then 0 else 1) | None \<Rightarrow> 1);
            l = \<lparr> ls_holder = holder, ls_term = t, ls_expiresAt = now + ttlMs \<rparr>
        in (js_set roomId l leases, Some l))"

lemma tryAcquire_cases:
  "tryAcquire leases room h ttl now = (leases, None)
     \<and> (\<exists>c. js_get leases room = Some c \<and> ls_holder c \<noteq> h \<and> now < ls_expiresAt c)
   \<or> (\<exists>l. tryAcquire leases room h ttl now = (js_set room l leases, Some l)
        \<and> ls_holder l = h \<and> ls_expiresAt l = now + ttl
        \<and> (\<forall>c. js_get leases room = Some c \<longrightarrow>
              ls_term l = ls_term c + (if ls_holder c = h then 0 else 1)
            \<and> (ls_holder c = h \<or> ls_expiresAt c \<le> now)))"
  by (auto simp: tryAcquire_def Let_def split: option.splits)

text \<open>A granted lease excludes every other holder until it expires, and its term fences: a takeover raises
  the term by one, a renewal keeps it. Other rooms' leases are untouched.\<close>

theorem tryAcquire_fences:
  assumes "tryAcquire leases room h ttl now = (leases', Some l)"
  shows "(h' \<noteq> h \<longrightarrow> now' < now + ttl \<longrightarrow> tryAcquire leases' room h' ttl' now' = (leases', None))
    \<and> (\<forall>c. js_get leases room = Some c \<longrightarrow> ls_term l = ls_term c + (if ls_holder c = h then 0 else 1))
    \<and> (\<forall>room'. room' \<noteq> room \<longrightarrow> js_get leases' room' = js_get leases room')"
proof -
  have granted: "leases' = js_set room l leases" "ls_holder l = h" "ls_expiresAt l = now + ttl"
      "\<forall>c. js_get leases room = Some c \<longrightarrow> ls_term l = ls_term c + (if ls_holder c = h then 0 else 1)"
    using assms tryAcquire_cases [of leases room h ttl now] by auto
  have "h' \<noteq> h \<longrightarrow> now' < now + ttl \<longrightarrow> tryAcquire leases' room h' ttl' now' = (leases', None)"
    using granted by (simp add: tryAcquire_def port_simps)
  with granted show ?thesis by (simp add: port_simps)
qed

lemma tryAcquire_fences_witness:
  "tryAcquire (fst (tryAcquire [] ''room'' ''a'' 10 0)) ''room'' ''b'' 10 5
    = (fst (tryAcquire [] ''room'' ''a'' 10 0), None)"
proof -
  have "tryAcquire [] ''room'' ''a'' 10 0 =
      (fst (tryAcquire [] ''room'' ''a'' 10 0), Some \<lparr> ls_holder = ''a'', ls_term = 1, ls_expiresAt = 10 \<rparr>)"
    by (simp add: tryAcquire_def Let_def)
  from tryAcquire_fences [OF this, of "''b''" 5 10] show ?thesis by simp
qed

subsection \<open>The event store port\<close>

record 's store_port =
  port_all :: "'s \<Rightarrow> event list"
  port_tip :: "'s \<Rightarrow> event option"
  port_append :: "'s \<Rightarrow> event \<Rightarrow> store_error + 's"

definition memory_store :: "event_store store_port" where
  "memory_store = \<lparr> port_all = es_all, port_tip = es_tip, port_append = es_append \<rparr>"

definition next_seq :: "event list \<Rightarrow> int" where
  "next_seq es = (case last_opt es of Some t \<Rightarrow> ev_seq t + 1 | None \<Rightarrow> 1)"

text \<open>
  What a writer for one room relies on: reads see the room's log, an append of the next sequence
  succeeds and adds exactly that event at the end, and any other append changes nothing.
\<close>

locale append_only =
  fixes port :: "'s store_port" and scoped :: "'s \<Rightarrow> bool" and room :: string
  assumes tip_is_last: "scoped s \<Longrightarrow> port_tip port s = last_opt (port_all port s)"
    and append_next: "scoped s \<Longrightarrow> ev_room_id e = room \<Longrightarrow> ev_seq e = next_seq (port_all port s) \<Longrightarrow>
      \<exists>s'. port_append port s e = Inr s' \<and> scoped s' \<and> port_all port s' = port_all port s @ [e]"
    and append_gap: "scoped s \<Longrightarrow> ev_room_id e = room \<Longrightarrow> ev_seq e \<noteq> next_seq (port_all port s) \<Longrightarrow>
      \<exists>err. port_append port s e = Inl err"
begin

lemma append_Inr:
  assumes "scoped s" "ev_room_id e = room" "port_append port s e = Inr s'"
  shows "scoped s'" "port_all port s' = port_all port s @ [e]" "ev_seq e = next_seq (port_all port s)"
  using assms append_next [OF assms(1,2)] append_gap [OF assms(1,2)] by fastforce+

lemma append_built:
  assumes "scoped s" "well_chained H (port_all port s)" "buildEvent H (port_tip port s) d at = Inr e"
    "dr_room_id d = room"
  shows "\<exists>s'. port_append port s (e\<lparr>ev_signature := g\<rparr>) = Inr s' \<and> scoped s'
    \<and> port_all port s' = port_all port s @ [e\<lparr>ev_signature := g\<rparr>] \<and> well_chained H (port_all port s')"
proof -
  note tip = tip_is_last [OF assms(1)]
  have "ev_seq e = next_seq (port_all port s)"
    using buildEvent_fields(1) [OF assms(3)] by (simp add: tip next_seq_def)
  then obtain s' where "port_append port s (e\<lparr>ev_signature := g\<rparr>) = Inr s'" "scoped s'"
      "port_all port s' = port_all port s @ [e\<lparr>ev_signature := g\<rparr>]"
    using append_next [OF assms(1), of "e\<lparr>ev_signature := g\<rparr>"] buildEvent_fields(6) [OF assms(3)] assms(4) by auto
  moreover have "well_chained H (port_all port s @ [e\<lparr>ev_signature := g\<rparr>])"
    using assms(2,3) by (intro buildEvent_extends) (simp_all add: tip)
  ultimately show ?thesis by auto
qed

end

lemma es_append_scoped:
  assumes "es_roomId s = Some room" "ev_room_id e = room" "room \<noteq> []"
  shows "es_append s e =
    (if ev_seq e = next_seq (es_visible s) then Inr (s\<lparr>es_events := es_events s @ [e]\<rparr>)
     else Inl (AppendGap (ev_seq e) (next_seq (es_visible s))))"
  using assms by (simp add: es_append_def Let_def next_seq_def es_visible_def)

interpretation memory: append_only memory_store "\<lambda>s. es_roomId s = Some room \<and> room \<noteq> []" room for room
proof unfold_locales
  fix s and e :: event
  assume "es_roomId s = Some room \<and> room \<noteq> []" "ev_room_id e = room" "ev_seq e = next_seq (port_all memory_store s)"
  then show "\<exists>s'. port_append memory_store s e = Inr s' \<and> (es_roomId s' = Some room \<and> room \<noteq> [])
      \<and> port_all memory_store s' = port_all memory_store s @ [e]"
    by (simp add: memory_store_def es_all_def es_append_scoped es_visible_def)
qed (auto simp: memory_store_def es_all_def es_tip_def es_append_scoped)

text \<open>An append through one room's view of the event store leaves every other room's log as it was.\<close>

theorem es_append_other_room:
  assumes "es_append (es_forRoom s room) e = Inr s'" "other \<noteq> room" "ev_room_id e = [] \<longrightarrow> room \<noteq> []"
  shows "es_visible (es_forRoom s' other) = es_visible (es_forRoom s other)"
proof -
  have "ev_room_id e \<noteq> [] \<longrightarrow> ev_room_id e = room"
    using assms(1) by (auto simp: es_append_def es_forRoom_def Let_def split: if_splits)
  then show ?thesis
    using assms by (auto simp: es_append_def es_forRoom_def es_visible_def Let_def split: if_splits)
qed

lemma es_append_other_room_witness:
  "\<exists>s'. es_append (es_forRoom \<lparr> es_events = [blank_event ''two'' 1], es_roomId = None \<rparr> ''one'') (blank_event ''one'' 1) = Inr s'
    \<and> es_visible (es_forRoom s' ''two'') = [blank_event ''two'' 1]"
proof -
  define s where "s = \<lparr> es_events = [blank_event ''two'' 1], es_roomId = None \<rparr>"
  have "es_append (es_forRoom s ''one'') (blank_event ''one'' 1) =
      Inr \<lparr> es_events = [blank_event ''two'' 1, blank_event ''one'' 1], es_roomId = Some ''one'' \<rparr>"
    by (simp add: s_def es_append_def es_forRoom_def blank_event_def Let_def)
  from this es_append_other_room [OF this, of "''two''"] show ?thesis
    by (simp add: s_def es_forRoom_def es_visible_def blank_event_def)
qed

subsection \<open>Key-value laws\<close>

locale key_value =
  fixes get :: "'m \<Rightarrow> string \<Rightarrow> 'v \<Rightarrow> 'v" and put :: "'m \<Rightarrow> string \<Rightarrow> 'v \<Rightarrow> 'm"
  assumes get_set: "get (put m k v) k' d = (if k' = k then v else get m k' d)"
begin

lemma get_own: "get (put m k v) k d = v"
  by (simp add: get_set)

lemma get_last_write: "get (put (put m k v) k w) k' d = get (put m k w) k' d"
  by (simp add: get_set)

end

interpretation kv: key_value kv_get kv_set
  by unfold_locales (simp add: kv_get_def kv_set_def port_simps)

end
