(* ===== verification/Connector.thy ===== *)
theory Connector
  imports Stores
begin

section \<open>The Source Connector (connector/connector.mjs)\<close>

text \<open>
  Archives the provider's bytes, drops what it already recorded, chains and signs what is new,
  and appends it. The hash, the signer and the clock (its n-th reading) are parameters; the
  event store is a port. An exception leaves behind what was appended before it, so an ingest
  returns its state beside its result.
\<close>

record connector_env =
  cn_roomId :: string
  cn_source :: string
  cn_hash :: hash_fun
  cn_sign :: "string \<Rightarrow> string"
  cn_clock :: "nat \<Rightarrow> string"

record 's connector =
  cn_store :: 's
  cn_archive :: "(string, string) js_map"
  cn_latest :: "(string, event) js_map"
  cn_loaded :: bool
  cn_ticks :: nat

datatype ingest_error =
    OpenWindow
  | NotCanonical canon_error
  | StoreFailed store_error

definition new_connector :: "'s \<Rightarrow> (string, string) js_map \<Rightarrow> 's connector" where
  "new_connector s archive = \<lparr> cn_store = s, cn_archive = archive, cn_latest = [], cn_loaded = False, cn_ticks = 0 \<rparr>"

definition event_key :: "event \<Rightarrow> string" where
  "event_key e = dedupeKey (ev_source e) (ev_source_event_id e)"

definition index_of :: "event list \<Rightarrow> (string, event) js_map" where
  "index_of es = foldl (\<lambda>m e. js_set (event_key e) e m) [] es"

definition ensureLoaded :: "'s store_port \<Rightarrow> 's connector \<Rightarrow> 's connector" where
  "ensureLoaded port c =
     (if cn_loaded c then c
      else c\<lparr>cn_loaded := True,
             cn_latest := foldl (\<lambda>m e. js_set (event_key e) e m) (cn_latest c) (port_all port (cn_store c))\<rparr>)"

definition draft_facts :: "draft \<Rightarrow> json" where
  "draft_facts d = (case dr_facts d of None \<Rightarrow> JObj [] | Some f \<Rightarrow> f)"

definition complete_draft :: "connector_env \<Rightarrow> string \<Rightarrow> string \<Rightarrow> json \<Rightarrow> event option \<Rightarrow> draft \<Rightarrow> full_draft" where
  "complete_draft env ref rawHash rawQuery superseded d =
     \<lparr> dr_source_event_id = dr_source_event_id d, dr_participant = dr_participant d,
       dr_observed_at = dr_observed_at d, dr_kind = dr_kind d, dr_facts = dr_facts d, dr_derived = dr_derived d,
       dr_room_id = cn_roomId env, dr_source = cn_source env, dr_raw_ref = ref, dr_raw_hash = rawHash,
       dr_raw_query = rawQuery, dr_corrects = map_option ev_hash superseded \<rparr>"

text \<open>One round of the loop over the drafts: \<open>Inr None\<close> is the \<open>continue\<close>.\<close>

definition ingest_draft :: "connector_env \<Rightarrow> 's store_port \<Rightarrow> string \<Rightarrow> string \<Rightarrow> json \<Rightarrow> 's connector \<Rightarrow> draft
    \<Rightarrow> 's connector \<times> (ingest_error + event option)" where
  "ingest_draft env port ref rawHash rawQuery c d =
     (let key = dedupeKey (cn_source env) (dr_source_event_id d);
          superseded = js_get (cn_latest c) key
      in case (case superseded of
                 None \<Rightarrow> Inr False
               | Some s \<Rightarrow>
                   bind_res (contentKey (ev_source s) (ev_source_event_id s) (ev_facts s)) (\<lambda>old.
                     bind_res (contentKey (cn_source env) (dr_source_event_id d) (draft_facts d)) (\<lambda>new.
                       Inr (old = new)))) of
           Inl err \<Rightarrow> (c, Inl (NotCanonical err))
         | Inr True \<Rightarrow> (c, Inr None)
         | Inr False \<Rightarrow>
             let c1 = c\<lparr>cn_ticks := cn_ticks c + 1\<rparr> in
             (case buildEvent (cn_hash env) (port_tip port (cn_store c))
                     (complete_draft env ref rawHash rawQuery superseded d) (cn_clock env (cn_ticks c)) of
                Inl err \<Rightarrow> (c1, Inl (NotCanonical err))
              | Inr built \<Rightarrow>
                  let e = built\<lparr>ev_signature := Some (cn_sign env (ev_hash built))\<rparr>
                  in case port_append port (cn_store c) e of
                       Inl err \<Rightarrow> (c1, Inl (StoreFailed err))
                     | Inr s' \<Rightarrow> (c1\<lparr>cn_store := s', cn_latest := js_set key e (cn_latest c)\<rparr>, Inr (Some e))))"

fun ingest_drafts :: "connector_env \<Rightarrow> 's store_port \<Rightarrow> string \<Rightarrow> string \<Rightarrow> json \<Rightarrow> 's connector \<Rightarrow> draft list
    \<Rightarrow> 's connector \<times> (ingest_error + event list)" where
  "ingest_drafts env port ref rawHash rawQuery c [] = (c, Inr [])"
| "ingest_drafts env port ref rawHash rawQuery c (d # ds) =
     (case ingest_draft env port ref rawHash rawQuery c d of
        (c1, Inl err) \<Rightarrow> (c1, Inl err)
      | (c1, Inr e) \<Rightarrow>
          (case ingest_drafts env port ref rawHash rawQuery c1 ds of
             (c2, Inl err) \<Rightarrow> (c2, Inl err)
           | (c2, Inr es) \<Rightarrow> (c2, Inr ((case e of None \<Rightarrow> [] | Some x \<Rightarrow> [x]) @ es))))"

definition js_slice :: "string \<Rightarrow> nat \<Rightarrow> nat \<Rightarrow> string" where
  "js_slice s i j = drop i (take j s)"

definition ingestBatch :: "connector_env \<Rightarrow> 's store_port \<Rightarrow> 's connector \<Rightarrow> string \<Rightarrow> json \<Rightarrow> draft list
    \<Rightarrow> 's connector \<times> (ingest_error + event list)" where
  "ingestBatch env port c0 rawBytes rawQuery drafts =
     (let c = ensureLoaded port c0 in
      if falsy rawQuery \<or> \<not> falsy (json_get rawQuery ''open_ended'') then (c, Inl OpenWindow)
      else (case canonicalize rawQuery of
              Inl err \<Rightarrow> (c, Inl (NotCanonical err))
            | Inr text \<Rightarrow>
                let rawHash = cn_hash env rawBytes;
                    queryHash = cn_hash env text;
                    (blobs, ref) = raw_put (cn_archive c)
                      (cn_roomId env @ ''-'' @ js_slice queryHash 2 18 @ ''-'' @ js_slice rawHash 2 10) rawBytes
                in ingest_drafts env port ref rawHash rawQuery (c\<lparr>cn_archive := blobs\<rparr>) drafts))"

definition heartbeat :: "connector_env \<Rightarrow> 's store_port \<Rightarrow> 's connector \<Rightarrow> string option
    \<Rightarrow> 's connector \<times> (ingest_error + event list)" where
  "heartbeat env port c observedAt =
     (let (observed, c1) =
        (case observedAt of Some at \<Rightarrow> (at, c)
         | None \<Rightarrow> (cn_clock env (cn_ticks c), c\<lparr>cn_ticks := cn_ticks c + 1\<rparr>))
      in ingestBatch env port c1
           (''{'' @ json_quote ''heartbeat'' @ '':'' @ json_quote observed @ ''}'')
           (JObj [(''kind'', JStr ''heartbeat''), (''at'', JStr observed)])
           [\<lparr> dr_source_event_id = ''heartbeat-'' @ observed, dr_participant = None, dr_observed_at = observed,
              dr_kind = ''heartbeat'', dr_facts = Some (JObj []), dr_derived = None \<rparr>])"

text \<open>\<open>recover\<close> is viem's \<open>recoverMessageAddress\<close>, \<open>None\<close> when it throws.\<close>

definition makeSignatureVerifier :: "(string \<Rightarrow> string \<Rightarrow> string option) \<Rightarrow> string \<Rightarrow> event \<Rightarrow> bool" where
  "makeSignatureVerifier recover connectorAddress e =
     (case truthy_text (ev_signature e) of
        None \<Rightarrow> False
      | Some signature \<Rightarrow>
          (case recover (ev_hash e) signature of
             None \<Rightarrow> False
           | Some recovered \<Rightarrow> to_lower recovered = to_lower connectorAddress))"

subsection \<open>The logs a connector writes\<close>

text \<open>The event a fact id currently stands for.\<close>

definition latest_of :: "event list \<Rightarrow> string \<Rightarrow> event option" where
  "latest_of es k = last_opt (filter (\<lambda>e. event_key e = k) es)"

definition content_of :: "event \<Rightarrow> canon_error + string" where
  "content_of e = contentKey (ev_source e) (ev_source_event_id e) (ev_facts e)"

text \<open>
  Each event after \<open>pre\<close>: written by this connector for this room, naming the event its fact
  supersedes, and only when the content is news.
\<close>

definition fresh_event :: "connector_env \<Rightarrow> event list \<Rightarrow> event \<Rightarrow> bool" where
  "fresh_event env pre e \<longleftrightarrow>
     ev_source e = cn_source env \<and> ev_room_id e = cn_roomId env
     \<and> ev_corrects e = map_option ev_hash (latest_of pre (event_key e))
     \<and> (\<forall>s. latest_of pre (event_key e) = Some s \<longrightarrow> content_of s \<noteq> content_of e)"

definition connector_log :: "connector_env \<Rightarrow> event list \<Rightarrow> bool" where
  "connector_log env es \<longleftrightarrow> well_chained (cn_hash env) es
     \<and> (\<forall>pre e post. es = pre @ e # post \<longrightarrow> fresh_event env pre e)"

lemma latest_of_simps [simp]:
  "latest_of [] k = None"
  "latest_of (es @ [e]) k = (if event_key e = k then Some e else latest_of es k)"
  by (simp_all add: latest_of_def)

lemma index_of_get: "js_get (index_of es) k = latest_of es k"
  by (induction es rule: rev_induct) (auto simp: index_of_def port_simps)

lemma index_of_snoc: "index_of (es @ [e]) = js_set (event_key e) e (index_of es)"
  by (simp add: index_of_def)

lemma connector_log_Nil [simp]: "connector_log env []"
  by (simp add: connector_log_def well_chained_def)

lemma connector_log_snoc:
  "connector_log env (es @ [e]) \<longleftrightarrow> connector_log env es \<and> well_chained (cn_hash env) (es @ [e]) \<and> fresh_event env es e"
proof
  assume "connector_log env (es @ [e])"
  then have chain: "well_chained (cn_hash env) (es @ [e])"
    and fresh: "\<And>pre x post. es @ [e] = pre @ x # post \<Longrightarrow> fresh_event env pre x"
    by (auto simp: connector_log_def)
  have "fresh_event env pre x" if "es = pre @ x # post" for pre x post
    using fresh [of pre x "post @ [e]"] that by simp
  with chain fresh [of es e "[]"]
  show "connector_log env es \<and> well_chained (cn_hash env) (es @ [e]) \<and> fresh_event env es e"
    by (auto simp: connector_log_def well_chained_append)
next
  assume *: "connector_log env es \<and> well_chained (cn_hash env) (es @ [e]) \<and> fresh_event env es e"
  have "fresh_event env pre x" if "es @ [e] = pre @ x # post" for pre x post
  proof (cases post rule: rev_cases)
    case Nil
    with that * show ?thesis by simp
  next
    case (snoc post' y)
    with that * show ?thesis by (auto simp: connector_log_def)
  qed
  with * show "connector_log env (es @ [e])" by (auto simp: connector_log_def)
qed

lemma connector_log_chained: "connector_log env es \<Longrightarrow> well_chained (cn_hash env) es"
  by (simp add: connector_log_def)

text \<open>A connector in step with its log: its index is the log's, whether built up or reloaded.\<close>

definition in_step :: "connector_env \<Rightarrow> 's store_port \<Rightarrow> 's connector \<Rightarrow> bool" where
  "in_step env port c \<longleftrightarrow> connector_log env (port_all port (cn_store c))
     \<and> (if cn_loaded c then cn_latest c = index_of (port_all port (cn_store c)) else cn_latest c = [])"

lemma ensureLoaded_in_step:
  assumes "in_step env port c"
  shows "in_step env port (ensureLoaded port c)" "cn_store (ensureLoaded port c) = cn_store c"
    "cn_latest (ensureLoaded port c) = index_of (port_all port (cn_store c))" "cn_loaded (ensureLoaded port c)"
  using assms by (auto simp: in_step_def ensureLoaded_def index_of_def)

definition draft_key :: "connector_env \<Rightarrow> draft \<Rightarrow> string" where
  "draft_key env d = dedupeKey (cn_source env) (dr_source_event_id d)"

definition draft_content :: "connector_env \<Rightarrow> draft \<Rightarrow> canon_error + string" where
  "draft_content env d = contentKey (cn_source env) (dr_source_event_id d) (draft_facts d)"

text \<open>The draft is what its fact id currently says.\<close>

definition recorded :: "connector_env \<Rightarrow> event list \<Rightarrow> draft \<Rightarrow> bool" where
  "recorded env es d \<longleftrightarrow> (\<exists>s t. latest_of es (draft_key env d) = Some s
     \<and> content_of s = Inr t \<and> draft_content env d = Inr t)"

lemma buildEvent_draft:
  assumes "buildEvent H tip (complete_draft env ref rh rq old d) at = Inr e"
  shows "ev_source e = cn_source env" "ev_room_id e = cn_roomId env"
    "ev_corrects e = map_option ev_hash old" "event_key e = draft_key env d"
    "content_of e = draft_content env d" "returns (canonicalize (ev_facts e))"
proof -
  note f = buildEvent_fields [OF assms]
  show "ev_source e = cn_source env" "ev_room_id e = cn_roomId env"
    "ev_corrects e = map_option ev_hash old" "event_key e = draft_key env d"
    "content_of e = draft_content env d"
    using f by (simp_all add: complete_draft_def event_key_def draft_key_def content_of_def draft_content_def
        draft_facts_def)
  from f(3) obtain t where "canonicalize (covered e) = Inr t" by (auto simp: eventHash_def map_sum_Inr_iff)
  moreover have "(''facts'', ev_facts e) \<in> set (covered_fields e)" by (simp add: covered_fields_def)
  ultimately show "returns (canonicalize (ev_facts e))"
    unfolding covered_def by (rule canonicalize_member)
qed

subsection \<open>Ingesting\<close>

lemma connector_fields [simp]:
  "in_step env port (c\<lparr>cn_ticks := n\<rparr>) = in_step env port c"
  "in_step env port (c\<lparr>cn_archive := a\<rparr>) = in_step env port c"
  by (simp_all add: in_step_def)

context append_only
begin

definition ingesting :: "connector_env \<Rightarrow> 's connector \<Rightarrow> bool" where
  "ingesting env c \<longleftrightarrow> scoped (cn_store c) \<and> cn_roomId env = room \<and> cn_loaded c \<and> in_step env port c"

lemma ingesting_fields [simp]:
  "ingesting env (c\<lparr>cn_ticks := n\<rparr>) = ingesting env c"
  "ingesting env (c\<lparr>cn_archive := a\<rparr>) = ingesting env c"
  by (simp_all add: ingesting_def)

lemma ingesting_latest: "ingesting env c \<Longrightarrow> js_get (cn_latest c) k = latest_of (port_all port (cn_store c)) k"
  by (simp add: ingesting_def in_step_def index_of_get)

text \<open>What one draft does: nothing on an error or on no news, else one fresh event at the end.\<close>

lemma ingest_draft_cases:
  assumes "ingesting env c" "ingest_draft env port ref rh rq c d = (c', r)"
  obtains (error) err where "r = Inl err" "ingesting env c'" "cn_store c' = cn_store c"
  | (known) "r = Inr None" "c' = c" "recorded env (port_all port (cn_store c)) d"
  | (appended) e where "r = Inr (Some e)" "ingesting env c'"
      "port_all port (cn_store c') = port_all port (cn_store c) @ [e]" "event_key e = draft_key env d"
      "recorded env (port_all port (cn_store c')) d"
proof -
  let ?all = "port_all port (cn_store c)"
  let ?old = "latest_of ?all (draft_key env d)"
  let ?same = "case ?old of None \<Rightarrow> Inr False
      | Some s \<Rightarrow> bind_res (content_of s) (\<lambda>old. bind_res (draft_content env d) (\<lambda>new. Inr (old = new)))"
  let ?built = "buildEvent (cn_hash env) (port_tip port (cn_store c)) (complete_draft env ref rh rq ?old d)
      (cn_clock env (cn_ticks c))"
  note step = assms(2) [unfolded ingest_draft_def Let_def, folded draft_key_def,
      unfolded ingesting_latest [OF assms(1)], folded content_of_def draft_content_def]
  show thesis
  proof (cases ?same)
    case (Inl err)
    with step assms(1) show thesis by (intro error) auto
  next
    case (Inr same)
    show thesis
    proof (cases same)
      case True
      with Inr obtain s t where "?old = Some s" "content_of s = Inr t" "draft_content env d = Inr t"
        by (auto simp: result_simps split: option.splits)
      with step Inr True show thesis by (intro known) (auto simp: recorded_def)
    next
      case False
      show thesis
      proof (cases ?built)
        case (Inl err)
        with step Inr False assms(1) show thesis by (intro error) auto
      next
        case (Inr e)
        define e' where "e' = e\<lparr>ev_signature := Some (cn_sign env (ev_hash e))\<rparr>"
        note built = buildEvent_draft [OF Inr]
        have chained: "well_chained (cn_hash env) ?all" and scoped: "scoped (cn_store c)"
          and log: "connector_log env ?all" and loaded: "cn_loaded c" "cn_latest c = index_of ?all"
          and here: "cn_roomId env = room"
          using assms(1) by (auto simp: ingesting_def in_step_def connector_log_chained)
        from append_built [OF scoped chained Inr, of "Some (cn_sign env (ev_hash e))"] here
        obtain s' where s': "port_append port (cn_store c) e' = Inr s'" "scoped s'" "port_all port s' = ?all @ [e']"
            "well_chained (cn_hash env) (port_all port s')"
          by (auto simp: e'_def complete_draft_def)
        have key: "event_key e' = draft_key env d" and cont: "content_of e' = draft_content env d"
          using built(4,5) by (simp_all add: e'_def event_key_def content_of_def)
        have "returns (content_of e')"
          using built(6) by (auto simp: e'_def content_of_def contentKey_def)
        with key cont have rec: "recorded env (?all @ [e']) d" by (auto simp: recorded_def returns_def)
        have news: "content_of s \<noteq> content_of e'" if "?old = Some s" for s
          using that \<open>?same = Inr same\<close> False cont by (auto simp: result_simps)
        have "fresh_event env ?all e'"
          using built news by (simp add: fresh_event_def e'_def event_key_def)
        with log s' have log': "connector_log env (port_all port s')" by (simp add: connector_log_snoc)
        have c': "c' = c\<lparr>cn_ticks := cn_ticks c + 1, cn_store := s', cn_latest := js_set (draft_key env d) e' (cn_latest c)\<rparr>"
            "r = Inr (Some e')"
          using step \<open>?same = Inr same\<close> False Inr s'(1) by (auto simp: e'_def)
        have "ingesting env c'"
          using c' s' log' loaded here key by (simp add: ingesting_def in_step_def index_of_snoc)
        with c' s' key rec show thesis by (intro appended) auto
      qed
    qed
  qed
qed

lemma ingest_drafts_appends:
  assumes "ingesting env c" "ingest_drafts env port ref rh rq c ds = (c', r)"
  shows "ingesting env c' \<and> (\<exists>es. port_all port (cn_store c') = port_all port (cn_store c) @ es
    \<and> (\<forall>es'. r = Inr es' \<longrightarrow> es' = es) \<and> set (map event_key es) \<subseteq> draft_key env ` set ds)"
  using assms
proof (induction ds arbitrary: c c' r)
  case Nil
  then show ?case by auto
next
  case (Cons d ds)
  obtain c1 r1 where one: "ingest_draft env port ref rh rq c d = (c1, r1)" by fastforce
  obtain c2 r2 where two: "ingest_drafts env port ref rh rq c1 ds = (c2, r2)" by fastforce
  from Cons.prems(1) one show ?case
  proof (cases rule: ingest_draft_cases)
    case (error err)
    with one Cons.prems(2) show ?thesis by auto
  next
    case known
    then have c1: "ingesting env c1" "c1 = c" using Cons.prems(1) by simp_all
    from Cons.IH [OF c1(1) two] obtain es where es: "ingesting env c2"
        "port_all port (cn_store c2) = port_all port (cn_store c1) @ es" "\<forall>es'. r2 = Inr es' \<longrightarrow> es' = es"
        "set (map event_key es) \<subseteq> draft_key env ` set ds" by blast
    have "c' = c2 \<and> r = r2" using one two known(1) Cons.prems(2) by (cases r2) auto
    with es c1(2) show ?thesis by (intro conjI exI [of _ es]) auto
  next
    case (appended e)
    from Cons.IH [OF appended(2) two] obtain es where es: "ingesting env c2"
        "port_all port (cn_store c2) = port_all port (cn_store c1) @ es" "\<forall>es'. r2 = Inr es' \<longrightarrow> es' = es"
        "set (map event_key es) \<subseteq> draft_key env ` set ds" by blast
    with appended one two Cons.prems(2) show ?thesis
      by (cases r2) (auto intro!: exI [of _ "e # es"])
  qed
qed

lemma latest_of_append_other:
  "k \<notin> set (map event_key es) \<Longrightarrow> latest_of (pre @ es) k = latest_of pre k"
  by (induction es rule: rev_induct) (auto simp flip: append_assoc)

lemma ingest_drafts_records:
  assumes "ingesting env c" "ingest_drafts env port ref rh rq c ds = (c', Inr es)"
    and "distinct (map (draft_key env) ds)" "d \<in> set ds"
  shows "recorded env (port_all port (cn_store c')) d"
  using assms
proof (induction ds arbitrary: c es)
  case Nil
  then show ?case by simp
next
  case (Cons d' ds)
  obtain c1 r1 where one: "ingest_draft env port ref rh rq c d' = (c1, r1)" by fastforce
  with Cons.prems(2) obtain e es2 where r1: "r1 = Inr e" "ingest_drafts env port ref rh rq c1 ds = (c', Inr es2)"
    by (auto split: sum.splits prod.splits)
  from Cons.prems(1) one r1(1) have c1: "ingesting env c1" "recorded env (port_all port (cn_store c1)) d'"
    by (auto elim: ingest_draft_cases)
  show ?case
  proof (cases "d \<in> set ds")
    case True
    with Cons.IH [OF c1(1) r1(2)] Cons.prems(3) show ?thesis by simp
  next
    case False
    with Cons.prems(4) have [simp]: "d = d'" by simp
    from ingest_drafts_appends [OF c1(1) r1(2)] obtain es' where
      es': "port_all port (cn_store c') = port_all port (cn_store c1) @ es'"
        "set (map event_key es') \<subseteq> draft_key env ` set ds" by blast
    with Cons.prems(3) have "draft_key env d' \<notin> set (map event_key es')" by auto
    with c1(2) es'(1) latest_of_append_other show ?thesis by (simp add: recorded_def)
  qed
qed

lemma ingest_drafts_known:
  assumes "ingesting env c" "\<forall>d \<in> set ds. recorded env (port_all port (cn_store c)) d"
  shows "ingest_drafts env port ref rh rq c ds = (c, Inr [])"
  using assms(2)
proof (induction ds)
  case Nil
  then show ?case by simp
next
  case (Cons d ds)
  then obtain s t where "latest_of (port_all port (cn_store c)) (draft_key env d) = Some s"
      "content_of s = Inr t" "draft_content env d = Inr t" by (auto simp: recorded_def)
  then have "ingest_draft env port ref rh rq c d = (c, Inr None)"
    using ingesting_latest [OF assms(1), of "draft_key env d"]
    by (simp add: ingest_draft_def Let_def draft_key_def content_of_def draft_content_def)
  with Cons show ?case by simp
qed

lemma ingestBatch_in_step:
  assumes "in_step env port c" "scoped (cn_store c)" "cn_roomId env = room"
    "ingestBatch env port c raw rq ds = (c', r)"
  shows "in_step env port c' \<and> scoped (cn_store c') \<and> (\<exists>es. port_all port (cn_store c') = port_all port (cn_store c) @ es
    \<and> (\<forall>es'. r = Inr es' \<longrightarrow> es' = es))"
proof -
  let ?c = "ensureLoaded port c"
  note loaded = ensureLoaded_in_step [OF assms(1)]
  have ok: "ingesting env (?c\<lparr>cn_archive := a\<rparr>)" for a
    using loaded assms(2,3) by (simp add: ingesting_def)
  show ?thesis
  proof (cases "\<exists>a ref rh. ingest_drafts env port ref rh rq (?c\<lparr>cn_archive := a\<rparr>) ds = (c', r)")
    case True
    then obtain a ref rh where "ingest_drafts env port ref rh rq (?c\<lparr>cn_archive := a\<rparr>) ds = (c', r)" by blast
    from ingest_drafts_appends [OF ok this] loaded(2) show ?thesis by (auto simp: ingesting_def)
  next
    case False
    with assms(4) have "c' = ?c" "\<forall>es. r \<noteq> Inr es"
      by (auto simp: ingestBatch_def Let_def raw_put_def split: if_splits sum.splits)
    with loaded assms(2) show ?thesis by auto
  qed
qed

text \<open>
  A window that is asked again, or overlaps one already read, adds nothing: the retry returns
  no event and leaves the log as it was.
\<close>

lemma ingestBatch_again:
  assumes "in_step env port c" "scoped (cn_store c)" "cn_roomId env = room"
    "ingestBatch env port c raw rq ds = (c', Inr es)" "distinct (map (draft_key env) ds)"
    and "\<not> falsy rq'" "falsy (json_get rq' ''open_ended'')" "returns (canonicalize rq')"
  shows "\<exists>c''. ingestBatch env port c' raw' rq' ds = (c'', Inr []) \<and> cn_store c'' = cn_store c'"
proof -
  let ?c = "ensureLoaded port c"
  note loaded = ensureLoaded_in_step [OF assms(1)]
  have ok: "ingesting env (?c\<lparr>cn_archive := a\<rparr>)" for a
    using loaded assms(2,3) by (simp add: ingesting_def)
  from assms(4) obtain a ref rh where run: "ingest_drafts env port ref rh rq (?c\<lparr>cn_archive := a\<rparr>) ds = (c', Inr es)"
    by (auto simp: ingestBatch_def Let_def raw_put_def split: if_splits sum.splits)
  have all: "\<forall>d \<in> set ds. recorded env (port_all port (cn_store c')) d"
    using ingest_drafts_records [OF ok run assms(5)] by blast
  have c': "ingesting env c'" using ingest_drafts_appends [OF ok run] by blast
  then have "ensureLoaded port c' = c'" by (simp add: ensureLoaded_def ingesting_def)
  moreover have "ingest_drafts env port ref' rh' rq' (c'\<lparr>cn_archive := b\<rparr>) ds = (c'\<lparr>cn_archive := b\<rparr>, Inr [])" for ref' rh' b
    using c' all by (intro ingest_drafts_known) simp_all
  ultimately show ?thesis
    using assms(6-8) by (auto simp: ingestBatch_def Let_def raw_put_def returns_def)
qed

end

end
