(* ===== verification/Hyperliquid.thy ===== *)
theory Hyperliquid
  imports Conditions Connector
begin

section \<open>The Hyperliquid source adapter (connector/hyperliquid.mjs)\<close>

text \<open>
  The normalizers shared by the connector and the resolvers, and the poller: closed windows read
  page by page, a cursor per account, a reconciliation sweep. The provider (\<open>fetch\<close>, by the
  number of the call), \<open>JSON.parse\<close> (\<open>None\<close> when it throws) and the clock are parameters.
\<close>

subsection \<open>Date.prototype.toISOString\<close>

definition civil_from_days :: "int \<Rightarrow> int \<times> int \<times> int" where
  "civil_from_days days =
     (let z = days + 719468;
          era = z div 146097;
          doe = z - era * 146097;
          yoe = (doe - doe div 1460 + doe div 36524 - doe div 146096) div 365;
          doy = doe - (365 * yoe + yoe div 4 - yoe div 100);
          mp = (5 * doy + 2) div 153;
          d = doy - (153 * mp + 2) div 5 + 1;
          m = (if mp < 10 then mp + 3 else mp - 9)
      in (yoe + era * 400 + (if m \<le> 2 then 1 else 0), m, d))"

definition pad_int :: "nat \<Rightarrow> int \<Rightarrow> string" where
  "pad_int k n = pad_start k (dec_string (nat n))"

text \<open>\<open>None\<close> is the \<open>RangeError\<close> of a time value outside the range of \<open>Date\<close>.\<close>

definition toISOString :: "int \<Rightarrow> string option" where
  "toISOString ms =
     (if \<bar>ms\<bar> > 8640000000000000 then None
      else
        let (y, m, d) = civil_from_days (ms div 86400000);
            t = ms mod 86400000;
            year = (if 0 \<le> y \<and> y \<le> 9999 then pad_int 4 y
                    else (if y < 0 then ''-'' else ''+'') @ pad_int 6 \<bar>y\<bar>)
        in Some (year @ ''-'' @ pad_int 2 m @ ''-'' @ pad_int 2 d @ ''T''
             @ pad_int 2 (t div 3600000) @ '':'' @ pad_int 2 (t div 60000 mod 60) @ '':''
             @ pad_int 2 (t div 1000 mod 60) @ ''.'' @ pad_int 3 (t mod 1000) @ ''Z''))"

subsection \<open>Normalizing provider payloads\<close>

datatype source_error =
    BadDecimal decimal_error
  | InvalidTime
  | NotIterable
  | NoMarginSummary
  | HttpStatus int
  | NotJson
  | IngestFailed ingest_error
  | Saturated int string
  | NotDrained int int string

definition HYPERLIQUID_PAGE_LIMIT :: nat where
  "HYPERLIQUID_PAGE_LIMIT = 2000"

definition negate :: "string \<Rightarrow> string" where
  "negate t = (case t of CHR ''-'' # rest \<Rightarrow> rest | _ \<Rightarrow> CHR ''-'' # t)"

definition or_text :: "json \<Rightarrow> string \<Rightarrow> string" where
  "or_text v d = (if nullish v then d else json_text v)"

definition or_null :: "json \<Rightarrow> json" where
  "or_null v = (if nullish v then JNull else v)"

text \<open>The provider documents \<open>time\<close> as an integer; any other value is an invalid date here.\<close>

definition fill_time :: "json \<Rightarrow> int option" where
  "fill_time fill = (case json_get fill ''time'' of JNum t \<Rightarrow> Some t | _ \<Rightarrow> None)"

definition normalizeFill :: "string \<Rightarrow> string \<Rightarrow> json \<Rightarrow> source_error + draft" where
  "normalizeFill participantKey address fill =
     (case Option.bind (fill_time fill) toISOString of
        None \<Rightarrow> Inl InvalidTime
      | Some observed \<Rightarrow>
          (case addDecimal (json_text (json_get fill ''closedPnl'')) (negate (or_text (json_get fill ''fee'') ''0'')) of
             Inl err \<Rightarrow> Inl (BadDecimal err)
           | Inr realized_pnl \<Rightarrow> Inr
              \<lparr> dr_source_event_id = to_lower address @ '':'' @ json_text (json_get fill ''tid''),
                dr_participant = Some participantKey,
                dr_observed_at = observed,
                dr_kind = ''trade_closed'',
                dr_facts = Some (JObj
                  [(''realized_pnl_usd'', JStr realized_pnl),
                   (''closed_pnl_usd'', JStr (json_text (json_get fill ''closedPnl''))),
                   (''fee_usd'', JStr (or_text (json_get fill ''fee'') ''0'')),
                   (''coin'', json_get fill ''coin''),
                   (''side'', json_get fill ''side''),
                   (''price'', JStr (json_text (json_get fill ''px''))),
                   (''size'', JStr (json_text (json_get fill ''sz''))),
                   (''tid'', json_get fill ''tid''),
                   (''order_id'', or_null (json_get fill ''oid'')),
                   (''tx_hash'', or_null (json_get fill ''hash''))]),
                dr_derived = None \<rparr>))"

definition spread :: "json \<Rightarrow> json list option" where
  "spread v = (case v of JArr xs \<Rightarrow> Some xs | JStr s \<Rightarrow> Some (map (\<lambda>c. JStr [c]) s) | _ \<Rightarrow> None)"

definition fill_key :: "json \<Rightarrow> int option \<times> string" where
  "fill_key fill = (fill_time fill, json_text (json_get fill ''tid''))"

definition normalizeFillsResponse :: "string \<Rightarrow> string \<Rightarrow> json \<Rightarrow> source_error + draft list" where
  "normalizeFillsResponse participantKey address fills =
     (case spread fills of
        None \<Rightarrow> Inl NotIterable
      | Some xs \<Rightarrow> seq_res (map (normalizeFill participantKey address) (sort_key fill_key xs)))"

definition normalizeBaseline :: "string \<Rightarrow> string \<Rightarrow> json \<Rightarrow> int \<Rightarrow> source_error + draft" where
  "normalizeBaseline participantKey address state observedAtMs =
     (case toISOString observedAtMs of
        None \<Rightarrow> Inl InvalidTime
      | Some observed \<Rightarrow>
          if nullish (json_get state ''marginSummary'') then Inl NoMarginSummary
          else Inr \<lparr> dr_source_event_id = ''baseline:'' @ to_lower address, dr_participant = Some participantKey,
                     dr_observed_at = observed, dr_kind = ''baseline'',
                     dr_facts = Some (JObj [(''account_value_usd'',
                       JStr (json_text (json_get (json_get state ''marginSummary'') ''accountValue'')))]),
                     dr_derived = None \<rparr>)"

subsection \<open>The poller\<close>

datatype http = HttpFailure int | HttpText string

record 's poller_env =
  pv_connector :: connector_env
  pv_port :: "'s store_port"
  pv_participants :: "(string \<times> string) list"
  pv_fetch :: "nat \<Rightarrow> json \<Rightarrow> http"
  pv_parse :: "string \<Rightarrow> json option"
  pv_now :: "nat \<Rightarrow> int"
  pv_reconcileLookbackMs :: int
  pv_pageLimit :: nat
  pv_maxPagesPerWindow :: nat

record 's poller =
  pl_connector :: "'s connector"
  pl_cursors :: "(string, int) js_map option"
  pl_cursorMs :: "(string, int) js_map"
  pl_cursorsLoaded :: bool
  pl_calls :: nat
  pl_readings :: nat

definition cursor_key :: "string \<Rightarrow> string" where
  "cursor_key address = ''poller:cursor:'' @ to_lower address"

definition ensureCursors :: "'s poller_env \<Rightarrow> 's poller \<Rightarrow> 's poller" where
  "ensureCursors env p =
     (if pl_cursorsLoaded p then p
      else case pl_cursors p of
             None \<Rightarrow> p\<lparr>pl_cursorsLoaded := True\<rparr>
           | Some cursors \<Rightarrow> p\<lparr>pl_cursorsLoaded := True,
               pl_cursorMs := foldl (\<lambda>m (key, address).
                 case js_get cursors (cursor_key address) of
                   None \<Rightarrow> m | Some saved \<Rightarrow> js_set address saved m) (pl_cursorMs p) (pv_participants env)\<rparr>)"

definition setCursor :: "'s poller \<Rightarrow> string \<Rightarrow> int \<Rightarrow> 's poller" where
  "setCursor p address at =
     p\<lparr>pl_cursorMs := js_set address at (pl_cursorMs p),
       pl_cursors := map_option (\<lambda>m. kv_set m (cursor_key address) at) (pl_cursors p)\<rparr>"

definition read_now :: "'s poller_env \<Rightarrow> 's poller \<Rightarrow> int \<times> 's poller" where
  "read_now env p = (pv_now env (pl_readings p), p\<lparr>pl_readings := pl_readings p + 1\<rparr>)"

definition post :: "'s poller_env \<Rightarrow> 's poller \<Rightarrow> json \<Rightarrow> 's poller \<times> (source_error + (string \<times> json))" where
  "post env p body =
     (p\<lparr>pl_calls := pl_calls p + 1\<rparr>,
      case pv_fetch env (pl_calls p) body of
        HttpFailure status \<Rightarrow> Inl (HttpStatus status)
      | HttpText rawBytes \<Rightarrow>
          (case pv_parse env rawBytes of None \<Rightarrow> Inl NotJson | Some v \<Rightarrow> Inr (rawBytes, v)))"

definition ingest_into :: "'s poller_env \<Rightarrow> 's poller \<Rightarrow> string \<Rightarrow> json \<Rightarrow> draft list
    \<Rightarrow> 's poller \<times> (source_error + event list)" where
  "ingest_into env p rawBytes rawQuery drafts =
     (let (c, r) = ingestBatch (pv_connector env) (pv_port env) (pl_connector p) rawBytes rawQuery drafts
      in (p\<lparr>pl_connector := c\<rparr>, map_sum IngestFailed id r))"

definition window_body :: "string \<Rightarrow> int \<Rightarrow> int \<Rightarrow> (string \<times> json) list" where
  "window_body address start_ms end_ms =
     [(''type'', JStr ''userFillsByTime''), (''user'', JStr address), (''startTime'', JNum start_ms), (''endTime'', JNum end_ms)]"

definition last_time :: "json list \<Rightarrow> int option" where
  \<comment> \<open>\<open>Math.max(...times)\<close>, \<open>None\<close> for the minus infinity of no argument\<close>
  "last_time fills = (case map (\<lambda>f. the (fill_time f)) fills of [] \<Rightarrow> None | t # ts \<Rightarrow> Some (foldl max t ts))"

text \<open>One page of a window: read, normalized and ingested.\<close>

definition read_page :: "'s poller_env \<Rightarrow> 's poller \<Rightarrow> string \<Rightarrow> string \<Rightarrow> int \<Rightarrow> int \<Rightarrow> string option
    \<Rightarrow> 's poller \<times> (source_error + (json list \<times> event list))" where
  "read_page env p key address start_ms end_ms sweep =
     (let body = window_body address start_ms end_ms in
      case post env p (JObj body) of
        (p1, Inl err) \<Rightarrow> (p1, Inl err)
      | (p1, Inr (rawBytes, v)) \<Rightarrow>
          let fills = (if nullish v then JArr [] else v) in
          (case normalizeFillsResponse key address fills of
             Inl err \<Rightarrow> (p1, Inl err)
           | Inr drafts \<Rightarrow>
               (case ingest_into env p1 rawBytes
                   (JObj ((''endpoint'', JStr ''info'') # body
                     @ (case sweep of None \<Rightarrow> [] | Some s \<Rightarrow> [(''sweep'', JStr s)]))) drafts of
                  (p2, Inl err) \<Rightarrow> (p2, Inl err)
                | (p2, Inr es) \<Rightarrow> (p2, Inr (the (spread fills), es)))))"

text \<open>The loop over the pages; the last argument counts the pages that may still be read.\<close>

fun read_pages :: "'s poller_env \<Rightarrow> 's poller \<Rightarrow> string \<Rightarrow> string \<Rightarrow> int \<Rightarrow> int \<Rightarrow> int \<Rightarrow> string option \<Rightarrow> event list
    \<Rightarrow> nat \<Rightarrow> 's poller \<times> (source_error + event list)" where
  "read_pages env p key address startTime start_ms end_ms sweep appended 0 = (p, Inl (NotDrained startTime end_ms address))"
| "read_pages env p key address startTime start_ms end_ms sweep appended (Suc n) =
     (case read_page env p key address start_ms end_ms sweep of
        (p1, Inl err) \<Rightarrow> (p1, Inl err)
      | (p1, Inr (fills, es)) \<Rightarrow>
          if length fills < pv_pageLimit env then (p1, Inr (appended @ es))
          else (case last_time fills of
                  None \<Rightarrow> (p1, Inl (Saturated start_ms address))
                | Some l \<Rightarrow>
                    if l \<le> start_ms then (p1, Inl (Saturated start_ms address))
                    else read_pages env p1 key address startTime l end_ms sweep (appended @ es) n))"

definition readWindow :: "'s poller_env \<Rightarrow> 's poller \<Rightarrow> string \<Rightarrow> string \<Rightarrow> int \<Rightarrow> int \<Rightarrow> string option
    \<Rightarrow> 's poller \<times> (source_error + event list)" where
  "readWindow env p key address startTime endTime sweep =
     read_pages env p key address startTime startTime endTime sweep [] (pv_maxPagesPerWindow env)"

fun poll_participants :: "'s poller_env \<Rightarrow> 's poller \<Rightarrow> (string \<times> string) list \<Rightarrow> event list
    \<Rightarrow> 's poller \<times> (source_error + event list)" where
  "poll_participants env p [] appended = (p, Inr appended)"
| "poll_participants env p ((key, address) # rest) appended =
     (let startTime = (case js_get (pl_cursorMs p) address of Some t \<Rightarrow> t | None \<Rightarrow> 0);
          (endTime, p0) = read_now env p
      in case readWindow env p0 key address startTime endTime None of
           (p1, Inl err) \<Rightarrow> (p1, Inl err)
         | (p1, Inr es) \<Rightarrow>
             poll_participants env (setCursor p1 address (max startTime (endTime - 2000))) rest (appended @ es))"

definition pollOnce :: "'s poller_env \<Rightarrow> 's poller \<Rightarrow> 's poller \<times> (source_error + event list)" where
  "pollOnce env p =
     (case poll_participants env (ensureCursors env p) (pv_participants env) [] of
        (p1, Inl err) \<Rightarrow> (p1, Inl err)
      | (p1, Inr appended) \<Rightarrow>
          if appended = [] then
            (let (now, p2) = read_now env p1 in
             case toISOString now of
               None \<Rightarrow> (p2, Inl InvalidTime)
             | Some at \<Rightarrow>
                 (case heartbeat (pv_connector env) (pv_port env) (pl_connector p2) (Some at) of
                    (c, Inl err) \<Rightarrow> (p2\<lparr>pl_connector := c\<rparr>, Inl (IngestFailed err))
                  | (c, Inr es) \<Rightarrow> (p2\<lparr>pl_connector := c\<rparr>, Inr appended)))
          else (p1, Inr appended))"

fun reconcile_participants :: "'s poller_env \<Rightarrow> 's poller \<Rightarrow> int \<Rightarrow> (string \<times> string) list \<Rightarrow> event list
    \<Rightarrow> 's poller \<times> (source_error + event list)" where
  "reconcile_participants env p nowMs [] appended = (p, Inr appended)"
| "reconcile_participants env p nowMs ((key, address) # rest) appended =
     (case readWindow env p key address (max 0 (nowMs - pv_reconcileLookbackMs env)) nowMs (Some ''reconcile'') of
        (p1, Inl err) \<Rightarrow> (p1, Inl err)
      | (p1, Inr es) \<Rightarrow> reconcile_participants env p1 nowMs rest (appended @ es))"

definition reconcile_window :: "'s poller_env \<Rightarrow> 's poller \<Rightarrow> int \<Rightarrow> 's poller \<times> (source_error + event list)" where
  "reconcile_window env p nowMs = reconcile_participants env (ensureCursors env p) nowMs (pv_participants env) []"

fun capture_participants :: "'s poller_env \<Rightarrow> 's poller \<Rightarrow> (string \<times> string) list \<Rightarrow> 's poller \<times> (source_error + unit)" where
  "capture_participants env p [] = (p, Inr ())"
| "capture_participants env p ((key, address) # rest) =
     (let body = [(''type'', JStr ''clearinghouseState''), (''user'', JStr address)];
          (observed, p0) = read_now env p
      in case post env p0 (JObj body) of
           (p1, Inl err) \<Rightarrow> (p1, Inl err)
         | (p1, Inr (rawBytes, v)) \<Rightarrow>
             (case normalizeBaseline key address v observed of
                Inl err \<Rightarrow> (p1, Inl err)
              | Inr d \<Rightarrow>
                  (case ingest_into env p1 rawBytes
                      (JObj ((''endpoint'', JStr ''info'') # body @ [(''at'', JNum observed)])) [d] of
                     (p2, Inl err) \<Rightarrow> (p2, Inl err)
                   | (p2, Inr es) \<Rightarrow> capture_participants env (setCursor p2 address observed) rest)))"

definition captureBaselines :: "'s poller_env \<Rightarrow> 's poller \<Rightarrow> 's poller \<times> (source_error + unit)" where
  "captureBaselines env p = capture_participants env (ensureCursors env p) (pv_participants env)"

end
