(* ===== verification/Timeline.thy ===== *)
theory Timeline
  imports Conditions Connector
begin

section \<open>The timeline the gate decides on\<close>

text \<open>
  What \<open>rectify\<close> makes of a log the connector wrote: one entry per fact, in provider order, at
  the place the fact was first recorded and with what it currently says. And what that gives
  \<open>evaluateCondition\<close>: the rule of the condition, cut at the headline's own hit.
\<close>

subsection \<open>One entry per fact\<close>

definition first_of :: "event list \<Rightarrow> string \<Rightarrow> event option" where
  "first_of es k = List.find (\<lambda>e. event_key e = k) es"

text \<open>The first recording of a fact, restated with its latest.\<close>

definition restated :: "event \<Rightarrow> event \<Rightarrow> event" where
  "restated original l =
     (if l = original then original
      else original\<lparr>ev_facts := ev_facts l, ev_derived := ev_derived l, ev_corrected_by := Some (ev_hash l)\<rparr>)"

lemma first_of_snoc [simp]:
  "first_of (es @ [e]) k = (case first_of es k of Some x \<Rightarrow> Some x | None \<Rightarrow> if event_key e = k then Some e else None)"
  by (induction es) (auto simp: first_of_def)

lemma first_of_Nil [simp]: "first_of [] k = None"
  by (simp add: first_of_def)

lemma first_of_None: "first_of es k = None \<longleftrightarrow> k \<notin> event_key ` set es"
  by (auto simp: first_of_def find_None_iff)

lemma first_of_Some: "first_of es k = Some x \<Longrightarrow> x \<in> set es \<and> event_key x = k"
  by (auto simp: first_of_def find_Some_iff)

lemma latest_of_Some: "latest_of es k = Some x \<Longrightarrow> x \<in> set es \<and> event_key x = k"
  by (induction es rule: rev_induct) (auto split: if_splits)

lemma latest_of_None: "latest_of es k = None \<longleftrightarrow> k \<notin> event_key ` set es"
  by (induction es rule: rev_induct) auto

lemma event_key_restated [simp]: "event_key (restated x l) = event_key x"
  by (simp add: restated_def event_key_def)

definition timeline_inv :: "event list \<Rightarrow> (string, nat) js_map \<times> event list \<Rightarrow> bool" where
  "timeline_inv es st \<longleftrightarrow>
     (\<forall>e \<in> set es. \<exists>i < length (snd st). js_get (fst st) (ev_hash e) = Some i \<and> event_key (snd st ! i) = event_key e)
     \<and> distinct (map event_key (snd st))
     \<and> (\<forall>x \<in> set (snd st). \<exists>f l. first_of es (event_key x) = Some f \<and> latest_of es (event_key x) = Some l
          \<and> x = restated f l)"

lemma timeline_inv_entry:
  assumes "timeline_inv es st" "x \<in> set (snd st)"
  obtains f l where "first_of es (event_key x) = Some f" "latest_of es (event_key x) = Some l" "x = restated f l"
  using assms unfolding timeline_inv_def by blast

lemma timeline_inv_keys:
  assumes "timeline_inv es st"
  shows "event_key ` set (snd st) = event_key ` set es"
proof
  show "event_key ` set (snd st) \<subseteq> event_key ` set es"
  proof
    fix k assume "k \<in> event_key ` set (snd st)"
    then obtain x where x: "x \<in> set (snd st)" "k = event_key x" by blast
    from timeline_inv_entry [OF assms x(1)] obtain f where "first_of es (event_key x) = Some f" by metis
    from first_of_Some [OF this] x(2) show "k \<in> event_key ` set es" by (metis image_eqI)
  qed
  show "event_key ` set es \<subseteq> event_key ` set (snd st)"
  proof
    fix k assume "k \<in> event_key ` set es"
    then obtain e where e: "e \<in> set es" "k = event_key e" by blast
    with assms obtain i where "i < length (snd st)" "event_key (snd st ! i) = event_key e"
      by (auto simp: timeline_inv_def)
    with e show "k \<in> event_key ` set (snd st)" by (metis image_eqI nth_mem)
  qed
qed

lemma rectify_step_new:
  assumes inv: "timeline_inv es (slots, tml)" and new: "latest_of es (event_key e) = None"
    and corr: "ev_corrects e = None" and hash: "ev_hash e \<notin> ev_hash ` set es"
  shows "timeline_inv (es @ [e]) (rectify_step (slots, tml) e)"
proof -
  have step: "rectify_step (slots, tml) e = (js_set (ev_hash e) (length tml) slots, tml @ [e])"
    by (simp add: rectify_step_def corr truthy_text_def)
  have fresh: "event_key e \<notin> event_key ` set es" using new by (simp add: latest_of_None)
  have keys: "event_key e \<notin> event_key ` set tml" using timeline_inv_keys [OF inv] fresh by simp
  have "\<exists>f l. first_of (es @ [e]) (event_key x) = Some f \<and> latest_of (es @ [e]) (event_key x) = Some l \<and> x = restated f l"
    if "x \<in> set tml" for x
  proof -
    have "event_key x \<noteq> event_key e" using that keys by (metis image_eqI)
    moreover from that obtain f l where "first_of es (event_key x) = Some f" "latest_of es (event_key x) = Some l"
        "x = restated f l"
      using timeline_inv_entry [OF inv, of x] by auto
    ultimately show ?thesis by auto
  qed
  moreover have "first_of es (event_key e) = None" using fresh by (simp add: first_of_None)
  moreover have "\<exists>i < length (tml @ [e]). js_get (js_set (ev_hash e) (length tml) slots) (ev_hash x) = Some i
      \<and> event_key ((tml @ [e]) ! i) = event_key x" if x: "x \<in> set es" for x
  proof -
    from x inv obtain i where "i < length tml" "js_get slots (ev_hash x) = Some i" "event_key (tml ! i) = event_key x"
      by (auto simp: timeline_inv_def)
    moreover have "ev_hash x \<noteq> ev_hash e" using x hash by (metis image_eqI)
    ultimately show ?thesis by (intro exI [of _ i]) (simp add: port_simps nth_append)
  qed
  ultimately show ?thesis
    using inv keys unfolding step timeline_inv_def by (auto simp: port_simps restated_def)
qed

lemma rectify_step_correction:
  assumes inv: "timeline_inv es (slots, tml)" and old: "latest_of es (event_key e) = Some s"
    and corr: "ev_corrects e = Some (ev_hash s)" "ev_hash s \<noteq> []" and hash: "ev_hash e \<notin> ev_hash ` set es"
  shows "timeline_inv (es @ [e]) (rectify_step (slots, tml) e)"
proof -
  from latest_of_Some [OF old] inv obtain i where
    i: "i < length tml" "js_get slots (ev_hash s) = Some i" "event_key (tml ! i) = event_key e"
    by (auto simp: timeline_inv_def)
  define x where "x = (tml ! i)\<lparr>ev_facts := ev_facts e, ev_derived := ev_derived e, ev_corrected_by := Some (ev_hash e)\<rparr>"
  have step: "rectify_step (slots, tml) e = (js_set (ev_hash e) i slots, tml[i := x])"
    using corr i(2) by (simp add: rectify_step_def truthy_text_def x_def)
  have keyx: "event_key x = event_key e" using i(3) by (simp add: x_def event_key_def)
  have keys: "map event_key (tml[i := x]) = map event_key tml"
    using i(1,3) keyx by (simp add: map_update list_update_same_conv)
  from inv i(1) obtain f l where fl: "first_of es (event_key e) = Some f" "tml ! i = restated f l"
    using timeline_inv_entry [OF inv, unfolded snd_conv, OF nth_mem [OF i(1)]] unfolding i(3) by blast
  have "f \<noteq> e" using first_of_Some [OF fl(1)] hash by auto
  then have xr: "x = restated f e" using fl(2) by (simp add: x_def restated_def)
  have "\<exists>g m. first_of (es @ [e]) (event_key y) = Some g \<and> latest_of (es @ [e]) (event_key y) = Some m \<and> y = restated g m"
    if "y \<in> set (tml[i := x])" for y
  proof -
    from that obtain j where j: "j < length tml" "y = tml[i := x] ! j" by (auto simp: in_set_conv_nth)
    show ?thesis
    proof (cases "j = i")
      case True
      with j xr keyx fl(1) show ?thesis by auto
    next
      case False
      with j have y: "y = tml ! j" "y \<in> set tml" by auto
      have "event_key y \<noteq> event_key e"
        using inv i(1,3) j(1) False y(1) nth_eq_iff_index_eq [of "map event_key tml" i j]
        by (auto simp: timeline_inv_def)
      moreover from y(2) obtain g m where "first_of es (event_key y) = Some g" "latest_of es (event_key y) = Some m"
          "y = restated g m"
        using timeline_inv_entry [OF inv, of y] by auto
      ultimately show ?thesis by auto
    qed
  qed
  moreover have "\<exists>j < length tml. js_get (js_set (ev_hash e) i slots) (ev_hash y) = Some j
      \<and> map event_key tml ! j = event_key y" if y: "y \<in> set (es @ [e])" for y
  proof (cases "y = e")
    case True
    with i show ?thesis by (auto simp: port_simps)
  next
    case False
    with y inv obtain j where "j < length tml" "js_get slots (ev_hash y) = Some j" "event_key (tml ! j) = event_key y"
      by (auto simp: timeline_inv_def)
    moreover have "ev_hash y \<noteq> ev_hash e" using False y hash by (auto simp: rev_image_eqI)
    ultimately show ?thesis by (auto simp: port_simps)
  qed
  then have "\<exists>j < length tml. js_get (js_set (ev_hash e) i slots) (ev_hash y) = Some j
      \<and> event_key (tml[i := x] ! j) = event_key y" if y: "y \<in> set (es @ [e])" for y
    using that keys by (metis length_list_update nth_map)
  ultimately show ?thesis
    using inv keys unfolding step timeline_inv_def by (auto simp: keys)
qed

lemma hashes_distinct:
  assumes "well_chained H es" "inj_on H (canonical_texts es)"
  shows "distinct (map ev_hash es)"
proof -
  have "i = j" if "i < length es" "j < length es" "ev_hash (es ! i) = ev_hash (es ! j)" for i j
  proof -
    have *: "eventHash H (es ! k) = Inr (ev_hash (es ! k))" if "k < length es" for k
      using assms(1) that linked_hash unfolding well_chained_def by blast
    have "same_content (es ! i) (es ! j)"
      by (rule same_hash_same_content [OF * [OF that(1)] _ assms(2)]) (use * [OF that(2)] that in auto)
    then have "ev_seq (es ! i) = ev_seq (es ! j)" by (rule same_content_fields)
    with well_chained_seq [OF assms(1)] that show ?thesis by simp
  qed
  then show ?thesis by (auto simp: distinct_conv_nth)
qed

lemma rectify_slots_inv:
  assumes "connector_log env es" "distinct (map ev_hash es)" "\<forall>e \<in> set es. ev_hash e \<noteq> []"
  shows "timeline_inv es (rectify_slots es)"
  using assms
proof (induction es rule: rev_induct)
  case Nil
  then show ?case by (simp add: timeline_inv_def rectify_slots_def)
next
  case (snoc e es)
  obtain slots tml where st: "rectify_slots es = (slots, tml)" by fastforce
  with snoc have inv: "timeline_inv es (slots, tml)" by (simp add: connector_log_snoc)
  have fresh: "fresh_event env es e" using snoc.prems(1) by (simp add: connector_log_snoc)
  have hash: "ev_hash e \<notin> ev_hash ` set es" using snoc.prems(2) by auto
  have step: "rectify_slots (es @ [e]) = rectify_step (slots, tml) e"
    using st by (simp add: rectify_slots_def)
  show ?case
  proof (cases "latest_of es (event_key e)")
    case None
    with fresh rectify_step_new [OF inv None _ hash] show ?thesis by (simp add: step fresh_event_def)
  next
    case (Some s)
    with latest_of_Some snoc.prems(3) have "ev_hash s \<noteq> []" by auto
    with fresh Some rectify_step_correction [OF inv Some _ _ hash] show ?thesis by (simp add: step fresh_event_def)
  qed
qed

text \<open>C24: what the gate decides on. Rectifying a log the connector wrote gives the provider's
  timeline: sorted by provider time, exactly one entry per recorded fact, each standing where the
  fact was first recorded and saying what the fact's latest recording says.\<close>

theorem rectify_one_entry_per_fact:
  assumes "connector_log env es" "distinct (map ev_hash es)" "\<forall>e \<in> set es. ev_hash e \<noteq> []"
  shows "sorted (map timeline_key (rectify es)) \<and> distinct (map event_key (rectify es))
    \<and> event_key ` set (rectify es) = event_key ` set es
    \<and> (\<forall>x \<in> set (rectify es). \<exists>f l. first_of es (event_key x) = Some f
         \<and> latest_of es (event_key x) = Some l \<and> x = restated f l)"
proof -
  note inv = rectify_slots_inv [OF assms]
  have "mset (map event_key (rectify es)) = mset (map event_key (snd (rectify_slots es)))"
    by (simp add: rectify_def)
  then have "distinct (map event_key (rectify es))"
    using inv mset_eq_imp_distinct_iff by (fastforce simp: timeline_inv_def)
  moreover have "event_key ` set (rectify es) = event_key ` set es"
    using timeline_inv_keys [OF inv] by (simp add: rectify_def)
  moreover have "\<forall>x \<in> set (rectify es). \<exists>f l. first_of es (event_key x) = Some f
      \<and> latest_of es (event_key x) = Some l \<and> x = restated f l"
    using inv by (simp add: rectify_def timeline_inv_def)
  ultimately show ?thesis by (simp add: rectify_def)
qed

subsection \<open>What a market is decided on\<close>

text \<open>The session's end on the provider's timeline, and the events that count.\<close>

definition session_end :: "condition option \<Rightarrow> event list \<Rightarrow> event option" where
  "session_end headline es = (case headline of None \<Rightarrow> None | Some h \<Rightarrow> first_hit (rule_hit h) [] es)"

definition counted :: "condition option \<Rightarrow> event list \<Rightarrow> event list" where
  "counted headline es =
     (case session_end headline es of
        None \<Rightarrow> es | Some e \<Rightarrow> takeWhile (\<lambda>x. ev_seq x \<noteq> ev_seq e) es @ [e])"

text \<open>The promise: the first counted trade that meets the rule, or what the end of the session makes of none.\<close>

definition verdict :: "condition \<Rightarrow> condition option \<Rightarrow> int option \<Rightarrow> event list \<Rightarrow> decision" where
  "verdict c headline terminalSeq es =
     (case first_hit (rule_hit c) [] (counted headline es) of
        Some e \<Rightarrow> Decided (rule_outcome c e) (ev_seq e)
      | None \<Rightarrow>
          (case (undecidedAtSessionEnd c, session_end headline es, terminalSeq) of
             (Some outcome, Some e, _) \<Rightarrow> Decided outcome (ev_seq e)
           | (Some outcome, None, Some t) \<Rightarrow> Decided outcome t
           | _ \<Rightarrow> Undecided))"

lemma takeWhile_seq:
  assumes "distinct (map ev_seq (xs @ e # ys))"
  shows "takeWhile (\<lambda>x. ev_seq x \<noteq> ev_seq e) (xs @ e # ys) = xs"
    "find_index (\<lambda>x. ev_seq x = ev_seq e) (xs @ e # ys) = Some (length xs)"
proof -
  have "ev_seq e \<notin> ev_seq ` set xs" using assms by simp
  then have "\<forall>x \<in> set xs. ev_seq x \<noteq> ev_seq e" by (metis image_eqI)
  then show "takeWhile (\<lambda>x. ev_seq x \<noteq> ev_seq e) (xs @ e # ys) = xs" by simp
  show "find_index (\<lambda>x. ev_seq x = ev_seq e) (xs @ e # ys) = Some (length xs)"
    using \<open>\<forall>x \<in> set xs. ev_seq x \<noteq> ev_seq e\<close> by (induction xs) auto
qed

text \<open>The headline of the options: none when the document evaluated is the headline itself.\<close>

definition bounding_headline :: "eval_options \<Rightarrow> condition option" where
  "bounding_headline opts = (if opt_headline_is_self opts then None else opt_headline opts)"

definition roster_admits :: "condition \<Rightarrow> eval_options \<Rightarrow> bool" where
  "roster_admits c opts \<longleftrightarrow> (\<forall>keys. roster_of (opt_participants opts) = Some keys \<longrightarrow> is_threshold c \<longrightarrow>
     to_lower (json_text (param_of c ''participant'')) \<in> set keys)"

lemma terminal_index_session_end:
  assumes "distinct (map ev_seq known)"
    and "\<forall>h. bounding_headline opts = Some h \<longrightarrow> wf_condition h \<and> all_ready h [] known \<and> roster_admits h opts"
  shows "case terminal_index opts (roster_of (opt_participants opts)) known of
      None \<Rightarrow> session_end (bounding_headline opts) known = None \<and> counted (bounding_headline opts) known = known
    | Some i \<Rightarrow> \<exists>e. session_end (bounding_headline opts) known = Some e \<and> i < length known \<and> known ! i = e
        \<and> take (i + 1) known = counted (bounding_headline opts) known
        \<and> last (take (i + 1) known) = e"
proof (cases "bounding_headline opts")
  case None
  then show ?thesis
    by (auto simp: terminal_index_def bounding_headline_def session_end_def counted_def split: option.splits if_splits)
next
  case (Some h)
  then have h: "opt_headline opts = Some h" "\<not> opt_headline_is_self opts"
    by (auto simp: bounding_headline_def split: if_splits)
  from assms(2) Some have "wf_condition h" "all_ready h [] known" "roster_admits h opts" by auto
  then have ev: "evaluateWindow h known (roster_of (opt_participants opts)) =
      (case first_hit (rule_hit h) [] known of None \<Rightarrow> Undecided | Some e \<Rightarrow> Decided (rule_outcome h e) (ev_seq e))"
    by (intro evaluateWindow_rule) (auto simp: roster_admits_def)
  show ?thesis
  proof (cases "first_hit (rule_hit h) [] known")
    case None
    with ev h Some show ?thesis by (simp add: terminal_index_def session_end_def counted_def)
  next
    case (Some e)
    from Some [unfolded first_hit_Some] obtain xs ys where known: "known = xs @ e # ys" by blast
    note at = takeWhile_seq [OF assms(1) [unfolded known]]
    have "terminal_index opts (roster_of (opt_participants opts)) known = Some (length xs)"
      using ev h Some at(2) by (simp add: terminal_index_def known)
    moreover have "session_end (bounding_headline opts) known = Some e"
      using \<open>bounding_headline opts = Some h\<close> Some by (simp add: session_end_def)
    ultimately show ?thesis using at(1) by (simp add: counted_def known)
  qed
qed

lemma counted_prefix:
  assumes "distinct (map ev_seq es)"
  shows "\<exists>zs. es = counted headline es @ zs"
proof (cases "session_end headline es")
  case None
  then show ?thesis by (simp add: counted_def)
next
  case (Some e)
  then obtain h where "first_hit (rule_hit h) [] es = Some e" by (auto simp: session_end_def split: option.splits)
  then obtain xs ys where es: "es = xs @ e # ys" by (auto simp: first_hit_Some)
  with assms takeWhile_seq(1) [of xs e ys] Some show ?thesis by (simp add: counted_def)
qed

lemma all_ready_counted:
  assumes "all_ready c [] es" "distinct (map ev_seq es)"
  shows "all_ready c [] (counted headline es)"
proof -
  from counted_prefix [OF assms(2)] obtain zs where "es = counted headline es @ zs" by blast
  with assms(1) all_ready_append [of c "[]" "counted headline es" zs] show ?thesis by simp
qed

text \<open>Everything the evaluation needs of its inputs.\<close>

definition evaluable :: "condition \<Rightarrow> eval_options \<Rightarrow> event list \<Rightarrow> bool" where
  "evaluable c opts known \<longleftrightarrow> wf_condition c \<and> all_ready c [] known \<and> roster_admits c opts
     \<and> distinct (map ev_seq known)
     \<and> (\<forall>h. bounding_headline opts = Some h \<longrightarrow> wf_condition h \<and> all_ready h [] known \<and> roster_admits h opts)"

lemma evaluate_verdict:
  assumes "known = known_events (opt_terminalSeq opts) (rectify es)" "evaluable c opts known"
  shows "evaluateCondition c es opts = verdict c (bounding_headline opts) (opt_terminalSeq opts) known"
proof -
  let ?roster = "roster_of (opt_participants opts)"
  let ?h = "bounding_headline opts"
  from assms(2) have wf: "wf_condition c" "all_ready c [] known" "roster_admits c opts" "distinct (map ev_seq known)"
    by (simp_all add: evaluable_def)
  have ev: "evaluateWindow c (counted ?h known) ?roster =
      (case first_hit (rule_hit c) [] (counted ?h known) of
         None \<Rightarrow> Undecided | Some e \<Rightarrow> Decided (rule_outcome c e) (ev_seq e))"
    using wf all_ready_counted [OF wf(2,4)] by (intro evaluateWindow_rule) (auto simp: roster_admits_def)
  note bound = terminal_index_session_end [OF wf(4), of opts]
  show ?thesis
  proof (cases "terminal_index opts ?roster known")
    case None
    with bound assms(2) have "session_end ?h known = None" "counted ?h known = known"
      by (auto simp: evaluable_def)
    with ev None show ?thesis
      by (simp add: evaluateCondition_def Let_def assms(1) [symmetric] verdict_def split: option.splits)
  next
    case (Some i)
    with bound assms(2) obtain e where e: "session_end ?h known = Some e"
        "take (i + 1) known = counted ?h known" "last (take (i + 1) known) = e"
      by (auto simp: evaluable_def)
    with ev Some show ?thesis
      by (simp add: evaluateCondition_def Let_def assms(1) [symmetric] verdict_def split: option.splits)
  qed
qed

text \<open>Events recorded after the closing sequence, corrections apart, do not change the answer.\<close>

lemma rectify_slots_late:
  assumes "\<forall>e \<in> set fs. truthy_text (ev_corrects e) = None"
  shows "snd (rectify_slots (es @ fs)) = snd (rectify_slots es) @ fs"
  using assms
proof (induction fs rule: rev_induct)
  case Nil
  then show ?case by simp
next
  case (snoc f fs)
  obtain m t where st: "rectify_slots (es @ fs) = (m, t)" by fastforce
  have "rectify_slots (es @ fs @ [f]) = rectify_step (rectify_slots (es @ fs)) f" by (simp add: rectify_slots_def)
  with snoc st show ?case by (simp add: rectify_step_def)
qed

text \<open>Events recorded after a room's closing sequence, corrections of earlier facts
  apart, never change what a condition evaluates to at that sequence.\<close>

lemma evaluateCondition_late:
  assumes "opt_terminalSeq opts = Some t"
    and "\<forall>e \<in> set fs. t < ev_seq e \<and> truthy_text (ev_corrects e) = None"
  shows "evaluateCondition c (es @ fs) opts = evaluateCondition c es opts"
proof -
  have "filter (\<lambda>e. ev_seq e \<le> t) fs = []" using assms(2) by (auto simp: filter_empty_conv)
  then have "known_events (Some t) (rectify (es @ fs)) = known_events (Some t) (rectify es)"
    using assms(2) rectify_slots_late [of fs es] by (simp add: known_events_def rectify_def filter_sort)
  with assms(1) show ?thesis by (simp add: evaluateCondition_def)
qed

end
