(* ===== verification/Resolver.thy ===== *)
theory Resolver
  imports Hyperliquid Timeline
begin

section \<open>The Resolver Node (resolver/resolver.mjs)\<close>

text \<open>
  Rebuilds every result from the raw provider bytes: the log is used for its raw pointers and,
  afterwards, as a comparison target. Parameters: the raw archive (\<open>None\<close> when a read throws),
  the hash, \<open>JSON.parse\<close>, and the chain port an attestation is sent to.
\<close>

subsection \<open>Reconstruction\<close>

datatype divergence =
    MissingRaw string
  | RawHashMismatch string
  | UnknownAccount string string
  | LogMissingFact string
  | FactMismatch string string string
  | LogExtraFact string

record reconstruction =
  rc_ordered :: "draft list"
  rc_baselines :: "(string, string) js_map"
  rc_divergence :: "divergence list"

record resolver_env =
  rs_participants :: "(string \<times> string) list"
  rs_archive :: "string \<Rightarrow> string option"
  rs_hash :: hash_fun
  rs_parse :: "string \<Rightarrow> json option"

definition participantKeyFor :: "resolver_env \<Rightarrow> json \<Rightarrow> string option" where
  "participantKeyFor env address =
     map_option fst (List.find (\<lambda>(key, a). to_lower a = to_lower (json_text address)) (rs_participants env))"

record rebuild =
  rb_facts :: "(string, draft) js_map"
  rb_baselines :: "(string, string) js_map"
  rb_divergence :: "divergence list"
  rb_seenRefs :: "string list"

definition draft_field :: "draft \<Rightarrow> string \<Rightarrow> json" where
  "draft_field d k = json_get (draft_facts d) k"

definition rebuild_event :: "resolver_env \<Rightarrow> rebuild \<Rightarrow> event \<Rightarrow> source_error + rebuild" where
  "rebuild_event env st e =
     (if ev_kind e = ''heartbeat'' \<or> ev_raw_ref e \<in> set (rb_seenRefs st) then Inr st
      else
        let st1 = st\<lparr>rb_seenRefs := ev_raw_ref e # rb_seenRefs st\<rparr>;
            query = ev_raw_query e;
            user = json_get query ''user'';
            diverge = (\<lambda>x. Inr (st1\<lparr>rb_divergence := rb_divergence st1 @ [x]\<rparr>))
        in case rs_archive env (ev_raw_ref e) of
             None \<Rightarrow> diverge (MissingRaw (ev_raw_ref e))
           | Some rawBytes \<Rightarrow>
               if rs_hash env rawBytes \<noteq> ev_raw_hash e then diverge (RawHashMismatch (ev_raw_ref e))
               else case truthy_text (participantKeyFor env user) of
                 None \<Rightarrow> diverge (UnknownAccount (ev_raw_ref e) (json_text user))
               | Some participantKey \<Rightarrow>
                   (case rs_parse env rawBytes of
                      None \<Rightarrow> Inl NotJson
                    | Some payload \<Rightarrow>
                        if json_get query ''type'' = JStr ''clearinghouseState'' then
                          bind_res (case json_get query ''at'' of
                              JNum at \<Rightarrow> normalizeBaseline participantKey (json_text user) payload at
                            | _ \<Rightarrow> Inl InvalidTime) (\<lambda>d.
                            Inr (st1\<lparr>rb_baselines :=
                              js_set participantKey (json_text (draft_field d ''account_value_usd'')) (rb_baselines st1)\<rparr>))
                        else if json_get query ''type'' \<in> {JStr ''userFillsByTime'', JStr ''userFills''} then
                          bind_res (normalizeFillsResponse participantKey (json_text user) payload) (\<lambda>ds.
                            Inr (st1\<lparr>rb_facts :=
                              foldl (\<lambda>m d. js_set (dr_source_event_id d) d m) (rb_facts st1) ds\<rparr>))
                        else Inr st1))"

fun rebuild_events :: "resolver_env \<Rightarrow> rebuild \<Rightarrow> event list \<Rightarrow> source_error + rebuild" where
  "rebuild_events env st [] = Inr st"
| "rebuild_events env st (e # es) = bind_res (rebuild_event env st e) (\<lambda>st'. rebuild_events env st' es)"

definition draft_order :: "draft \<Rightarrow> int option \<times> string" where
  "draft_order d = (date_parse (dr_observed_at d), json_text (draft_field d ''tid''))"

definition reconstructFacts :: "resolver_env \<Rightarrow> event list \<Rightarrow> source_error + reconstruction" where
  "reconstructFacts env logEvents =
     bind_res (rebuild_events env \<lparr> rb_facts = [], rb_baselines = [], rb_divergence = [], rb_seenRefs = [] \<rparr> logEvents)
       (\<lambda>st. Inr \<lparr> rc_ordered = sort_key draft_order (map snd (rb_facts st)),
                   rc_baselines = rb_baselines st, rc_divergence = rb_divergence st \<rparr>)"

subsection \<open>Comparison with the log\<close>

definition draft_pnl :: "draft \<Rightarrow> string" where
  "draft_pnl d = json_text (draft_field d ''realized_pnl_usd'')"

definition log_facts :: "event list \<Rightarrow> (string, json) js_map" where
  "log_facts logEvents =
     foldl (\<lambda>m e. if ev_kind e = ''trade_closed''
                  then js_set (ev_source_event_id e) (json_get (ev_facts e) ''realized_pnl_usd'') m else m) [] logEvents"

fun compare_drafts :: "(string, json) js_map \<Rightarrow> draft list \<Rightarrow> decimal_error + (divergence list \<times> (string, json) js_map)" where
  "compare_drafts logFacts [] = Inr ([], logFacts)"
| "compare_drafts logFacts (d # ds) =
     (let i = dr_source_event_id d;
          logged = (case js_get logFacts i of None \<Rightarrow> JUndefined | Some v \<Rightarrow> v)
      in bind_res (if logged = JUndefined then Inr [LogMissingFact i]
                   else bind_res (compareDecimal (json_text logged) (draft_pnl d)) (\<lambda>cmp.
                     Inr (if cmp \<noteq> 0 then [FactMismatch i (json_text logged) (draft_pnl d)] else [])))
           (\<lambda>here. bind_res (compare_drafts (js_delete i logFacts) ds) (\<lambda>(rest, left). Inr (here @ rest, left))))"

definition compareWithLog :: "reconstruction \<Rightarrow> event list \<Rightarrow> decimal_error + divergence list" where
  "compareWithLog rc logEvents =
     bind_res (compare_drafts (log_facts logEvents) (rc_ordered rc)) (\<lambda>(found, left).
       Inr (rc_divergence rc @ found @ map (\<lambda>(i, v). LogExtraFact i) left))"

subsection \<open>Evaluating one slot\<close>

definition rs_satisfies :: "json \<Rightarrow> string \<Rightarrow> string \<Rightarrow> eval_error + bool" where
  "rs_satisfies operator left right =
     bind_res (lift_dec (compareDecimal left right)) (\<lambda>cmp.
       if operator = JStr ''>='' then Inr (cmp \<ge> 0)
       else if operator = JStr ''>'' then Inr (cmp > 0)
       else if operator = JStr ''<='' then Inr (cmp \<le> 0)
       else if operator = JStr ''<'' then Inr (cmp < 0)
       else Inl (UnknownOperator (json_text operator)))"

type_synonym totals = "(string option, string) js_map"

definition cum_of :: "totals \<Rightarrow> string option \<Rightarrow> string" where
  "cum_of cum p = (case js_get cum p of Some t \<Rightarrow> t | None \<Rightarrow> ''0'')"

definition valueOf :: "(string, string) js_map \<Rightarrow> totals \<Rightarrow> string option \<Rightarrow> json \<Rightarrow> eval_error + string" where
  "valueOf baselines cum participant metric =
     (let pnl = cum_of cum participant in
      if metric = JStr ''realized_pnl_usd'' then Inr pnl
      else if metric = JStr ''return_pct'' then
        (case Option.bind participant (js_get baselines) of
           None \<Rightarrow> Inl (NoBaseline (case participant of Some p \<Rightarrow> p | None \<Rightarrow> ''null''))
         | Some baseline \<Rightarrow> lift_dec (percentOf pnl baseline))
      else Inl (UnknownMetric (json_text metric)))"

definition headlineDecides :: "condition \<Rightarrow> (string, string) js_map \<Rightarrow> totals \<Rightarrow> draft \<Rightarrow> eval_error + bool" where
  "headlineDecides h baselines cum d =
     (if template_of h \<noteq> JStr ''first_to_realized_pnl'' then Inr False
      else bind_res (valueOf baselines cum (dr_participant d) (JStr ''realized_pnl_usd'')) (\<lambda>v.
        bind_res (lift_dec (compareDecimal v (json_text (param_of h ''target'')))) (\<lambda>cmp. Inr (cmp \<ge> 0))))"

definition slotDecides :: "condition \<Rightarrow> (string, string) js_map \<Rightarrow> totals \<Rightarrow> draft \<Rightarrow> eval_error + string option" where
  "slotDecides c baselines cum d =
     (if template_of c = JStr ''first_to_realized_pnl'' then
        bind_res (valueOf baselines cum (dr_participant d) (JStr ''realized_pnl_usd'')) (\<lambda>v.
          bind_res (lift_dec (compareDecimal v (json_text (param_of c ''target'')))) (\<lambda>cmp.
            Inr (if cmp \<ge> 0 then dr_participant d else None)))
      else if template_of c = JStr ''participant_metric_threshold'' then
        (if json_or_null (dr_participant d) \<noteq> param_of c ''participant'' then Inr None
         else bind_res (valueOf baselines cum (dr_participant d) (param_of c ''metric'')) (\<lambda>v.
           bind_res (rs_satisfies (param_of c ''operator'') v (json_text (param_of c ''value''))) (\<lambda>ok.
             Inr (if ok then Some ''yes'' else None))))
      else if template_of c = JStr ''first_to_metric'' then
        bind_res (valueOf baselines cum (dr_participant d) (param_of c ''metric'')) (\<lambda>v.
          bind_res (rs_satisfies (param_of c ''operator'') v (json_text (param_of c ''value''))) (\<lambda>ok.
            Inr (if ok then dr_participant d else None)))
      else Inl (UnknownTemplate (json_text (template_of c))))"

record slot_hit =
  sh_outcome :: string
  sh_at :: nat
  sh_fill :: json

text \<open>The loop over the ordered facts: the terminal hit and the slot's own, with the break at the first.\<close>

fun slot_loop :: "condition \<Rightarrow> condition \<Rightarrow> (string, string) js_map \<Rightarrow> totals \<Rightarrow> slot_hit option \<Rightarrow> nat \<Rightarrow> draft list
    \<Rightarrow> eval_error + (slot_hit option \<times> slot_hit option)" where
  "slot_loop c h baselines cum slot index [] = Inr (None, slot)"
| "slot_loop c h baselines cum slot index (d # ds) =
     bind_res (lift_dec (addDecimal (cum_of cum (dr_participant d)) (draft_pnl d))) (\<lambda>total.
       let cum' = js_set (dr_participant d) total cum;
           hit = (\<lambda>outcome. \<lparr> sh_outcome = outcome, sh_at = index, sh_fill = draft_field d ''tid'' \<rparr>)
       in bind_res (headlineDecides h baselines cum' d) (\<lambda>terminal.
         bind_res (if slot = None then map_sum id (\<lambda>x. map_option hit (truthy_text x)) (slotDecides c baselines cum' d)
                   else Inr slot) (\<lambda>slot'.
           if terminal then Inr (Some (hit (case dr_participant d of Some p \<Rightarrow> p | None \<Rightarrow> ''null'')), slot')
           else slot_loop c h baselines cum' slot' (index + 1) ds)))"

datatype slot_reason =
    EvalFailed eval_error
  | TerminalNeverMet
  | TerminalNotReached
  | NoSessionEndRule
  | Diverged "divergence list"
  | UnmappableOutcome string
  | SourceFailed source_error
  | CompareFailed decimal_error
  | EvidenceFailed canon_error

datatype slot_result = SlotUnevaluable slot_reason | SlotDecided string json nat

text \<open>\<open>same\<close> is \<open>condition === headlineCondition\<close>, the identity of the two documents.\<close>

definition evaluateSlot :: "condition \<Rightarrow> condition \<Rightarrow> bool \<Rightarrow> reconstruction \<Rightarrow> slot_result" where
  "evaluateSlot c h same rc =
     (case slot_loop c h (rc_baselines rc) [] None 0 (rc_ordered rc) of
        Inl err \<Rightarrow> SlotUnevaluable (EvalFailed err)
      | Inr (terminal, slot) \<Rightarrow>
          if same then
            (case terminal of
               None \<Rightarrow> SlotUnevaluable TerminalNeverMet
             | Some t \<Rightarrow> SlotDecided (sh_outcome t) (sh_fill t) (sh_at t))
          else if slot \<noteq> None \<and> (terminal = None \<or> sh_at (the slot) \<le> sh_at (the terminal)) then
            SlotDecided (sh_outcome (the slot)) (sh_fill (the slot)) (sh_at (the slot))
          else
            (case terminal of
               None \<Rightarrow> SlotUnevaluable TerminalNotReached
             | Some t \<Rightarrow>
                 (case undecidedAtSessionEnd c of
                    None \<Rightarrow> SlotUnevaluable NoSessionEndRule
                  | Some fallback \<Rightarrow> SlotDecided fallback (sh_fill t) (sh_at t))))"

subsection \<open>Evidence and attestation\<close>

definition evidence_bundle :: "string \<Rightarrow> string \<Rightarrow> string \<Rightarrow> json \<Rightarrow> nat \<Rightarrow> reconstruction \<Rightarrow> json" where
  "evidence_bundle market condition_hash outcome fill decidedAt rc =
     JObj [(''market'', JStr market), (''condition_hash'', JStr condition_hash),
           (''evaluator_version'', JStr EVALUATOR_VERSION), (''outcome'', JStr outcome),
           (''terminal_fill'', or_null fill),
           (''fact_ids'', JArr (map (\<lambda>d. JStr (dr_source_event_id d)) (take (decidedAt + 1) (rc_ordered rc)))),
           (''baselines'', JObj (map (\<lambda>(k, v). (k, JStr v)) (rc_baselines rc)))]"

definition buildEvidence :: "resolver_env \<Rightarrow> string \<Rightarrow> string \<Rightarrow> string \<Rightarrow> json \<Rightarrow> nat \<Rightarrow> reconstruction
    \<Rightarrow> canon_error + (json \<times> string)" where
  "buildEvidence env market condition_hash outcome fill decidedAt rc =
     (let bundle = evidence_bundle market condition_hash outcome fill decidedAt rc
      in map_sum id (\<lambda>t. (bundle, rs_hash env t)) (canonicalize bundle))"

definition OUTCOME_ENUM :: "string \<Rightarrow> int option" where
  "OUTCOME_ENUM = map_of [(''a'', 1), (''b'', 2), (''yes'', 1), (''no'', 2), (''tie'', 3), (''invalid'', 4)]"

record slot_args =
  sa_market :: string
  sa_condition :: condition
  sa_conditionHash :: string
  sa_headline :: condition
  sa_same :: bool
  sa_participantAKey :: string
  sa_participantBKey :: string

text \<open>
  \<open>Inl\<close> is a call that throws; inside, no outcome with its reason and the incident it records, or
  the outcome with its evidence.
\<close>

definition reconstructSlot :: "resolver_env \<Rightarrow> slot_args \<Rightarrow> event list
    \<Rightarrow> slot_reason + (slot_reason + (int \<times> string \<times> json))" where
  "reconstructSlot env a logEvents =
     bind_res (map_sum SourceFailed id (reconstructFacts env logEvents)) (\<lambda>rc.
       bind_res (map_sum CompareFailed id (compareWithLog rc logEvents)) (\<lambda>divergence.
         if divergence \<noteq> [] then Inr (Inl (Diverged divergence))
         else case evaluateSlot (sa_condition a) (sa_headline a) (sa_same a) rc of
           SlotUnevaluable reason \<Rightarrow> Inr (Inl reason)
         | SlotDecided outcome fill decidedAt \<Rightarrow>
             bind_res (map_sum EvidenceFailed id
                 (buildEvidence env (sa_market a) (sa_conditionHash a) outcome fill decidedAt rc)) (\<lambda>(bundle, evidenceHash).
               let outcomeEnum = (if outcome = sa_participantAKey a then Some 1
                                  else if outcome = sa_participantBKey a then Some 2
                                  else OUTCOME_ENUM outcome)
               in Inr (case outcomeEnum of
                    None \<Rightarrow> Inl (UnmappableOutcome outcome)
                  | Some n \<Rightarrow> Inr (n, evidenceHash, bundle)))))"

text \<open>\<open>attestResult\<close> is the chain port: its new state, or a throw.\<close>

definition resolveSlot :: "('ch \<Rightarrow> string \<Rightarrow> int \<Rightarrow> string \<Rightarrow> 'x + 'ch) \<Rightarrow> resolver_env \<Rightarrow> slot_args \<Rightarrow> event list \<Rightarrow> 'ch
    \<Rightarrow> (slot_reason + 'x) + ('ch \<times> (slot_reason + (int \<times> string \<times> json)))" where
  "resolveSlot attestResult env a logEvents chain =
     bind_res (map_sum Inl id (reconstructSlot env a logEvents)) (\<lambda>rebuilt.
       case rebuilt of
         Inl reason \<Rightarrow> Inr (chain, Inl reason)
       | Inr (n, evidenceHash, bundle) \<Rightarrow>
           bind_res (map_sum Inr id (attestResult chain (sa_market a) n evidenceHash)) (\<lambda>chain'.
             Inr (chain', Inr (n, evidenceHash, bundle))))"

end
