(* ===== verification/Agreement.thy ===== *)
theory Agreement
  imports Resolver
begin

section \<open>The gate and the resolvers decide alike\<close>

text \<open>
  The gate evaluates the log (\<open>evaluateCondition\<close>), a resolver the facts it rebuilt
  (\<open>evaluateSlot\<close>), with two evaluators written apart. Both implement the verdict of the
  condition's rule.
\<close>

subsection \<open>One pass for both rules\<close>

fun up_to_hit :: "(event list \<Rightarrow> event \<Rightarrow> bool) \<Rightarrow> event list \<Rightarrow> event list \<Rightarrow> event list" where
  "up_to_hit hit pre [] = []"
| "up_to_hit hit pre (e # es) = e # (if hit pre e then [] else up_to_hit hit (pre @ [e]) es)"

lemma up_to_hit_None: "first_hit hit pre es = None \<Longrightarrow> up_to_hit hit pre es = es"
  by (induction es arbitrary: pre) (auto split: if_splits)

lemma up_to_hit_Some:
  "first_hit hit pre (xs @ e # ys) = Some e \<Longrightarrow> first_hit hit pre xs = None \<Longrightarrow> hit (pre @ xs) e
    \<Longrightarrow> up_to_hit hit pre (xs @ e # ys) = xs @ [e]"
proof (induction xs arbitrary: pre)
  case Nil
  then show ?case by simp
next
  case (Cons a xs)
  then show ?case using Cons.IH [of "pre @ [a]"] by (auto split: if_splits)
qed

lemma first_hit_None:
  "first_hit hit pre es = None \<longleftrightarrow> (\<forall>as a bs. es = as @ a # bs \<longrightarrow> \<not> hit (pre @ as) a)"
proof -
  have "first_hit hit pre es \<noteq> None \<longleftrightarrow> (\<exists>as a bs. es = as @ a # bs \<and> hit (pre @ as) a)"
  proof (induction es arbitrary: pre)
    case (Cons x es)
    show ?case
    proof (cases "hit pre x")
      case True
      then show ?thesis by (auto intro: exI [of _ "[]"])
    next
      case False
      have "(\<exists>as a bs. x # es = as @ a # bs \<and> hit (pre @ as) a)
          \<longleftrightarrow> (\<exists>as a bs. es = as @ a # bs \<and> hit ((pre @ [x]) @ as) a)"
      proof
        assume "\<exists>as a bs. x # es = as @ a # bs \<and> hit (pre @ as) a"
        then obtain as a bs where as: "x # es = as @ a # bs" "hit (pre @ as) a" by blast
        with False obtain cs where "as = x # cs" by (cases as) auto
        with as show "\<exists>as a bs. es = as @ a # bs \<and> hit ((pre @ [x]) @ as) a" by auto
      next
        assume "\<exists>as a bs. es = as @ a # bs \<and> hit ((pre @ [x]) @ as) a"
        then obtain as a bs where "es = as @ a # bs" "hit ((pre @ [x]) @ as) a" by blast
        then show "\<exists>as a bs. x # es = as @ a # bs \<and> hit (pre @ as) a"
          by (intro exI [of _ "x # as"] exI [of _ a] exI [of _ bs]) simp
      qed
      with False Cons.IH [of "pre @ [x]"] show ?thesis by simp
    qed
  qed simp
  then show ?thesis by auto
qed

lemma counted_up_to_hit:
  assumes "distinct (map ev_seq es)"
  shows "counted (Some h) es = up_to_hit (rule_hit h) [] es"
proof (cases "first_hit (rule_hit h) [] es")
  case None
  then show ?thesis by (simp add: counted_def session_end_def up_to_hit_None)
next
  case (Some e)
  then obtain xs ys where es: "es = xs @ e # ys" "rule_hit h xs e"
      "\<forall>as a bs. xs = as @ a # bs \<longrightarrow> \<not> rule_hit h as a"
    by (auto simp: first_hit_Some)
  then have "first_hit (rule_hit h) [] xs = None" by (simp add: first_hit_None)
  with Some es assms takeWhile_seq(1) [of xs e ys] up_to_hit_Some [of "rule_hit h" "[]" xs e ys]
  show ?thesis by (simp add: counted_def session_end_def)
qed

subsection \<open>When a reconstruction is of the same session\<close>

text \<open>A rebuilt fact and the trade of the timeline that records it.\<close>

definition same_fact :: "draft \<Rightarrow> event \<Rightarrow> bool" where
  "same_fact d e \<longleftrightarrow> dr_participant d = ev_participant e \<and> is_decimal (draft_pnl d)
     \<and> scaled (draft_pnl d) = figure e"

text \<open>A resolver reads the baselines before anything else: each trade's is the one it knows.\<close>

definition baselines_known :: "(string, string) js_map \<Rightarrow> event list \<Rightarrow> event list \<Rightarrow> bool" where
  "baselines_known baselines pre es \<longleftrightarrow>
     (\<forall>as e bs. es = as @ e # bs \<longrightarrow> is_trade e \<longrightarrow>
        (let b = baseline_after (pre @ as @ [e]) (the (ev_participant e)) in
         b \<noteq> JNull \<longrightarrow> js_get baselines (the (ev_participant e)) = Some (json_text b)))"

definition of_session :: "reconstruction \<Rightarrow> event list \<Rightarrow> bool" where
  "of_session rc known \<longleftrightarrow> list_all2 same_fact (rc_ordered rc) (filter is_trade known)
     \<and> baselines_known (rc_baselines rc) [] known"

definition totals_track :: "totals \<Rightarrow> event list \<Rightarrow> bool" where
  "totals_track cum pre \<longleftrightarrow> (\<forall>p. p \<noteq> [] \<longrightarrow> cum_of cum (Some p) = fromScaled (realized pre p))"

lemma rs_satisfies_eq: "rs_satisfies operator left (json_text right) = satisfies operator left right"
  by (simp add: rs_satisfies_def satisfies_def)

lemma baselines_known_Cons:
  assumes "baselines_known bl pre (e # es)"
  shows "baselines_known bl (pre @ [e]) es"
    "is_trade e \<Longrightarrow> baseline_after (pre @ [e]) (the (ev_participant e)) \<noteq> JNull \<Longrightarrow>
      js_get bl (the (ev_participant e)) = Some (json_text (baseline_after (pre @ [e]) (the (ev_participant e))))"
proof -
  show "baselines_known bl (pre @ [e]) es"
    unfolding baselines_known_def
  proof (intro allI impI)
    fix as x bs assume "es = as @ x # bs" "is_trade x"
    with assms [unfolded baselines_known_def, rule_format, of "e # as" x bs]
    show "let b = baseline_after ((pre @ [e]) @ as @ [x]) (the (ev_participant x)) in
        b \<noteq> JNull \<longrightarrow> js_get bl (the (ev_participant x)) = Some (json_text b)"
      by simp
  qed
  show "js_get bl (the (ev_participant e)) = Some (json_text (baseline_after (pre @ [e]) (the (ev_participant e))))"
    if "is_trade e" "baseline_after (pre @ [e]) (the (ev_participant e)) \<noteq> JNull"
    using assms [unfolded baselines_known_def, rule_format, of "[]" e es] that by (simp add: Let_def)
qed

lemma valueOf_figure:
  assumes "totals_track cum (pre @ [e])" "is_trade e" "ev_participant e = Some p" "p \<noteq> []"
    and "metric = PNL \<or> metric = RETURN"
    and "metric = RETURN \<Longrightarrow> usable_baseline (baseline_after (pre @ [e]) p)
          \<and> js_get bl p = Some (json_text (baseline_after (pre @ [e]) p))"
  shows "valueOf bl cum (Some p) metric = Inr (fromScaled (rule_figure metric (pre @ [e]) p))"
proof -
  have pnl: "cum_of cum (Some p) = fromScaled (realized (pre @ [e]) p)"
    using assms(1,4) by (simp add: totals_track_def)
  show ?thesis
  proof (cases "metric = PNL")
    case True
    with pnl show ?thesis by (simp add: valueOf_def rule_figure_def PNL_def)
  next
    case False
    with assms(5) have ret: "metric = RETURN" by simp
    from assms(6) [OF ret] have b: "js_get bl p = Some (json_text (baseline_after (pre @ [e]) p))"
        "toScaled (json_text (baseline_after (pre @ [e]) p)) = Inr (scaled (json_text (baseline_after (pre @ [e]) p)))"
        "scaled (json_text (baseline_after (pre @ [e]) p)) \<noteq> 0"
      by (auto simp: usable_baseline_def intro: is_decimalE)
    with False ret pnl show ?thesis
      by (simp add: valueOf_def rule_figure_def PNL_def RETURN_def percentOf_def lift_dec_def)
  qed
qed

text \<open>What one trade asks of both evaluators.\<close>

lemma slotDecides_rule:
  assumes "wf_condition c" "ready c pre e" "is_trade e" "same_fact d e" "totals_track cum (pre @ [e])"
    and "baselines_known bl pre (e # es)"
  shows "slotDecides c bl cum d = Inr (if rule_hit c pre e then Some (rule_outcome c e) else None)"
proof -
  from assms(2,3) obtain p where p: "ev_participant e = Some p" "p \<noteq> []"
    by (auto simp: ready_def wf_event_def truthy_text_None truthy_text_Some)
  then have d: "dr_participant d = Some p" using assms(4) by (simp add: same_fact_def)
  have val: "valueOf bl cum (Some p) (rule_metric c) = Inr (fromScaled (rule_figure (rule_metric c) (pre @ [e]) p))"
    using assms(1,2,3) baselines_known_Cons(2) [OF assms(6)] p
    by (intro valueOf_figure [OF assms(5)]) (auto simp: wf_condition_def ready_def usable_baseline_def)
  have cmp: "satisfies (rule_operator c) (fromScaled x) (rule_value c)
      = Inr (holds_op (rule_operator c) x (scaled (json_text (rule_value c))))" for x
    using assms(1) by (subst satisfies_holds_op) (auto simp: wf_condition_def)
  consider "is_headline c" | "is_threshold c" | "template_of c = JStr ''first_to_metric''"
    using assms(1) by (auto simp: wf_condition_def)
  then show ?thesis
  proof cases
    case 1
    then have sh: "\<not> is_threshold c" "rule_metric c = PNL" "rule_operator c = JStr ''>=''" "rule_value c = param_of c ''target''"
      by (auto simp: is_threshold_def is_headline_def rule_metric_def rule_operator_def rule_value_def)
    have dec: "compareDecimal (fromScaled x) (json_text (param_of c ''target'')) = Inr (sgn (x - scaled (json_text (param_of c ''target''))))" for x
      using assms(1) sh(4) by (subst compareDecimal_ok) (auto simp: wf_condition_def sgn_if)
    from 1 sh val dec d p assms(3) show ?thesis
      by (auto simp: slotDecides_def is_headline_def rule_hit_def rule_outcome_def lift_dec_def holds_op_def sgn_if
          PNL_def [symmetric])
  next
    case 2
    then have "\<not> is_headline c" by (simp add: is_threshold_def is_headline_def)
    with 2 val cmp d p assms(3) show ?thesis
      by (auto simp: slotDecides_def is_threshold_def rule_hit_def rule_outcome_def rs_satisfies_eq
          rule_metric_def rule_operator_def rule_value_def)
  next
    case 3
    then have "\<not> is_headline c" "\<not> is_threshold c" by (simp_all add: is_threshold_def is_headline_def)
    with 3 val cmp d p assms(3) show ?thesis
      by (auto simp: slotDecides_def is_threshold_def rule_hit_def rule_outcome_def rs_satisfies_eq
          rule_metric_def rule_operator_def rule_value_def)
  qed
qed

lemma headlineDecides_rule:
  assumes "wf_condition h" "is_headline h" "ready h pre e" "is_trade e" "same_fact d e" "totals_track cum (pre @ [e])"
    and "baselines_known bl pre (e # es)"
  shows "headlineDecides h bl cum d = Inr (rule_hit h pre e)"
proof -
  have "slotDecides h bl cum d = Inr (if rule_hit h pre e then Some (rule_outcome h e) else None)"
    using assms by (intro slotDecides_rule)
  moreover from assms(3,4) obtain p where p: "ev_participant e = Some p" "p \<noteq> []"
    by (auto simp: ready_def wf_event_def truthy_text_None truthy_text_Some)
  moreover have "dr_participant d = Some p" using assms(5) p by (simp add: same_fact_def)
  ultimately show ?thesis
    using assms(2)
    by (auto simp: headlineDecides_def slotDecides_def is_headline_def result_simps split: if_splits sum.splits)
qed

subsection \<open>The loop finds both hits\<close>

lemma totals_track_skip: "totals_track cum pre \<Longrightarrow> \<not> is_trade e \<Longrightarrow> totals_track cum (pre @ [e])"
  by (simp add: totals_track_def)

lemma totals_track_trade:
  assumes "totals_track cum pre" "is_trade e" "same_fact d e" "wf_event e"
  shows "\<exists>t. addDecimal (cum_of cum (dr_participant d)) (draft_pnl d) = Inr t
    \<and> totals_track (js_set (dr_participant d) t cum) (pre @ [e])"
proof -
  from assms(2,4) obtain p where p: "ev_participant e = Some p" "p \<noteq> []"
    by (auto simp: wf_event_def truthy_text_None truthy_text_Some)
  then have "addDecimal (cum_of cum (dr_participant d)) (draft_pnl d) = Inr (fromScaled (realized pre p + figure e))"
    using assms(1,3) by (simp add: totals_track_def same_fact_def addDecimal_ok)
  with assms p show ?thesis by (auto simp: totals_track_def same_fact_def cum_of_def port_simps)
qed

text \<open>What a loop that starts with no slot hit ends with.\<close>

definition slot_matches :: "condition \<Rightarrow> nat \<Rightarrow> slot_hit option \<Rightarrow> event option \<Rightarrow> slot_hit option \<Rightarrow> bool" where
  "slot_matches c index terminal hit slot \<longleftrightarrow>
     (case hit of None \<Rightarrow> slot = None
      | Some e \<Rightarrow> \<exists>s. slot = Some s \<and> sh_outcome s = rule_outcome c e
          \<and> (\<forall>t. terminal = Some t \<longrightarrow> sh_at s \<le> sh_at t))"

definition terminal_matches :: "nat \<Rightarrow> event option \<Rightarrow> slot_hit option \<Rightarrow> bool" where
  "terminal_matches index hit terminal \<longleftrightarrow>
     (case hit of None \<Rightarrow> terminal = None
      | Some e \<Rightarrow> \<exists>t. terminal = Some t \<and> sh_outcome t = the (ev_participant e) \<and> index \<le> sh_at t)"

lemma terminal_matches_mono: "terminal_matches (index + 1) hit terminal \<Longrightarrow> terminal_matches index hit terminal"
  by (auto simp: terminal_matches_def split: option.splits)

lemma slot_loop_rule:
  assumes "wf_condition c" "wf_condition h" "is_headline h"
    and "all_ready c pre es" "all_ready h pre es" "list_all2 same_fact ds (filter is_trade es)"
    and "totals_track cum pre" "baselines_known bl pre es"
  shows "\<exists>terminal slot'. slot_loop c h bl cum slot index ds = Inr (terminal, slot')
    \<and> terminal_matches index (first_hit (rule_hit h) pre es) terminal
    \<and> (if slot = None
       then slot_matches c index terminal (first_hit (rule_hit c) pre (up_to_hit (rule_hit h) pre es)) slot'
       else slot' = slot)"
  using assms(4-)
proof (induction es arbitrary: pre ds cum slot index)
  case Nil
  then show ?case by (simp add: terminal_matches_def slot_matches_def)
next
  case (Cons e es)
  have ready: "ready c pre e" "ready h pre e" and rest: "all_ready c (pre @ [e]) es" "all_ready h (pre @ [e]) es"
    using Cons.prems(1,2) by simp_all
  note bl = baselines_known_Cons(1) [OF Cons.prems(5)]
  show ?case
  proof (cases "is_trade e")
    case False
    then have no: "\<not> rule_hit c pre e" "\<not> rule_hit h pre e" by (simp_all add: rule_hit_def)
    then have same: "first_hit (rule_hit h) pre (e # es) = first_hit (rule_hit h) (pre @ [e]) es"
        "first_hit (rule_hit c) pre (up_to_hit (rule_hit h) pre (e # es))
          = first_hit (rule_hit c) (pre @ [e]) (up_to_hit (rule_hit h) (pre @ [e]) es)"
      by simp_all
    have "list_all2 same_fact ds (filter is_trade es)" using Cons.prems(3) False by simp
    from Cons.IH [OF rest this totals_track_skip [OF Cons.prems(4) False] bl]
    show ?thesis unfolding same .
  next
    case True
    with Cons.prems(3) obtain d ds' where ds: "ds = d # ds'" "same_fact d e" "list_all2 same_fact ds' (filter is_trade es)"
      by (auto simp: list_all2_Cons2)
    from True ready(1) obtain p where p: "ev_participant e = Some p" "p \<noteq> []"
      by (auto simp: ready_def wf_event_def truthy_text_None truthy_text_Some)
    then have d: "dr_participant d = Some p" using ds(2) by (simp add: same_fact_def)
    have out: "rule_outcome c e \<noteq> []" using p by (simp add: rule_outcome_def)
    have "wf_event e" using ready(1) by (simp add: ready_def)
    from totals_track_trade [OF Cons.prems(4) True ds(2) this] obtain t where
      t: "addDecimal (cum_of cum (dr_participant d)) (draft_pnl d) = Inr t"
        "totals_track (js_set (dr_participant d) t cum) (pre @ [e])" by blast
    let ?cum = "js_set (dr_participant d) t cum"
    define slot1 where "slot1 = (if slot = None \<and> rule_hit c pre e
        then Some \<lparr> sh_outcome = rule_outcome c e, sh_at = index, sh_fill = draft_field d ''tid'' \<rparr> else slot)"
    note dec = slotDecides_rule [OF assms(1) ready(1) True ds(2) t(2) Cons.prems(5)]
      headlineDecides_rule [OF assms(2,3) ready(2) True ds(2) t(2) Cons.prems(5)]
    have loop: "slot_loop c h bl cum slot index ds =
        (if rule_hit h pre e then Inr (Some \<lparr> sh_outcome = p, sh_at = index, sh_fill = draft_field d ''tid'' \<rparr>, slot1)
         else slot_loop c h bl ?cum slot1 (index + 1) ds')"
      using t(1) dec d out by (auto simp: ds(1) lift_dec_def Let_def slot1_def truthy_text_def)
    show ?thesis
    proof (cases "rule_hit h pre e")
      case True
      with loop p show ?thesis
        by (auto simp: terminal_matches_def slot_matches_def slot1_def)
    next
      case False
      from Cons.IH [OF rest ds(3) t(2) bl, of slot1 "index + 1"] obtain terminal slot' where
        ih: "slot_loop c h bl ?cum slot1 (index + 1) ds' = Inr (terminal, slot')"
          "terminal_matches (index + 1) (first_hit (rule_hit h) (pre @ [e]) es) terminal"
          "if slot1 = None
           then slot_matches c (index + 1) terminal (first_hit (rule_hit c) (pre @ [e]) (up_to_hit (rule_hit h) (pre @ [e]) es)) slot'
           else slot' = slot1" by blast
      have at: "index \<le> sh_at t" if "terminal = Some t" for t
        using ih(2) that by (auto simp: terminal_matches_def split: option.splits)
      show ?thesis
        using loop False ih at terminal_matches_mono [OF ih(2)]
        by (auto simp: slot1_def slot_matches_def split: if_splits option.splits)
    qed
  qed
qed

subsection \<open>Agreement\<close>

text \<open>
  What a resolver rebuilds for a slot, given that its facts are the session's: the verdict's
  outcome, except that a resolver never lets a closing sequence stand in for the session's end.
\<close>

definition resolver_outcome :: "condition \<Rightarrow> condition \<Rightarrow> bool \<Rightarrow> event list \<Rightarrow> string option" where
  "resolver_outcome c h same known =
     (if same then map_option (\<lambda>e. the (ev_participant e)) (first_hit (rule_hit h) [] known)
      else case verdict c (Some h) None known of Decided outcome seq \<Rightarrow> Some outcome | _ \<Rightarrow> None)"

lemma evaluateSlot_outcome:
  assumes "wf_condition c" "wf_condition h" "is_headline h" "all_ready c [] known" "all_ready h [] known"
    and "of_session rc known" "distinct (map ev_seq known)"
  shows "case resolver_outcome c h same known of
      Some outcome \<Rightarrow> \<exists>fill at. evaluateSlot c h same rc = SlotDecided outcome fill at
    | None \<Rightarrow> \<exists>reason. evaluateSlot c h same rc = SlotUnevaluable reason"
proof -
  have "totals_track [] []" by (simp add: totals_track_def cum_of_def fromScaled_zero)
  with assms slot_loop_rule [OF assms(1-5), of "rc_ordered rc" "[]" "rc_baselines rc" None 0]
  obtain terminal slot where loop: "slot_loop c h (rc_baselines rc) [] None 0 (rc_ordered rc) = Inr (terminal, slot)"
      "terminal_matches 0 (first_hit (rule_hit h) [] known) terminal"
      "slot_matches c 0 terminal (first_hit (rule_hit c) [] (counted (Some h) known)) slot"
    by (auto simp: of_session_def counted_up_to_hit)
  show ?thesis
  proof (cases same)
    case True
    with loop show ?thesis
      by (auto simp: resolver_outcome_def evaluateSlot_def terminal_matches_def split: option.splits)
  next
    case False
    show ?thesis
    proof (cases "first_hit (rule_hit c) [] (counted (Some h) known)")
      case None
      with loop False show ?thesis
        by (auto simp: resolver_outcome_def evaluateSlot_def terminal_matches_def slot_matches_def verdict_def
            session_end_def split: option.splits)
    next
      case (Some e)
      with loop False show ?thesis
        by (auto simp: resolver_outcome_def evaluateSlot_def slot_matches_def verdict_def)
    qed
  qed
qed

text \<open>C1: the gate and an independent resolver agree. When a resolver decides a
  slot from the fills it fetched itself, and those fills are the facts of the session, the gate's
  evaluation of the log decides the same outcome, whatever the window of either.\<close>

lemma gate_resolver_same_outcome:
  assumes "known = known_events (opt_terminalSeq opts) (rectify es)" "evaluable c opts known"
    and "bounding_headline opts = Some h" "is_headline h" "of_session rc known"
    and "evaluateSlot c h False rc = SlotDecided outcome fill at"
  shows "\<exists>seq. evaluateCondition c es opts = Decided outcome seq"
proof -
  from assms(2,3) have wf: "wf_condition c" "wf_condition h" "all_ready c [] known" "all_ready h [] known"
      "distinct (map ev_seq known)" by (simp_all add: evaluable_def)
  from evaluateSlot_outcome [OF wf(1,2) assms(4) wf(3,4) assms(5) wf(5), of False] assms(6)
  have "verdict c (Some h) None known \<noteq> Undecided \<and> (\<exists>seq. verdict c (Some h) None known = Decided outcome seq)"
    by (auto simp: resolver_outcome_def split: option.splits decision.splits)
  then have "\<exists>seq. verdict c (Some h) (opt_terminalSeq opts) known = Decided outcome seq"
    by (auto simp: verdict_def split: option.splits)
  with evaluate_verdict [OF assms(1,2)] assms(3) show ?thesis by simp
qed

text \<open>On the headline itself the two evaluators are equivalent: a resolver decides
  an outcome from the provider's history exactly when the gate decides it from the log.\<close>

lemma headline_same_outcome:
  assumes "known = known_events (opt_terminalSeq opts) (rectify es)" "evaluable h opts known"
    and "bounding_headline opts = None" "is_headline h" "of_session rc known"
  shows "(\<exists>fill at. evaluateSlot h h True rc = SlotDecided outcome fill at)
    \<longleftrightarrow> (\<exists>seq. evaluateCondition h es opts = Decided outcome seq)"
proof -
  from assms(2) have wf: "wf_condition h" "all_ready h [] known" "distinct (map ev_seq known)"
    by (simp_all add: evaluable_def)
  have "undecidedAtSessionEnd h = None" using assms(4) by (simp add: undecidedAtSessionEnd_def is_headline_def)
  moreover have "\<not> is_threshold h" using assms(4) by (simp add: is_headline_def is_threshold_def)
  ultimately have gate: "evaluateCondition h es opts =
      (case first_hit (rule_hit h) [] known of None \<Rightarrow> Undecided | Some e \<Rightarrow> Decided (the (ev_participant e)) (ev_seq e))"
    using evaluate_verdict [OF assms(1,2)] assms(3)
    by (simp add: verdict_def session_end_def counted_def rule_outcome_def split: option.splits)
  from evaluateSlot_outcome [OF wf(1,1) assms(4) wf(2,2) assms(5) wf(3), of True] gate
  show ?thesis by (auto simp: resolver_outcome_def split: option.splits)
qed

end
