(* ===== verification/RoomChain.thy ===== *)
theory RoomChain
  imports Conditions
begin

section \<open>The room chain port and its in-memory implementation (ports/chain-fake.mjs)\<close>

text \<open>
  \<open>FakeRoomChain\<close>, the room and market semantics the services depend on. A call returns the
  state it leaves behind beside its result, because a throw does not undo what came before it.
\<close>

subsection \<open>Permits and requests\<close>

record permit =
  pm_slotIndex :: int
  pm_requestHash :: string
  pm_conditionHash :: string
  pm_undecidedThroughSequence :: int
  pm_announceDelay :: int
  pm_issuedAt :: int
  pm_expiresAt :: int
  pm_nonce :: int

record slot_request =
  rq_templateId :: string
  rq_templateParamsHash :: "string option"
  rq_conditionHash :: "string option"
  rq_announceDelay :: int
  rq_winnerRewardBps :: int
  rq_question :: "string option"
  rq_streamUrl :: "string option"
  rq_imageUrl :: "string option"

subsection \<open>State\<close>

record slot =
  sl_market :: string
  sl_slotIndex :: int
  sl_conditionHash :: string
  sl_closed :: bool
  sl_suspended :: bool
  sl_lastSafeSeq :: int
  sl_safeEpochs :: "int list"
  sl_processedEpochs :: "int list"
  sl_provisionalOutcome :: int
  sl_provisionalAt :: int
  sl_challenged :: bool
  sl_challengedAt :: int
  sl_challengeWindow :: int
  sl_challengeTimeout :: int
  sl_finalOutcome :: int
  sl_resolutionDueAt :: "int option"
  sl_decisiveSeq :: "int option"
  sl_attestations :: "(int \<times> string) list"
  sl_challengeEvidenceHash :: "string option"
  sl_challengeVerdicts :: "bool list"
  sl_bondReturned :: bool
  sl_epochActions :: "(int, nat) js_map"
  sl_epochCursor :: "(int, nat) js_map"
  sl_closedEpoch :: "int option"

datatype chain_call =
    MarkRoomEpochsSafe int "string list" "int list"
  | SuspendRoom int
  | ReopenRoom int
  | CloseSlots int "string list"
  | CloseRoom int
  | CloseRemainingSlots "string list"
  | ProcessRoom "string list" "int list" nat
  | PublishSlot int string
  | AttestResult string int string
  | AttestChallengeVerdict string bool
  | FinalizeUnchallenged string
  | ExpireChallenge string
  | InvalidateUnresolved string

record published_slot =
  ps_market :: string
  ps_slotIndex :: int
  ps_request :: slot_request
  ps_permit :: permit
  ps_restricted :: "string list"

record fake_chain =
  fc_lastObserved :: int
  fc_roomClosed :: int
  fc_slots :: "slot list"
  fc_calls :: "chain_call list"
  fc_skips :: "(string \<times> int) list"
  fc_usedNonces :: "int list"
  fc_published :: "published_slot list"
  fc_currentEpoch :: "int option"
  fc_failures :: "(string, string) js_map"

datatype chain_error =
    UnknownMarket string
  | RoomIsClosed
  | SequenceRegression
  | RoomNotClosed
  | PermitReplayed
  | InvalidState
  | TooEarly
  | WriteFailed string

type_synonym 'a chain_result = "chain_error + 'a"

definition new_chain :: fake_chain where
  "new_chain = \<lparr> fc_lastObserved = 0, fc_roomClosed = 0, fc_slots = [], fc_calls = [], fc_skips = [],
     fc_usedNonces = [], fc_published = [], fc_currentEpoch = None, fc_failures = [] \<rparr>"

definition new_slot :: "string \<Rightarrow> int \<Rightarrow> string \<Rightarrow> slot" where
  "new_slot market slotIndex hash =
     \<lparr> sl_market = market, sl_slotIndex = slotIndex, sl_conditionHash = hash, sl_closed = False,
       sl_suspended = False, sl_lastSafeSeq = 0, sl_safeEpochs = [], sl_processedEpochs = [],
       sl_provisionalOutcome = 0, sl_provisionalAt = 0, sl_challenged = False, sl_challengedAt = 0,
       sl_challengeWindow = 600, sl_challengeTimeout = 1800, sl_finalOutcome = 0, sl_resolutionDueAt = None,
       sl_decisiveSeq = None, sl_attestations = [], sl_challengeEvidenceHash = None, sl_challengeVerdicts = [],
       sl_bondReturned = False, sl_epochActions = [], sl_epochCursor = [], sl_closedEpoch = None \<rparr>"

definition addSlot :: "string \<Rightarrow> int \<Rightarrow> string \<Rightarrow> fake_chain \<Rightarrow> fake_chain" where
  "addSlot market slotIndex hash c = c\<lparr>fc_slots := fc_slots c @ [new_slot market slotIndex hash]\<rparr>"

definition slot_of :: "fake_chain \<Rightarrow> string \<Rightarrow> slot chain_result" where
  "slot_of c market =
     (case List.find (\<lambda>s. sl_market s = market) (fc_slots c) of
        None \<Rightarrow> Inl (UnknownMarket market) | Some s \<Rightarrow> Inr s)"

text \<open>A write to the fields of the slot \<open>slot_of\<close> finds.\<close>

fun update_first :: "(slot \<Rightarrow> bool) \<Rightarrow> (slot \<Rightarrow> slot) \<Rightarrow> slot list \<Rightarrow> slot list" where
  "update_first p f [] = []"
| "update_first p f (s # ss) = (if p s then f s # ss else s # update_first p f ss)"

definition update_slot :: "string \<Rightarrow> (slot \<Rightarrow> slot) \<Rightarrow> fake_chain \<Rightarrow> fake_chain" where
  "update_slot market f c = c\<lparr>fc_slots := update_first (\<lambda>s. sl_market s = market) f (fc_slots c)\<rparr>"

definition called :: "chain_call \<Rightarrow> fake_chain \<Rightarrow> fake_chain" where
  "called x c = c\<lparr>fc_calls := fc_calls c @ [x]\<rparr>"

definition advance :: "int \<Rightarrow> fake_chain \<Rightarrow> fake_chain chain_result" where
  "advance seq c =
     (if fc_roomClosed c \<noteq> 0 then Inl RoomIsClosed
      else if seq < fc_lastObserved c then Inl SequenceRegression
      else Inr (c\<lparr>fc_lastObserved := seq\<rparr>))"

subsection \<open>Reads\<close>

record slot_ref =
  sr_market :: string
  sr_slotIndex :: int
  sr_conditionHash :: "string option"

datatype gate_state = Open | Suspended | Closed

definition ref_of :: "slot \<Rightarrow> slot_ref" where
  "ref_of s = \<lparr> sr_market = sl_market s, sr_slotIndex = sl_slotIndex s, sr_conditionHash = Some (sl_conditionHash s) \<rparr>"

definition openSlots :: "fake_chain \<Rightarrow> slot_ref list" where
  "openSlots c = map ref_of (filter (\<lambda>s. \<not> sl_closed s) (fc_slots c))"

definition isEpochSafe :: "fake_chain \<Rightarrow> string \<Rightarrow> int \<Rightarrow> bool chain_result" where
  "isEpochSafe c market epoch = bind_res (slot_of c market) (\<lambda>s. Inr (epoch \<in> set (sl_safeEpochs s)))"

definition gateStateOf :: "fake_chain \<Rightarrow> string \<Rightarrow> gate_state chain_result" where
  "gateStateOf c market = bind_res (slot_of c market) (\<lambda>s.
     Inr (if sl_closed s then Closed else if sl_suspended s then Suspended else Open))"

definition closedSlots :: "fake_chain \<Rightarrow> slot_ref list" where
  "closedSlots c = map ref_of (filter (\<lambda>s. sl_closed s \<and> sl_finalOutcome s = 0) (fc_slots c))"

definition refundWindowOf :: "fake_chain \<Rightarrow> string \<Rightarrow> (int \<times> int) chain_result" where
  "refundWindowOf c market = bind_res (slot_of c market) (\<lambda>s.
     Inr (case sl_closedEpoch s of Some e \<Rightarrow> e | None \<Rightarrow> 0,
          case fc_currentEpoch c of Some e \<Rightarrow> e | None \<Rightarrow> (case sl_closedEpoch s of Some e \<Rightarrow> e | None \<Rightarrow> 0)))"

definition count_at :: "(int, nat) js_map \<Rightarrow> int \<Rightarrow> nat" where
  "count_at m epoch = (case js_get m epoch of Some n \<Rightarrow> n | None \<Rightarrow> 0)"

definition unprocessedActions :: "fake_chain \<Rightarrow> string \<Rightarrow> int \<Rightarrow> bool chain_result" where
  "unprocessedActions c market epoch = bind_res (slot_of c market) (\<lambda>s.
     Inr (count_at (sl_epochCursor s) epoch < count_at (sl_epochActions s) epoch))"

definition usedNonce :: "fake_chain \<Rightarrow> int \<Rightarrow> bool" where
  "usedNonce c n \<longleftrightarrow> n \<in> set (fc_usedNonces c)"

definition slotCount :: "fake_chain \<Rightarrow> int" where
  "slotCount c = int (length (fc_slots c))"

definition marketForConditionHash :: "fake_chain \<Rightarrow> string \<Rightarrow> string option" where
  "marketForConditionHash c hash = map_option sl_market (List.find (\<lambda>s. sl_conditionHash s = hash) (fc_slots c))"

definition headlineMarket :: "fake_chain \<Rightarrow> string option" where
  "headlineMarket c = map_option sl_market (List.find (\<lambda>s. sl_slotIndex s = 0) (fc_slots c))"

definition finalOutcomeOf :: "fake_chain \<Rightarrow> string \<Rightarrow> int chain_result" where
  "finalOutcomeOf c market = bind_res (slot_of c market) (\<lambda>s. Inr (sl_finalOutcome s))"

definition MAX_SAFE_INTEGER :: int where
  "MAX_SAFE_INTEGER = 2 ^ 53 - 1"

definition resolutionDueAtOf :: "fake_chain \<Rightarrow> string \<Rightarrow> int chain_result" where
  "resolutionDueAtOf c market = bind_res (slot_of c market) (\<lambda>s.
     Inr (case sl_resolutionDueAt s of Some t \<Rightarrow> t | None \<Rightarrow> MAX_SAFE_INTEGER))"

definition conditionHashOf :: "fake_chain \<Rightarrow> string \<Rightarrow> string chain_result" where
  "conditionHashOf c market = bind_res (slot_of c market) (\<lambda>s. Inr (sl_conditionHash s))"

subsection \<open>Gate writes\<close>

text \<open>One child of \<open>markRoomEpochsSafe\<close>: strictly increasing sequence, no re-mark, no mark after close.\<close>

definition mark_child :: "int \<Rightarrow> string \<times> int \<Rightarrow> fake_chain \<Rightarrow> fake_chain \<times> unit chain_result" where
  "mark_child seq me c =
     (case me of (market, epoch) \<Rightarrow>
       (case slot_of c market of
          Inl err \<Rightarrow> (c, Inl err)
        | Inr s \<Rightarrow>
            if sl_closed s \<or> epoch \<in> set (sl_safeEpochs s) \<or> seq \<le> sl_lastSafeSeq s
            then (c\<lparr>fc_skips := fc_skips c @ [(market, epoch)]\<rparr>, Inr ())
            else (update_slot market (\<lambda>s. s\<lparr>sl_safeEpochs := sl_safeEpochs s @ [epoch], sl_lastSafeSeq := seq\<rparr>) c, Inr ())))"

fun each :: "('x \<Rightarrow> fake_chain \<Rightarrow> fake_chain \<times> unit chain_result) \<Rightarrow> 'x list \<Rightarrow> fake_chain
    \<Rightarrow> fake_chain \<times> unit chain_result" where
  "each f [] c = (c, Inr ())"
| "each f (x # xs) c = (case f x c of (c', Inl err) \<Rightarrow> (c', Inl err) | (c', Inr u) \<Rightarrow> each f xs c')"

definition markRoomEpochsSafe :: "fake_chain \<Rightarrow> int \<Rightarrow> string list \<Rightarrow> int list \<Rightarrow> fake_chain \<times> unit chain_result" where
  "markRoomEpochsSafe c seq markets epochs =
     (case advance seq c of
        Inl err \<Rightarrow> (c, Inl err)
      | Inr c1 \<Rightarrow> each (mark_child seq) (zip markets epochs) (called (MarkRoomEpochsSafe seq markets epochs) c1))"

definition set_suspended :: "bool \<Rightarrow> fake_chain \<Rightarrow> fake_chain" where
  "set_suspended b c = c\<lparr>fc_slots := map (\<lambda>s. if sl_closed s then s else s\<lparr>sl_suspended := b\<rparr>) (fc_slots c)\<rparr>"

definition suspendRoom :: "fake_chain \<Rightarrow> int \<Rightarrow> fake_chain \<times> unit chain_result" where
  "suspendRoom c seq =
     (case advance seq c of Inl err \<Rightarrow> (c, Inl err) | Inr c1 \<Rightarrow> (set_suspended True (called (SuspendRoom seq) c1), Inr ()))"

definition reopenRoom :: "fake_chain \<Rightarrow> int \<Rightarrow> fake_chain \<times> unit chain_result" where
  "reopenRoom c seq =
     (case advance seq c of Inl err \<Rightarrow> (c, Inl err) | Inr c1 \<Rightarrow> (set_suspended False (called (ReopenRoom seq) c1), Inr ()))"

definition closeOne :: "int \<Rightarrow> string \<Rightarrow> fake_chain \<Rightarrow> fake_chain \<times> unit chain_result" where
  "closeOne seq market c =
     (case slot_of c market of
        Inl err \<Rightarrow> (c, Inl err)
      | Inr s \<Rightarrow>
          if sl_closed s \<or> seq \<le> sl_lastSafeSeq s then (c\<lparr>fc_skips := fc_skips c @ [(market, 0)]\<rparr>, Inr ())
          else (update_slot market (\<lambda>s. s\<lparr>sl_closed := True, sl_decisiveSeq := Some seq\<rparr>) c, Inr ()))"

definition closeSlots :: "fake_chain \<Rightarrow> int \<Rightarrow> string list \<Rightarrow> fake_chain \<times> unit chain_result" where
  "closeSlots c seq markets =
     (case advance seq c of
        Inl err \<Rightarrow> (c, Inl err) | Inr c1 \<Rightarrow> each (closeOne seq) markets (called (CloseSlots seq markets) c1))"

definition closeRoom :: "fake_chain \<Rightarrow> int \<Rightarrow> fake_chain \<times> unit chain_result" where
  "closeRoom c seq =
     (case advance seq c of
        Inl err \<Rightarrow> (c, Inl err) | Inr c1 \<Rightarrow> ((called (CloseRoom seq) c1)\<lparr>fc_roomClosed := seq\<rparr>, Inr ()))"

definition closeRemainingSlots :: "fake_chain \<Rightarrow> string list \<Rightarrow> fake_chain \<times> unit chain_result" where
  "closeRemainingSlots c markets =
     (if fc_roomClosed c = 0 then (c, Inl RoomNotClosed)
      else each (closeOne (fc_roomClosed c)) markets (called (CloseRemainingSlots markets) c))"

definition process_child :: "nat \<Rightarrow> string \<times> int \<Rightarrow> fake_chain \<Rightarrow> fake_chain \<times> unit chain_result" where
  "process_child maxActions me c =
     (case me of (market, epoch) \<Rightarrow>
       (case slot_of c market of
          Inl err \<Rightarrow> (c, Inl err)
        | Inr s \<Rightarrow>
            let total = count_at (sl_epochActions s) epoch;
                cursor = count_at (sl_epochCursor s) epoch
            in (update_slot market (\<lambda>s. s\<lparr>sl_processedEpochs := sl_processedEpochs s @ [epoch],
                  sl_epochCursor := (if total = 0 then sl_epochCursor s
                                     else js_set epoch (min total (cursor + maxActions)) (sl_epochCursor s))\<rparr>) c, Inr ())))"

definition processRoom :: "fake_chain \<Rightarrow> string list \<Rightarrow> int list \<Rightarrow> nat \<Rightarrow> fake_chain \<times> unit chain_result" where
  "processRoom c markets epochs maxActions =
     each (process_child maxActions) (zip markets epochs) (called (ProcessRoom markets epochs maxActions) c)"

definition submitAction :: "fake_chain \<Rightarrow> string \<Rightarrow> int \<Rightarrow> fake_chain chain_result" where
  "submitAction c market epoch = bind_res (slot_of c market) (\<lambda>s.
     Inr (update_slot market (\<lambda>s. s\<lparr>sl_epochActions := js_set epoch (count_at (sl_epochActions s) epoch + 1) (sl_epochActions s),
       sl_epochCursor := (if js_has (sl_epochCursor s) epoch then sl_epochCursor s else js_set epoch 0 (sl_epochCursor s))\<rparr>) c))"

subsection \<open>Publication\<close>

fun hex_string :: "nat \<Rightarrow> string" where
  "hex_string n = (if n < 16 then [hex_char n] else hex_string (n div 16) @ [hex_char (n mod 16)])"

declare hex_string.simps [simp del]

definition market_address :: "nat \<Rightarrow> string" where
  "market_address slotIndex = ''0x'' @ pad_start 40 (hex_string (slotIndex + 1))"

definition publishSlot :: "fake_chain \<Rightarrow> slot_request \<Rightarrow> permit \<Rightarrow> string list \<Rightarrow> fake_chain \<times> string chain_result" where
  "publishSlot c request p restricted =
     (if fc_roomClosed c \<noteq> 0 then (c, Inl RoomIsClosed)
      else if pm_nonce p \<in> set (fc_usedNonces c) then (c, Inl PermitReplayed)
      else
        let slotIndex = length (fc_slots c);
            market = market_address slotIndex;
            c1 = c\<lparr>fc_usedNonces := pm_nonce p # fc_usedNonces c, fc_lastObserved := pm_undecidedThroughSequence p\<rparr>;
            c2 = addSlot market (int slotIndex)
                   (case rq_conditionHash request of Some h \<Rightarrow> h | None \<Rightarrow> pm_conditionHash p) c1
        in (called (PublishSlot (int slotIndex) market)
              (c2\<lparr>fc_published := fc_published c2 @ [\<lparr> ps_market = market, ps_slotIndex = int slotIndex, ps_request = request,
                 ps_permit = p, ps_restricted = restricted \<rparr>]\<rparr>), Inr market))"

subsection \<open>Resolution and settlement\<close>

definition attestResult :: "fake_chain \<Rightarrow> string \<Rightarrow> int \<Rightarrow> string \<Rightarrow> fake_chain chain_result" where
  "attestResult c market outcomeEnum evidenceHash = bind_res (slot_of c market) (\<lambda>s.
     if \<not> sl_closed s then Inl InvalidState
     else Inr (called (AttestResult market outcomeEnum evidenceHash)
       (update_slot market (\<lambda>s. s\<lparr>sl_attestations := sl_attestations s @ [(outcomeEnum, evidenceHash)]\<rparr>) c)))"

definition challenge :: "fake_chain \<Rightarrow> string \<Rightarrow> string \<Rightarrow> int \<Rightarrow> fake_chain chain_result" where
  "challenge c market evidenceHash provisionalOutcome = bind_res (slot_of c market) (\<lambda>s.
     Inr (update_slot market (\<lambda>s. s\<lparr>sl_challenged := True, sl_challengeEvidenceHash := Some evidenceHash,
       sl_provisionalOutcome := provisionalOutcome\<rparr>) c))"

record challenge_state =
  ch_challenged :: bool
  ch_evidenceHash :: "string option"
  ch_provisionalOutcome :: int
  ch_finalOutcome :: int

definition challengeStateOf :: "fake_chain \<Rightarrow> string \<Rightarrow> challenge_state chain_result" where
  "challengeStateOf c market = bind_res (slot_of c market) (\<lambda>s.
     Inr \<lparr> ch_challenged = sl_challenged s, ch_evidenceHash = sl_challengeEvidenceHash s,
           ch_provisionalOutcome = sl_provisionalOutcome s, ch_finalOutcome = sl_finalOutcome s \<rparr>)"

definition attestChallengeVerdict :: "fake_chain \<Rightarrow> string \<Rightarrow> bool \<Rightarrow> fake_chain chain_result" where
  "attestChallengeVerdict c market accept = bind_res (slot_of c market) (\<lambda>s.
     if \<not> sl_challenged s then Inl InvalidState
     else Inr (called (AttestChallengeVerdict market accept)
       (update_slot market (\<lambda>s. s\<lparr>sl_challengeVerdicts := sl_challengeVerdicts s @ [accept]\<rparr>) c)))"

record settlement_state =
  st_gateState :: gate_state
  st_provisionalOutcome :: int
  st_finalOutcome :: int
  st_challenged :: bool
  st_provisionalAt :: int
  st_challengedAt :: int
  st_challengeWindow :: int
  st_challengeTimeout :: int
  st_resolutionDueAt :: int

definition settlement_of :: "slot \<Rightarrow> settlement_state" where
  "settlement_of s =
     \<lparr> st_gateState = (if sl_closed s then Closed else if sl_suspended s then Suspended else Open),
       st_provisionalOutcome = sl_provisionalOutcome s, st_finalOutcome = sl_finalOutcome s,
       st_challenged = sl_challenged s, st_provisionalAt = sl_provisionalAt s, st_challengedAt = sl_challengedAt s,
       st_challengeWindow = sl_challengeWindow s, st_challengeTimeout = sl_challengeTimeout s,
       st_resolutionDueAt = (case sl_resolutionDueAt s of Some t \<Rightarrow> t | None \<Rightarrow> 0) \<rparr>"

definition settlementStateOf :: "fake_chain \<Rightarrow> string \<Rightarrow> settlement_state chain_result" where
  "settlementStateOf c market = bind_res (slot_of c market) (\<lambda>s. Inr (settlement_of s))"

text \<open>\<open>_maybeFail\<close>: an armed failure fires once.\<close>

definition maybeFail :: "string \<Rightarrow> fake_chain \<Rightarrow> fake_chain \<times> unit chain_result" where
  "maybeFail market c =
     (case truthy_text (js_get (fc_failures c) market) of
        None \<Rightarrow> (c, Inr ())
      | Some message \<Rightarrow> (c\<lparr>fc_failures := js_delete market (fc_failures c)\<rparr>, Inl (WriteFailed message)))"

definition guarded_write :: "string \<Rightarrow> (slot \<Rightarrow> bool) \<Rightarrow> (slot \<Rightarrow> slot) \<Rightarrow> chain_call \<Rightarrow> fake_chain
    \<Rightarrow> fake_chain \<times> unit chain_result" where
  "guarded_write market refused f x c =
     (case slot_of c market of
        Inl err \<Rightarrow> (c, Inl err)
      | Inr s \<Rightarrow>
          (case maybeFail market c of
             (c1, Inl err) \<Rightarrow> (c1, Inl err)
           | (c1, Inr u) \<Rightarrow>
               if refused s then (c1, Inl TooEarly) else (called x (update_slot market f c1), Inr ())))"

definition finalizeUnchallenged :: "fake_chain \<Rightarrow> string \<Rightarrow> int \<Rightarrow> fake_chain \<times> unit chain_result" where
  "finalizeUnchallenged c market nowS =
     guarded_write market
       (\<lambda>s. sl_provisionalOutcome s = 0 \<or> sl_finalOutcome s \<noteq> 0 \<or> sl_challenged s
          \<or> nowS < sl_provisionalAt s + sl_challengeWindow s)
       (\<lambda>s. s\<lparr>sl_finalOutcome := sl_provisionalOutcome s\<rparr>) (FinalizeUnchallenged market) c"

definition expireChallenge :: "fake_chain \<Rightarrow> string \<Rightarrow> int \<Rightarrow> fake_chain \<times> unit chain_result" where
  "expireChallenge c market nowS =
     guarded_write market
       (\<lambda>s. \<not> sl_challenged s \<or> sl_finalOutcome s \<noteq> 0 \<or> nowS < sl_challengedAt s + sl_challengeTimeout s)
       (\<lambda>s. s\<lparr>sl_finalOutcome := 4, sl_bondReturned := True\<rparr>) (ExpireChallenge market) c"

definition invalidateUnresolved :: "fake_chain \<Rightarrow> string \<Rightarrow> int \<Rightarrow> fake_chain \<times> unit chain_result" where
  "invalidateUnresolved c market nowS =
     guarded_write market
       (\<lambda>s. \<not> sl_closed s \<or> sl_finalOutcome s \<noteq> 0 \<or> sl_provisionalOutcome s \<noteq> 0
          \<or> nowS < (case sl_resolutionDueAt s of Some t \<Rightarrow> t | None \<Rightarrow> MAX_SAFE_INTEGER))
       (\<lambda>s. s\<lparr>sl_finalOutcome := 4\<rparr>) (InvalidateUnresolved market) c"

subsection \<open>Reading back a write\<close>

lemma find_update_first:
  assumes "\<And>s. sl_market (f s) = sl_market s"
  shows "List.find (\<lambda>s. sl_market s = m') (update_first (\<lambda>s. sl_market s = m) f ss)
    = map_option (\<lambda>s. if m' = m then f s else s) (List.find (\<lambda>s. sl_market s = m') ss)"
  by (induction ss) (auto simp: assms option.map_ident)

lemma slot_of_update [port_simps]:
  assumes "\<And>s. sl_market (f s) = sl_market s"
  shows "slot_of (update_slot m f c) m' = map_sum id (\<lambda>s. if m' = m then f s else s) (slot_of c m')"
  by (simp add: slot_of_def update_slot_def find_update_first [OF assms] split: option.splits)

lemma slot_of_other [port_simps]:
  "slot_of (called x c) m = slot_of c m"
  "slot_of (c\<lparr>fc_skips := sk\<rparr>) m = slot_of c m"
  "slot_of (c\<lparr>fc_lastObserved := n\<rparr>) m = slot_of c m"
  "slot_of (c\<lparr>fc_roomClosed := n\<rparr>) m = slot_of c m"
  "slot_of (c\<lparr>fc_failures := fl\<rparr>) m = slot_of c m"
  by (simp_all add: slot_of_def called_def)

lemma slot_of_market: "slot_of c m = Inr s \<Longrightarrow> sl_market s = m \<and> s \<in> set (fc_slots c)"
  by (auto simp: slot_of_def find_Some_iff split: option.splits)

lemma slot_of_known: "m \<in> sl_market ` set (fc_slots c) \<longleftrightarrow> (\<exists>s. slot_of c m = Inr s)"
proof
  assume "m \<in> sl_market ` set (fc_slots c)"
  then have "List.find (\<lambda>s. sl_market s = m) (fc_slots c) \<noteq> None" by (auto simp: find_None_iff)
  then show "\<exists>s. slot_of c m = Inr s" by (auto simp: slot_of_def)
next
  assume "\<exists>s. slot_of c m = Inr s"
  then show "m \<in> sl_market ` set (fc_slots c)" using slot_of_market by fastforce
qed

lemma set_update_first:
  assumes "distinct (map sl_market ss)" "s \<in> set ss" "sl_market s = m"
  shows "set (update_first (\<lambda>s. sl_market s = m) f ss) = insert (f s) (set ss - {s})"
  using assms
proof (induction ss)
  case (Cons x xs)
  show ?case
  proof (cases "sl_market x = m")
    case True
    with Cons.prems have "s = x" "x \<notin> set xs" by (auto simp: rev_image_eqI)
    with True show ?thesis by auto
  next
    case False
    with Cons.prems have "s \<in> set xs" "x \<noteq> s" by auto
    with False Cons show ?thesis by auto
  qed
qed simp

lemma map_update_first:
  assumes "\<And>s. g (f s) = g s"
  shows "map g (update_first p f ss) = map g ss"
  by (induction ss) (auto simp: assms)

lemma slot_of_unique:
  assumes "distinct (map sl_market (fc_slots c))" "s \<in> set (fc_slots c)"
  shows "slot_of c (sl_market s) = Inr s"
proof -
  have "List.find (\<lambda>x. sl_market x = sl_market s) ss = Some s" if "distinct (map sl_market ss)" "s \<in> set ss" for ss
    using that by (induction ss) (auto simp: rev_image_eqI)
  with assms show ?thesis by (simp add: slot_of_def)
qed

end
