(* ===== verification/Catalog.thy ===== *)
theory Catalog
  imports RoomChain
begin

section \<open>The approved catalogue and the slot request hash\<close>

text \<open>
  \<open>firstTemplateCatalog\<close> and the question text of publisher/publisher.mjs, and the canonical
  slot-request hash of domain/slotrequest.mjs. A thrown message is a \<open>catalog_error\<close>.
\<close>

datatype catalog_error =
    UnknownTemplateId string
  | Required string
  | NotSettleable string string
  | NotInRoom string
  | QuestionRequired
  | QuestionMismatch string string

record rule =
  ru_shape :: string
  ru_winnerRewardBps :: int
  ru_renderQuestion :: "json \<Rightarrow> catalog_error + string"
  ru_buildCondition :: "json \<Rightarrow> catalog_error + condition"

type_synonym catalog = "(string, rule) js_map"

subsection \<open>Prose\<close>

definition METRIC_PROSE :: "string \<Rightarrow> string" where
  "METRIC_PROSE metric =
     (if metric = ''realized_pnl_usd'' then ''realized P&L''
      else if metric = ''return_pct'' then ''return'' else ''undefined'')"

definition OPERATOR_PROSE :: "string \<Rightarrow> string" where
  "OPERATOR_PROSE operator =
     (if operator = ''>='' then ''at least'' else if operator = ''>'' then ''more than''
      else if operator = ''<='' then ''at most'' else if operator = ''<'' then ''less than'' else ''undefined'')"

definition is_word :: "char \<Rightarrow> bool" where
  "is_word c \<longleftrightarrow> is_digit c \<or> c = CHR ''_''
     \<or> (65 \<le> (of_char c :: nat) \<and> (of_char c :: nat) \<le> 90) \<or> (97 \<le> (of_char c :: nat) \<and> (of_char c :: nat) \<le> 122)"

text \<open>
  The expression \<open>/\B(?=(\d{3})+(?!\d))/g\<close>: a comma goes between a word character and a run of
  digits whose length is a positive multiple of three.
\<close>

fun group_digits :: "bool \<Rightarrow> string \<Rightarrow> string" where
  "group_digits after_word [] = []"
| "group_digits after_word (c # cs) =
     (let run = length (takeWhile is_digit (c # cs)) in
      (if after_word \<and> 0 < run \<and> run mod 3 = 0 then '','' else []) @ c # group_digits (is_word c) cs)"

definition groupThousands :: "string \<Rightarrow> string" where
  "groupThousands text =
     (let whole = takeWhile (\<lambda>c. c \<noteq> CHR ''.'') text;
          fraction = takeWhile (\<lambda>c. c \<noteq> CHR ''.'') (drop (length whole + 1) text);
          grouped = group_digits False whole
      in if fraction \<noteq> [] then grouped @ ''.'' @ fraction else grouped)"

definition valueProse :: "string \<Rightarrow> json \<Rightarrow> string" where
  "valueProse metric value =
     (let text = (if nullish value then [] else json_text value) in
      if metric = ''return_pct'' then groupThousands text @ ''%'' else ''$'' @ groupThousands text)"

subsection \<open>Checking a question against its rule\<close>

definition is_space :: "char \<Rightarrow> bool" where
  "is_space c \<longleftrightarrow> (of_char c :: nat) \<in> {9, 10, 11, 12, 13, 32, 160}"

definition trim :: "string \<Rightarrow> string" where
  "trim s = rev (dropWhile is_space (rev (dropWhile is_space s)))"

text \<open>\<open>replace(/\s+/g, " ")\<close>\<close>

fun collapse :: "string \<Rightarrow> string" where
  "collapse [] = []"
| "collapse [c] = [if is_space c then CHR '' '' else c]"
| "collapse (c # d # cs) =
     (if is_space c then (if is_space d then collapse (d # cs) else CHR '' '' # collapse (d # cs))
      else c # collapse (d # cs))"

definition normalizeQuestion :: "string \<Rightarrow> string" where
  "normalizeQuestion text = to_lower (collapse (trim text))"

definition renderQuestion :: "catalog \<Rightarrow> string \<Rightarrow> json \<Rightarrow> catalog_error + string" where
  "renderQuestion catalog templateId params =
     (case js_get catalog templateId of
        None \<Rightarrow> Inl (UnknownTemplateId templateId) | Some entry \<Rightarrow> ru_renderQuestion entry params)"

definition assertQuestionMatches :: "catalog \<Rightarrow> string \<Rightarrow> json \<Rightarrow> string option \<Rightarrow> catalog_error + string" where
  "assertQuestionMatches catalog templateId params question =
     (let text = trim (case question of Some q \<Rightarrow> q | None \<Rightarrow> []) in
      if text = [] then Inl QuestionRequired
      else bind_res (renderQuestion catalog templateId params) (\<lambda>expected.
        if normalizeQuestion text \<noteq> normalizeQuestion expected then Inl (QuestionMismatch text expected)
        else Inr expected))"

subsection \<open>The catalogue\<close>

definition KNOWN_METRICS :: "json list" where
  "KNOWN_METRICS = [JStr ''realized_pnl_usd'', JStr ''return_pct'']"

definition KNOWN_OPERATORS :: "json list" where
  "KNOWN_OPERATORS = [JStr ''>='', JStr ''>'', JStr ''<='', JStr ''<'']"

definition oneOf :: "json \<Rightarrow> json list \<Rightarrow> string \<Rightarrow> catalog_error + json" where
  "oneOf value allowed label = (if value \<in> set allowed then Inr value else Inl (NotSettleable label (json_text value)))"

fun required :: "json \<Rightarrow> string list \<Rightarrow> catalog_error + unit" where
  "required params [] = Inr ()"
| "required params (k # ks) = (if falsy (json_get params k) then Inl (Required k) else required params ks)"

definition participantIn :: "string list option \<Rightarrow> json \<Rightarrow> catalog_error + json" where
  "participantIn roster value =
     (case roster of
        None \<Rightarrow> Inr value
      | Some keys \<Rightarrow> if to_lower (json_text value) \<in> set keys then Inr value else Inl (NotInRoom (json_text value)))"

definition document :: "string \<Rightarrow> (string \<times> json) list \<Rightarrow> condition" where
  "document template params =
     JObj [(''condition_version'', JStr ''1.0.0''), (''template'', JStr template), (''params'', JObj params)]"

definition participant_rule :: rule where
  "participant_rule = \<lparr> ru_shape = ''participant'', ru_winnerRewardBps = 100,
     ru_renderQuestion = (\<lambda>params. bind_res (required params [''target'']) (\<lambda>_.
       Inr (''Who is first to reach '' @ valueProse ''realized_pnl_usd'' (json_get params ''target'') @ '' in realized P&L?''))),
     ru_buildCondition = (\<lambda>params. bind_res (required params [''target'']) (\<lambda>_.
       Inr (document ''first_to_realized_pnl'' [(''target'', json_get params ''target'')]))) \<rparr>"

definition threshold_rule :: "string list option \<Rightarrow> rule" where
  "threshold_rule roster = \<lparr> ru_shape = ''threshold'', ru_winnerRewardBps = 0,
     ru_renderQuestion = (\<lambda>params.
       bind_res (required params [''participant'', ''metric'', ''operator'', ''value'']) (\<lambda>_.
       bind_res (oneOf (json_get params ''metric'') KNOWN_METRICS ''metric'') (\<lambda>metric.
       bind_res (oneOf (json_get params ''operator'') KNOWN_OPERATORS ''operator'') (\<lambda>operator.
         Inr (''Will '' @ json_text (json_get params ''participant'') @ '' finish with ''
           @ OPERATOR_PROSE (json_text operator) @ '' '' @ valueProse (json_text metric) (json_get params ''value'')
           @ '' '' @ METRIC_PROSE (json_text metric) @ ''?''))))),
     ru_buildCondition = (\<lambda>params.
       bind_res (required params [''participant'', ''metric'', ''operator'', ''value'']) (\<lambda>_.
       bind_res (participantIn roster (json_get params ''participant'')) (\<lambda>participant.
       bind_res (oneOf (json_get params ''metric'') KNOWN_METRICS ''metric'') (\<lambda>metric.
       bind_res (oneOf (json_get params ''operator'') KNOWN_OPERATORS ''operator'') (\<lambda>operator.
         Inr (document ''participant_metric_threshold''
           [(''participant'', participant), (''metric'', metric), (''operator'', operator),
            (''value'', json_get params ''value'')])))))) \<rparr>"

definition race_rule :: rule where
  "race_rule = \<lparr> ru_shape = ''race'', ru_winnerRewardBps = 100,
     ru_renderQuestion = (\<lambda>params.
       bind_res (required params [''metric'', ''operator'', ''value'']) (\<lambda>_.
       bind_res (oneOf (json_get params ''metric'') KNOWN_METRICS ''metric'') (\<lambda>metric.
       bind_res (oneOf (json_get params ''operator'') KNOWN_OPERATORS ''operator'') (\<lambda>operator.
         Inr (''Who is first to reach '' @ OPERATOR_PROSE (json_text operator) @ '' ''
           @ valueProse (json_text metric) (json_get params ''value'') @ '' '' @ METRIC_PROSE (json_text metric) @ ''?''))))),
     ru_buildCondition = (\<lambda>params.
       bind_res (required params [''metric'', ''operator'', ''value'']) (\<lambda>_.
       bind_res (oneOf (json_get params ''metric'') KNOWN_METRICS ''metric'') (\<lambda>metric.
       bind_res (oneOf (json_get params ''operator'') KNOWN_OPERATORS ''operator'') (\<lambda>operator.
         Inr (document ''first_to_metric''
           [(''metric'', metric), (''operator'', operator), (''value'', json_get params ''value'')]))))) \<rparr>"

definition firstTemplateCatalog :: "string list option \<Rightarrow> catalog" where
  "firstTemplateCatalog participants =
     (let roster = (case participants of Some (k # ks) \<Rightarrow> Some (map to_lower (k # ks)) | _ \<Rightarrow> None)
      in [(''tpl-participant-v1'', participant_rule), (''tpl-threshold-v1'', threshold_rule roster),
          (''tpl-race-v1'', race_rule)])"

subsection \<open>Every catalogue entry builds a rule the evaluator settles\<close>

lemma document_fields [simp]:
  "template_of (document t ps) = JStr t"
  "param_of (document t ps) k = (case map_of ps k of None \<Rightarrow> JUndefined | Some v \<Rightarrow> v)"
  by (simp_all add: document_def template_of_def param_of_def json_get_def)

lemma document_wf:
  "is_decimal (json_text target) \<Longrightarrow> wf_condition (document ''first_to_realized_pnl'' [(''target'', target)])"
  "metric \<in> set KNOWN_METRICS \<Longrightarrow> operator \<in> set KNOWN_OPERATORS \<Longrightarrow> is_decimal (json_text v) \<Longrightarrow>
    wf_condition (document ''participant_metric_threshold''
      [(''participant'', p), (''metric'', metric), (''operator'', operator), (''value'', v)])"
  "metric \<in> set KNOWN_METRICS \<Longrightarrow> operator \<in> set KNOWN_OPERATORS \<Longrightarrow> is_decimal (json_text v) \<Longrightarrow>
    wf_condition (document ''first_to_metric'' [(''metric'', metric), (''operator'', operator), (''value'', v)])"
  by (auto simp: wf_condition_def is_headline_def is_threshold_def rule_metric_def rule_operator_def rule_value_def
      PNL_def RETURN_def KNOWN_METRICS_def KNOWN_OPERATORS_def)

definition threshold_value :: "json \<Rightarrow> json" where
  "threshold_value params =
     (if falsy (json_get params ''target'') then json_get params ''value'' else json_get params ''target'')"

lemma oneOf_Inr [result_simps]: "oneOf v allowed l = Inr w \<longleftrightarrow> w = v \<and> v \<in> set allowed"
  by (auto simp: oneOf_def)

lemma participantIn_Inr: "participantIn roster v = Inr w \<Longrightarrow> w = v"
  by (auto simp: participantIn_def split: option.splits if_splits)


subsection \<open>The canonical slot request (domain/slotrequest.mjs)\<close>

text \<open>
  The ABI encoder, the packed encoder of an address list and the two forms of \<open>keccak256\<close> are
  viem's: parameters.
\<close>

record abi =
  ab_encode :: "string list \<Rightarrow> int list \<Rightarrow> string"
    \<comment> \<open>the seven \<open>bytes32\<close> words and the two integers of the request, in place\<close>
  ab_packed :: "string list \<Rightarrow> string"
  ab_keccak :: "string \<Rightarrow> string"
  ab_keccakText :: "string \<Rightarrow> string"

datatype request_error = TooLong string

fun hex_of :: "string \<Rightarrow> string" where
  "hex_of [] = []"
| "hex_of (c # cs) = hex_char (of_char c div 16) # hex_char (of_char c mod 16) # hex_of cs"

definition toBytes32 :: "string \<Rightarrow> request_error + string" where
  "toBytes32 value =
     (if take 2 value = ''0x'' \<and> length value = 66 then Inr value
      else let hex = hex_of value in
        if 64 < length hex then Inl (TooLong value)
        else Inr (''0x'' @ hex @ replicate (64 - length hex) (CHR ''0'')))"

definition text_of_opt :: "string option \<Rightarrow> string" where
  "text_of_opt x = (case x of Some t \<Rightarrow> t | None \<Rightarrow> [])"

definition slotRequestHash :: "abi \<Rightarrow> slot_request \<Rightarrow> string \<Rightarrow> string \<Rightarrow> string list \<Rightarrow> request_error + string" where
  "slotRequestHash abi request paramsHash condHash restricted =
     bind_res (toBytes32 (rq_templateId request)) (\<lambda>tid.
       Inr (ab_keccak abi (ab_encode abi
         [tid, paramsHash, condHash,
          ab_keccakText abi (text_of_opt (rq_question request)),
          ab_keccakText abi (text_of_opt (rq_streamUrl request)),
          ab_keccakText abi (text_of_opt (rq_imageUrl request)),
          (if restricted = [] then ab_keccak abi ''0x'' else ab_keccak abi (ab_packed abi restricted))]
         [rq_announceDelay request, rq_winnerRewardBps request])))"

text \<open>
  The encoders are injective and the hash does not collide on what is hashed: then the hash
  binds everything the publisher supplies.
\<close>

definition binding_abi :: "abi \<Rightarrow> bool" where
  "binding_abi abi \<longleftrightarrow>
     (\<forall>ws ws' ns ns'. length ws = length ws' \<longrightarrow> length ns = length ns' \<longrightarrow>
        ab_encode abi ws ns = ab_encode abi ws' ns' \<longrightarrow> ws = ws' \<and> ns = ns')
     \<and> inj (ab_packed abi) \<and> (\<forall>rs. rs \<noteq> [] \<longrightarrow> ab_packed abi rs \<noteq> ''0x'')
     \<and> inj (ab_keccak abi) \<and> inj (ab_keccakText abi)"

text \<open>C34: a permit's request hash binds everything the publisher supplied. Two requests with the same
  hash agree on the template, the parameters, the condition, the access list, the delay, the
  reward and the three texts, given that the ABI encoding and the hash do not collide.\<close>

theorem slotRequestHash_binds:
  assumes "binding_abi abi" "slotRequestHash abi rq ph ch rs = Inr h" "slotRequestHash abi rq' ph' ch' rs' = Inr h"
  shows "toBytes32 (rq_templateId rq) = toBytes32 (rq_templateId rq') \<and> ph = ph' \<and> ch = ch' \<and> rs = rs'
    \<and> rq_announceDelay rq = rq_announceDelay rq' \<and> rq_winnerRewardBps rq = rq_winnerRewardBps rq'
    \<and> text_of_opt (rq_question rq) = text_of_opt (rq_question rq')
    \<and> text_of_opt (rq_streamUrl rq) = text_of_opt (rq_streamUrl rq')
    \<and> text_of_opt (rq_imageUrl rq) = text_of_opt (rq_imageUrl rq')"
proof -
  let ?r = "\<lambda>rs. if rs = [] then ab_keccak abi ''0x'' else ab_keccak abi (ab_packed abi rs)"
  from assms(1) have keccak: "ab_keccak abi a = ab_keccak abi b \<Longrightarrow> a = b"
    and keccakText: "ab_keccakText abi a = ab_keccakText abi b \<Longrightarrow> a = b"
    and encode: "length ws = length ws' \<Longrightarrow> length ns = length ns' \<Longrightarrow> ab_encode abi ws ns = ab_encode abi ws' ns'
        \<Longrightarrow> ws = ws' \<and> ns = ns'"
    and packed: "ab_packed abi us = ab_packed abi vs \<Longrightarrow> us = vs" "us \<noteq> [] \<Longrightarrow> ab_packed abi us \<noteq> ''0x''"
    for a b ws ws' ns ns' us vs
    unfolding binding_abi_def by (blast dest: injD)+
  obtain t where t: "toBytes32 (rq_templateId rq) = Inr t"
    using assms(2) by (cases "toBytes32 (rq_templateId rq)") (simp_all add: slotRequestHash_def)
  obtain t' where t': "toBytes32 (rq_templateId rq') = Inr t'"
    using assms(3) by (cases "toBytes32 (rq_templateId rq')") (simp_all add: slotRequestHash_def)
  let ?ws = "\<lambda>rq t ph ch rs. [t, ph, ch, ab_keccakText abi (text_of_opt (rq_question rq)),
      ab_keccakText abi (text_of_opt (rq_streamUrl rq)), ab_keccakText abi (text_of_opt (rq_imageUrl rq)), ?r rs]"
  let ?ns = "\<lambda>rq. [rq_announceDelay rq, rq_winnerRewardBps rq]"
  have "Inr h = (Inr (ab_keccak abi (ab_encode abi (?ws rq t ph ch rs) (?ns rq))) :: request_error + string)"
    unfolding assms(2) [symmetric] by (simp add: slotRequestHash_def t)
  moreover have "Inr h = (Inr (ab_keccak abi (ab_encode abi (?ws rq' t' ph' ch' rs') (?ns rq'))) :: request_error + string)"
    unfolding assms(3) [symmetric] by (simp add: slotRequestHash_def t')
  ultimately have "ab_keccak abi (ab_encode abi (?ws rq t ph ch rs) (?ns rq))
      = ab_keccak abi (ab_encode abi (?ws rq' t' ph' ch' rs') (?ns rq'))"
    unfolding sum.inject by (rule box_equals [OF refl])
  from encode [OF _ _ keccak [OF this]]
  have eqs: "?ws rq t ph ch rs = ?ws rq' t' ph' ch' rs'" "?ns rq = ?ns rq'" by simp_all
  then have "?r rs = ?r rs'" by simp
  then have "rs = rs'"
    using keccak packed by (cases "rs = []"; cases "rs' = []") (metis, metis, metis, metis)
  with eqs t t' show ?thesis by (auto dest: keccakText)
qed

end
