(* ===== verification/Gate.thy ===== *)
theory Gate
  imports Actions Catalog
begin

section \<open>The Source Gate Authority (gate/authority.mjs)\<close>

text \<open>
  The single-writer loop that evaluates the frozen conditions over the log and drives the room,
  and the signer of publication permits. The room is a port (a record of calls; one the code
  tests for with \<open>typeof\<close> is optional), the log is what the event store answers, and the
  durable key-value store is read and written under the three keys the gate uses. The wall-clock
  stamp of an audit entry is left out.
\<close>

subsection \<open>The room port\<close>

record 'c room_port =
  rp_lastObservedSequence :: "'c \<Rightarrow> int chain_result"
  rp_roomClosedSequence :: "'c \<Rightarrow> int chain_result"
  rp_openSlots :: "'c \<Rightarrow> slot_ref list chain_result"
  rp_gateStateOf :: "('c \<Rightarrow> string \<Rightarrow> gate_state chain_result) option"
  rp_isSuspended :: "('c \<Rightarrow> bool chain_result) option"
  rp_isEpochSafe :: "('c \<Rightarrow> string \<Rightarrow> int \<Rightarrow> bool chain_result) option"
  rp_hasPendingActions :: "('c \<Rightarrow> string \<Rightarrow> int \<Rightarrow> bool chain_result) option"
  rp_closedSlots :: "('c \<Rightarrow> slot_ref list chain_result) option"
  rp_refundWindowOf :: "('c \<Rightarrow> string \<Rightarrow> (int \<times> int) chain_result) option"
  rp_unprocessedActions :: "('c \<Rightarrow> string \<Rightarrow> int \<Rightarrow> bool chain_result) option"
  rp_markRoomEpochsSafe :: "'c \<Rightarrow> int \<Rightarrow> string list \<Rightarrow> int list \<Rightarrow> 'c \<times> unit chain_result"
  rp_suspendRoom :: "'c \<Rightarrow> int \<Rightarrow> 'c \<times> unit chain_result"
  rp_reopenRoom :: "'c \<Rightarrow> int \<Rightarrow> 'c \<times> unit chain_result"
  rp_closeSlots :: "'c \<Rightarrow> int \<Rightarrow> string list \<Rightarrow> 'c \<times> unit chain_result"
  rp_closeRoom :: "'c \<Rightarrow> int \<Rightarrow> 'c \<times> unit chain_result"
  rp_closeRemainingSlots :: "'c \<Rightarrow> string list \<Rightarrow> 'c \<times> unit chain_result"
  rp_processRoom :: "'c \<Rightarrow> string list \<Rightarrow> int list \<Rightarrow> nat \<Rightarrow> 'c \<times> unit chain_result"

definition fake_port :: "fake_chain room_port" where
  "fake_port = \<lparr>
     rp_lastObservedSequence = (\<lambda>c. Inr (fc_lastObserved c)),
     rp_roomClosedSequence = (\<lambda>c. Inr (fc_roomClosed c)),
     rp_openSlots = (\<lambda>c. Inr (openSlots c)),
     rp_gateStateOf = Some gateStateOf,
     rp_isSuspended = None,
     rp_isEpochSafe = Some isEpochSafe,
     rp_hasPendingActions = Some (\<lambda>c market epoch. Inr True),
     rp_closedSlots = Some (\<lambda>c. Inr (closedSlots c)),
     rp_refundWindowOf = Some refundWindowOf,
     rp_unprocessedActions = Some unprocessedActions,
     rp_markRoomEpochsSafe = markRoomEpochsSafe,
     rp_suspendRoom = suspendRoom,
     rp_reopenRoom = reopenRoom,
     rp_closeSlots = closeSlots,
     rp_closeRoom = closeRoom,
     rp_closeRemainingSlots = closeRemainingSlots,
     rp_processRoom = processRoom \<rparr>"

subsection \<open>The gate\<close>

datatype suspend_reason = HeadlineUnevaluable eval_error | StaleSource "int option option"

datatype audit_entry =
    AuditSuspend suspend_reason int
  | AuditReopen int
  | AuditUnevaluable string eval_error int
  | AuditEvaluableAgain string
  | AuditCloseRoom int int bool string
  | AuditCloseRoomGrace int int
  | AuditCloseSlot string int
  | AuditCloseSlots int "string list"
  | AuditMarkSafe int "(string \<times> int) list"
  | AuditEpochSkipped string int int
  | AuditProcessRoom "(string \<times> int) list"
  | AuditRefusedClosed int
  | AuditRefusedSuspended int
  | AuditRefusedStale "int option option" int
  | AuditRefusedCondition decision int string int
  | AuditRefusedQuestion int
  | AuditSigned int string string int int

datatype gate_metric = GateLagMs int nat | MissedClearance nat

record gate_config =
  gc_epochDurationS :: int
  gc_sourceFinalityDelayS :: int
  gc_freshnessThresholdMs :: int
  gc_maxPermitLifetimeS :: int
  gc_participants :: "string list option"
  gc_unevaluableGraceMs :: "int option"
  gc_maxPendingTimeS :: "int option"

record durable =
  du_audit :: "audit_entry list option"
  du_nextNonce :: "int option"
  du_unevaluableSince :: "(string, int) js_map option"

record 'c gate =
  ga_loaded :: bool
  ga_audit :: "audit_entry list"
  ga_nextNonce :: int
  ga_unevaluableSince :: "(string, int) js_map"
  ga_clearedEpochs :: "(string, int list) js_map"
  ga_conditions :: "(string, condition) js_map"
  ga_headlineMarket :: "string option"
  ga_state :: "durable option"
  ga_metrics :: "gate_metric list option"
  ga_chain :: 'c

record 'c gate_env =
  ge_port :: "'c room_port"
  ge_config :: gate_config
  ge_hash :: hash_fun
  ge_abi :: abi
  ge_catalog :: "catalog option"
  ge_sign :: "permit \<Rightarrow> string"
  ge_nowS :: int

datatype gate_error =
    ChainFailed chain_error
  | NoCondition string
  | MissingCall
  | DocumentNotCanonical canon_error
  | NoRequest
  | RequestNotHashable request_error

type_synonym ('c, 'a) gate_action = "('c gate, gate_error, 'a) action"

definition new_gate :: "(string, condition) js_map \<Rightarrow> string option \<Rightarrow> durable option \<Rightarrow> gate_metric list option \<Rightarrow> 'c \<Rightarrow> 'c gate" where
  "new_gate conditions headline state metrics chain =
     \<lparr> ga_loaded = False, ga_audit = [], ga_nextNonce = 1, ga_unevaluableSince = [], ga_clearedEpochs = [],
       ga_conditions = conditions, ga_headlineMarket = headline, ga_state = state, ga_metrics = metrics,
       ga_chain = chain \<rparr>"

text \<open>A read and a write of the chain.\<close>

definition ask :: "('c \<Rightarrow> 'a chain_result) \<Rightarrow> ('c, 'a) gate_action" where
  "ask q = (\<lambda>g. (g, map_sum ChainFailed id (q (ga_chain g))))"

definition ask_opt :: "('c \<Rightarrow> 'a chain_result) option \<Rightarrow> ('c, 'a) gate_action" where
  "ask_opt q = (case q of None \<Rightarrow> raise MissingCall | Some f \<Rightarrow> ask f)"

definition send :: "('c \<Rightarrow> 'c \<times> unit chain_result) \<Rightarrow> ('c, unit) gate_action" where
  "send f = (\<lambda>g. let (c, r) = f (ga_chain g) in (g\<lparr>ga_chain := c\<rparr>, map_sum ChainFailed id r))"

subsection \<open>Durable state\<close>

definition ensure_loaded :: "'c gate \<Rightarrow> 'c gate" where
  "ensure_loaded g =
     (if ga_loaded g then g
      else case ga_state g of
        None \<Rightarrow> g\<lparr>ga_loaded := True, ga_audit := [], ga_nextNonce := 1, ga_unevaluableSince := []\<rparr>
      | Some d \<Rightarrow> g\<lparr>ga_loaded := True,
          ga_audit := (case du_audit d of Some a \<Rightarrow> a | None \<Rightarrow> []),
          ga_nextNonce := (case du_nextNonce d of Some n \<Rightarrow> n | None \<Rightarrow> 1),
          ga_unevaluableSince := (case du_unevaluableSince d of Some u \<Rightarrow> u | None \<Rightarrow> [])\<rparr>)"

definition save :: "(durable \<Rightarrow> durable) \<Rightarrow> 'c gate \<Rightarrow> 'c gate" where
  "save f g = g\<lparr>ga_state := map_option f (ga_state g)\<rparr>"

definition log_entry :: "audit_entry \<Rightarrow> ('c, unit) gate_action" where
  "log_entry x = modify (\<lambda>g. let a = ga_audit g @ [x] in save (\<lambda>d. d\<lparr>du_audit := Some a\<rparr>) (g\<lparr>ga_audit := a\<rparr>))"

definition save_unevaluable :: "'c gate \<Rightarrow> 'c gate" where
  "save_unevaluable g = save (\<lambda>d. d\<lparr>du_unevaluableSince := Some (ga_unevaluableSince g)\<rparr>) g"

definition markUnevaluable :: "string \<Rightarrow> int \<Rightarrow> eval_error \<Rightarrow> ('c, int) gate_action" where
  "markUnevaluable market nowMs reason =
     bind_act (gets (\<lambda>g. js_has (ga_unevaluableSince g) market)) (\<lambda>known.
     bind_act (when_act (\<not> known)
       (bind_act (modify (\<lambda>g. save_unevaluable (g\<lparr>ga_unevaluableSince := js_set market nowMs (ga_unevaluableSince g)\<rparr>)))
         (\<lambda>u. log_entry (AuditUnevaluable market reason nowMs)))) (\<lambda>u.
     gets (\<lambda>g. nowMs - (case js_get (ga_unevaluableSince g) market of Some t \<Rightarrow> t | None \<Rightarrow> nowMs))))"

definition clearUnevaluable :: "string \<Rightarrow> ('c, unit) gate_action" where
  "clearUnevaluable market =
     bind_act (gets (\<lambda>g. js_has (ga_unevaluableSince g) market)) (\<lambda>known.
       when_act known
         (bind_act (modify (\<lambda>g. save_unevaluable (g\<lparr>ga_unevaluableSince := js_delete market (ga_unevaluableSince g)\<rparr>)))
           (\<lambda>u. log_entry (AuditEvaluableAgain market))))"

subsection \<open>Suspension\<close>

definition tipSeq :: "event list \<Rightarrow> int" where
  "tipSeq es = (case last_opt es of Some t \<Rightarrow> ev_seq t | None \<Rightarrow> 0)"

definition isSuspendedOnChain :: "'c room_port \<Rightarrow> ('c, bool) gate_action" where
  "isSuspendedOnChain port =
     (case rp_isSuspended port of
        Some q \<Rightarrow> ask q
      | None \<Rightarrow>
          bind_act (ask (rp_openSlots port)) (\<lambda>open.
          bind_act (find_act (\<lambda>s. bind_act (ask_opt (map_option (\<lambda>q c. q c (sr_market s)) (rp_gateStateOf port)))
            (\<lambda>st. ret (st = Suspended))) open) (\<lambda>found. ret (found \<noteq> None))))"

definition everyOpenSlotSuspended :: "'c room_port \<Rightarrow> ('c, bool) gate_action" where
  "everyOpenSlotSuspended port =
     bind_act (ask (rp_openSlots port)) (\<lambda>open.
       if open = [] then isSuspendedOnChain port
       else case rp_gateStateOf port of
         None \<Rightarrow> isSuspendedOnChain port
       | Some q \<Rightarrow>
           bind_act (find_act (\<lambda>s. bind_act (ask (\<lambda>c. q c (sr_market s))) (\<lambda>st. ret (st \<noteq> Suspended))) open)
             (\<lambda>found. ret (found = None)))"

definition roomSequence :: "'c room_port \<Rightarrow> int \<Rightarrow> ('c, int) gate_action" where
  "roomSequence port candidate =
     bind_act (ask (rp_lastObservedSequence port)) (\<lambda>watermark. ret (if watermark < candidate then candidate else watermark))"

definition closingSequence :: "'c room_port \<Rightarrow> int \<Rightarrow> ('c, int) gate_action" where
  "closingSequence port decisiveSeq =
     bind_act (ask (rp_lastObservedSequence port)) (\<lambda>watermark.
       ret (if watermark < decisiveSeq then decisiveSeq else watermark + 1))"

definition suspend :: "'c room_port \<Rightarrow> event list \<Rightarrow> suspend_reason \<Rightarrow> ('c, bool) gate_action" where
  "suspend port es reason =
     bind_act (everyOpenSlotSuspended port) (\<lambda>already.
       if already then ret False
       else
         bind_act (roomSequence port (tipSeq es)) (\<lambda>seq.
         bind_act (log_entry (AuditSuspend reason seq)) (\<lambda>u.
         bind_act (send (\<lambda>c. rp_suspendRoom port c seq)) (\<lambda>u. ret True))))"

definition reopen :: "'c room_port \<Rightarrow> event list \<Rightarrow> ('c, bool) gate_action" where
  "reopen port es =
     bind_act (isSuspendedOnChain port) (\<lambda>suspended.
       if \<not> suspended then ret False
       else
         bind_act (roomSequence port (tipSeq es)) (\<lambda>seq.
         bind_act (log_entry (AuditReopen seq)) (\<lambda>u.
         bind_act (send (\<lambda>c. rp_reopenRoom port c seq)) (\<lambda>u. ret True))))"

definition conditionFor :: "string \<Rightarrow> ('c, condition) gate_action" where
  "conditionFor market =
     bind_act (gets (\<lambda>g. js_get (ga_conditions g) market)) (\<lambda>c.
       case c of None \<Rightarrow> raise (NoCondition market) | Some doc \<Rightarrow> ret doc)"

subsection \<open>Refunds of closed slots\<close>

definition drain_slot :: "'c room_port \<Rightarrow> slot_ref \<Rightarrow> ('c, (string \<times> int) option) gate_action" where
  "drain_slot port s =
     bind_act (ask_opt (map_option (\<lambda>q c. q c (sr_market s)) (rp_refundWindowOf port))) (\<lambda>(closedEpoch, currentEpoch).
     bind_act (find_act (\<lambda>epoch. ask_opt (map_option (\<lambda>q c. q c (sr_market s) epoch) (rp_unprocessedActions port)))
       [closedEpoch..currentEpoch]) (\<lambda>found.
     ret (map_option (\<lambda>epoch. (sr_market s, epoch)) found)))"

definition some_of :: "'a option list \<Rightarrow> 'a list" where
  "some_of xs = concat (map (\<lambda>x. case x of None \<Rightarrow> [] | Some y \<Rightarrow> [y]) xs)"

definition drainClosedEpochs :: "'c room_port \<Rightarrow> ('c, unit) gate_action" where
  "drainClosedEpochs port =
     (if rp_closedSlots port = None \<or> rp_refundWindowOf port = None \<or> rp_unprocessedActions port = None then ret ()
      else
        bind_act (ask_opt (rp_closedSlots port)) (\<lambda>closed.
        bind_act (map_act (drain_slot port) closed) (\<lambda>found.
          let toDrain = some_of found in
          if toDrain = [] then ret ()
          else
            bind_act (log_entry (AuditProcessRoom toDrain)) (\<lambda>u.
            bind_act (send (\<lambda>c. rp_processRoom port c (map fst toDrain) (map snd toDrain) 1000)) (\<lambda>u.
            bind_act (gets ga_metrics) (\<lambda>metrics.
              if metrics = None then ret ()
              else
                bind_act (map_act (\<lambda>(market, epoch).
                  ask_opt (map_option (\<lambda>q c. q c market epoch) (rp_unprocessedActions port))) toDrain) (\<lambda>left.
                let swept = length (filter (\<lambda>b. \<not> b) left) in
                when_act (0 < swept) (modify (\<lambda>g. g\<lparr>ga_metrics := map_option (\<lambda>ms. ms @ [MissedClearance swept]) (ga_metrics g)\<rparr>)))))))))"

definition afterClose :: "'c room_port \<Rightarrow> ('c, unit) gate_action" where
  "afterClose port =
     bind_act (ask (rp_openSlots port)) (\<lambda>open.
     bind_act (when_act (open \<noteq> []) (send (\<lambda>c. rp_closeRemainingSlots port c (map sr_market open)))) (\<lambda>u.
     drainClosedEpochs port))"

subsection \<open>Epoch clearance\<close>

definition evaluate_now :: "'c gate_env \<Rightarrow> event list \<Rightarrow> condition \<Rightarrow> condition option \<Rightarrow> bool \<Rightarrow> decision" where
  "evaluate_now env es doc headline is_self =
     evaluateCondition doc es (default_options\<lparr>opt_headline := headline, opt_headline_is_self := is_self,
       opt_participants := gc_participants (ge_config env)\<rparr>)"

definition cleared_of :: "'c gate \<Rightarrow> string \<Rightarrow> int list" where
  "cleared_of g market = (case js_get (ga_clearedEpochs g) market of Some es \<Rightarrow> es | None \<Rightarrow> [])"

definition add_cleared :: "string \<Rightarrow> int \<Rightarrow> 'c gate \<Rightarrow> 'c gate" where
  "add_cleared market epoch g =
     g\<lparr>ga_clearedEpochs := js_set market (List.insert epoch (cleared_of g market)) (ga_clearedEpochs g)\<rparr>"

definition lookback_epochs :: "gate_config \<Rightarrow> int" where
  "lookback_epochs cfg =
     (let d = gc_epochDurationS cfg;
          p = (case gc_maxPendingTimeS cfg of Some p \<Rightarrow> p | None \<Rightarrow> d * 3)
      in max 3 (- (- p div d) + 1))"

definition epoch_due :: "gate_config \<Rightarrow> int \<Rightarrow> event option \<Rightarrow> int \<Rightarrow> bool" where
  "epoch_due cfg nowS tip epoch =
     (let epochEndS = (epoch + 1) * gc_epochDurationS cfg in
      \<not> nowS < epochEndS + gc_sourceFinalityDelayS cfg
      \<and> \<not> (case Option.bind tip (\<lambda>t. date_parse (ev_observed_at t)) of Some at \<Rightarrow> at < epochEndS * 1000 | None \<Rightarrow> False))"

definition is_candidate :: "'c room_port \<Rightarrow> gate_config \<Rightarrow> int \<Rightarrow> event option \<Rightarrow> string \<Rightarrow> int \<Rightarrow> ('c, int option) gate_action" where
  "is_candidate port cfg nowS tip market epoch =
     (if \<not> epoch_due cfg nowS tip epoch then ret None
      else
        bind_act (gets (\<lambda>g. epoch \<in> set (cleared_of g market))) (\<lambda>known.
          if known then ret None
          else
            bind_act (ask_opt (map_option (\<lambda>q c. q c market epoch) (rp_isEpochSafe port))) (\<lambda>safe.
              if safe then bind_act (modify (add_cleared market epoch)) (\<lambda>u. ret None)
              else ret (Some epoch))))"

definition choose_epoch :: "'c gate_env \<Rightarrow> event list \<Rightarrow> int \<Rightarrow> slot_ref \<Rightarrow> ('c, (string \<times> int) option) gate_action" where
  "choose_epoch env es nowMs s =
     (let port = ge_port env; cfg = ge_config env; market = sr_market s;
          nowS = nowMs div 1000; currentEpoch = nowS div gc_epochDurationS cfg
      in bind_act (conditionFor market) (\<lambda>doc.
        if evaluate_now env es doc None False \<noteq> Undecided then ret None
        else
          bind_act (modify (\<lambda>g. if js_has (ga_clearedEpochs g) market then g
              else g\<lparr>ga_clearedEpochs := js_set market [] (ga_clearedEpochs g)\<rparr>)) (\<lambda>u.
          bind_act (map_act (is_candidate port cfg nowS (last_opt es) market)
            [max 0 (currentEpoch - lookback_epochs cfg)..currentEpoch - 1]) (\<lambda>found.
          let candidates = some_of found in
          bind_act (case rp_hasPendingActions port of
              None \<Rightarrow> ret (case candidates of [] \<Rightarrow> None | e # _ \<Rightarrow> Some e)
            | Some q \<Rightarrow> find_act (\<lambda>epoch. ask (\<lambda>c. q c market epoch)) candidates) (\<lambda>chosen.
          ret (map_option (\<lambda>epoch. (market, epoch)) chosen))))))"

definition confirm_epoch :: "'c room_port \<Rightarrow> int \<Rightarrow> string \<times> int \<Rightarrow> ('c, (string \<times> int) option) gate_action" where
  "confirm_epoch port seq me =
     (case me of (market, epoch) \<Rightarrow>
       bind_act (case rp_isEpochSafe port of None \<Rightarrow> ret True | Some q \<Rightarrow> ask (\<lambda>c. q c market epoch)) (\<lambda>safe.
         if safe then bind_act (modify (add_cleared market epoch)) (\<lambda>u. ret (Some (market, epoch)))
         else bind_act (log_entry (AuditEpochSkipped market epoch seq)) (\<lambda>u. ret None)))"

text \<open>Marking the chosen epochs, reading back what the chain did, and processing what it confirmed.\<close>

definition markAndProcess :: "'c gate_env \<Rightarrow> event list \<Rightarrow> int \<Rightarrow> (string \<times> int) list \<Rightarrow> ('c, unit) gate_action" where
  "markAndProcess env es nowMs toClear =
     (let port = ge_port env in
      bind_act (roomSequence port (tipSeq es)) (\<lambda>clearSeq.
      bind_act (log_entry (AuditMarkSafe clearSeq toClear)) (\<lambda>u.
      bind_act (send (\<lambda>c. rp_markRoomEpochsSafe port c clearSeq (map fst toClear) (map snd toClear))) (\<lambda>u.
      bind_act (map_act (confirm_epoch port (tipSeq es)) toClear) (\<lambda>checked.
      let confirmed = some_of checked in
      if confirmed = [] then ret ()
      else
        bind_act (modify (\<lambda>g. case Option.bind (last_opt es) (\<lambda>t. date_parse (ev_observed_at t)) of
            None \<Rightarrow> g
          | Some at \<Rightarrow> g\<lparr>ga_metrics := map_option (\<lambda>ms. ms @ [GateLagMs (max 0 (nowMs - at)) (length confirmed)])
              (ga_metrics g)\<rparr>)) (\<lambda>u.
        send (\<lambda>c. rp_processRoom port c (map fst confirmed) (map snd confirmed) 1000)))))))"

definition clearCompletedEpochs :: "'c gate_env \<Rightarrow> event list \<Rightarrow> int \<Rightarrow> ('c, unit) gate_action" where
  "clearCompletedEpochs env es nowMs =
     bind_act (ask (rp_openSlots (ge_port env))) (\<lambda>open.
       if tipSeq es = 0 then ret ()
       else
         bind_act (map_act (choose_epoch env es nowMs) open) (\<lambda>chosen.
         if some_of chosen = [] then ret () else markAndProcess env es nowMs (some_of chosen)))"

subsection \<open>One tick\<close>

definition decide_headline :: "'c gate_env \<Rightarrow> event list \<Rightarrow> int \<Rightarrow> slot_ref list \<Rightarrow> slot_ref \<Rightarrow> ('c, bool) gate_action" where
  \<comment> \<open>the result says whether the tick ends here\<close>
  "decide_headline env es nowMs open headline =
     (let port = ge_port env; market = sr_market headline;
          graceMs = (case gc_unevaluableGraceMs (ge_config env) of Some g \<Rightarrow> g | None \<Rightarrow> 120000)
      in bind_act (conditionFor market) (\<lambda>doc.
        case evaluate_now env es doc None False of
          Decided outcome seq \<Rightarrow>
            bind_act (closingSequence port seq) (\<lambda>closeAt.
            bind_act (log_entry (AuditCloseRoom seq closeAt (closeAt \<noteq> seq) outcome)) (\<lambda>u.
            bind_act (send (\<lambda>c. rp_closeRoom port c closeAt)) (\<lambda>u.
            bind_act (send (\<lambda>c. rp_closeRemainingSlots port c (map sr_market open))) (\<lambda>u. ret True))))
        | Unevaluable reason \<Rightarrow>
            bind_act (markUnevaluable market nowMs reason) (\<lambda>persistedMs.
            bind_act (suspend port es (HeadlineUnevaluable reason)) (\<lambda>u.
            bind_act (when_act (persistedMs \<ge> graceMs)
              (bind_act (closingSequence port (tipSeq es)) (\<lambda>seq.
               bind_act (log_entry (AuditCloseRoomGrace seq persistedMs)) (\<lambda>u.
               bind_act (send (\<lambda>c. rp_closeRoom port c seq)) (\<lambda>u.
               send (\<lambda>c. rp_closeRemainingSlots port c (map sr_market open))))))) (\<lambda>u. ret True)))
        | Undecided \<Rightarrow> bind_act (clearUnevaluable market) (\<lambda>u. ret False)))"

definition decide_micro :: "'c gate_env \<Rightarrow> event list \<Rightarrow> int \<Rightarrow> string option \<Rightarrow> slot_ref \<Rightarrow> ('c, (string \<times> int) option) gate_action" where
  "decide_micro env es nowMs headline_open s =
     (let port = ge_port env; market = sr_market s;
          graceMs = (case gc_unevaluableGraceMs (ge_config env) of Some g \<Rightarrow> g | None \<Rightarrow> 120000)
      in if headline_open = Some market then ret None
      else
        bind_act (conditionFor market) (\<lambda>doc.
        bind_act (gets ga_headlineMarket) (\<lambda>hm.
        bind_act (case truthy_text hm of None \<Rightarrow> ret None | Some h \<Rightarrow> bind_act (conditionFor h) (\<lambda>d. ret (Some d))) (\<lambda>hdoc.
        case evaluate_now env es doc hdoc (hm = Some market) of
          Decided outcome seq \<Rightarrow> bind_act (clearUnevaluable market) (\<lambda>u. ret (Some (market, seq)))
        | Unevaluable reason \<Rightarrow>
            bind_act (markUnevaluable market nowMs reason) (\<lambda>persistedMs.
              if persistedMs \<ge> graceMs then
                bind_act (log_entry (AuditCloseSlot market persistedMs)) (\<lambda>u.
                bind_act (ask (rp_lastObservedSequence port)) (\<lambda>seq. ret (Some (market, seq))))
              else ret None)
        | Undecided \<Rightarrow> bind_act (clearUnevaluable market) (\<lambda>u. ret None)))))"

definition max_of :: "int list \<Rightarrow> int" where
  "max_of xs = foldl max (hd xs) (tl xs)"

definition close_decided :: "'c room_port \<Rightarrow> (string \<times> int) list \<Rightarrow> ('c, unit) gate_action" where
  "close_decided port toClose =
     when_act (toClose \<noteq> [])
       (bind_act (closingSequence port (max_of (map snd toClose))) (\<lambda>seq.
        bind_act (log_entry (AuditCloseSlots seq (map fst toClose))) (\<lambda>u.
        send (\<lambda>c. rp_closeSlots port c seq (map fst toClose)))))"

definition tick :: "'c gate_env \<Rightarrow> event list \<Rightarrow> int \<Rightarrow> ('c, unit) gate_action" where
  "tick env es nowMs =
     (let port = ge_port env in
      bind_act (modify ensure_loaded) (\<lambda>u.
      bind_act (ask (rp_roomClosedSequence port)) (\<lambda>closed.
        if closed \<noteq> 0 then afterClose port
        else
          bind_act (ask (rp_openSlots port)) (\<lambda>open.
          bind_act (gets ga_headlineMarket) (\<lambda>hm.
          let headline = List.find (\<lambda>s. Some (sr_market s) = hm) open in
          bind_act (case headline of None \<Rightarrow> ret False | Some h \<Rightarrow> decide_headline env es nowMs open h) (\<lambda>done.
            if done then ret ()
            else
              bind_act (map_act (decide_micro env es nowMs (map_option sr_market headline)) open) (\<lambda>decided.
              bind_act (close_decided port (some_of decided)) (\<lambda>u.
              let age = freshnessAgeMs (last_opt es) nowMs in
              if age_exceeds age (gc_freshnessThresholdMs (ge_config env)) then
                bind_act (suspend port es (StaleSource age)) (\<lambda>u. ret ())
              else
                bind_act (reopen port es) (\<lambda>u.
                bind_act (clearCompletedEpochs env es nowMs) (\<lambda>u.
                drainClosedEpochs port))))))))))"

subsection \<open>Permits\<close>

record permit_options =
  po_slotIndex :: int
  po_templateId :: string
  po_params :: json
  po_conditionDocument :: condition
  po_announceDelay :: int
  po_request :: "slot_request option"
  po_restricted :: "string list"
  po_nowMs :: "int option"

datatype refusal =
    RoomClosed
  | RoomSuspended
  | SourceStale "int option option"
  | ConditionNotOpen decision
  | QuestionNotRule catalog_error

record signed_permit =
  sp_permit :: permit
  sp_signature :: string
  sp_templateParamsHash :: string

definition params_hash :: "hash_fun \<Rightarrow> string \<Rightarrow> json \<Rightarrow> canon_error + string" where
  "params_hash H templateId params =
     map_sum id H (canonicalize (JObj [(''templateId'', JStr templateId), (''params'', params)]))"

definition refuse :: "audit_entry \<Rightarrow> refusal \<Rightarrow> ('c, refusal + signed_permit) gate_action" where
  "refuse x r = bind_act (log_entry x) (\<lambda>u. ret (Inl r))"

definition sign_permit :: "'c gate_env \<Rightarrow> event list \<Rightarrow> permit_options \<Rightarrow> string \<Rightarrow> string
    \<Rightarrow> ('c, refusal + signed_permit) gate_action" where
  "sign_permit env es opts condHash paramsHash =
     (case po_request opts of
        None \<Rightarrow> raise NoRequest
      | Some request \<Rightarrow>
          bind_act (lift_res RequestNotHashable
              (slotRequestHash (ge_abi env) request paramsHash condHash (po_restricted opts))) (\<lambda>requestHash.
          bind_act (gets ga_nextNonce) (\<lambda>nonce.
          let p = \<lparr> pm_slotIndex = po_slotIndex opts, pm_requestHash = requestHash, pm_conditionHash = condHash,
                    pm_undecidedThroughSequence = tipSeq es, pm_announceDelay = po_announceDelay opts,
                    pm_issuedAt = ge_nowS env, pm_expiresAt = ge_nowS env + gc_maxPermitLifetimeS (ge_config env),
                    pm_nonce = nonce \<rparr>
          in bind_act (modify (\<lambda>g. save (\<lambda>d. d\<lparr>du_nextNonce := Some (nonce + 1)\<rparr>) (g\<lparr>ga_nextNonce := nonce + 1\<rparr>))) (\<lambda>u.
             bind_act (log_entry (AuditSigned (tipSeq es) condHash requestHash nonce (po_slotIndex opts))) (\<lambda>u.
             ret (Inr \<lparr> sp_permit = p, sp_signature = ge_sign env p, sp_templateParamsHash = paramsHash \<rparr>))))))"

definition requestPermit :: "'c gate_env \<Rightarrow> event list \<Rightarrow> permit_options \<Rightarrow> ('c, refusal + signed_permit) gate_action" where
  "requestPermit env es opts =
     (let port = ge_port env; idx = po_slotIndex opts in
      bind_act (modify ensure_loaded) (\<lambda>u.
      bind_act (lift_res DocumentNotCanonical (conditionHash (ge_hash env) (po_conditionDocument opts))) (\<lambda>condHash.
      bind_act (lift_res DocumentNotCanonical (params_hash (ge_hash env) (po_templateId opts) (po_params opts))) (\<lambda>paramsHash.
      bind_act (ask (rp_roomClosedSequence port)) (\<lambda>closed.
        if closed \<noteq> 0 then refuse (AuditRefusedClosed idx) RoomClosed
        else
          bind_act (isSuspendedOnChain port) (\<lambda>suspended.
            if suspended then refuse (AuditRefusedSuspended idx) RoomSuspended
            else
              let stale = (case po_nowMs opts of None \<Rightarrow> None
                           | Some nowMs \<Rightarrow>
                               let age = freshnessAgeMs (last_opt es) nowMs in
                               if age_exceeds age (gc_freshnessThresholdMs (ge_config env)) then Some age else None)
              in case stale of
                   Some age \<Rightarrow> refuse (AuditRefusedStale age idx) (SourceStale age)
                 | None \<Rightarrow>
                     let decision = evaluate_now env es (po_conditionDocument opts) None False in
                     if decision \<noteq> Undecided then
                       refuse (AuditRefusedCondition decision (tipSeq es) condHash idx) (ConditionNotOpen decision)
                     else
                       case (case ge_catalog env of None \<Rightarrow> Inr []
                             | Some catalog \<Rightarrow> assertQuestionMatches catalog (po_templateId opts) (po_params opts)
                                 (Option.bind (po_request opts) rq_question)) of
                         Inl err \<Rightarrow> refuse (AuditRefusedQuestion idx) (QuestionNotRule err)
                       | Inr _ \<Rightarrow> sign_permit env es opts condHash paramsHash))))))"

end
