(* ===== verification/Publication.thy ===== *)
theory Publication
  imports Gate
begin

section \<open>The durable publication queue (ports/publication-queue.mjs)\<close>

text \<open>
  One row per publication request, written by the publisher and the gate in turn. The table
  numbers its rows in the order of their insertion; every write replaces one row. The row
  encoding (\<open>encode\<close>/\<open>decode\<close>) reads back what was written, so rows hold the values themselves;
  the stamp of a write is the argument \<open>at\<close>.
\<close>

datatype pub_status = Queued | AwaitingPermit | Permitted | Published | Rejected | Refused | Failed

definition PUBLICATION_STATUSES :: "pub_status list" where
  "PUBLICATION_STATUSES = [Queued, AwaitingPermit, Permitted, Published, Rejected, Refused, Failed]"

definition PUBLICATION_OPEN_STATUSES :: "pub_status list" where
  "PUBLICATION_OPEN_STATUSES = [Queued, AwaitingPermit, Permitted]"

record candidate =
  ca_templateId :: string
  ca_params :: json
  ca_announceDelay :: "int option"
  ca_question :: "string option"
  ca_streamUrl :: "string option"
  ca_imageUrl :: "string option"
  ca_restricted :: "string list option"
  ca_slotIndex :: "int option"

text \<open>The reasons the publisher and the gate write, one constructor per message.\<close>

datatype pub_reason =
    TemplateNotApproved string
  | AnnounceDelayBelowMinimum
  | BadParams catalog_error
  | IncompleteRequest
  | GateRefused refusal
  | NoPermitOnRecord
  | PermitExpired int int
  | PermitExpiredAskAgain int
  | PermitForOtherSlot int int
  | ChainRefused string

record pub_request =
  pr_id :: nat
  pr_roomId :: string
  pr_status :: pub_status
  pr_candidate :: candidate
  pr_request :: "slot_request option"
  pr_restricted :: "string list"
  pr_conditionDocument :: "condition option"
  pr_permit :: "permit option"
  pr_signature :: "string option"
  pr_market :: "string option"
  pr_reason :: "pub_reason option"
  pr_attempts :: int
  pr_submittedAt :: string
  pr_updatedAt :: string

record pub_queue =
  pq_rows :: "pub_request list"
  pq_lastId :: nat

datatype queue_error = NoPublicationRequest nat | NullRequest

subsection \<open>Reads\<close>

definition pq_get :: "pub_queue \<Rightarrow> nat \<Rightarrow> pub_request option" where
  "pq_get q i = List.find (\<lambda>r. pr_id r = i) (pq_rows q)"

definition byStatus :: "pub_queue \<Rightarrow> string \<Rightarrow> pub_status \<Rightarrow> pub_request list" where
  "byStatus q room st = filter (\<lambda>r. pr_roomId r = room \<and> pr_status r = st) (pq_rows q)"

definition conditionForMarket :: "pub_queue \<Rightarrow> string \<Rightarrow> string \<Rightarrow> pub_request option" where
  "conditionForMarket q room market =
     last_opt (filter (\<lambda>r. pr_roomId r = room \<and> pr_status r = Published
       \<and> map_option to_lower (pr_market r) = Some (to_lower market)) (pq_rows q))"

definition open_requests :: "pub_queue \<Rightarrow> string \<Rightarrow> pub_request list" where
  "open_requests q room =
     filter (\<lambda>r. pr_roomId r = room \<and> pr_status r \<in> set PUBLICATION_OPEN_STATUSES) (pq_rows q)"

definition all_requests :: "pub_queue \<Rightarrow> string \<Rightarrow> pub_request list" where
  "all_requests q room = filter (\<lambda>r. pr_roomId r = room) (pq_rows q)"

subsection \<open>Writes\<close>

definition empty_queue :: pub_queue where
  "empty_queue = \<lparr> pq_rows = [], pq_lastId = 0 \<rparr>"

definition submit :: "pub_queue \<Rightarrow> string \<Rightarrow> candidate \<Rightarrow> string \<Rightarrow> pub_queue \<times> nat" where
  "submit q room c at =
     (let i = pq_lastId q + 1 in
      (\<lparr> pq_rows = pq_rows q @ [\<lparr> pr_id = i, pr_roomId = room, pr_status = Queued, pr_candidate = c,
           pr_request = None, pr_restricted = [], pr_conditionDocument = None, pr_permit = None,
           pr_signature = None, pr_market = None, pr_reason = None, pr_attempts = 0,
           pr_submittedAt = at, pr_updatedAt = at \<rparr>],
         pq_lastId = i \<rparr>, i))"

definition put_row :: "pub_queue \<Rightarrow> pub_request \<Rightarrow> pub_queue" where
  "put_row q r = q\<lparr>pq_rows := map (\<lambda>x. if pr_id x = pr_id r then r else x) (pq_rows q)\<rparr>"

text \<open>\<open>patch\<close> sets the fields the caller names; every other field is carried forward.\<close>

definition transition :: "pub_queue \<Rightarrow> nat \<Rightarrow> pub_status \<Rightarrow> (pub_request \<Rightarrow> pub_request) \<Rightarrow> string
    \<Rightarrow> queue_error + pub_queue \<times> pub_request" where
  "transition q i st patch at =
     (case pq_get q i of
        None \<Rightarrow> Inl (NoPublicationRequest i)
      | Some current \<Rightarrow>
          let nxt = (patch current)\<lparr>pr_status := st, pr_updatedAt := at\<rparr>
          in Inr (put_row q nxt, nxt))"

type_synonym queue_write = "pub_queue \<Rightarrow> queue_error + pub_queue \<times> pub_request"

definition markAwaitingPermit :: "nat \<Rightarrow> slot_request \<Rightarrow> string list \<Rightarrow> condition \<Rightarrow> string \<Rightarrow> queue_write" where
  "markAwaitingPermit i request restricted doc at q =
     transition q i AwaitingPermit (\<lambda>r. r\<lparr>pr_request := Some request, pr_restricted := restricted,
       pr_conditionDocument := Some doc, pr_permit := None, pr_signature := None, pr_reason := None\<rparr>) at"

definition markRejected :: "nat \<Rightarrow> pub_reason \<Rightarrow> string \<Rightarrow> queue_write" where
  "markRejected i reason at q = transition q i Rejected (\<lambda>r. r\<lparr>pr_reason := Some reason\<rparr>) at"

definition markPermitted :: "nat \<Rightarrow> permit \<Rightarrow> string \<Rightarrow> slot_request \<Rightarrow> string \<Rightarrow> queue_write" where
  "markPermitted i p signature request at q =
     transition q i Permitted (\<lambda>r. r\<lparr>pr_permit := Some p, pr_signature := Some signature,
       pr_request := Some request, pr_reason := None\<rparr>) at"

definition markRefused :: "nat \<Rightarrow> pub_reason \<Rightarrow> string \<Rightarrow> queue_write" where
  "markRefused i reason at q = transition q i Refused (\<lambda>r. r\<lparr>pr_reason := Some reason\<rparr>) at"

definition markPublished :: "nat \<Rightarrow> string option \<Rightarrow> string \<Rightarrow> queue_write" where
  "markPublished i market at q = transition q i Published (\<lambda>r. r\<lparr>pr_market := market, pr_reason := None\<rparr>) at"

definition markFailed :: "nat \<Rightarrow> pub_reason \<Rightarrow> string \<Rightarrow> queue_write" where
  "markFailed i reason at q = transition q i Failed (\<lambda>r. r\<lparr>pr_reason := Some reason\<rparr>) at"

definition reopenForPermit :: "nat \<Rightarrow> pub_reason \<Rightarrow> string \<Rightarrow> queue_write" where
  "reopenForPermit i reason at q =
     (case pq_get q i of
        None \<Rightarrow> Inl NullRequest
      | Some current \<Rightarrow>
          transition q i AwaitingPermit (\<lambda>r. r\<lparr>pr_permit := None, pr_signature := None,
            pr_reason := Some reason, pr_attempts := pr_attempts current + 1\<rparr>) at)"

section \<open>The queued publisher (publisher/queue.mjs)\<close>

text \<open>
  The publisher's chain port. A call the code tests for with \<open>typeof\<close> is optional; a failure
  carries the error's name and its text.
\<close>

record chain_failure =
  cx_name :: string
  cx_text :: string

record 'c publish_port =
  pp_publishSlot :: "'c \<Rightarrow> slot_request \<Rightarrow> permit \<Rightarrow> string option \<Rightarrow> string list \<Rightarrow> 'c \<times> (chain_failure + string)"
  pp_usedNonce :: "('c \<Rightarrow> int \<Rightarrow> chain_failure + bool) option"
  pp_slotCount :: "('c \<Rightarrow> chain_failure + int) option"
  pp_marketForConditionHash :: "('c \<Rightarrow> string \<Rightarrow> chain_failure + string option) option"

record 'c pub_env =
  pe_roomId :: string
  pe_catalog :: catalog
  pe_minAnnounceDelay :: int
  pe_maxPermitAttempts :: int
  pe_at :: string
  pe_port :: "'c publish_port"

record 'c pub_state =
  pb_queue :: pub_queue
  pb_chain :: 'c

record pub_action =
  pa_id :: nat
  pa_status :: pub_status
  pa_reason :: "pub_reason option"
  pa_market :: "string option"
  pa_error :: "string option"

type_synonym ('c, 'a) pub_call = "('c pub_state, queue_error, 'a) action"

definition contains :: "string \<Rightarrow> string \<Rightarrow> bool" where
  "contains word text \<longleftrightarrow> (\<exists>i \<in> set [0..<Suc (length text)]. take (length word) (drop i text) = word)"

definition isChainRefusal :: "chain_failure \<Rightarrow> bool" where
  "isChainRefusal e =
     (if cx_name e \<in> {''HttpRequestError'', ''TimeoutError'', ''RpcRequestError'', ''SocketClosedError'',
                       ''WebSocketRequestError'', ''InternalRpcError''} then False
      else list_ex (\<lambda>word. contains word (to_lower (cx_text e)))
             [''revert'', ''rejected'', ''not authorised'', ''not authorized'', ''exceeds'', ''invalid'',
              ''already known'', ''nonce''])"

definition first_line :: "string \<Rightarrow> string" where
  "first_line s = takeWhile (\<lambda>c. of_char c \<noteq> (10 :: nat)) s"

definition write_queue :: "queue_write \<Rightarrow> ('c, pub_request) pub_call" where
  "write_queue w = (\<lambda>s. case w (pb_queue s) of
     Inl e \<Rightarrow> (s, Inl e) | Inr (q, r) \<Rightarrow> (s\<lparr>pb_queue := q\<rparr>, Inr r))"

definition answered :: "nat \<Rightarrow> pub_request \<Rightarrow> pub_action" where
  "answered i answer = \<lparr> pa_id = i, pa_status = pr_status answer, pa_reason = pr_reason answer,
     pa_market = pr_market answer, pa_error = None \<rparr>"

definition answer_with :: "nat \<Rightarrow> queue_write \<Rightarrow> ('c, pub_action) pub_call" where
  "answer_with i w = bind_act (write_queue w) (\<lambda>answer. ret (answered i answer))"

definition publisher_submit :: "'c pub_env \<Rightarrow> candidate \<Rightarrow> ('c, nat) pub_call" where
  "publisher_submit env c = (\<lambda>s. let (q, i) = submit (pb_queue s) (pe_roomId env) c (pe_at env)
     in (s\<lparr>pb_queue := q\<rparr>, Inr i))"

definition slot_request_of :: "rule \<Rightarrow> candidate \<Rightarrow> int \<Rightarrow> slot_request" where
  "slot_request_of ru c announceDelay =
     \<lparr> rq_templateId = ca_templateId c, rq_templateParamsHash = None, rq_conditionHash = None,
       rq_announceDelay = announceDelay, rq_winnerRewardBps = ru_winnerRewardBps ru,
       rq_question = ca_question c,
       rq_streamUrl = Some (case ca_streamUrl c of Some u \<Rightarrow> u | None \<Rightarrow> []),
       rq_imageUrl = Some (case ca_imageUrl c of Some u \<Rightarrow> u | None \<Rightarrow> []) \<rparr>"

definition prepare :: "'c pub_env \<Rightarrow> pub_request \<Rightarrow> ('c, pub_action) pub_call" where
  "prepare env r =
     (let c = pr_candidate r; i = pr_id r; at = pe_at env in
      case js_get (pe_catalog env) (ca_templateId c) of
        None \<Rightarrow> answer_with i (markRejected i (TemplateNotApproved (ca_templateId c)) at)
      | Some ru \<Rightarrow>
          let announceDelay = (case ca_announceDelay c of Some d \<Rightarrow> d | None \<Rightarrow> pe_minAnnounceDelay env) in
          if announceDelay < pe_minAnnounceDelay env then answer_with i (markRejected i AnnounceDelayBelowMinimum at)
          else case ru_buildCondition ru (ca_params c) of
                 Inl err \<Rightarrow> answer_with i (markRejected i (BadParams err) at)
               | Inr doc \<Rightarrow> answer_with i (markAwaitingPermit i (slot_request_of ru c announceDelay)
                   (case ca_restricted c of Some ws \<Rightarrow> ws | None \<Rightarrow> []) doc at))"

definition findLanded :: "'c pub_env \<Rightarrow> pub_request \<Rightarrow> 'c \<Rightarrow> string option" where
  "findLanded env r chain =
     (case (pp_usedNonce (pe_port env), pr_permit r) of
        (Some used, Some p) \<Rightarrow>
          (case used chain (pm_nonce p) of
             Inr True \<Rightarrow>
               (case pp_marketForConditionHash (pe_port env) of
                  None \<Rightarrow> None
                | Some lookup \<Rightarrow> (case lookup chain (pm_conditionHash p) of Inr m \<Rightarrow> m | Inl _ \<Rightarrow> None))
           | _ \<Rightarrow> None)
      | _ \<Rightarrow> None)"

definition publish_call :: "'c pub_env \<Rightarrow> pub_request \<Rightarrow> permit \<Rightarrow> ('c, chain_failure + string) pub_call" where
  "publish_call env r p = (\<lambda>s.
     (case pr_request r of
        None \<Rightarrow> (s, Inr (Inl \<lparr> cx_name = ''TypeError'', cx_text = ''Cannot read properties of null'' \<rparr>))
      | Some request \<Rightarrow>
          (case pp_publishSlot (pe_port env) (pb_chain s) request p (pr_signature r) (pr_restricted r) of
             (chain, result) \<Rightarrow> (s\<lparr>pb_chain := chain\<rparr>, Inr result))))"

definition slot_count_now :: "'c pub_env \<Rightarrow> 'c \<Rightarrow> int option" where
  "slot_count_now env chain =
     (case pp_slotCount (pe_port env) of
        None \<Rightarrow> None
      | Some slots \<Rightarrow> (case slots chain of Inr n \<Rightarrow> Some n | Inl _ \<Rightarrow> None))"

definition submit_permit :: "'c pub_env \<Rightarrow> pub_request \<Rightarrow> permit \<Rightarrow> ('c, pub_action) pub_call" where
  "submit_permit env r p =
     (let i = pr_id r; at = pe_at env in
      bind_act (publish_call env r p) (\<lambda>result.
        case result of
          Inr market \<Rightarrow> answer_with i (markPublished i (Some market) at)
        | Inl e \<Rightarrow>
            bind_act (gets (\<lambda>s. findLanded env r (pb_chain s))) (\<lambda>landed.
              case truthy_text landed of
                Some market \<Rightarrow> answer_with i (markPublished i (Some market) at)
              | None \<Rightarrow>
                  if \<not> isChainRefusal e then
                    ret \<lparr> pa_id = i, pa_status = pr_status r, pa_reason = None, pa_market = None,
                          pa_error = Some (first_line (cx_text e)) \<rparr>
                  else answer_with i (markFailed i (ChainRefused (first_line (cx_text e))) at))))"

definition publish :: "'c pub_env \<Rightarrow> int \<Rightarrow> pub_request \<Rightarrow> ('c, pub_action) pub_call" where
  "publish env nowMs r =
     (let i = pr_id r; at = pe_at env in
      case pr_permit r of
        None \<Rightarrow> answer_with i (reopenForPermit i NoPermitOnRecord at)
      | Some p \<Rightarrow>
          let nowS = nowMs div 1000; late = nowS - pm_expiresAt p in
          if pm_expiresAt p \<le> nowS then
            if pr_attempts r + 1 \<ge> pe_maxPermitAttempts env then
              answer_with i (markFailed i (PermitExpired late (pr_attempts r + 1)) at)
            else answer_with i (reopenForPermit i (PermitExpiredAskAgain late) at)
          else
            bind_act (gets (\<lambda>s. slot_count_now env (pb_chain s))) (\<lambda>slotCount.
              case slotCount of
                Some n \<Rightarrow>
                  if pm_slotIndex p \<noteq> n then
                    answer_with i (reopenForPermit i (PermitForOtherSlot (pm_slotIndex p) n) at)
                  else submit_permit env r p
              | None \<Rightarrow> submit_permit env r p))"

definition nonce_used :: "'c pub_env \<Rightarrow> 'c \<Rightarrow> permit \<Rightarrow> bool" where
  "nonce_used env chain p =
     (case pp_usedNonce (pe_port env) of Some used \<Rightarrow> used chain (pm_nonce p) = Inr True | None \<Rightarrow> False)"

definition reconcile_one :: "'c pub_env \<Rightarrow> pub_request \<Rightarrow> ('c, pub_action option) pub_call" where
  "reconcile_one env r =
     (case pr_permit r of
        None \<Rightarrow> ret None
      | Some p \<Rightarrow>
          bind_act (gets pb_chain) (\<lambda>chain.
            if \<not> nonce_used env chain p then ret None
            else bind_act (answer_with (pr_id r) (markPublished (pr_id r) (findLanded env r chain) (pe_at env)))
                   (\<lambda>x. ret (Some x))))"

definition permitted_now :: "'c pub_env \<Rightarrow> ('c, pub_request list) pub_call" where
  "permitted_now env = gets (\<lambda>s. byStatus (pb_queue s) (pe_roomId env) Permitted)"

definition reconcile :: "'c pub_env \<Rightarrow> ('c, pub_action list) pub_call" where
  "reconcile env =
     (if pp_usedNonce (pe_port env) = None then ret []
      else bind_act (permitted_now env) (\<lambda>rs.
           bind_act (map_act (reconcile_one env) rs) (\<lambda>xs. ret (List.map_filter id xs))))"

definition publisher_tick :: "'c pub_env \<Rightarrow> int \<Rightarrow> ('c, pub_action list) pub_call" where
  "publisher_tick env nowMs =
     bind_act (reconcile env) (\<lambda>reconciled.
     bind_act (permitted_now env) (\<lambda>rs.
     bind_act (map_act (publish env nowMs) rs) (\<lambda>published.
     bind_act (gets pb_queue) (\<lambda>q.
       let inFlight = length (byStatus q (pe_roomId env) AwaitingPermit) + length (byStatus q (pe_roomId env) Permitted)
       in if inFlight = 0 then
            case byStatus q (pe_roomId env) Queued of
              [] \<Rightarrow> ret (reconciled @ published)
            | nxt # _ \<Rightarrow> bind_act (prepare env nxt) (\<lambda>x. ret (reconciled @ published @ [x]))
          else ret (reconciled @ published)))))"

section \<open>The permit server (gate/permit-server.mjs)\<close>

datatype served =
    Answered nat pub_status "pub_reason option"
  | SignedFor nat int
  | NoSlotCount nat chain_failure
  | GateThrew nat gate_error

record 'c serve_env =
  se_gate :: "'c gate_env"
  se_roomId :: string
  se_maxPerTick :: nat
  se_at :: string
  se_slotCount :: "'c \<Rightarrow> chain_failure + int"

record 'c serve_state =
  sv_gate :: "'c gate"
  sv_queue :: pub_queue

type_synonym ('c, 'a) serve_call = "('c serve_state, queue_error, 'a) action"

definition serve_write :: "queue_write \<Rightarrow> ('c, pub_request) serve_call" where
  "serve_write w = (\<lambda>s. case w (sv_queue s) of
     Inl e \<Rightarrow> (s, Inl e) | Inr (q, r) \<Rightarrow> (s\<lparr>sv_queue := q\<rparr>, Inr r))"

text \<open>A call of the gate whose throw the server catches.\<close>

definition try_gate :: "('c, 'a) gate_action \<Rightarrow> ('c, gate_error + 'a) serve_call" where
  "try_gate m = (\<lambda>s. case m (sv_gate s) of (g, r) \<Rightarrow> (s\<lparr>sv_gate := g\<rparr>, Inr r))"

definition serve_refuse :: "nat \<Rightarrow> pub_reason \<Rightarrow> string \<Rightarrow> ('c, served) serve_call" where
  "serve_refuse i reason at =
     bind_act (serve_write (markRefused i reason at)) (\<lambda>answer. ret (Answered i (pr_status answer) (pr_reason answer)))"

definition permit_options_of :: "pub_request \<Rightarrow> slot_request \<Rightarrow> condition \<Rightarrow> int \<Rightarrow> int \<Rightarrow> permit_options" where
  "permit_options_of r request doc slotIndex nowMs =
     \<lparr> po_slotIndex = slotIndex, po_templateId = ca_templateId (pr_candidate r),
       po_params = ca_params (pr_candidate r), po_conditionDocument = doc,
       po_announceDelay = rq_announceDelay request, po_request = Some request,
       po_restricted = pr_restricted r, po_nowMs = Some nowMs \<rparr>"

definition bound_request :: "slot_request \<Rightarrow> signed_permit \<Rightarrow> slot_request" where
  "bound_request request sp =
     request\<lparr>rq_templateParamsHash := Some (sp_templateParamsHash sp),
             rq_conditionHash := Some (pm_conditionHash (sp_permit sp))\<rparr>"

definition serve_request :: "'c serve_env \<Rightarrow> event list \<Rightarrow> int \<Rightarrow> pub_request \<Rightarrow> slot_request \<Rightarrow> condition \<Rightarrow> int
    \<Rightarrow> ('c, served) serve_call" where
  "serve_request env es nowMs r request doc slotIndex =
     (let i = pr_id r; at = se_at env in
      bind_act (try_gate (requestPermit (se_gate env) es (permit_options_of r request doc slotIndex nowMs))) (\<lambda>result.
        case result of
          Inl e \<Rightarrow> ret (GateThrew i e)
        | Inr (Inl why) \<Rightarrow> serve_refuse i (GateRefused why) at
        | Inr (Inr sp) \<Rightarrow>
            bind_act (serve_write (markPermitted i (sp_permit sp) (sp_signature sp) (bound_request request sp) at))
              (\<lambda>answer. ret (SignedFor i (pm_nonce (sp_permit sp))))))"

definition serve :: "'c serve_env \<Rightarrow> event list \<Rightarrow> int \<Rightarrow> pub_request \<Rightarrow> ('c, served) serve_call" where
  "serve env es nowMs r =
     (case (pr_request r, pr_conditionDocument r) of
        (Some request, Some doc) \<Rightarrow>
          (case ca_slotIndex (pr_candidate r) of
             Some slotIndex \<Rightarrow> serve_request env es nowMs r request doc slotIndex
           | None \<Rightarrow>
               bind_act (gets (\<lambda>s. se_slotCount env (ga_chain (sv_gate s)))) (\<lambda>slotCount.
                 case slotCount of
                   Inl e \<Rightarrow> ret (NoSlotCount (pr_id r) e)
                 | Inr n \<Rightarrow> serve_request env es nowMs r request doc n))
      | _ \<Rightarrow> serve_refuse (pr_id r) IncompleteRequest (se_at env))"

definition server_tick :: "'c serve_env \<Rightarrow> event list \<Rightarrow> int \<Rightarrow> ('c, served list) serve_call" where
  "server_tick env es nowMs =
     bind_act (gets (\<lambda>s. byStatus (sv_queue s) (se_roomId env) AwaitingPermit)) (\<lambda>rs.
       map_act (serve env es nowMs) (take (se_maxPerTick env) rs))"

end
