(* ===== verification/GatePermits.thy ===== *)
theory GatePermits
  imports Gate
begin

section \<open>What a signed permit attests\<close>

subsection \<open>Reads leave the gate as it was\<close>

definition reads :: "('c, 'a) gate_action \<Rightarrow> bool" where
  "reads m \<longleftrightarrow> (\<forall>g. fst (m g) = g)"

interpretation same: preorder_on "\<lambda>s t :: 'c gate. t = s"
  by unfold_locales auto

lemma reads_only: "reads m \<longleftrightarrow> only (\<lambda>s t. t = s) m"
  by (simp add: reads_def only_def)

lemma ask_reads [only_intros]: "only (\<lambda>s t. t = s) (ask q)"
  by (simp add: only_def ask_def)

lemma ask_opt_reads [only_intros]: "only (\<lambda>s t. t = s) (ask_opt q)"
  by (cases q) (auto simp: ask_opt_def intro: only_intros same.only_raise)

lemma isSuspendedOnChain_reads: "reads (isSuspendedOnChain port)"
  unfolding reads_only isSuspendedOnChain_def
  by (auto split: option.splits
      intro!: same.only_bind same.only_find same.only_ret ask_reads ask_opt_reads)

subsection \<open>Signing\<close>

definition saved_nonce :: "'c gate \<Rightarrow> int option" where
  "saved_nonce g = map_option (\<lambda>d. case du_nextNonce d of Some n \<Rightarrow> n | None \<Rightarrow> 1) (ga_state g)"

text \<open>The nonce the gate would sign next, loaded or not.\<close>

definition next_nonce :: "'c gate \<Rightarrow> int" where
  "next_nonce g = (if ga_loaded g then ga_nextNonce g else case saved_nonce g of Some n \<Rightarrow> n | None \<Rightarrow> 1)"

lemma next_nonce_loaded: "ga_nextNonce (ensure_loaded g) = next_nonce g" "ga_loaded (ensure_loaded g)"
  "next_nonce (ensure_loaded g) = next_nonce g" "ga_state (ensure_loaded g) = ga_state g"
  "ga_chain (ensure_loaded g) = ga_chain g" "saved_nonce (ensure_loaded g) = saved_nonce g"
  by (auto simp: ensure_loaded_def next_nonce_def saved_nonce_def split: option.splits)

lemma log_entry_run:
  "log_entry x g = (save (\<lambda>d. d\<lparr>du_audit := Some (ga_audit g @ [x])\<rparr>) (g\<lparr>ga_audit := ga_audit g @ [x]\<rparr>), Inr ())"
  by (simp add: log_entry_def Let_def)

lemma save_fields [simp]:
  "ga_loaded (save f g) = ga_loaded g" "ga_nextNonce (save f g) = ga_nextNonce g" "ga_chain (save f g) = ga_chain g"
  "ga_conditions (save f g) = ga_conditions g" "ga_audit (save f g) = ga_audit g"
  "ga_headlineMarket (save f g) = ga_headlineMarket g" "ga_clearedEpochs (save f g) = ga_clearedEpochs g"
  "ga_unevaluableSince (save f g) = ga_unevaluableSince g" "ga_state (save f g) = map_option f (ga_state g)"
  by (simp_all add: save_def)

lemma saved_nonce_save [simp]:
  "saved_nonce (save (\<lambda>d. d\<lparr>du_audit := a\<rparr>) g) = saved_nonce g"
  "saved_nonce (save (\<lambda>d. d\<lparr>du_unevaluableSince := u\<rparr>) g) = saved_nonce g"
  "saved_nonce (save (\<lambda>d. d\<lparr>du_nextNonce := Some n\<rparr>) g) = map_option (\<lambda>_. n) (ga_state g)"
  by (cases "ga_state g"; simp add: saved_nonce_def)+

lemma saved_nonce_update [simp]:
  "saved_nonce (g\<lparr>ga_audit := a\<rparr>) = saved_nonce g" "saved_nonce (g\<lparr>ga_nextNonce := n\<rparr>) = saved_nonce g"
  "saved_nonce (g\<lparr>ga_unevaluableSince := u\<rparr>) = saved_nonce g" "saved_nonce (g\<lparr>ga_clearedEpochs := cl\<rparr>) = saved_nonce g"
  "saved_nonce (g\<lparr>ga_chain := c\<rparr>) = saved_nonce g" "saved_nonce (g\<lparr>ga_metrics := ms\<rparr>) = saved_nonce g"
  by (simp_all add: saved_nonce_def)

text \<open>Everything that is true when the gate hands out a permit.\<close>

definition permit_justified :: "'c gate_env \<Rightarrow> event list \<Rightarrow> permit_options \<Rightarrow> 'c gate \<Rightarrow> signed_permit \<Rightarrow> bool" where
  "permit_justified env es opts g sp \<longleftrightarrow>
     rp_roomClosedSequence (ge_port env) (ga_chain g) = Inr 0
     \<and> snd (isSuspendedOnChain (ge_port env) (ensure_loaded g)) = Inr False
     \<and> (\<forall>nowMs. po_nowMs opts = Some nowMs \<longrightarrow>
          \<not> age_exceeds (freshnessAgeMs (last_opt es) nowMs) (gc_freshnessThresholdMs (ge_config env)))
     \<and> evaluate_now env es (po_conditionDocument opts) None False = Undecided
     \<and> (\<forall>catalog. ge_catalog env = Some catalog \<longrightarrow>
          returns (assertQuestionMatches catalog (po_templateId opts) (po_params opts)
            (Option.bind (po_request opts) rq_question)))
     \<and> (\<exists>request ph. po_request opts = Some request
          \<and> params_hash (ge_hash env) (po_templateId opts) (po_params opts) = Inr ph
          \<and> conditionHash (ge_hash env) (po_conditionDocument opts) = Inr (pm_conditionHash (sp_permit sp))
          \<and> slotRequestHash (ge_abi env) request ph (pm_conditionHash (sp_permit sp)) (po_restricted opts)
              = Inr (pm_requestHash (sp_permit sp))
          \<and> sp_templateParamsHash sp = ph)
     \<and> pm_undecidedThroughSequence (sp_permit sp) = tipSeq es
     \<and> pm_slotIndex (sp_permit sp) = po_slotIndex opts
     \<and> pm_expiresAt (sp_permit sp) - pm_issuedAt (sp_permit sp) = gc_maxPermitLifetimeS (ge_config env)
     \<and> pm_nonce (sp_permit sp) = next_nonce g
     \<and> sp_signature sp = ge_sign env (sp_permit sp)"

lemma sign_permit_signed:
  assumes "sign_permit env es opts condHash paramsHash g = (g', Inr (Inr sp))"
  shows "\<exists>request. po_request opts = Some request
      \<and> slotRequestHash (ge_abi env) request paramsHash condHash (po_restricted opts) = Inr (pm_requestHash (sp_permit sp))"
    "pm_conditionHash (sp_permit sp) = condHash" "sp_templateParamsHash sp = paramsHash"
    "pm_undecidedThroughSequence (sp_permit sp) = tipSeq es" "pm_slotIndex (sp_permit sp) = po_slotIndex opts"
    "pm_expiresAt (sp_permit sp) - pm_issuedAt (sp_permit sp) = gc_maxPermitLifetimeS (ge_config env)"
    "pm_nonce (sp_permit sp) = ga_nextNonce g" "ga_nextNonce g' = ga_nextNonce g + 1"
    "ga_loaded g' = ga_loaded g" "saved_nonce g' = map_option (\<lambda>_. ga_nextNonce g + 1) (ga_state g)"
    "ga_chain g' = ga_chain g" "sp_signature sp = ge_sign env (sp_permit sp)"
  using assms
  by (auto simp: sign_permit_def bind_act_def log_entry_run Let_def saved_nonce_def save_def comp_def option.map_comp result_simps
      split: option.splits sum.splits prod.splits)

lemma refuse_never_signs [simp]: "refuse x r g \<noteq> (g', Inr (Inr sp))"
  by (simp add: refuse_def bind_act_def log_entry_run)

lemma requestPermit_signed:
  assumes "requestPermit env es opts g = (g', Inr (Inr sp))"
  shows "permit_justified env es opts g sp"
    "ga_loaded g'" "ga_nextNonce g' = next_nonce g + 1"
    "saved_nonce g' = map_option (\<lambda>_. next_nonce g + 1) (ga_state g)" "ga_chain g' = ga_chain g"
proof -
  let ?g = "ensure_loaded g"
  obtain ch where ch: "conditionHash (ge_hash env) (po_conditionDocument opts) = Inr ch"
    using assms by (cases "conditionHash (ge_hash env) (po_conditionDocument opts)")
      (simp_all add: requestPermit_def Let_def bind_act_def)
  obtain ph where ph: "params_hash (ge_hash env) (po_templateId opts) (po_params opts) = Inr ph"
    using assms ch by (cases "params_hash (ge_hash env) (po_templateId opts) (po_params opts)")
      (simp_all add: requestPermit_def Let_def bind_act_def)
  obtain n where n: "rp_roomClosedSequence (ge_port env) (ga_chain g) = Inr n"
    using assms ch ph by (cases "rp_roomClosedSequence (ge_port env) (ga_chain g)")
      (simp_all add: requestPermit_def Let_def bind_act_def ask_def next_nonce_loaded)
  have open_room: "n = 0"
    using assms ch ph n
    by (auto simp: requestPermit_def Let_def bind_act_def ask_def next_nonce_loaded split: if_splits)
  have same: "fst (isSuspendedOnChain (ge_port env) ?g) = ?g"
    by (simp add: isSuspendedOnChain_reads [unfolded reads_def, rule_format])
  obtain b where b: "isSuspendedOnChain (ge_port env) ?g = (?g, Inr b)"
    using assms ch ph n open_room same by (cases "isSuspendedOnChain (ge_port env) ?g"; cases "snd (isSuspendedOnChain (ge_port env) ?g)")
      (simp_all add: requestPermit_def Let_def bind_act_def ask_def next_nonce_loaded)
  have run: "requestPermit env es opts g =
      (if b then refuse (AuditRefusedSuspended (po_slotIndex opts)) RoomSuspended
       else case case po_nowMs opts of None \<Rightarrow> None
              | Some nowMs \<Rightarrow> if age_exceeds (freshnessAgeMs (last_opt es) nowMs) (gc_freshnessThresholdMs (ge_config env))
                              then Some (freshnessAgeMs (last_opt es) nowMs) else None of
            Some age \<Rightarrow> refuse (AuditRefusedStale age (po_slotIndex opts)) (SourceStale age)
          | None \<Rightarrow>
              if evaluate_now env es (po_conditionDocument opts) None False \<noteq> Undecided
              then refuse (AuditRefusedCondition (evaluate_now env es (po_conditionDocument opts) None False) (tipSeq es) ch
                     (po_slotIndex opts)) (ConditionNotOpen (evaluate_now env es (po_conditionDocument opts) None False))
              else case case ge_catalog env of None \<Rightarrow> Inr []
                     | Some catalog \<Rightarrow> assertQuestionMatches catalog (po_templateId opts) (po_params opts)
                         (Option.bind (po_request opts) rq_question) of
                   Inl err \<Rightarrow> refuse (AuditRefusedQuestion (po_slotIndex opts)) (QuestionNotRule err)
                 | Inr _ \<Rightarrow> sign_permit env es opts ch ph) ?g"
    unfolding requestPermit_def Let_def
    by (simp add: bind_act_def ask_def next_nonce_loaded ch ph n open_room b)
  note rest = assms [unfolded run]
  have nb: "\<not> b" using rest refuse_never_signs by (auto split: if_splits)
  have fresh: "\<forall>nowMs. po_nowMs opts = Some nowMs \<longrightarrow>
      \<not> age_exceeds (freshnessAgeMs (last_opt es) nowMs) (gc_freshnessThresholdMs (ge_config env))"
    using rest nb refuse_never_signs by (auto split: if_splits)
  then have stale: "(case po_nowMs opts of None \<Rightarrow> None
      | Some nowMs \<Rightarrow> if age_exceeds (freshnessAgeMs (last_opt es) nowMs) (gc_freshnessThresholdMs (ge_config env))
                      then Some (freshnessAgeMs (last_opt es) nowMs) else None) = None"
    by (auto split: option.splits)
  note rest = rest [unfolded stale, simplified nb, simplified]
  have undecided: "evaluate_now env es (po_conditionDocument opts) None False = Undecided"
    using rest refuse_never_signs by (auto split: if_splits)
  let ?question = "\<lambda>catalog. assertQuestionMatches catalog (po_templateId opts) (po_params opts)
      (Option.bind (po_request opts) rq_question)"
  have question: "\<forall>catalog. ge_catalog env = Some catalog \<longrightarrow> returns (?question catalog)"
    using rest undecided refuse_never_signs by (auto simp: returns_def split: sum.splits option.splits)
  have sign: "sign_permit env es opts ch ph ?g = (g', Inr (Inr sp))"
    using rest undecided refuse_never_signs by (auto split: sum.splits option.splits)
  note signed = sign_permit_signed [OF sign]
  show "permit_justified env es opts g sp"
    unfolding permit_justified_def
    using n open_room b nb fresh undecided question signed(1-7,12) ch ph by (auto simp: next_nonce_loaded)
  show "ga_loaded g'" "ga_nextNonce g' = next_nonce g + 1"
    "saved_nonce g' = map_option (\<lambda>_. next_nonce g + 1) (ga_state g)" "ga_chain g' = ga_chain g"
    using signed(7-11) by (simp_all add: next_nonce_loaded)
qed

end
