(* ===== verification/GateNonces.thy ===== *)
theory GateNonces
  imports GatePermits
begin

section \<open>Nonces never repeat, whatever happens to the process\<close>

text \<open>
  The counter the gate signs from, in memory once loaded and in the durable store before that.
  No tick and no refused request moves it, and a restart reads back what the last permit saved.
\<close>

definition nonce_saved :: "'c gate \<Rightarrow> bool" where
  "nonce_saved g \<longleftrightarrow> ga_state g \<noteq> None \<and> (ga_loaded g \<longrightarrow> saved_nonce g = Some (ga_nextNonce g))"

definition nonce_kept :: "'c gate \<Rightarrow> 'c gate \<Rightarrow> bool" where
  "nonce_kept g g' \<longleftrightarrow> (nonce_saved g \<longrightarrow> nonce_saved g' \<and> next_nonce g' = next_nonce g)"

interpretation kept: preorder_on nonce_kept
  by unfold_locales (auto simp: nonce_kept_def)

lemma kept_ensure_loaded [only_intros]: "only nonce_kept (modify ensure_loaded)"
  by (rule kept.only_modify)
    (auto simp: nonce_kept_def nonce_saved_def next_nonce_loaded, auto simp: next_nonce_def saved_nonce_def)

lemma nonce_keptI:
  assumes "ga_loaded g' = ga_loaded g" "ga_nextNonce g' = ga_nextNonce g" "saved_nonce g' = saved_nonce g"
    "ga_state g' = None \<longleftrightarrow> ga_state g = None"
  shows "nonce_kept g g'"
  using assms by (simp add: nonce_kept_def nonce_saved_def next_nonce_def)

lemma kept_ask [only_intros]: "only nonce_kept (ask q)" "only nonce_kept (ask_opt r)"
  by (auto simp: only_def ask_def ask_opt_def nonce_kept_def split: option.splits)

lemma kept_send [only_intros]: "only nonce_kept (send f)"
  by (auto simp: only_def send_def Let_def intro!: nonce_keptI split: prod.splits)

lemma kept_log [only_intros]: "only nonce_kept (log_entry x)"
  by (auto simp: only_def log_entry_run intro!: nonce_keptI)

lemma kept_updates [only_intros]:
  "only nonce_kept (modify (add_cleared m e))"
  "only nonce_kept (modify (\<lambda>g. save_unevaluable (g\<lparr>ga_unevaluableSince := f g\<rparr>)))"
  "only nonce_kept (modify (\<lambda>g. if p g then g else g\<lparr>ga_clearedEpochs := cl g\<rparr>))"
  "only nonce_kept (modify (\<lambda>g. g\<lparr>ga_metrics := ms g\<rparr>))"
  "only nonce_kept (modify (\<lambda>g. case x of None \<Rightarrow> g | Some at \<Rightarrow> g\<lparr>ga_metrics := mt at g\<rparr>))"
  by (auto intro!: kept.only_modify nonce_keptI simp: add_cleared_def save_unevaluable_def split: option.splits if_splits)

lemma kept_conditionFor [only_intros]: "only nonce_kept (conditionFor m)"
  unfolding conditionFor_def by (intro only_intros) (auto split: option.splits intro!: only_intros)

lemma kept_unevaluable [only_intros]:
  "only nonce_kept (markUnevaluable m n r)" "only nonce_kept (clearUnevaluable m)"
  unfolding markUnevaluable_def clearUnevaluable_def by (intro only_intros)+

lemma kept_suspension [only_intros]:
  "only nonce_kept (isSuspendedOnChain port)" "only nonce_kept (everyOpenSlotSuspended port)"
  "only nonce_kept (roomSequence port n)" "only nonce_kept (closingSequence port n)"
  unfolding isSuspendedOnChain_def everyOpenSlotSuspended_def roomSequence_def closingSequence_def
  by (auto split: option.splits intro!: only_intros)

lemma kept_gate_actions [only_intros]:
  "only nonce_kept (suspend port es r)" "only nonce_kept (reopen port es)"
  "only nonce_kept (drain_slot port s)" "only nonce_kept (close_decided port xs)"
  unfolding suspend_def reopen_def drain_slot_def close_decided_def
  by (auto split: option.splits prod.splits intro!: only_intros)

lemma kept_drain [only_intros]: "only nonce_kept (drainClosedEpochs port)"
  unfolding drainClosedEpochs_def Let_def by (auto split: option.splits prod.splits intro!: only_intros)

lemma kept_afterClose [only_intros]: "only nonce_kept (afterClose port)"
  unfolding afterClose_def by (auto intro!: only_intros)

lemma kept_epochs [only_intros]:
  "only nonce_kept (is_candidate port cfg n tip m e)" "only nonce_kept (confirm_epoch port n me)"
  unfolding is_candidate_def confirm_epoch_def by (auto split: option.splits prod.splits intro!: only_intros)

lemma kept_choose [only_intros]: "only nonce_kept (choose_epoch env es n s)"
  unfolding choose_epoch_def Let_def by (auto split: option.splits prod.splits list.splits intro!: only_intros)

lemma kept_clear [only_intros]: "only nonce_kept (clearCompletedEpochs env es n)"
  unfolding clearCompletedEpochs_def markAndProcess_def Let_def by (auto intro!: only_intros)

lemma kept_decide [only_intros]:
  "only nonce_kept (decide_headline env es n open h)" "only nonce_kept (decide_micro env es n ho s)"
  unfolding decide_headline_def decide_micro_def Let_def
  by (auto split: option.splits decision.splits intro!: only_intros)

lemma kept_tick: "only nonce_kept (tick env es n)"
  unfolding tick_def Let_def by (auto split: option.splits intro!: only_intros)

subsection \<open>A permit request keeps the counter or signs with it\<close>

definition kept_or_signs :: "'c gate_env \<Rightarrow> event list \<Rightarrow> permit_options \<Rightarrow> ('c, refusal + signed_permit) gate_action \<Rightarrow> bool" where
  "kept_or_signs env es opts m \<longleftrightarrow>
     (\<forall>g. nonce_kept g (fst (m g)) \<or> (\<exists>h ch ph. nonce_kept g h \<and> m g = sign_permit env es opts ch ph h))"

lemma kept_or_signs_intros:
  "only nonce_kept m \<Longrightarrow> kept_or_signs env es opts m"
  "kept_or_signs env es opts (sign_permit env es opts ch ph)"
  by (auto simp: kept_or_signs_def only_def intro: kept.refl)

lemma kept_or_signs_bind:
  assumes "only nonce_kept m" "\<And>x. kept_or_signs env es opts (f x)"
  shows "kept_or_signs env es opts (bind_act m f)"
  unfolding kept_or_signs_def
proof
  fix g
  obtain h r where run: "m g = (h, r)" by fastforce
  with assms(1) have kept: "nonce_kept g h" by (auto simp: only_def dest: spec [of _ g])
  show "nonce_kept g (fst (bind_act m f g)) \<or> (\<exists>h ch ph. nonce_kept g h \<and> bind_act m f g = sign_permit env es opts ch ph h)"
  proof (cases r)
    case (Inl e)
    with run kept show ?thesis by (simp add: bind_act_def)
  next
    case (Inr x)
    with assms(2) [unfolded kept_or_signs_def, rule_format, of h x] run kept kept.trans [OF kept]
    show ?thesis by (auto simp: bind_act_def)
  qed
qed

lemma kept_refuse [only_intros]: "only nonce_kept (refuse x r)"
  unfolding refuse_def by (intro only_intros)

lemma requestPermit_kept_or_signs: "kept_or_signs env es opts (requestPermit env es opts)"
  unfolding requestPermit_def Let_def
  by (auto split: option.splits sum.splits
      intro!: kept_or_signs_bind kept_or_signs_intros(2) kept_or_signs_intros(1) [OF kept_refuse] only_intros)

lemma requestPermit_unsigned:
  assumes "requestPermit env es opts g = (g', r)" "\<And>sp. r \<noteq> Inr (Inr sp)"
  shows "nonce_kept g g'"
proof -
  from requestPermit_kept_or_signs [of env es opts, unfolded kept_or_signs_def, rule_format, of g] assms(1)
  consider "nonce_kept g g'" | h ch ph where "nonce_kept g h" "sign_permit env es opts ch ph h = (g', r)" by auto
  then show ?thesis
  proof cases
    case 2
    with assms(2) have "g' = h"
      by (auto simp: sign_permit_def bind_act_def log_entry_run Let_def split: option.splits sum.splits)
    with 2 show ?thesis by simp
  qed simp
qed

subsection \<open>The life of a gate\<close>

text \<open>
  One thing that happens to the gate of a room, and the nonces it hands out: a tick or a permit
  request, to the end or to a throw; the chain, the conditions or the headline changed by
  others; the process gone and a new one started on the same durable state.
\<close>

inductive gate_step :: "'c gate \<Rightarrow> int list \<Rightarrow> 'c gate \<Rightarrow> bool" where
  ticked: "tick env es nowMs g = (g', r) \<Longrightarrow> gate_step g [] g'"
| signed: "requestPermit env es opts g = (g', Inr (Inr sp)) \<Longrightarrow> gate_step g [pm_nonce (sp_permit sp)] g'"
| unsigned: "requestPermit env es opts g = (g', r) \<Longrightarrow> (\<And>sp. r \<noteq> Inr (Inr sp)) \<Longrightarrow> gate_step g [] g'"
| outside: "gate_step g [] (g\<lparr>ga_chain := c, ga_conditions := docs, ga_headlineMarket := hm\<rparr>)"
| restarted: "gate_step g [] (new_gate docs hm (ga_state g) metrics c)"

inductive_cases gate_stepE: "gate_step g ns g'"

inductive gate_run :: "'c gate \<Rightarrow> int list \<Rightarrow> 'c gate \<Rightarrow> bool" where
  start: "gate_run g [] g"
| more: "gate_run g ns g' \<Longrightarrow> gate_step g' ms g'' \<Longrightarrow> gate_run g (ns @ ms) g''"

lemma gate_step_nonces:
  assumes "gate_step g ms g'" "nonce_saved g"
  shows "nonce_saved g' \<and> (ms = [] \<and> next_nonce g' = next_nonce g
    \<or> ms = [next_nonce g] \<and> next_nonce g' = next_nonce g + 1)"
  using assms(1)
proof cases
  case (ticked env es nowMs r)
  with onlyD [OF kept_tick ticked(2)] assms(2) show ?thesis by (simp add: nonce_kept_def)
next
  case (signed env es opts sp)
  with requestPermit_signed [OF signed(2)] assms(2) show ?thesis
    by (auto simp: nonce_saved_def next_nonce_def permit_justified_def saved_nonce_def)
next
  case (unsigned env es opts r)
  with requestPermit_unsigned [OF unsigned(2,3)] assms(2) show ?thesis by (simp add: nonce_kept_def)
next
  case (outside c docs hm)
  with assms(2) show ?thesis by (simp add: nonce_saved_def next_nonce_def saved_nonce_def)
next
  case (restarted docs hm metrics c)
  with assms(2) show ?thesis
    by (auto simp: nonce_saved_def next_nonce_def saved_nonce_def new_gate_def)
qed

text \<open>C21: permit nonces never repeat. Over any sequence of ticks, signed and refused
  permit requests, outside changes and restarts on the same durable state, the nonces handed out
  are strictly increasing, all between the first and the last counter.\<close>

lemma gate_run_nonces:
  assumes "gate_run g ns g'" "nonce_saved g"
  shows "nonce_saved g' \<and> sorted_wrt (<) ns \<and> (\<forall>n \<in> set ns. next_nonce g \<le> n \<and> n < next_nonce g')
    \<and> next_nonce g \<le> next_nonce g'"
  using assms
proof (induction rule: gate_run.induct)
  case (more g ns g' ms g'')
  with gate_step_nonces [OF more.hyps(2)] show ?case by (fastforce simp: sorted_wrt_append)
qed simp

end
