(* ===== verification/PublicationFlow.thy ===== *)
theory PublicationFlow
  imports Publication GateNonces
begin

section \<open>The life of a publication request\<close>

text \<open>
  The publisher and the permit server each take rows of the queue and write one row per call.
  The locale \<open>queue_worker\<close> states that contract once and derives what a pass over many rows
  does; the publisher's two passes and the server's pass are its interpretations.
\<close>

subsection \<open>Rows and their numbers\<close>

definition well_numbered :: "pub_queue \<Rightarrow> bool" where
  "well_numbered q \<longleftrightarrow> distinct (map pr_id (pq_rows q)) \<and> (\<forall>r \<in> set (pq_rows q). pr_id r \<le> pq_lastId q)"

lemma pq_get_row:
  assumes "well_numbered q"
  shows "pq_get q i = Some r \<longleftrightarrow> r \<in> set (pq_rows q) \<and> pr_id r = i"
proof
  assume "pq_get q i = Some r"
  then show "r \<in> set (pq_rows q) \<and> pr_id r = i" by (auto simp: pq_get_def find_Some_iff)
next
  assume r: "r \<in> set (pq_rows q) \<and> pr_id r = i"
  then have "List.find (\<lambda>x. pr_id x = i) (pq_rows q) \<noteq> None" by (auto simp: find_None_iff)
  then obtain x where x: "List.find (\<lambda>x. pr_id x = i) (pq_rows q) = Some x" by auto
  then have "x \<in> set (pq_rows q)" "pr_id x = i" by (auto simp: find_Some_iff)
  with r assms have "x = r" by (auto simp: well_numbered_def distinct_map inj_on_def)
  with x show "pq_get q i = Some r" by (simp add: pq_get_def)
qed

lemma put_row_same: "well_numbered q \<Longrightarrow> r \<in> set (pq_rows q) \<Longrightarrow> put_row q r = q"
  by (auto simp: put_row_def well_numbered_def distinct_map inj_on_def intro!: pub_queue.equality map_idI)

lemma put_row_ids: "map pr_id (pq_rows (put_row q r)) = map pr_id (pq_rows q)" "pq_lastId (put_row q r) = pq_lastId q"
  by (auto simp: put_row_def)

lemma put_row_numbered:
  assumes "well_numbered q"
  shows "well_numbered (put_row q r)"
proof -
  have "pr_id x \<in> pr_id ` set (pq_rows q)" if "x \<in> set (pq_rows (put_row q r))" for x
    using that arg_cong [where f = set, OF put_row_ids(1) [of q r]] by force
  then show ?thesis
    using assms put_row_ids [of q r] by (fastforce simp: well_numbered_def)
qed

lemma put_row_rows:
  assumes "well_numbered q" "r \<in> set (pq_rows q)" "pr_id r' = pr_id r"
  shows "set (pq_rows (put_row q r')) = insert r' (set (pq_rows q) - {r})"
  using assms by (auto simp: put_row_def well_numbered_def distinct_map inj_on_def)

lemma transition_at:
  assumes "pq_get q i = Some r"
  shows "transition q i st patch at =
    Inr (put_row q ((patch r)\<lparr>pr_status := st, pr_updatedAt := at\<rparr>), (patch r)\<lparr>pr_status := st, pr_updatedAt := at\<rparr>)"
  using assms by (simp add: transition_def Let_def)

subsection \<open>Workers over the queue\<close>

locale queue_worker =
  fixes queue_of :: "'s \<Rightarrow> pub_queue" and work :: "pub_request \<Rightarrow> ('s, queue_error, 'a) action"
    and takes :: "pub_request \<Rightarrow> bool" and step :: "pub_request \<Rightarrow> pub_request \<Rightarrow> bool" and inv :: "'s \<Rightarrow> bool"
  assumes works: "inv s \<Longrightarrow> well_numbered (queue_of s) \<Longrightarrow> pq_get (queue_of s) (pr_id r) = Some r \<Longrightarrow> takes r \<Longrightarrow>
      \<exists>s' y r'. work r s = (s', Inr y) \<and> queue_of s' = put_row (queue_of s) r' \<and> pr_id r' = pr_id r
        \<and> step r r' \<and> inv s'"
begin

lemma work_all:
  assumes "inv s" "well_numbered (queue_of s)" "set rs \<subseteq> set (pq_rows (queue_of s))" "distinct (map pr_id rs)"
    and "\<forall>r \<in> set rs. takes r"
  shows "\<exists>s' ys f. map_act work rs s = (s', Inr ys) \<and> inv s'
    \<and> pq_rows (queue_of s') = map f (pq_rows (queue_of s)) \<and> pq_lastId (queue_of s') = pq_lastId (queue_of s)
    \<and> (\<forall>r. pr_id (f r) = pr_id r) \<and> (\<forall>r \<in> set (pq_rows (queue_of s)). if r \<in> set rs then step r (f r) else f r = r)"
  using assms
proof (induction rs arbitrary: s)
  case Nil
  then show ?case by (intro exI [of _ s] exI [of _ "[]"] exI [of _ id]) (simp add: ret_def)
next
  case (Cons r rs)
  have row: "r \<in> set (pq_rows (queue_of s))" using Cons.prems(3) by simp
  then have "pq_get (queue_of s) (pr_id r) = Some r" using Cons.prems(2) by (simp add: pq_get_row)
  then obtain s1 y r' where r': "work r s = (s1, Inr y)" "queue_of s1 = put_row (queue_of s) r'" "pr_id r' = pr_id r"
      "step r r'" "inv s1"
    using works [OF Cons.prems(1,2)] Cons.prems(5) by fastforce
  have numbered: "well_numbered (queue_of s1)" using r'(2) Cons.prems(2) by (simp add: put_row_numbered)
  have rows: "pq_rows (queue_of s1) = map (\<lambda>x. if pr_id x = pr_id r then r' else x) (pq_rows (queue_of s))"
    using r'(2,3) by (simp add: put_row_def)
  have fresh: "pr_id x \<noteq> pr_id r" if "x \<in> set rs" for x
    using that Cons.prems(4) by (simp, metis imageI)
  then have others: "x \<noteq> r'" if "x \<in> set rs" for x using that r'(3) by metis
  have "set rs \<subseteq> set (pq_rows (queue_of s1))"
  proof
    fix x assume x: "x \<in> set rs"
    then have "x \<in> set (pq_rows (queue_of s))" "pr_id x \<noteq> pr_id r" using Cons.prems(3) fresh by auto
    then show "x \<in> set (pq_rows (queue_of s1))" by (simp add: rows rev_image_eqI)
  qed
  from Cons.IH [OF r'(5) numbered this] Cons.prems(4,5) obtain s2 ys f where f: "map_act work rs s1 = (s2, Inr ys)" "inv s2"
      "pq_rows (queue_of s2) = map f (pq_rows (queue_of s1))" "pq_lastId (queue_of s2) = pq_lastId (queue_of s1)"
      "\<forall>x. pr_id (f x) = pr_id x" "\<forall>x \<in> set (pq_rows (queue_of s1)). if x \<in> set rs then step x (f x) else f x = x"
    by auto
  define g where "g = (\<lambda>x. if pr_id x = pr_id r then r' else f x)"
  have r'_row: "r' \<in> set (pq_rows (queue_of s1))" using row by (auto simp: rows)
  then have fr': "f r' = r'" using f(6) others by metis
  have "pq_rows (queue_of s2) = map g (pq_rows (queue_of s))"
    using f(3) by (auto simp: rows g_def fr')
  moreover have "pr_id (g x) = pr_id x" for x using f(5) r'(3) by (simp add: g_def)
  moreover have "if x \<in> set (r # rs) then step x (g x) else g x = x" if x: "x \<in> set (pq_rows (queue_of s))" for x
  proof (cases "pr_id x = pr_id r")
    case True
    with x row Cons.prems(2) have "x = r" by (auto simp: well_numbered_def distinct_map inj_on_def)
    then show ?thesis using r'(4) by (simp add: g_def)
  next
    case False
    with x have "x \<in> set (pq_rows (queue_of s1))" by (simp add: rows rev_image_eqI)
    with f(6) False show ?thesis by (auto simp: g_def)
  qed
  moreover have "map_act work (r # rs) s = (s2, Inr (y # ys))"
    using r'(1) f(1) by (simp add: bind_act_run ret_def)
  moreover have "pq_lastId (queue_of s2) = pq_lastId (queue_of s)" using f(4) r'(2) by (simp add: put_row_ids)
  ultimately show ?case using f(2) by blast
qed

end

subsection \<open>How a row may change\<close>

definition terminal :: "pub_status \<Rightarrow> bool" where
  "terminal st \<longleftrightarrow> st \<notin> set PUBLICATION_OPEN_STATUSES"

definition status_le :: "pub_status \<Rightarrow> pub_status \<Rightarrow> bool" where
  "status_le st st' \<longleftrightarrow> st = st' \<or> st = Queued \<or> (\<not> terminal st \<and> st' \<noteq> Queued \<and> st' \<noteq> Rejected)"

definition row_le :: "pub_request \<Rightarrow> pub_request \<Rightarrow> bool" where
  "row_le r r' \<longleftrightarrow>
     pr_id r' = pr_id r \<and> pr_roomId r' = pr_roomId r \<and> pr_candidate r' = pr_candidate r \<and> pr_submittedAt r' = pr_submittedAt r
     \<and> status_le (pr_status r) (pr_status r') \<and> pr_attempts r \<le> pr_attempts r'
     \<and> (terminal (pr_status r) \<longrightarrow> r' = r)
     \<and> (pr_status r \<noteq> Queued \<longrightarrow> pr_conditionDocument r' = pr_conditionDocument r \<and> pr_restricted r' = pr_restricted r)"

lemma row_le_refl: "row_le r r"
  by (simp add: row_le_def status_le_def)

lemma row_le_trans: "row_le r r' \<Longrightarrow> row_le r' r'' \<Longrightarrow> row_le r r''"
  unfolding row_le_def status_le_def by auto

definition queue_le :: "pub_queue \<Rightarrow> pub_queue \<Rightarrow> bool" where
  "queue_le q q' \<longleftrightarrow> pq_lastId q \<le> pq_lastId q'
     \<and> list_all2 row_le (pq_rows q) (take (length (pq_rows q)) (pq_rows q'))"

lemma queue_le_map:
  assumes "pq_rows q' = map f (pq_rows q)" "pq_lastId q' = pq_lastId q" "\<forall>r \<in> set (pq_rows q). row_le r (f r)"
  shows "queue_le q q'"
  using assms by (simp add: queue_le_def list_all2_conv_all_nth)

interpretation queue_order: preorder_on queue_le
proof
  show "queue_le q q" for q by (simp add: queue_le_def list_all2_refl row_le_refl)
next
  fix q q' q'' assume le: "queue_le q q'" "queue_le q' q''"
  have len: "length (pq_rows q) \<le> length (pq_rows q')" "length (pq_rows q') \<le> length (pq_rows q'')"
    using le by (auto simp: queue_le_def dest!: list_all2_lengthD)
  have "row_le (pq_rows q ! i) (pq_rows q'' ! i)" if "i < length (pq_rows q)" for i
    using le that len by (auto simp: queue_le_def list_all2_conv_all_nth intro: row_le_trans)
  then show "queue_le q q''"
    using le len by (auto simp: queue_le_def list_all2_conv_all_nth)
qed

subsection \<open>What the rows of the queue carry\<close>

text \<open>
  A row past validation carries the document its catalogue rule builds from the question's
  parameters and a request that asks for exactly that question.
\<close>

definition as_asked :: "'c pub_env \<Rightarrow> pub_request \<Rightarrow> bool" where
  "as_asked env r \<longleftrightarrow> (\<exists>request doc ru delay.
     pr_request r = Some request \<and> pr_conditionDocument r = Some doc
     \<and> js_get (pe_catalog env) (ca_templateId (pr_candidate r)) = Some ru
     \<and> ru_buildCondition ru (ca_params (pr_candidate r)) = Inr doc
     \<and> pe_minAnnounceDelay env \<le> delay
     \<and> request\<lparr>rq_templateParamsHash := None, rq_conditionHash := None\<rparr> = slot_request_of ru (pr_candidate r) delay
     \<and> pr_restricted r = (case ca_restricted (pr_candidate r) of Some ws \<Rightarrow> ws | None \<Rightarrow> []))"

text \<open>A permit on a row is the gate's, for that row's request and document.\<close>

definition bound :: "'d gate_env \<Rightarrow> pub_request \<Rightarrow> permit \<Rightarrow> bool" where
  "bound ge r p \<longleftrightarrow> (\<exists>request doc ph.
     pr_request r = Some request \<and> pr_conditionDocument r = Some doc \<and> pr_signature r = Some (ge_sign ge p)
     \<and> params_hash (ge_hash ge) (ca_templateId (pr_candidate r)) (ca_params (pr_candidate r)) = Inr ph
     \<and> conditionHash (ge_hash ge) doc = Inr (pm_conditionHash p)
     \<and> rq_templateParamsHash request = Some ph \<and> rq_conditionHash request = Some (pm_conditionHash p)
     \<and> slotRequestHash (ge_abi ge) request ph (pm_conditionHash p) (pr_restricted r) = Inr (pm_requestHash p))"

definition row_ok :: "'c pub_env \<Rightarrow> 'd gate_env \<Rightarrow> pub_request \<Rightarrow> bool" where
  "row_ok env ge r \<longleftrightarrow>
     (pr_status r \<in> {AwaitingPermit, Permitted, Published} \<longrightarrow> as_asked env r)
     \<and> (pr_status r \<in> {Queued, AwaitingPermit} \<longrightarrow> pr_permit r = None)
     \<and> (pr_status r \<in> {Permitted, Published} \<longrightarrow> pr_permit r \<noteq> None)
     \<and> (\<forall>p. pr_permit r = Some p \<longrightarrow> bound ge r p)"

lemma slotRequestHash_bound [simp]:
  "slotRequestHash abi (bound_request request sp) = slotRequestHash abi request"
  by (intro ext) (simp add: slotRequestHash_def bound_request_def)

text \<open>What reads only the fields a write leaves alone stays true.\<close>

lemma row_congs:
  assumes "pr_candidate r' = pr_candidate r" "pr_request r' = pr_request r" "pr_restricted r' = pr_restricted r"
    "pr_conditionDocument r' = pr_conditionDocument r"
  shows "as_asked env r' = as_asked env r"
    and "pr_signature r' = pr_signature r \<Longrightarrow> bound ge r' p = bound ge r p"
  using assms by (simp_all add: as_asked_def bound_def)

subsection \<open>The publisher's passes\<close>

lemmas queue_writes = markAwaitingPermit_def markRejected_def markPermitted_def markRefused_def markPublished_def
  markFailed_def reopenForPermit_def

text \<open>A call that answers by one write.\<close>

lemma answer_with_run:
  assumes "w (pb_queue s) = Inr (q, r)"
  shows "answer_with i w s = (s\<lparr>pb_queue := q\<rparr>, Inr (answered i r))"
  using assms by (simp add: answer_with_def write_queue_def bind_act_run)

definition set_aside :: "pub_request \<Rightarrow> pub_request \<Rightarrow> bool" where
  "set_aside r r' \<longleftrightarrow>
     (pr_status r' = AwaitingPermit \<and> pr_permit r' = None \<or> pr_status r' = Failed \<and> pr_permit r' = pr_permit r)"

text \<open>How a submission ends: the row is published, left for another try, or failed for good.\<close>

definition submission_end :: "'c pub_env \<Rightarrow> pub_request \<Rightarrow> 'c \<Rightarrow> chain_failure + string \<Rightarrow> pub_request \<Rightarrow> bool" where
  "submission_end env r chain result r' \<longleftrightarrow> pr_permit r' = pr_permit r \<and> pr_request r' = pr_request r \<and>
     (case result of
        Inr market \<Rightarrow> pr_status r' = Published \<and> pr_market r' = Some market
      | Inl e \<Rightarrow>
          (case truthy_text (findLanded env r chain) of
             Some market \<Rightarrow> pr_status r' = Published \<and> pr_market r' = Some market
           | None \<Rightarrow> if isChainRefusal e then pr_status r' = Failed else r' = r))"

definition publish_end :: "'c pub_env \<Rightarrow> int \<Rightarrow> pub_request \<Rightarrow> 'c \<Rightarrow> 'c \<Rightarrow> pub_request \<Rightarrow> bool" where
  "publish_end env nowMs r chain chain' r' \<longleftrightarrow>
     (chain' = chain \<and> set_aside r r')
     \<or> (\<exists>p request result. pr_permit r = Some p \<and> pr_request r = Some request \<and> nowMs div 1000 < pm_expiresAt p
          \<and> (\<forall>n. slot_count_now env chain = Some n \<longrightarrow> pm_slotIndex p = n)
          \<and> pp_publishSlot (pe_port env) chain request p (pr_signature r) (pr_restricted r) = (chain', result)
          \<and> submission_end env r chain' result r')"

lemma submit_permit_works:
  assumes "pq_get (pb_queue s) (pr_id r) = Some r" "pr_status r = Permitted" "pr_permit r = Some p"
    "pr_request r = Some request" "well_numbered (pb_queue s)" "row_ok env ge r"
    and sent: "pp_publishSlot (pe_port env) (pb_chain s) request p (pr_signature r) (pr_restricted r) = (chain', result)"
  shows "\<exists>s' y r'. submit_permit env r p s = (s', Inr y) \<and> pb_queue s' = put_row (pb_queue s) r' \<and> row_le r r'
    \<and> row_ok env ge r' \<and> pb_chain s' = chain' \<and> submission_end env r chain' result r'"
proof -
  have same: "put_row (pb_queue s) r = pb_queue s"
    using assms(1,5) by (simp add: put_row_same pq_get_row)
  have ok: "as_asked env r" "bound ge r p" using assms(2,3,6) by (simp_all add: row_ok_def)
  define pub where "pub m = r\<lparr>pr_market := m, pr_reason := None, pr_status := Published, pr_updatedAt := pe_at env\<rparr>" for m
  define bad where "bad e = r\<lparr>pr_reason := Some e, pr_status := Failed, pr_updatedAt := pe_at env\<rparr>" for e
  have marks: "markPublished (pr_id r) m (pe_at env) (pb_queue s) = Inr (put_row (pb_queue s) (pub m), pub m)"
      "markFailed (pr_id r) e (pe_at env) (pb_queue s) = Inr (put_row (pb_queue s) (bad e), bad e)" for m e
    using assms(1) by (simp_all add: queue_writes transition_at pub_def bad_def)
  have le: "row_le r (pub m)" "row_le r (bad e)" for m e
    using assms(2) by (simp_all add: row_le_def status_le_def terminal_def PUBLICATION_OPEN_STATUSES_def pub_def bad_def)
  have oks: "row_ok env ge (pub m)" "row_ok env ge (bad e)" for m e
    using ok assms(3) row_congs(1) [of "pub m" r env] row_congs(2) [of "pub m" r ge] row_congs(2) [of "bad e" r ge]
    by (simp_all add: row_ok_def pub_def bad_def)
  let ?s = "s\<lparr>pb_chain := chain'\<rparr>"
  have run: "submit_permit env r p s =
      (case result of
         Inr market \<Rightarrow> (?s\<lparr>pb_queue := put_row (pb_queue s) (pub (Some market))\<rparr>, Inr (answered (pr_id r) (pub (Some market))))
       | Inl e \<Rightarrow>
           (case truthy_text (findLanded env r chain') of
              Some market \<Rightarrow> (?s\<lparr>pb_queue := put_row (pb_queue s) (pub (Some market))\<rparr>, Inr (answered (pr_id r) (pub (Some market))))
            | None \<Rightarrow>
                if isChainRefusal e then
                  (?s\<lparr>pb_queue := put_row (pb_queue s) (bad (ChainRefused (first_line (cx_text e))))\<rparr>,
                   Inr (answered (pr_id r) (bad (ChainRefused (first_line (cx_text e))))))
                else (?s, Inr \<lparr> pa_id = pr_id r, pa_status = pr_status r, pa_reason = None, pa_market = None,
                          pa_error = Some (first_line (cx_text e)) \<rparr>)))"
    using assms(4) sent
    by (simp add: submit_permit_def Let_def bind_act_run publish_call_def marks answer_with_run split: sum.split option.split)
  show ?thesis
  proof (cases result)
    case (Inr market)
    then show ?thesis using run le(1) oks(1) by (auto simp: submission_end_def pub_def)
  next
    case (Inl e)
    show ?thesis
    proof (cases "truthy_text (findLanded env r chain')")
      case (Some market)
      then show ?thesis using run le(1) oks(1) Inl by (auto simp: submission_end_def pub_def)
    next
      case None
      with run Inl le(2) oks(2) same assms(6) row_le_refl show ?thesis
        by (cases "isChainRefusal e") (auto simp: submission_end_def bad_def)
    qed
  qed
qed

lemma answer_reopen:
  assumes "pq_get (pb_queue s) (pr_id r) = Some r" "pr_status r = Permitted" "row_ok env ge r"
  shows "\<exists>s' y r'. answer_with (pr_id r) (reopenForPermit (pr_id r) why at) s = (s', Inr y) \<and> pb_queue s' = put_row (pb_queue s) r'
    \<and> row_le r r' \<and> row_ok env ge r' \<and> pb_chain s' = pb_chain s \<and> set_aside r r'"
proof -
  define r' where "r' = r\<lparr>pr_permit := None, pr_signature := None, pr_reason := Some why, pr_attempts := pr_attempts r + 1,
    pr_status := AwaitingPermit, pr_updatedAt := at\<rparr>"
  have "reopenForPermit (pr_id r) why at (pb_queue s) = Inr (put_row (pb_queue s) r', r')"
    using assms(1) by (simp add: reopenForPermit_def transition_at r'_def)
  note run = answer_with_run [where w = "reopenForPermit (pr_id r) why at", OF this]
  have "row_le r r'" "row_ok env ge r'" "set_aside r r'"
    using assms(2,3) row_congs(1) [of r' r env]
    by (simp_all add: row_le_def status_le_def terminal_def PUBLICATION_OPEN_STATUSES_def row_ok_def set_aside_def r'_def)
  with run show ?thesis by (intro exI [of _ "s\<lparr>pb_queue := put_row (pb_queue s) r'\<rparr>"] exI [of _ r'] exI) auto
qed

lemma answer_failed:
  assumes "pq_get (pb_queue s) (pr_id r) = Some r" "pr_status r = Permitted" "row_ok env ge r"
  shows "\<exists>s' y r'. answer_with (pr_id r) (markFailed (pr_id r) why at) s = (s', Inr y) \<and> pb_queue s' = put_row (pb_queue s) r'
    \<and> row_le r r' \<and> row_ok env ge r' \<and> pb_chain s' = pb_chain s \<and> set_aside r r'"
proof -
  define r' where "r' = r\<lparr>pr_reason := Some why, pr_status := Failed, pr_updatedAt := at\<rparr>"
  have "markFailed (pr_id r) why at (pb_queue s) = Inr (put_row (pb_queue s) r', r')"
    using assms(1) by (simp add: markFailed_def transition_at r'_def)
  note run = answer_with_run [where w = "markFailed (pr_id r) why at", OF this]
  have "row_le r r'" "row_ok env ge r'" "set_aside r r'"
    using assms(2,3) row_congs(2) [of r' r ge]
    by (simp_all add: row_le_def status_le_def terminal_def PUBLICATION_OPEN_STATUSES_def row_ok_def set_aside_def r'_def)
  with run show ?thesis by (intro exI [of _ "s\<lparr>pb_queue := put_row (pb_queue s) r'\<rparr>"] exI [of _ r'] exI) auto
qed

lemma publish_works:
  assumes "pq_get (pb_queue s) (pr_id r) = Some r" "pr_status r = Permitted" "well_numbered (pb_queue s)" "row_ok env ge r"
  shows "\<exists>s' y r'. publish env nowMs r s = (s', Inr y) \<and> pb_queue s' = put_row (pb_queue s) r' \<and> row_le r r'
    \<and> row_ok env ge r' \<and> publish_end env nowMs r (pb_chain s) (pb_chain s') r'"
proof -
  obtain p request where r: "pr_permit r = Some p" "pr_request r = Some request"
    using assms(2,4) by (auto simp: row_ok_def as_asked_def)
  obtain chain' result where sent:
      "pp_publishSlot (pe_port env) (pb_chain s) request p (pr_signature r) (pr_restricted r) = (chain', result)"
    by fastforce
  consider "pm_expiresAt p \<le> nowMs div 1000" "pr_attempts r + 1 \<ge> pe_maxPermitAttempts env"
    | "pm_expiresAt p \<le> nowMs div 1000" "\<not> pr_attempts r + 1 \<ge> pe_maxPermitAttempts env"
    | n where "nowMs div 1000 < pm_expiresAt p" "slot_count_now env (pb_chain s) = Some n" "pm_slotIndex p \<noteq> n"
    | "nowMs div 1000 < pm_expiresAt p" "\<forall>n. slot_count_now env (pb_chain s) = Some n \<longrightarrow> pm_slotIndex p = n"
    by fastforce
  then show ?thesis
  proof cases
    case 1
    then have "publish env nowMs r s = answer_with (pr_id r) (markFailed (pr_id r)
        (PermitExpired (nowMs div 1000 - pm_expiresAt p) (pr_attempts r + 1)) (pe_at env)) s"
      using r by (simp add: publish_def Let_def)
    then show ?thesis unfolding publish_end_def using answer_failed [OF assms(1,2,4)] by fastforce
  next
    case 2
    then have "publish env nowMs r s = answer_with (pr_id r) (reopenForPermit (pr_id r)
        (PermitExpiredAskAgain (nowMs div 1000 - pm_expiresAt p)) (pe_at env)) s"
      using r by (simp add: publish_def Let_def)
    then show ?thesis unfolding publish_end_def using answer_reopen [OF assms(1,2,4)] by fastforce
  next
    case 3
    then have "publish env nowMs r s = answer_with (pr_id r) (reopenForPermit (pr_id r)
        (PermitForOtherSlot (pm_slotIndex p) n) (pe_at env)) s"
      using r by (simp add: publish_def Let_def bind_act_run)
    then show ?thesis unfolding publish_end_def using answer_reopen [OF assms(1,2,4)] by fastforce
  next
    case 4
    then have "publish env nowMs r s = submit_permit env r p s"
      using r by (auto simp: publish_def Let_def bind_act_run split: option.split)
    moreover obtain s' y r' where "submit_permit env r p s = (s', Inr y)" "pb_queue s' = put_row (pb_queue s) r'" "row_le r r'"
        "row_ok env ge r'" "pb_chain s' = chain'" "submission_end env r chain' result r'"
      using submit_permit_works [OF assms(1,2) r assms(3,4) sent] by blast
    ultimately show ?thesis
      using 4 r sent by (intro exI [of _ s'] exI [of _ y] exI [of _ r']) (simp add: publish_end_def)
  qed
qed

text \<open>Reconciliation marks the rows whose permit the room has consumed, and only those.\<close>

definition reconciled :: "'c pub_env \<Rightarrow> 'c \<Rightarrow> pub_request \<Rightarrow> pub_request \<Rightarrow> bool" where
  "reconciled env chain r r' \<longleftrightarrow>
     (\<forall>p. pr_permit r = Some p \<longrightarrow>
        (if nonce_used env chain p then pr_status r' = Published \<and> pr_permit r' = Some p \<and> pr_request r' = pr_request r
           \<and> pr_market r' = findLanded env r chain
         else r' = r))"

lemma reconcile_works:
  assumes "pq_get (pb_queue s) (pr_id r) = Some r" "pr_status r = Permitted" "well_numbered (pb_queue s)" "row_ok env ge r"
  shows "\<exists>s' y r'. reconcile_one env r s = (s', Inr y) \<and> pb_queue s' = put_row (pb_queue s) r' \<and> row_le r r'
    \<and> row_ok env ge r' \<and> pb_chain s' = pb_chain s \<and> reconciled env (pb_chain s) r r'"
proof -
  obtain p where p: "pr_permit r = Some p" using assms(2,4) by (auto simp: row_ok_def)
  show ?thesis
  proof (cases "nonce_used env (pb_chain s) p")
    case False
    moreover have "put_row (pb_queue s) r = pb_queue s" using assms(1,3) by (simp add: put_row_same pq_get_row)
    ultimately show ?thesis
      using p assms(4) by (auto simp: reconcile_one_def bind_act_run reconciled_def row_le_refl)
  next
    case True
    let ?m = "findLanded env r (pb_chain s)"
    define r' where "r' = r\<lparr>pr_market := ?m, pr_reason := None, pr_status := Published, pr_updatedAt := pe_at env\<rparr>"
    have "markPublished (pr_id r) ?m (pe_at env) (pb_queue s) = Inr (put_row (pb_queue s) r', r')"
      using assms(1) by (simp add: markPublished_def transition_at r'_def)
    note run = answer_with_run [where w = "markPublished (pr_id r) ?m (pe_at env)", OF this]
    have "reconcile_one env r s = (s\<lparr>pb_queue := put_row (pb_queue s) r'\<rparr>, Inr (Some (answered (pr_id r) r')))"
      using p True run by (simp add: reconcile_one_def bind_act_run)
    moreover have "row_le r r'" "row_ok env ge r'" "reconciled env (pb_chain s) r r'"
      using assms(2,4) p True row_congs(1) [of r' r env] row_congs(2) [of r' r ge]
      by (simp_all add: row_le_def status_le_def terminal_def PUBLICATION_OPEN_STATUSES_def row_ok_def reconciled_def r'_def)
    ultimately show ?thesis by (intro exI conjI) (assumption | simp)+
  qed
qed

interpretation publishing: queue_worker pb_queue "publish env nowMs" "\<lambda>r. pr_status r = Permitted \<and> row_ok env ge r"
  "\<lambda>r r'. row_le r r' \<and> row_ok env ge r'" "\<lambda>s. True" for env nowMs ge
  by unfold_locales (use publish_works in \<open>fastforce simp: row_le_def\<close>)

interpretation reconciling: queue_worker pb_queue "reconcile_one env" "\<lambda>r. pr_status r = Permitted \<and> row_ok env ge r"
  "\<lambda>r r'. row_le r r' \<and> row_ok env ge r' \<and> reconciled env c r r'" "\<lambda>s. pb_chain s = c" for env ge c
  by unfold_locales (use reconcile_works in \<open>fastforce simp: row_le_def\<close>)

subsection \<open>Preparing a question\<close>

lemma prepare_works:
  assumes "pq_get (pb_queue s) (pr_id r) = Some r" "pr_status r = Queued" "row_ok env ge r"
  shows "\<exists>s' y r'. prepare env r s = (s', Inr y) \<and> pb_queue s' = put_row (pb_queue s) r' \<and> row_le r r' \<and> row_ok env ge r'
    \<and> pb_chain s' = pb_chain s \<and> pr_permit r' = None \<and> pr_status r' \<in> {Rejected, AwaitingPermit}"
proof -
  have none: "pr_permit r = None" using assms(2,3) by (simp add: row_ok_def)
  have reject: ?thesis if eq: "prepare env r s = answer_with (pr_id r) (markRejected (pr_id r) why (pe_at env)) s" for why
  proof -
    define r' where "r' = r\<lparr>pr_reason := Some why, pr_status := Rejected, pr_updatedAt := pe_at env\<rparr>"
    have "markRejected (pr_id r) why (pe_at env) (pb_queue s) = Inr (put_row (pb_queue s) r', r')"
      using assms(1) by (simp add: markRejected_def transition_at r'_def)
    note run = answer_with_run [where w = "markRejected (pr_id r) why (pe_at env)", OF this]
    have "row_le r r'" "row_ok env ge r'"
      using assms(2) none by (simp_all add: row_le_def status_le_def terminal_def PUBLICATION_OPEN_STATUSES_def row_ok_def r'_def)
    with run none show ?thesis unfolding eq
      by (intro exI [of _ "s\<lparr>pb_queue := put_row (pb_queue s) r'\<rparr>"] exI [of _ r'] exI) (auto simp: r'_def)
  qed
  show ?thesis
  proof (cases "js_get (pe_catalog env) (ca_templateId (pr_candidate r))")
    case None
    then show ?thesis by (intro reject) (simp add: prepare_def Let_def)
  next
    case (Some ru)
    define delay where "delay = (case ca_announceDelay (pr_candidate r) of Some d \<Rightarrow> d | None \<Rightarrow> pe_minAnnounceDelay env)"
    show ?thesis
    proof (cases "delay < pe_minAnnounceDelay env")
      case True
      with Some show ?thesis by (intro reject) (simp add: prepare_def Let_def delay_def)
    next
      case enough: False
      show ?thesis
      proof (cases "ru_buildCondition ru (ca_params (pr_candidate r))")
        case (Inl err)
        with Some enough show ?thesis by (intro reject [of "BadParams err"]) (simp add: prepare_def Let_def delay_def)
      next
        case (Inr doc)
        define request where "request = slot_request_of ru (pr_candidate r) delay"
        define ws where "ws = (case ca_restricted (pr_candidate r) of Some ws \<Rightarrow> ws | None \<Rightarrow> [])"
        define r' where "r' = r\<lparr>pr_request := Some request, pr_restricted := ws, pr_conditionDocument := Some doc,
          pr_permit := None, pr_signature := None, pr_reason := None, pr_status := AwaitingPermit, pr_updatedAt := pe_at env\<rparr>"
        have "markAwaitingPermit (pr_id r) request ws doc (pe_at env) (pb_queue s) = Inr (put_row (pb_queue s) r', r')"
          using assms(1) by (simp add: markAwaitingPermit_def transition_at r'_def)
        note run = answer_with_run [where w = "markAwaitingPermit (pr_id r) request ws doc (pe_at env)", OF this]
        have eq: "prepare env r s = answer_with (pr_id r) (markAwaitingPermit (pr_id r) request ws doc (pe_at env)) s"
          using Some enough Inr by (simp add: prepare_def Let_def delay_def request_def ws_def)
        have "as_asked env r'"
          using Some enough Inr
          by (intro as_asked_def [THEN iffD2] exI [of _ request] exI [of _ doc] exI [of _ ru] exI [of _ delay])
            (simp add: r'_def request_def slot_request_of_def ws_def)
        then have "row_le r r'" "row_ok env ge r'"
          using assms(2) by (simp_all add: row_le_def status_le_def terminal_def PUBLICATION_OPEN_STATUSES_def row_ok_def r'_def)
        with run show ?thesis unfolding eq
          by (intro exI [of _ "s\<lparr>pb_queue := put_row (pb_queue s) r'\<rparr>"] exI [of _ r'] exI) (auto simp: r'_def)
      qed
    qed
  qed
qed

subsection \<open>A publisher tick, on any chain\<close>

definition rows_ok :: "'c pub_env \<Rightarrow> 'd gate_env \<Rightarrow> pub_queue \<Rightarrow> bool" where
  "rows_ok env ge q \<longleftrightarrow> (\<forall>r \<in> set (all_requests q (pe_roomId env)). row_ok env ge r)"

lemma byStatus_rows:
  "r \<in> set (byStatus q room st) \<longleftrightarrow> r \<in> set (all_requests q room) \<and> pr_status r = st"
  by (auto simp: byStatus_def all_requests_def)

lemma byStatus_ids: "well_numbered q \<Longrightarrow> distinct (map pr_id (byStatus q room st))"
  by (auto simp: byStatus_def well_numbered_def distinct_map inj_on_def)

lemma pass_keeps:
  assumes "pq_rows q' = map f (pq_rows q)" "pq_lastId q' = pq_lastId q" "\<forall>r. pr_id (f r) = pr_id r" "well_numbered q"
    and "\<forall>r \<in> set (pq_rows q). row_le r (f r) \<and> (row_ok env ge r \<longrightarrow> row_ok env ge (f r))"
  shows "queue_le q q' \<and> well_numbered q' \<and> (rows_ok env ge q \<longrightarrow> rows_ok env ge q')"
proof -
  have ids: "map pr_id (pq_rows q') = map pr_id (pq_rows q)" using assms(1,3) by simp
  have "\<forall>r \<in> set (pq_rows q'). pr_id r \<le> pq_lastId q'" using assms(1-4) by (auto simp: well_numbered_def)
  then have "well_numbered q'" using assms(4) unfolding well_numbered_def ids by simp
  moreover have "rows_ok env ge q'" if "rows_ok env ge q"
    using that assms(1,5) by (auto simp: rows_ok_def all_requests_def row_le_def)
  ultimately show ?thesis using queue_le_map [OF assms(1,2)] assms(5) by blast
qed

lemma put_row_keeps:
  assumes "well_numbered q" "r \<in> set (pq_rows q)" "row_le r r'" "row_ok env ge r'"
  shows "queue_le q (put_row q r') \<and> well_numbered (put_row q r') \<and> (rows_ok env ge q \<longrightarrow> rows_ok env ge (put_row q r'))"
proof (rule pass_keeps)
  show "pq_rows (put_row q r') = map (\<lambda>x. if pr_id x = pr_id r' then r' else x) (pq_rows q)"
    by (simp add: put_row_def)
  show "\<forall>x \<in> set (pq_rows q). row_le x (if pr_id x = pr_id r' then r' else x)
      \<and> (row_ok env ge x \<longrightarrow> row_ok env ge (if pr_id x = pr_id r' then r' else x))"
  proof
    fix x assume x: "x \<in> set (pq_rows q)"
    have "pr_id r' = pr_id r" using assms(3) by (simp add: row_le_def)
    then have "x = r" if "pr_id x = pr_id r'"
      using that x assms(1,2) by (auto simp: well_numbered_def distinct_map inj_on_def)
    with assms(3,4) show "row_le x (if pr_id x = pr_id r' then r' else x)
      \<and> (row_ok env ge x \<longrightarrow> row_ok env ge (if pr_id x = pr_id r' then r' else x))"
      by (auto simp: row_le_refl)
  qed
qed (simp_all add: put_row_def assms(1))

lemma pass_from_worker:
  assumes "pq_rows q' = map f (pq_rows q)" "pq_lastId q' = pq_lastId q" "\<forall>r. pr_id (f r) = pr_id r" "well_numbered q"
    and "\<forall>r \<in> set (pq_rows q). if r \<in> set rs then row_le r (f r) \<and> row_ok env ge (f r) else f r = r"
  shows "queue_le q q' \<and> well_numbered q' \<and> (rows_ok env ge q \<longrightarrow> rows_ok env ge q')"
  using assms(5) by (intro pass_keeps [OF assms(1-4)]) (auto simp: row_le_refl split: if_splits)

lemma publish_pass:
  assumes "well_numbered (pb_queue s)" "rows_ok env ge (pb_queue s)"
  shows "\<exists>s' ys. map_act (publish env nowMs) (byStatus (pb_queue s) (pe_roomId env) Permitted) s = (s', Inr ys)
    \<and> queue_le (pb_queue s) (pb_queue s') \<and> well_numbered (pb_queue s') \<and> rows_ok env ge (pb_queue s')"
proof -
  let ?rs = "byStatus (pb_queue s) (pe_roomId env) Permitted"
  have "\<forall>r \<in> set ?rs. pr_status r = Permitted \<and> row_ok env ge r"
    using assms(2) by (auto simp: byStatus_rows rows_ok_def)
  moreover have "set ?rs \<subseteq> set (pq_rows (pb_queue s))" by (auto simp: byStatus_def)
  ultimately obtain s' ys f where f: "map_act (publish env nowMs) ?rs s = (s', Inr ys)"
      "pq_rows (pb_queue s') = map f (pq_rows (pb_queue s))" "pq_lastId (pb_queue s') = pq_lastId (pb_queue s)"
      "\<forall>r. pr_id (f r) = pr_id r"
      "\<forall>r \<in> set (pq_rows (pb_queue s)). if r \<in> set ?rs then row_le r (f r) \<and> row_ok env ge (f r) else f r = r"
    using publishing.work_all [of s ?rs env ge nowMs] assms(1) byStatus_ids [OF assms(1)] by fast
  from pass_from_worker [OF f(2-4) assms(1) f(5)] f(1) assms(2) show ?thesis by blast
qed

lemma reconcile_pass:
  assumes "well_numbered (pb_queue s)" "rows_ok env ge (pb_queue s)"
  shows "\<exists>s' xs f. reconcile env s = (s', Inr xs) \<and> pb_chain s' = pb_chain s
    \<and> queue_le (pb_queue s) (pb_queue s') \<and> well_numbered (pb_queue s') \<and> rows_ok env ge (pb_queue s')
    \<and> pq_rows (pb_queue s') = map f (pq_rows (pb_queue s))
    \<and> (\<forall>r \<in> set (pq_rows (pb_queue s)). if r \<in> set (byStatus (pb_queue s) (pe_roomId env) Permitted)
         then reconciled env (pb_chain s) r (f r) else f r = r)"
proof (cases "pp_usedNonce (pe_port env)")
  case None
  have "reconciled env (pb_chain s) r r" for r using None by (simp add: reconciled_def nonce_used_def)
  with None assms show ?thesis
    by (intro exI [of _ s] exI [of _ "[]"] exI [of _ id]) (auto simp: reconcile_def queue_order.refl)
next
  case (Some used)
  let ?rs = "byStatus (pb_queue s) (pe_roomId env) Permitted"
  have "\<forall>r \<in> set ?rs. pr_status r = Permitted \<and> row_ok env ge r"
    using assms(2) by (auto simp: byStatus_rows rows_ok_def)
  moreover have "set ?rs \<subseteq> set (pq_rows (pb_queue s))" by (auto simp: byStatus_def)
  ultimately obtain s' ys f where f: "map_act (reconcile_one env) ?rs s = (s', Inr ys)" "pb_chain s' = pb_chain s"
      "pq_rows (pb_queue s') = map f (pq_rows (pb_queue s))" "pq_lastId (pb_queue s') = pq_lastId (pb_queue s)"
      "\<forall>r. pr_id (f r) = pr_id r"
      "\<forall>r \<in> set (pq_rows (pb_queue s)). if r \<in> set ?rs
         then row_le r (f r) \<and> row_ok env ge (f r) \<and> reconciled env (pb_chain s) r (f r) else f r = r"
    using reconciling.work_all [of s "pb_chain s" ?rs env ge] assms(1) byStatus_ids [OF assms(1)] by fast
  have "\<forall>r \<in> set (pq_rows (pb_queue s)). if r \<in> set ?rs then row_le r (f r) \<and> row_ok env ge (f r) else f r = r"
    using f(6) by (auto split: if_splits)
  note kept = pass_from_worker [OF f(3-5) assms(1) this]
  have "reconcile env s = (s', Inr (List.map_filter id ys))"
    using Some f(1) by (simp add: reconcile_def permitted_now_def bind_act_run)
  with kept f(2,3,6) assms(2) show ?thesis by (auto split: if_splits)
qed

definition take_next :: "'c pub_env \<Rightarrow> pub_action list \<Rightarrow> ('c, pub_action list) pub_call" where
  "take_next env done = bind_act (gets pb_queue) (\<lambda>q.
     let inFlight = length (byStatus q (pe_roomId env) AwaitingPermit) + length (byStatus q (pe_roomId env) Permitted)
     in if inFlight = 0 then
          case byStatus q (pe_roomId env) Queued of
            [] \<Rightarrow> ret done
          | nxt # _ \<Rightarrow> bind_act (prepare env nxt) (\<lambda>x. ret (done @ [x]))
        else ret done)"

lemma publisher_tick_passes:
  "publisher_tick env nowMs = bind_act (reconcile env) (\<lambda>xs. bind_act (permitted_now env) (\<lambda>rs.
     bind_act (map_act (publish env nowMs) rs) (\<lambda>ys. take_next env (xs @ ys))))"
  unfolding publisher_tick_def take_next_def append_assoc by (rule refl)

text \<open>One question is taken in hand only when nothing is in flight, and taking it sends nothing.\<close>

lemma take_next_works:
  assumes "well_numbered (pb_queue s)" "rows_ok env ge (pb_queue s)"
  shows "\<exists>s' ys. take_next env xs s = (s', Inr ys) \<and> pb_chain s' = pb_chain s
    \<and> (pb_queue s' = pb_queue s \<or> (\<exists>r r'. r \<in> set (byStatus (pb_queue s) (pe_roomId env) Queued)
         \<and> byStatus (pb_queue s) (pe_roomId env) AwaitingPermit = [] \<and> byStatus (pb_queue s) (pe_roomId env) Permitted = []
         \<and> pb_queue s' = put_row (pb_queue s) r' \<and> row_le r r' \<and> row_ok env ge r' \<and> pr_permit r' = None
         \<and> pr_status r' \<in> {Rejected, AwaitingPermit}))"
proof -
  let ?q = "pb_queue s" and ?room = "pe_roomId env"
  show ?thesis
  proof (cases "byStatus ?q ?room AwaitingPermit = [] \<and> byStatus ?q ?room Permitted = [] \<and> byStatus ?q ?room Queued \<noteq> []")
    case False
    then have "take_next env xs s = (s, Inr xs)"
      by (auto simp: take_next_def bind_act_run Let_def split: list.split)
    then show ?thesis by blast
  next
    case True
    then obtain r rest where r: "byStatus ?q ?room Queued = r # rest" by (cases "byStatus ?q ?room Queued") auto
    then have queued: "r \<in> set (byStatus ?q ?room Queued)" by simp
    then have row: "r \<in> set (pq_rows ?q)" "pr_status r = Queued" "row_ok env ge r"
      using assms(2) by (auto simp: byStatus_def rows_ok_def all_requests_def)
    then have "pq_get ?q (pr_id r) = Some r" using assms(1) by (simp add: pq_get_row)
    then obtain s' y r' where r': "prepare env r s = (s', Inr y)" "pb_queue s' = put_row ?q r'" "row_le r r'"
        "row_ok env ge r'" "pb_chain s' = pb_chain s" "pr_permit r' = None" "pr_status r' \<in> {Rejected, AwaitingPermit}"
      using prepare_works [OF _ row(2,3)] by blast
    have "take_next env xs s = (s', Inr (xs @ [y]))"
      using True r r'(1) by (simp add: take_next_def bind_act_run Let_def)
    with r' queued True show ?thesis by blast
  qed
qed

text \<open>C29: a pass of the publisher always ends with its queue in order, whatever the chain answers. Every
  row keeps its identity and question, its status only moves along the request's life, a
  finished row is not touched, and every row past validation carries the document and the
  request its question asks for, with a permit only for exactly those; no call throws.\<close>

theorem publisher_tick_safe:
  assumes "well_numbered (pb_queue s)" "rows_ok env ge (pb_queue s)"
  shows "\<exists>s' xs. publisher_tick env nowMs s = (s', Inr xs)
    \<and> queue_le (pb_queue s) (pb_queue s') \<and> well_numbered (pb_queue s') \<and> rows_ok env ge (pb_queue s')"
proof -
  obtain s1 xs where s1: "reconcile env s = (s1, Inr xs)" "queue_le (pb_queue s) (pb_queue s1)"
      "well_numbered (pb_queue s1)" "rows_ok env ge (pb_queue s1)"
    using reconcile_pass [OF assms] by blast
  obtain s2 ys where s2: "map_act (publish env nowMs) (byStatus (pb_queue s1) (pe_roomId env) Permitted) s1 = (s2, Inr ys)"
      "queue_le (pb_queue s1) (pb_queue s2)" "well_numbered (pb_queue s2)" "rows_ok env ge (pb_queue s2)"
    using publish_pass [OF s1(3,4)] by blast
  obtain s3 zs where s3: "take_next env (xs @ ys) s2 = (s3, Inr zs)"
    and step: "pb_queue s3 = pb_queue s2 \<or> (\<exists>r r'. r \<in> set (byStatus (pb_queue s2) (pe_roomId env) Queued)
       \<and> pb_queue s3 = put_row (pb_queue s2) r' \<and> row_le r r' \<and> row_ok env ge r')"
    using take_next_works [OF s2(3,4)] by blast
  have "queue_le (pb_queue s2) (pb_queue s3) \<and> well_numbered (pb_queue s3) \<and> rows_ok env ge (pb_queue s3)"
  proof (rule disjE [OF step])
    assume "\<exists>r r'. r \<in> set (byStatus (pb_queue s2) (pe_roomId env) Queued)
      \<and> pb_queue s3 = put_row (pb_queue s2) r' \<and> row_le r r' \<and> row_ok env ge r'"
    then obtain r r' where "r \<in> set (pq_rows (pb_queue s2))" "pb_queue s3 = put_row (pb_queue s2) r'" "row_le r r'" "row_ok env ge r'"
      by (auto simp: byStatus_def)
    with put_row_keeps [OF s2(3), of r r' env ge] s2(4) show ?thesis by simp
  qed (simp add: queue_order.refl s2(3,4))
  moreover have "publisher_tick env nowMs s = (s3, Inr zs)"
    unfolding publisher_tick_passes using s1(1) s2(1) s3 by (simp add: bind_act_run permitted_now_def)
  ultimately show ?thesis using s1(2) s2(2) queue_order.trans by blast
qed

end
