(* ===== verification/PublicationLedger.thy ===== *)
theory PublicationLedger
  imports PublicationFlow
begin

section \<open>One market per request\<close>

text \<open>
  The publisher and the permit server over one room of the in-memory chain: every market the
  room deploys through the queue belongs to exactly one row, whose request and permit are the
  ones submitted. The invariant is kept by every pass, in every order of the two processes.
\<close>

definition failure_of :: "chain_error \<Rightarrow> chain_failure" where
  "failure_of e = \<lparr> cx_name = ''Error'', cx_text =
     (case e of
        UnknownMarket m \<Rightarrow> ''UnknownMarket '' @ m
      | RoomIsClosed \<Rightarrow> ''RoomIsClosed''
      | SequenceRegression \<Rightarrow> ''SequenceRegression''
      | RoomNotClosed \<Rightarrow> ''RoomNotClosed''
      | PermitReplayed \<Rightarrow> ''PermitReplayed''
      | InvalidState \<Rightarrow> ''InvalidState''
      | TooEarly \<Rightarrow> ''TooEarly''
      | WriteFailed m \<Rightarrow> m) \<rparr>"

definition fake_publish_port :: "fake_chain publish_port" where
  "fake_publish_port =
     \<lparr> pp_publishSlot = (\<lambda>c request p signature restricted.
         (case publishSlot c request p restricted of (c', r) \<Rightarrow> (c', map_sum failure_of id r))),
       pp_usedNonce = Some (\<lambda>c n. Inr (usedNonce c n)),
       pp_slotCount = Some (\<lambda>c. Inr (slotCount c)),
       pp_marketForConditionHash = Some (\<lambda>c h. Inr (marketForConditionHash c h)) \<rparr>"

subsection \<open>The invariant\<close>

text \<open>No two rows of the room hold permits with one nonce, and all nonces are below the gate's next.\<close>

definition permit_nonce :: "pub_request \<Rightarrow> int option" where
  "permit_nonce r = map_option pm_nonce (pr_permit r)"

definition permits_ok :: "string \<Rightarrow> int \<Rightarrow> pub_queue \<Rightarrow> bool" where
  "permits_ok room n q \<longleftrightarrow>
     (\<forall>r \<in> set (all_requests q room). \<forall>m. permit_nonce r = Some m \<longrightarrow> m < n
        \<and> (\<forall>r' \<in> set (all_requests q room). permit_nonce r' = Some m \<longrightarrow> r' = r))"

definition nonce_of :: "published_slot \<Rightarrow> int" where
  "nonce_of ps = pm_nonce (ps_permit ps)"

definition belongs :: "pub_request \<Rightarrow> published_slot \<Rightarrow> bool" where
  "belongs r ps \<longleftrightarrow> pr_permit r = Some (ps_permit ps) \<and> pr_request r = Some (ps_request ps)
     \<and> pr_restricted r = ps_restricted ps \<and> pr_status r \<in> {Permitted, Published}"

definition landed_ok :: "string \<Rightarrow> pub_queue \<Rightarrow> fake_chain \<Rightarrow> bool" where
  "landed_ok room q c \<longleftrightarrow>
     set (fc_usedNonces c) = nonce_of ` set (fc_published c) \<and> distinct (map nonce_of (fc_published c))
     \<and> (\<forall>ps \<in> set (fc_published c). \<exists>r \<in> set (all_requests q room). belongs r ps)"

definition unsent :: "string \<Rightarrow> pub_queue \<Rightarrow> fake_chain \<Rightarrow> bool" where
  "unsent room q c \<longleftrightarrow>
     (\<forall>r \<in> set (all_requests q room). \<forall>p. pr_status r = Permitted \<longrightarrow> pr_permit r = Some p
        \<longrightarrow> pm_nonce p \<notin> set (fc_usedNonces c))"

lemma all_requests_put_row:
  assumes "well_numbered q" "r \<in> set (all_requests q room)" "row_le r r'"
  shows "set (all_requests (put_row q r') room) = insert r' (set (all_requests q room) - {r})"
proof -
  have r: "r \<in> set (pq_rows q)" "pr_roomId r = room" "pr_id r' = pr_id r" "pr_roomId r' = room"
    using assms(2,3) by (auto simp: all_requests_def row_le_def)
  then show ?thesis
    using put_row_rows [OF assms(1) r(1,3)] by (auto simp: all_requests_def)
qed

text \<open>A write that drops the permit or keeps it keeps the permits apart.\<close>

lemma permits_ok_put:
  assumes "well_numbered q" "r \<in> set (all_requests q room)" "row_le r r'" "permits_ok room n q"
    and "pr_permit r' = None \<or> pr_permit r' = pr_permit r"
  shows "permits_ok room n (put_row q r')"
proof -
  have "permit_nonce r' = None \<or> permit_nonce r' = permit_nonce r" using assms(5) by (auto simp: permit_nonce_def)
  then show ?thesis
    using assms(2,4) unfolding permits_ok_def all_requests_put_row [OF assms(1-3)]
    by (elim disjE) (simp, force)+
qed

text \<open>A fresh permit takes the next nonce.\<close>

lemma permits_ok_sign:
  assumes "well_numbered q" "r \<in> set (all_requests q room)" "row_le r r'" "permits_ok room n q"
    and "pr_permit r' = Some p" "pm_nonce p = n"
  shows "permits_ok room (n + 1) (put_row q r')"
proof -
  have new: "permit_nonce r' = Some n" using assms(5,6) by (simp add: permit_nonce_def)
  define A where "A = set (all_requests q room) - {r}"
  then have old: "m < n" "permit_nonce y = Some m \<Longrightarrow> y \<in> A \<Longrightarrow> y = x" if "x \<in> A" "permit_nonce x = Some m" for x y m
    using assms(4) that by (auto simp: permits_ok_def)
  show ?thesis
    unfolding permits_ok_def all_requests_put_row [OF assms(1-3)] A_def [symmetric]
  proof (intro ballI allI impI conjI)
    fix x m assume x: "x \<in> insert r' A" "permit_nonce x = Some m"
    show "m < n + 1" using x new old(1) [of x m] by fastforce
    fix y assume y: "y \<in> insert r' A" "permit_nonce y = Some m"
    show "y = x"
    proof (cases "m = n")
      case True
      with x y old(1) have "x = r'" "y = r'" by blast+
      then show ?thesis by simp
    next
      case False
      with x y new have "x \<in> A" "y \<in> A" by auto
      with old(2) x(2) y(2) show ?thesis by blast
    qed
  qed
qed

lemma landed_put:
  assumes "well_numbered q" "r \<in> set (all_requests q room)" "row_le r r'" "landed_ok room q c"
    and "\<And>ps. belongs r ps \<Longrightarrow> ps \<in> set (fc_published c) \<Longrightarrow> belongs r' ps"
  shows "landed_ok room (put_row q r') c"
  using assms(4,5) unfolding landed_ok_def all_requests_put_row [OF assms(1-3)]
  by (metis Diff_iff insert_iff singletonD)

lemma belongs_used:
  assumes "landed_ok room q c" "belongs r ps" "ps \<in> set (fc_published c)" "pr_permit r = Some p"
  shows "pm_nonce p \<in> set (fc_usedNonces c)"
  using assms by (auto simp: landed_ok_def belongs_def nonce_of_def)

lemma unsent_put:
  assumes "well_numbered q" "r \<in> set (all_requests q room)" "row_le r r'" "unsent room q c"
    and "pr_status r' \<noteq> Permitted \<or> r' = r"
  shows "unsent room (put_row q r') c"
  using assms(2,4,5) unfolding unsent_def all_requests_put_row [OF assms(1-3)] by auto

subsection \<open>The publisher's passes keep it\<close>

text \<open>On the in-memory chain a submission either deploys the row's own request or changes nothing.\<close>

lemma fake_submission:
  assumes "publishSlot c request p restricted = (c', result)"
  shows "(c' = c \<and> (\<exists>e. result = Inl e))
    \<or> (\<exists>market. result = Inr market \<and> pm_nonce p \<notin> set (fc_usedNonces c) \<and> fc_usedNonces c' = pm_nonce p # fc_usedNonces c
        \<and> fc_published c' = fc_published c @ [\<lparr> ps_market = market, ps_slotIndex = int (length (fc_slots c)),
             ps_request = request, ps_permit = p, ps_restricted = restricted \<rparr>])"
  using assms by (auto simp: publishSlot_def Let_def addSlot_def called_def split: if_splits)

definition ledger :: "string \<Rightarrow> int \<Rightarrow> pub_queue \<Rightarrow> fake_chain \<Rightarrow> bool" where
  "ledger room n q c \<longleftrightarrow> permits_ok room n q \<and> landed_ok room q c"

lemma findLanded_unused:
  assumes "pe_port env = fake_publish_port" "pr_permit r = Some p" "pm_nonce p \<notin> set (fc_usedNonces c)"
  shows "findLanded env r c = None"
  using assms by (simp add: findLanded_def fake_publish_port_def usedNonce_def)

lemma publish_ledger:
  assumes "pe_port env = fake_publish_port" "ledger room n (pb_queue s) (pb_chain s)" "unsent room (pb_queue s) (pb_chain s)"
    and "well_numbered (pb_queue s)" "r \<in> set (all_requests (pb_queue s) room)" "pr_status r = Permitted"
    and "row_le r r'" "publish_end env nowMs r (pb_chain s) c' r'"
  shows "ledger room n (put_row (pb_queue s) r') c' \<and> unsent room (put_row (pb_queue s) r') c'"
proof -
  let ?q = "pb_queue s" and ?c = "pb_chain s"
  note row = assms(4,5,7)
  have ok: "permits_ok room n ?q" "landed_ok room ?q ?c" using assms(2) by (simp_all add: ledger_def)
  have unused: "pm_nonce p \<notin> set (fc_usedNonces ?c)" if "pr_permit r = Some p" for p
    using assms(3,5,6) that by (auto simp: unsent_def)
  then have not_landed: "\<not> belongs r ps" if "ps \<in> set (fc_published ?c)" for ps
    using belongs_used [OF ok(2) _ that] by (auto simp: belongs_def)
  have quiet: "ledger room n (put_row ?q r') ?c \<and> unsent room (put_row ?q r') ?c"
    if "pr_permit r' = None \<or> pr_permit r' = pr_permit r" "pr_status r' \<noteq> Permitted \<or> r' = r"
    using permits_ok_put [OF row ok(1) that(1)] landed_put [OF row ok(2)] not_landed
      unsent_put [OF row assms(3) that(2)] by (auto simp: ledger_def)
  from assms(8) [unfolded publish_end_def] show ?thesis
  proof
    assume "c' = ?c \<and> set_aside r r'"
    with quiet show ?thesis by (auto simp: set_aside_def)
  next
    assume "\<exists>p request result. pr_permit r = Some p \<and> pr_request r = Some request \<and> nowMs div 1000 < pm_expiresAt p
          \<and> (\<forall>n. slot_count_now env ?c = Some n \<longrightarrow> pm_slotIndex p = n)
          \<and> pp_publishSlot (pe_port env) ?c request p (pr_signature r) (pr_restricted r) = (c', result)
          \<and> submission_end env r c' result r'"
    then obtain p request result where p: "pr_permit r = Some p" "pr_request r = Some request"
        "pp_publishSlot (pe_port env) ?c request p (pr_signature r) (pr_restricted r) = (c', result)"
        "submission_end env r c' result r'" by blast
    obtain res where res: "publishSlot ?c request p (pr_restricted r) = (c', res)" "result = map_sum failure_of id res"
      using p(3) assms(1) by (auto simp: fake_publish_port_def split: prod.splits)
    have same: "pr_permit r' = pr_permit r" "pr_request r' = pr_request r" "pr_restricted r' = pr_restricted r"
      using p(4) assms(6,7) by (auto simp: submission_end_def row_le_def)
    from fake_submission [OF res(1)] show ?thesis
    proof
      assume "c' = ?c \<and> (\<exists>e. res = Inl e)"
      moreover have "truthy_text (findLanded env r ?c) = None"
        using findLanded_unused [OF assms(1) p(1) unused [OF p(1)]] by (simp add: truthy_text_None)
      ultimately show ?thesis
        using quiet same(1) p(4) res(2) by (auto simp: submission_end_def split: if_splits)
    next
      assume "\<exists>market. res = Inr market \<and> pm_nonce p \<notin> set (fc_usedNonces ?c) \<and> fc_usedNonces c' = pm_nonce p # fc_usedNonces ?c
        \<and> fc_published c' = fc_published ?c @ [\<lparr> ps_market = market, ps_slotIndex = int (length (fc_slots ?c)),
             ps_request = request, ps_permit = p, ps_restricted = pr_restricted r \<rparr>]"
      then obtain market ps where ps: "res = Inr market" "fc_usedNonces c' = pm_nonce p # fc_usedNonces ?c"
          "fc_published c' = fc_published ?c @ [ps]" "ps_permit ps = p" "ps_request ps = request"
          "ps_restricted ps = pr_restricted r" by fastforce
      have ended: "pr_status r' = Published" using p(4) res(2) ps(1) by (simp add: submission_end_def)
      have rows: "set (all_requests (put_row ?q r') room) = insert r' (set (all_requests ?q room) - {r})"
        by (rule all_requests_put_row [OF row])
      have mine: "belongs r' ps" using same p(1,2) ps(4-6) ended by (simp add: belongs_def)
      have others: "\<exists>x \<in> set (all_requests (put_row ?q r') room). belongs x ps'" if "ps' \<in> set (fc_published ?c)" for ps'
        using ok(2) that not_landed [OF that] unfolding landed_ok_def rows by (metis DiffI insertCI singletonD)
      have "landed_ok room (put_row ?q r') c'"
        using mine others ok(2) unused [OF p(1)] ps(2-4) rows by (auto simp: landed_ok_def nonce_of_def)
      moreover have "unsent room (put_row ?q r') c'"
        using assms(3,5) ok(1) p(1) ended unfolding unsent_def permits_ok_def rows ps(2) permit_nonce_def by auto
      ultimately show ?thesis
        using permits_ok_put [OF row ok(1)] same(1) by (simp add: ledger_def)
    qed
  qed
qed

text \<open>Reconciliation leaves no permit of a waiting row consumed.\<close>

lemma reconcile_ledger:
  assumes "pe_port env = fake_publish_port" "ledger (pe_roomId env) n q c" "well_numbered q"
    and "pq_rows q' = map f (pq_rows q)" "\<forall>r \<in> set (pq_rows q). row_le r (f r)" "rows_ok env ge q"
    and each: "\<forall>r \<in> set (pq_rows q). if r \<in> set (byStatus q (pe_roomId env) Permitted) then reconciled env c r (f r) else f r = r"
  shows "ledger (pe_roomId env) n q' c \<and> unsent (pe_roomId env) q' c"
proof -
  let ?room = "pe_roomId env"
  have rows: "set (all_requests q' ?room) = f ` set (all_requests q ?room)"
    using assms(4,5) by (force simp: all_requests_def row_le_def)
  have used: "nonce_used env c p \<longleftrightarrow> pm_nonce p \<in> set (fc_usedNonces c)" for p
    using assms(1) by (simp add: nonce_used_def fake_publish_port_def usedNonce_def)
  have step: "pr_permit (f r) = pr_permit r \<and> pr_request (f r) = pr_request r \<and> pr_restricted (f r) = pr_restricted r
      \<and> (pr_status (f r) = pr_status r \<or> pr_status r = Permitted \<and> pr_status (f r) = Published)
      \<and> (pr_status (f r) = Permitted \<longrightarrow> (\<forall>p. pr_permit r = Some p \<longrightarrow> pm_nonce p \<notin> set (fc_usedNonces c)))"
    if r: "r \<in> set (all_requests q ?room)" for r
  proof (cases "pr_status r = Permitted")
    case True
    then obtain p where p: "pr_permit r = Some p" using assms(6) r by (auto simp: rows_ok_def row_ok_def)
    have "reconciled env c r (f r)" "row_le r (f r)"
      using each assms(5) r True by (auto simp: all_requests_def byStatus_def)
    with p True show ?thesis by (cases "pm_nonce p \<in> set (fc_usedNonces c)") (auto simp: reconciled_def used row_le_def)
  next
    case False
    with each r have "f r = r" by (auto simp: all_requests_def byStatus_def)
    with False show ?thesis by simp
  qed
  have permits: "permits_ok ?room n q'"
    using assms(2) step unfolding permits_ok_def ledger_def rows permit_nonce_def by (simp add: ball_simps) metis
  have "belongs (f r) ps" if "r \<in> set (all_requests q ?room)" "belongs r ps" for r ps
    using step [OF that(1)] that(2) by (auto simp: belongs_def)
  then have "landed_ok ?room q' c"
    using assms(2) unfolding landed_ok_def ledger_def rows by (metis imageI)
  moreover have "unsent ?room q' c" using step unfolding unsent_def rows by auto
  ultimately show ?thesis using permits by (simp add: ledger_def)
qed

interpretation room_publishing: queue_worker pb_queue "publish env nowMs"
    "\<lambda>r. pr_status r = Permitted \<and> row_ok env ge r \<and> pr_roomId r = pe_roomId env"
    "\<lambda>r r'. row_le r r' \<and> row_ok env ge r'"
    "\<lambda>s. pe_port env = fake_publish_port \<and> ledger (pe_roomId env) n (pb_queue s) (pb_chain s)
       \<and> unsent (pe_roomId env) (pb_queue s) (pb_chain s)" for env nowMs ge n
proof
  fix s :: "fake_chain pub_state" and r
  assume inv: "pe_port env = fake_publish_port \<and> ledger (pe_roomId env) n (pb_queue s) (pb_chain s) \<and> unsent (pe_roomId env) (pb_queue s) (pb_chain s)"
    and numbered: "well_numbered (pb_queue s)" and row: "pq_get (pb_queue s) (pr_id r) = Some r"
    and takes: "pr_status r = Permitted \<and> row_ok env ge r \<and> pr_roomId r = pe_roomId env"
  from takes obtain s' y r' where r': "publish env nowMs r s = (s', Inr y)" "pb_queue s' = put_row (pb_queue s) r'"
      "row_le r r'" "row_ok env ge r'" "publish_end env nowMs r (pb_chain s) (pb_chain s') r'"
    using publish_works [OF row _ numbered, of env ge nowMs] by blast
  have "r \<in> set (all_requests (pb_queue s) (pe_roomId env))"
    using row numbered takes by (simp add: pq_get_row all_requests_def)
  with publish_ledger [OF _ _ _ numbered _ _ r'(3,5), of "pe_roomId env" n] inv takes
  have "ledger (pe_roomId env) n (pb_queue s') (pb_chain s') \<and> unsent (pe_roomId env) (pb_queue s') (pb_chain s')"
    using r'(2) by simp
  then show "\<exists>s' y r'. publish env nowMs r s = (s', Inr y) \<and> pb_queue s' = put_row (pb_queue s) r' \<and> pr_id r' = pr_id r
      \<and> (row_le r r' \<and> row_ok env ge r') \<and> pe_port env = fake_publish_port
      \<and> ledger (pe_roomId env) n (pb_queue s') (pb_chain s') \<and> unsent (pe_roomId env) (pb_queue s') (pb_chain s')"
    using r' inv by (intro exI [of _ s'] exI [of _ y] exI [of _ r']) (simp add: row_le_def)
qed

text \<open>The whole invariant of the queue and the room.\<close>

definition channel_ok :: "fake_chain pub_env \<Rightarrow> 'd gate_env \<Rightarrow> int \<Rightarrow> pub_queue \<Rightarrow> fake_chain \<Rightarrow> bool" where
  "channel_ok env ge n q c \<longleftrightarrow> well_numbered q \<and> rows_ok env ge q \<and> ledger (pe_roomId env) n q c"

lemma put_row_ledger:
  assumes "well_numbered q" "r \<in> set (all_requests q room)" "row_le r r'" "ledger room n q c"
    and "pr_permit r = None" "pr_permit r' = None"
  shows "ledger room n (put_row q r') c"
  using permits_ok_put [OF assms(1-3)] landed_put [OF assms(1-3)] assms(4-6) by (simp add: ledger_def belongs_def)

lemma publisher_tick_channel:
  assumes "pe_port env = fake_publish_port" "channel_ok env ge n (pb_queue s) (pb_chain s)"
  shows "\<exists>s' xs. publisher_tick env nowMs s = (s', Inr xs) \<and> channel_ok env ge n (pb_queue s') (pb_chain s')
    \<and> queue_le (pb_queue s) (pb_queue s')"
proof -
  let ?room = "pe_roomId env"
  have s: "well_numbered (pb_queue s)" "rows_ok env ge (pb_queue s)" "ledger ?room n (pb_queue s) (pb_chain s)"
    using assms(2) by (simp_all add: channel_ok_def)
  obtain s1 xs f where s1: "reconcile env s = (s1, Inr xs)" "pb_chain s1 = pb_chain s" "queue_le (pb_queue s) (pb_queue s1)"
      "well_numbered (pb_queue s1)" "rows_ok env ge (pb_queue s1)" "pq_rows (pb_queue s1) = map f (pq_rows (pb_queue s))"
      "\<forall>r \<in> set (pq_rows (pb_queue s)). if r \<in> set (byStatus (pb_queue s) ?room Permitted)
         then reconciled env (pb_chain s) r (f r) else f r = r"
    using reconcile_pass [OF s(1,2)] by blast
  have "\<forall>r \<in> set (pq_rows (pb_queue s)). row_le r (f r)"
    using s1(3,6) by (auto simp: queue_le_def list_all2_conv_all_nth in_set_conv_nth)
  from reconcile_ledger [OF assms(1) s(3,1) s1(6) this s(2) s1(7)]
  have l1: "ledger ?room n (pb_queue s1) (pb_chain s1)" "unsent ?room (pb_queue s1) (pb_chain s1)"
    by (simp_all add: s1(2))
  let ?rs = "byStatus (pb_queue s1) ?room Permitted"
  have rs: "set ?rs \<subseteq> set (pq_rows (pb_queue s1))" by (auto simp: byStatus_def)
  have takes: "\<forall>r \<in> set ?rs. pr_status r = Permitted \<and> row_ok env ge r \<and> pr_roomId r = ?room"
    using s1(5) by (auto simp: byStatus_def rows_ok_def all_requests_def)
  from room_publishing.work_all [OF conjI [OF assms(1) conjI [OF l1]] s1(4) rs byStatus_ids [OF s1(4)] takes]
  obtain s2 ys g where s2: "map_act (publish env nowMs) ?rs s1 = (s2, Inr ys)" "ledger ?room n (pb_queue s2) (pb_chain s2)"
      "pq_rows (pb_queue s2) = map g (pq_rows (pb_queue s1))" "pq_lastId (pb_queue s2) = pq_lastId (pb_queue s1)"
      "\<forall>r. pr_id (g r) = pr_id r"
      "\<forall>r \<in> set (pq_rows (pb_queue s1)). if r \<in> set ?rs then row_le r (g r) \<and> row_ok env ge (g r) else g r = r"
    by blast
  from pass_from_worker [OF s2(3-5) s1(4) s2(6)] s1(5)
  have q2: "queue_le (pb_queue s1) (pb_queue s2)" "well_numbered (pb_queue s2)" "rows_ok env ge (pb_queue s2)" by simp_all
  obtain s3 zs where s3: "take_next env (xs @ ys) s2 = (s3, Inr zs)" "pb_chain s3 = pb_chain s2"
    and step: "pb_queue s3 = pb_queue s2 \<or> (\<exists>r r'. r \<in> set (byStatus (pb_queue s2) ?room Queued)
       \<and> pb_queue s3 = put_row (pb_queue s2) r' \<and> row_le r r' \<and> row_ok env ge r' \<and> pr_permit r' = None)"
    using take_next_works [OF q2(2,3), of "xs @ ys"] by blast
  have "queue_le (pb_queue s2) (pb_queue s3) \<and> channel_ok env ge n (pb_queue s3) (pb_chain s3)"
  proof (rule disjE [OF step])
    assume "\<exists>r r'. r \<in> set (byStatus (pb_queue s2) ?room Queued)
       \<and> pb_queue s3 = put_row (pb_queue s2) r' \<and> row_le r r' \<and> row_ok env ge r' \<and> pr_permit r' = None"
    then obtain r r' where r: "r \<in> set (all_requests (pb_queue s2) ?room)" "pr_status r = Queued"
        "pb_queue s3 = put_row (pb_queue s2) r'" "row_le r r'" "row_ok env ge r'" "pr_permit r' = None"
      by (auto simp: byStatus_rows)
    have "pr_permit r = None" using q2(3) r(1,2) by (auto simp: rows_ok_def row_ok_def)
    from put_row_ledger [OF q2(2) r(1,4) s2(2) this r(6)] put_row_keeps [OF q2(2) _ r(4,5)] r(1,3) q2(3)
    show ?thesis by (simp add: channel_ok_def s3(2) all_requests_def)
  qed (simp add: queue_order.refl channel_ok_def q2(2,3) s2(2) s3(2))
  moreover have "publisher_tick env nowMs s = (s3, Inr zs)"
    unfolding publisher_tick_passes using s1(1) s2(1) s3(1) by (simp add: bind_act_run permitted_now_def)
  ultimately show ?thesis using s1(3) q2(1) queue_order.trans by blast
qed

lemma submit_channel:
  assumes "channel_ok env ge n q c"
  shows "channel_ok env ge n (fst (submit q room cand at)) c \<and> queue_le q (fst (submit q room cand at))"
proof -
  obtain q' r where q': "fst (submit q room cand at) = q'" "pq_rows q' = pq_rows q @ [r]" "pq_lastId q' = pq_lastId q + 1"
      "pr_permit r = None" "pr_status r = Queued" "pr_id r = pq_lastId q + 1"
    by (simp add: submit_def Let_def)
  have all: "set (all_requests q' x) = set (all_requests q x) \<union> (if pr_roomId r = x then {r} else {})" for x
    by (simp add: all_requests_def q'(2))
  have "row_ok env ge r" using q'(4,5) by (simp add: row_ok_def)
  then have "rows_ok env ge q'" using assms by (auto simp: channel_ok_def rows_ok_def all split: if_splits)
  moreover have "well_numbered q'"
    using assms q'(3,6) by (fastforce simp: channel_ok_def well_numbered_def q'(2))
  moreover have "ledger (pe_roomId env) n q' c"
    using assms q'(4) by (auto simp: channel_ok_def ledger_def permits_ok_def landed_ok_def all permit_nonce_def split: if_splits)
  moreover have "queue_le q q'"
    by (simp add: queue_le_def q'(2,3) list_all2_refl row_le_refl)
  ultimately show ?thesis by (simp add: q'(1) channel_ok_def)
qed

end
