(* ===== verification/GateRoom.thy ===== *)
theory GateRoom
  imports GateNonces
begin

section \<open>The gate drives the room\<close>

text \<open>
  The gate over \<open>FakeRoomChain\<close>: what any of its calls does to the room, and what a tick
  achieves.
\<close>

subsection \<open>The order of rooms\<close>

text \<open>Markets are distinct, and no market is marked past the room's watermark.\<close>

definition room_ok :: "fake_chain \<Rightarrow> bool" where
  "room_ok c \<longleftrightarrow> distinct (map sl_market (fc_slots c)) \<and> 0 \<le> fc_lastObserved c
     \<and> (\<forall>s \<in> set (fc_slots c). sl_lastSafeSeq s \<le> fc_lastObserved c)"

text \<open>A slot only moves forward: it stays closed, and once closed no epoch of it is marked.\<close>

definition slot_le :: "slot \<Rightarrow> slot \<Rightarrow> bool" where
  "slot_le s t \<longleftrightarrow> sl_market t = sl_market s \<and> (sl_closed s \<longrightarrow> sl_closed t \<and> sl_safeEpochs t = sl_safeEpochs s)
     \<and> sl_lastSafeSeq s \<le> sl_lastSafeSeq t \<and> set (sl_safeEpochs s) \<subseteq> set (sl_safeEpochs t)"

definition marks_only :: "(string \<Rightarrow> int \<Rightarrow> bool) \<Rightarrow> chain_call list \<Rightarrow> bool" where
  "marks_only ok calls \<longleftrightarrow> (\<forall>seq ms eps. MarkRoomEpochsSafe seq ms eps \<in> set calls \<longrightarrow>
     length ms = length eps \<and> (\<forall>(m, e) \<in> set (zip ms eps). ok m e))"

definition chain_step :: "(string \<Rightarrow> int \<Rightarrow> bool) \<Rightarrow> fake_chain \<Rightarrow> fake_chain \<Rightarrow> bool" where
  "chain_step ok c c' \<longleftrightarrow>
     (\<exists>new. fc_calls c' = fc_calls c @ new \<and> marks_only ok new)
     \<and> fc_published c' = fc_published c \<and> fc_usedNonces c' = fc_usedNonces c
     \<and> (room_ok c \<longrightarrow> room_ok c' \<and> fc_lastObserved c \<le> fc_lastObserved c'
          \<and> list_all2 slot_le (fc_slots c) (fc_slots c')
          \<and> (fc_roomClosed c \<noteq> 0 \<longrightarrow> fc_roomClosed c' = fc_roomClosed c))"

lemma slot_le_refl: "slot_le s s"
  by (simp add: slot_le_def)

lemma slot_le_trans: "slot_le s t \<Longrightarrow> slot_le t u \<Longrightarrow> slot_le s u"
  by (auto simp: slot_le_def)

lemma marks_only_append [simp]: "marks_only ok (xs @ ys) \<longleftrightarrow> marks_only ok xs \<and> marks_only ok ys"
  unfolding marks_only_def set_append Un_iff by blast

lemma marks_only_Nil [simp]: "marks_only ok []"
  by (simp add: marks_only_def)

interpretation steps: preorder_on "chain_step ok" for ok
proof unfold_locales
  show "chain_step ok c c" for c
    by (auto simp: chain_step_def intro: list_all2_refl slot_le_refl)
  show "chain_step ok c e" if "chain_step ok c d" "chain_step ok d e" for c d e
    using that list_all2_trans [of slot_le slot_le slot_le "fc_slots c" "fc_slots d" "fc_slots e", OF slot_le_trans]
    unfolding chain_step_def by fastforce
qed

lemma each_is_each_act: "each f xs = each_act f xs"
proof
  show "each f xs c = each_act f xs c" for c
    by (induction xs arbitrary: c) (auto simp: bind_act_def split: prod.splits sum.splits)
qed

lemma chain_step_each: "(\<And>x c. chain_step ok c (fst (f x c))) \<Longrightarrow> chain_step ok c (fst (each f xs c))"
  using steps.only_each [of ok f xs] by (simp add: only_def each_is_each_act)

lemma update_first_map:
  "distinct (map sl_market ss) \<Longrightarrow>
    update_first (\<lambda>s. sl_market s = m) f ss = map (\<lambda>s. if sl_market s = m then f s else s) ss"
proof (induction ss)
  case (Cons s ss)
  show ?case
  proof (cases "sl_market s = m")
    case True
    with Cons.prems have "\<And>t. t \<in> set ss \<Longrightarrow> sl_market t \<noteq> m" by (auto simp: rev_image_eqI)
    then have "map (\<lambda>s. if sl_market s = m then f s else s) ss = ss" by (auto intro: map_idI)
    with True show ?thesis by simp
  next
    case False
    with Cons show ?thesis by simp
  qed
qed simp

text \<open>A write to one slot that moves it forward, within the watermark.\<close>

lemma chain_step_update:
  assumes "\<And>s. room_ok c \<Longrightarrow> s \<in> set (fc_slots c) \<Longrightarrow> sl_market s = m \<Longrightarrow>
      slot_le s (f s) \<and> sl_lastSafeSeq (f s) \<le> fc_lastObserved c"
  shows "chain_step ok c (update_slot m f c)"
proof -
  have "room_ok (update_slot m f c) \<and> list_all2 slot_le (fc_slots c) (fc_slots (update_slot m f c))" if ok: "room_ok c"
  proof -
    let ?f = "\<lambda>s. if sl_market s = m then f s else s"
    have slots: "fc_slots (update_slot m f c) = map ?f (fc_slots c)"
      using ok by (simp add: update_slot_def update_first_map room_ok_def)
    have le: "slot_le s (?f s)" if "s \<in> set (fc_slots c)" for s
      using assms [OF ok that] by (simp add: slot_le_refl)
    then have "list_all2 slot_le (fc_slots c) (map ?f (fc_slots c))"
      by (auto simp: list_all2_conv_all_nth)
    moreover have "map sl_market (map ?f (fc_slots c)) = map sl_market (fc_slots c)"
      using le by (auto simp: slot_le_def)
    then have "distinct (map sl_market (fc_slots (update_slot m f c)))"
      unfolding slots using ok by (simp only: room_ok_def)
    moreover have "sl_lastSafeSeq (?f s) \<le> fc_lastObserved c" if "s \<in> set (fc_slots c)" for s
      using assms [OF ok that] ok that by (auto simp: room_ok_def)
    then have "\<forall>t \<in> set (fc_slots (update_slot m f c)). sl_lastSafeSeq t \<le> fc_lastObserved c"
      unfolding slots set_map by blast
    moreover have "fc_lastObserved (update_slot m f c) = fc_lastObserved c" by (simp add: update_slot_def)
    ultimately show ?thesis
      using ok slots by (simp add: room_ok_def)
  qed
  then show ?thesis by (auto simp: chain_step_def update_slot_def)
qed

lemma chain_step_skip [simp]: "chain_step ok c (c\<lparr>fc_skips := sk\<rparr>)"
  using steps.refl [of ok c] by (simp add: chain_step_def room_ok_def)

lemma chain_step_called:
  assumes "marks_only ok [x]"
  shows "chain_step ok c (called x c)"
  using assms steps.refl [of ok c] by (simp add: chain_step_def room_ok_def called_def)

lemma marks_only_other [simp]:
  "marks_only ok [SuspendRoom n]" "marks_only ok [ReopenRoom n]" "marks_only ok [CloseSlots n ms]"
  "marks_only ok [CloseRoom n]" "marks_only ok [CloseRemainingSlots ms]" "marks_only ok [ProcessRoom ms es k]"
  by (simp_all add: marks_only_def)

lemma chain_step_advance:
  assumes "advance seq c = Inr c'"
  shows "chain_step ok c c'" "fc_roomClosed c = 0" "fc_lastObserved c' = seq" "fc_roomClosed c' = 0"
    "fc_slots c' = fc_slots c" "fc_calls c' = fc_calls c" "fc_lastObserved c \<le> seq"
proof -
  have c': "c' = c\<lparr>fc_lastObserved := seq\<rparr>" "fc_roomClosed c = 0" "fc_lastObserved c \<le> seq"
    using assms by (auto simp: advance_def split: if_splits)
  then show "chain_step ok c c'"
    using list_all2_refl [of slot_le, OF slot_le_refl] by (fastforce simp: chain_step_def room_ok_def)
  show "fc_roomClosed c = 0" "fc_lastObserved c' = seq" "fc_roomClosed c' = 0"
    "fc_slots c' = fc_slots c" "fc_calls c' = fc_calls c" "fc_lastObserved c \<le> seq"
    using c' by simp_all
qed

lemma chain_step_suspended: "chain_step ok c (set_suspended b c)"
proof -
  have "list_all2 slot_le (fc_slots c) (fc_slots (set_suspended b c))"
    by (auto simp: set_suspended_def list_all2_conv_all_nth slot_le_def)
  then show ?thesis by (auto simp: chain_step_def room_ok_def set_suspended_def comp_def if_distrib cong: if_cong)
qed

text \<open>What each gate write does.\<close>

lemma chain_step_closeOne: "chain_step ok c (fst (closeOne seq m c))"
proof -
  have "chain_step ok c (update_slot m (\<lambda>s. s\<lparr>sl_closed := True, sl_decisiveSeq := Some seq\<rparr>) c)"
    if "slot_of c m = Inr s" "\<not> sl_closed s" for s
  proof (rule chain_step_update)
    fix t assume "room_ok c" "t \<in> set (fc_slots c)" "sl_market t = m"
    with that slot_of_unique [of c t] show "slot_le t (t\<lparr>sl_closed := True, sl_decisiveSeq := Some seq\<rparr>)
        \<and> sl_lastSafeSeq (t\<lparr>sl_closed := True, sl_decisiveSeq := Some seq\<rparr>) \<le> fc_lastObserved c"
      by (auto simp: slot_le_def room_ok_def)
  qed
  then show ?thesis by (auto simp: closeOne_def steps.refl split: sum.splits)
qed

lemma chain_step_process: "chain_step ok c (fst (process_child k me c))"
proof -
  have "chain_step ok c (update_slot m (\<lambda>s. s\<lparr>sl_processedEpochs := f s, sl_epochCursor := h s\<rparr>) c)" for m f h
    by (rule chain_step_update) (auto simp: slot_le_def room_ok_def)
  then show ?thesis
    by (cases me) (auto simp: process_child_def Let_def steps.refl split: sum.splits)
qed

lemma chain_step_mark:
  assumes "fc_lastObserved c = seq"
  shows "chain_step ok c (fst (mark_child seq me c)) \<and> fc_lastObserved (fst (mark_child seq me c)) = seq"
proof -
  have "chain_step ok c (update_slot m (\<lambda>s. s\<lparr>sl_safeEpochs := sl_safeEpochs s @ [e], sl_lastSafeSeq := seq\<rparr>) c)"
    if "slot_of c m = Inr s" "\<not> sl_closed s" "\<not> seq \<le> sl_lastSafeSeq s" for m e s
  proof (rule chain_step_update)
    fix t assume "room_ok c" "t \<in> set (fc_slots c)" "sl_market t = m"
    with that slot_of_unique [of c t] assms
    show "slot_le t (t\<lparr>sl_safeEpochs := sl_safeEpochs t @ [e], sl_lastSafeSeq := seq\<rparr>)
        \<and> sl_lastSafeSeq (t\<lparr>sl_safeEpochs := sl_safeEpochs t @ [e], sl_lastSafeSeq := seq\<rparr>) \<le> fc_lastObserved c"
      by (auto simp: slot_le_def room_ok_def)
  qed
  with assms show ?thesis
    by (cases me) (auto simp: mark_child_def steps.refl update_slot_def split: sum.splits)
qed

lemma chain_step_after:
  assumes "advance seq c = Inr c1" "marks_only ok [x]" "\<And>d. chain_step ok d (fst (h d))"
  shows "chain_step ok c (fst (h (called x c1)))"
  using steps.trans [OF chain_step_advance(1) [OF assms(1)] steps.trans [OF chain_step_called [OF assms(2)] assms(3)]] .

lemma chain_step_writes:
  "chain_step ok c (fst (suspendRoom c seq))" "chain_step ok c (fst (reopenRoom c seq))"
  "chain_step ok c (fst (closeSlots c seq ms))" "chain_step ok c (fst (closeRoom c seq))"
  "chain_step ok c (fst (closeRemainingSlots c ms))" "chain_step ok c (fst (processRoom c ms es k))"
proof -
  show "chain_step ok c (fst (suspendRoom c seq))" "chain_step ok c (fst (reopenRoom c seq))"
    "chain_step ok c (fst (closeSlots c seq ms))"
    using chain_step_after [of seq c _ ok "SuspendRoom seq" "\<lambda>d. (set_suspended True d, Inr ())"]
      chain_step_after [of seq c _ ok "ReopenRoom seq" "\<lambda>d. (set_suspended False d, Inr ())"]
      chain_step_after [of seq c _ ok "CloseSlots seq ms" "each (closeOne seq) ms"]
    by (auto simp: suspendRoom_def reopenRoom_def closeSlots_def steps.refl chain_step_suspended
        chain_step_each chain_step_closeOne split: sum.splits)
  show "chain_step ok c (fst (closeRoom c seq))"
  proof (cases "advance seq c")
    case (Inr c1)
    have "chain_step ok c1 (called (CloseRoom seq) c1)" by (simp add: chain_step_called)
    moreover have "chain_step ok d (d\<lparr>fc_roomClosed := seq\<rparr>)" if "fc_roomClosed d = 0" for d
      using that steps.refl [of ok d] by (simp add: chain_step_def room_ok_def)
    moreover have "fc_roomClosed (called (CloseRoom seq) c1) = 0"
      using chain_step_advance(4) [OF Inr] by (simp add: called_def)
    ultimately show ?thesis
      using Inr steps.trans [OF chain_step_advance(1) [OF Inr] steps.trans] by (simp add: closeRoom_def)
  qed (simp add: closeRoom_def steps.refl)
  show "chain_step ok c (fst (closeRemainingSlots c ms))" "chain_step ok c (fst (processRoom c ms es k))"
    using steps.trans [OF chain_step_called [of ok "CloseRemainingSlots ms" c]
        chain_step_each [of ok "closeOne (fc_roomClosed c)" _ ms, OF chain_step_closeOne]]
      steps.trans [OF chain_step_called [of ok "ProcessRoom ms es k" c]
        chain_step_each [of ok "process_child k" _ "zip ms es", OF chain_step_process]]
    by (simp_all add: closeRemainingSlots_def processRoom_def steps.refl)
qed

lemma chain_step_markRoom:
  assumes "length ms = length es" "\<forall>(m, e) \<in> set (zip ms es). ok m e"
  shows "chain_step ok c (fst (markRoomEpochsSafe c seq ms es))"
proof (cases "advance seq c")
  case (Inr c1)
  have each: "chain_step ok d (fst (each (mark_child seq) xs d))" if "fc_lastObserved d = seq" for xs d
    using that
  proof (induction xs arbitrary: d)
    case (Cons x xs)
    obtain d1 r where step: "mark_child seq x d = (d1, r)" by fastforce
    with chain_step_mark [OF Cons.prems, of ok x] have d1: "chain_step ok d d1" "fc_lastObserved d1 = seq" by auto
    with step Cons.IH [OF d1(2)] steps.trans [OF d1(1)] show ?case by (cases r) auto
  qed (simp add: steps.refl)
  have "marks_only ok [MarkRoomEpochsSafe seq ms es]" using assms by (simp add: marks_only_def)
  then have "chain_step ok c1 (called (MarkRoomEpochsSafe seq ms es) c1)" by (rule chain_step_called)
  moreover have "chain_step ok (called (MarkRoomEpochsSafe seq ms es) c1)
      (fst (each (mark_child seq) (zip ms es) (called (MarkRoomEpochsSafe seq ms es) c1)))"
    using each chain_step_advance(3) [OF Inr] by (simp add: called_def)
  ultimately show ?thesis
    using Inr steps.trans [OF chain_step_advance(1) [OF Inr] steps.trans] by (simp add: markRoomEpochsSafe_def)
qed (simp add: markRoomEpochsSafe_def steps.refl)

subsection \<open>Every call of the gate\<close>

text \<open>
  What is safe to mark: an epoch that has ended, source finality included, that the log has been
  observed past, of a market whose condition the whole log leaves undecided.
\<close>

definition safe_to_mark :: "'c gate_env \<Rightarrow> event list \<Rightarrow> int \<Rightarrow> (string, condition) js_map \<Rightarrow> string \<Rightarrow> int \<Rightarrow> bool" where
  "safe_to_mark env es nowMs conditions market epoch \<longleftrightarrow>
     (\<exists>doc. js_get conditions market = Some doc \<and> evaluate_now env es doc None False = Undecided)
     \<and> epoch_due (ge_config env) (nowMs div 1000) (last_opt es) epoch"

definition gate_moves :: "((string, condition) js_map \<Rightarrow> string \<Rightarrow> int \<Rightarrow> bool) \<Rightarrow> fake_chain gate \<Rightarrow> fake_chain gate \<Rightarrow> bool" where
  "gate_moves ok g g' \<longleftrightarrow> ga_conditions g' = ga_conditions g \<and> ga_headlineMarket g' = ga_headlineMarket g
     \<and> chain_step (ok (ga_conditions g)) (ga_chain g) (ga_chain g')"

interpretation moves: preorder_on "gate_moves ok" for ok
  by unfold_locales (auto simp: gate_moves_def steps.refl intro: steps.trans)

lemma gate_movesI:
  "ga_conditions g' = ga_conditions g \<Longrightarrow> ga_headlineMarket g' = ga_headlineMarket g \<Longrightarrow> ga_chain g' = ga_chain g
    \<Longrightarrow> gate_moves ok g g'"
  by (simp add: gate_moves_def steps.refl)

lemma moves_send: "(\<And>c ok'. chain_step ok' c (fst (f c))) \<Longrightarrow> only (gate_moves ok) (send f)"
  by (auto simp: only_def send_def gate_moves_def Let_def split: prod.splits) (metis fst_conv)

lemma fake_port_calls [simp]:
  "rp_lastObservedSequence fake_port = (\<lambda>c. Inr (fc_lastObserved c))"
  "rp_roomClosedSequence fake_port = (\<lambda>c. Inr (fc_roomClosed c))"
  "rp_openSlots fake_port = (\<lambda>c. Inr (openSlots c))"
  "rp_gateStateOf fake_port = Some gateStateOf" "rp_isSuspended fake_port = None"
  "rp_isEpochSafe fake_port = Some isEpochSafe"
  "rp_hasPendingActions fake_port = Some (\<lambda>c market epoch. Inr True)"
  "rp_closedSlots fake_port = Some (\<lambda>c. Inr (closedSlots c))"
  "rp_refundWindowOf fake_port = Some refundWindowOf"
  "rp_unprocessedActions fake_port = Some unprocessedActions"
  "rp_markRoomEpochsSafe fake_port = markRoomEpochsSafe" "rp_suspendRoom fake_port = suspendRoom"
  "rp_reopenRoom fake_port = reopenRoom" "rp_closeSlots fake_port = closeSlots"
  "rp_closeRoom fake_port = closeRoom" "rp_closeRemainingSlots fake_port = closeRemainingSlots"
  "rp_processRoom fake_port = processRoom"
  by (simp_all add: fake_port_def)

lemma moves_sends [only_intros]:
  "only (gate_moves ok) (send (\<lambda>c. suspendRoom c seq))" "only (gate_moves ok) (send (\<lambda>c. reopenRoom c seq))"
  "only (gate_moves ok) (send (\<lambda>c. closeSlots c seq ms))" "only (gate_moves ok) (send (\<lambda>c. closeRoom c seq))"
  "only (gate_moves ok) (send (\<lambda>c. closeRemainingSlots c ms))" "only (gate_moves ok) (send (\<lambda>c. processRoom c ms es k))"
  by (intro moves_send chain_step_writes)+

lemma moves_reads [only_intros]: "only (gate_moves ok) (ask q)" "only (gate_moves ok) (ask_opt r)"
  by (auto simp: only_def ask_def ask_opt_def moves.refl split: option.splits)

lemma moves_log [only_intros]: "only (gate_moves ok) (log_entry x)"
  by (auto simp: only_def log_entry_run intro!: gate_movesI)

lemma moves_updates [only_intros]:
  "only (gate_moves ok) (modify ensure_loaded)"
  "only (gate_moves ok) (modify (add_cleared m e))"
  "only (gate_moves ok) (modify (\<lambda>g. save_unevaluable (g\<lparr>ga_unevaluableSince := f g\<rparr>)))"
  "only (gate_moves ok) (modify (\<lambda>g. if p g then g else g\<lparr>ga_clearedEpochs := cl g\<rparr>))"
  "only (gate_moves ok) (modify (\<lambda>g. g\<lparr>ga_metrics := ms g\<rparr>))"
  "only (gate_moves ok) (modify (\<lambda>g. case x of None \<Rightarrow> g | Some at \<Rightarrow> g\<lparr>ga_metrics := mt at g\<rparr>))"
  by (auto intro!: moves.only_modify gate_movesI simp: add_cleared_def save_unevaluable_def ensure_loaded_def
      split: option.splits if_splits)

lemma moves_conditionFor [only_intros]: "only (gate_moves ok) (conditionFor m)"
  unfolding conditionFor_def by (intro only_intros) (auto split: option.splits intro!: only_intros)

lemma moves_unevaluable [only_intros]:
  "only (gate_moves ok) (markUnevaluable m n r)" "only (gate_moves ok) (clearUnevaluable m)"
  unfolding markUnevaluable_def clearUnevaluable_def by (intro only_intros)+

lemma moves_suspension [only_intros]:
  "only (gate_moves ok) (isSuspendedOnChain fake_port)" "only (gate_moves ok) (everyOpenSlotSuspended fake_port)"
  "only (gate_moves ok) (roomSequence fake_port n)" "only (gate_moves ok) (closingSequence fake_port n)"
  unfolding isSuspendedOnChain_def everyOpenSlotSuspended_def roomSequence_def closingSequence_def
  by (auto intro!: only_intros)

lemma moves_gate_actions [only_intros]:
  "only (gate_moves ok) (suspend fake_port es r)" "only (gate_moves ok) (reopen fake_port es)"
  "only (gate_moves ok) (drain_slot fake_port s)" "only (gate_moves ok) (close_decided fake_port xs)"
  unfolding suspend_def reopen_def drain_slot_def close_decided_def
  by (auto split: prod.splits intro!: only_intros)

lemma moves_drain [only_intros]: "only (gate_moves ok) (drainClosedEpochs fake_port)"
  unfolding drainClosedEpochs_def Let_def by (auto split: prod.splits intro!: only_intros)

lemma moves_afterClose [only_intros]: "only (gate_moves ok) (afterClose fake_port)"
  unfolding afterClose_def by (auto intro!: only_intros)

lemma moves_epochs [only_intros]:
  "only (gate_moves ok) (is_candidate fake_port cfg n tip m e)" "only (gate_moves ok) (confirm_epoch fake_port n me)"
  unfolding is_candidate_def confirm_epoch_def by (auto split: prod.splits intro!: only_intros)

lemma moves_choose [only_intros]:
  "ge_port env = fake_port \<Longrightarrow> only (gate_moves ok) (choose_epoch env es n s)"
  unfolding choose_epoch_def Let_def by (auto intro!: only_intros)

lemma moves_decide [only_intros]:
  "ge_port env = fake_port \<Longrightarrow> only (gate_moves ok) (decide_headline env es n open h)"
  "ge_port env = fake_port \<Longrightarrow> only (gate_moves ok) (decide_micro env es n ho s)"
  unfolding decide_headline_def decide_micro_def Let_def
  by (auto split: option.splits decision.splits intro!: only_intros)

subsection \<open>Only safe epochs are marked\<close>

lemma some_of_member: "x \<in> set (some_of xs) \<longleftrightarrow> Some x \<in> set xs"
  by (force simp: some_of_def split: option.splits)

lemma is_candidate_due:
  "is_candidate port cfg n tip m e g = (g', Inr (Some e')) \<Longrightarrow> e' = e \<and> epoch_due cfg n tip e"
  by (auto simp: is_candidate_def bind_act_Inr split: if_splits)

lemma choose_epoch_safe:
  assumes "ge_port env = fake_port" "choose_epoch env es n s g = (g', Inr (Some (m, e)))"
  shows "safe_to_mark env es n (ga_conditions g) m e"
proof -
  let ?cfg = "ge_config env"
  let ?cands = "map_act (is_candidate fake_port ?cfg (n div 1000) (last_opt es) (sr_market s))
      [max 0 (n div 1000 div gc_epochDurationS ?cfg - lookback_epochs ?cfg)..n div 1000 div gc_epochDurationS ?cfg - 1]"
  obtain doc where doc: "js_get (ga_conditions g) (sr_market s) = Some doc" "conditionFor (sr_market s) g = (g, Inr doc)"
    using assms(2) by (cases "js_get (ga_conditions g) (sr_market s)")
      (auto simp: choose_epoch_def Let_def conditionFor_def bind_act_def)
  have undecided: "evaluate_now env es doc None False = Undecided"
    using assms(2) doc(2) by (auto simp: choose_epoch_def Let_def bind_act_Inr split: if_splits)
  from assms doc(2) undecided obtain h found h' where run: "?cands h = (h', Inr found)" "(m, e) = (sr_market s, e)"
      "e \<in> set (some_of found)"
    by (auto simp: choose_epoch_def Let_def bind_act_Inr dest: find_act_member)
  then have "Some e \<in> set found" by (simp add: some_of_member)
  with moves.map_act_result [OF moves_epochs(1) run(1), of "Some e"] is_candidate_due
  have "epoch_due ?cfg (n div 1000) (last_opt es) e" by blast
  with doc(1) undecided assms(2) show ?thesis
    using run by (auto simp: safe_to_mark_def choose_epoch_def Let_def bind_act_Inr split: if_splits option.splits)
qed

lemma markAndProcess_safe:
  assumes "ge_port env = fake_port" "\<forall>(m, e) \<in> set xs. ok (ga_conditions g) m e"
  shows "gate_moves ok g (fst (markAndProcess env es n xs g))"
proof -
  have mark: "gate_moves ok h (fst (send (\<lambda>c. markRoomEpochsSafe c seq (map fst xs) (map snd xs)) h))"
    if "ga_conditions h = ga_conditions g" for h seq
    using chain_step_markRoom [of "map fst xs" "map snd xs" "ok (ga_conditions h)" "ga_chain h" seq] assms(2) that
    by (auto simp: gate_moves_def send_def Let_def zip_map_fst_snd split: prod.splits)
  have rest: "only (gate_moves ok) (bind_act (map_act (confirm_epoch fake_port k) xs) (\<lambda>checked.
      if some_of checked = [] then ret ()
      else bind_act (modify (\<lambda>g. case seen of None \<Rightarrow> g | Some at \<Rightarrow> g\<lparr>ga_metrics := mt checked at g\<rparr>)) (\<lambda>u.
        send (\<lambda>c. processRoom c (map fst (some_of checked)) (map snd (some_of checked)) 1000))))" for k seen mt
    by (auto intro!: only_intros)
  show ?thesis
    unfolding markAndProcess_def Let_def assms(1) fake_port_calls
    apply (rule moves.bind_at)
     apply (rule moves_suspension(3) [unfolded only_def, rule_format])
    apply (rule moves.bind_at)
     apply (rule moves_log [unfolded only_def, rule_format])
    apply (rule moves.bind_at)
     apply (rule mark)
     apply (simp add: gate_moves_def)
    apply (rule rest [unfolded only_def, rule_format])
    done
qed

lemma clearCompletedEpochs_safe:
  assumes "ge_port env = fake_port"
  shows "only (gate_moves (safe_to_mark env es n)) (clearCompletedEpochs env es n)"
  unfolding only_def
proof
  fix g
  let ?ok = "safe_to_mark env es n"
  let ?clear = "\<lambda>open. bind_act (map_act (choose_epoch env es n) open) (\<lambda>chosen.
      if some_of chosen = [] then ret () else markAndProcess env es n (some_of chosen))"
  have clear: "gate_moves ?ok h (fst (?clear slots h))" for h slots
  proof (rule moves.bind_at)
    show "gate_moves ?ok h (fst (map_act (choose_epoch env es n) slots h))"
      by (rule moves.only_map [OF moves_choose [OF assms], unfolded only_def, rule_format])
    fix h' chosen assume run: "map_act (choose_epoch env es n) slots h = (h', Inr chosen)" and moved: "gate_moves ?ok h h'"
    have "?ok (ga_conditions h') m e" if "(m, e) \<in> set (some_of chosen)" for m e
    proof -
      from that moves.map_act_result [OF moves_choose [OF assms] run, of "Some (m, e)" ?ok] obtain s t t' where
        "gate_moves ?ok h t" "choose_epoch env es n s t = (t', Inr (Some (m, e)))"
        by (auto simp: some_of_member)
      with choose_epoch_safe [OF assms this(2)] moved show ?thesis by (simp add: gate_moves_def)
    qed
    then have "\<forall>(m, e) \<in> set (some_of chosen). ?ok (ga_conditions h') m e" by auto
    from markAndProcess_safe [where ok = ?ok, OF assms this]
    show "gate_moves ?ok h' (fst ((if some_of chosen = [] then ret () else markAndProcess env es n (some_of chosen)) h'))"
      by (simp add: moves.refl)
  qed
  show "gate_moves ?ok g (fst (clearCompletedEpochs env es n g))"
    using clear by (auto simp: clearCompletedEpochs_def bind_act_def [of "ask _"] ask_def assms moves.refl)
qed

lemma tick_moves:
  assumes "ge_port env = fake_port"
  shows "only (gate_moves (safe_to_mark env es n)) (tick env es n)"
  unfolding tick_def Let_def assms
  by (auto split: option.splits intro!: only_intros moves_decide clearCompletedEpochs_safe assms)

end
