(* ===== verification/PublicationChannel.thy ===== *)
theory PublicationChannel
  imports PublicationLedger GateRoom
begin

section \<open>The gate, the publisher and the room together\<close>

text \<open>
  The permit server's pass over the queue, and the step relation of one room's publication
  channel: questions submitted, publisher ticks, permit-server ticks, gate ticks, restarts of
  the gate and everything else that happens on the chain, in any order.
\<close>

subsection \<open>A permit request leaves the room alone\<close>

interpretation chain_kept: preorder_on "\<lambda>g h :: 'c gate. ga_chain h = ga_chain g"
  by unfold_locales auto

lemma requestPermit_chain: "ga_chain (fst (requestPermit env es opts g)) = ga_chain g"
proof -
  have reads: "only (\<lambda>g h. ga_chain h = ga_chain g) (ask q)"
      "only (\<lambda>g h. ga_chain h = ga_chain g) (isSuspendedOnChain port)" for q :: "'c \<Rightarrow> 'x chain_result" and port
    using isSuspendedOnChain_reads [of port] by (auto simp: only_def ask_def reads_def)
  have logs: "only (\<lambda>g h. ga_chain h = ga_chain g) (log_entry x)" for x
    by (simp add: only_def log_entry_run)
  then have refuses: "only (\<lambda>g h. ga_chain h = ga_chain g) (refuse x why)" for x why
    unfolding refuse_def by (intro chain_kept.only_bind chain_kept.only_ret)
  have load: "only (\<lambda>g h. ga_chain h = ga_chain g) (modify ensure_loaded)"
    by (intro chain_kept.only_modify) (simp add: next_nonce_loaded)
  have counts: "only (\<lambda>g h. ga_chain h = ga_chain g)
      (modify (\<lambda>g. save (\<lambda>d. d\<lparr>du_nextNonce := Some (n + 1)\<rparr>) (g\<lparr>ga_nextNonce := n + 1\<rparr>)))" for n
    by (intro chain_kept.only_modify) simp
  have signs: "only (\<lambda>g h. ga_chain h = ga_chain g) (sign_permit env es opts ch ph)" for ch ph
    unfolding sign_permit_def Let_def
    by (auto split: option.splits intro!: chain_kept.only_bind chain_kept.only_lift chain_kept.only_gets
        chain_kept.only_ret chain_kept.only_raise counts logs)
  have "only (\<lambda>g h. ga_chain h = ga_chain g) (requestPermit env es opts)"
    unfolding requestPermit_def Let_def
    by (auto split: option.splits sum.splits intro!: chain_kept.only_bind chain_kept.only_lift load reads refuses signs)
  then show ?thesis by (simp add: only_def)
qed

subsection \<open>Serving one request\<close>

text \<open>How the permit server may leave a row that waits for a permit.\<close>

definition served_row :: "pub_request \<Rightarrow> 'c gate \<Rightarrow> pub_request \<Rightarrow> 'c gate \<Rightarrow> bool" where
  "served_row r g r' g' \<longleftrightarrow> ga_chain g' = ga_chain g \<and> nonce_saved g'
     \<and> (pr_permit r' = None \<and> next_nonce g' = next_nonce g
        \<or> (\<exists>p. pr_permit r' = Some p \<and> pm_nonce p = next_nonce g \<and> next_nonce g' = next_nonce g + 1))"

lemma markRefused_run:
  assumes "pq_get q (pr_id r) = Some r"
  shows "markRefused (pr_id r) why at q = Inr (put_row q (r\<lparr>pr_reason := Some why, pr_status := Refused, pr_updatedAt := at\<rparr>),
    r\<lparr>pr_reason := Some why, pr_status := Refused, pr_updatedAt := at\<rparr>)"
  using assms by (simp add: markRefused_def transition_at)

lemma serve_request_works:
  assumes "pq_get (sv_queue s) (pr_id r) = Some r" "pr_status r = AwaitingPermit" "well_numbered (sv_queue s)"
    "row_ok env (se_gate senv) r" "nonce_saved (sv_gate s)"
    and "pr_request r = Some request" "pr_conditionDocument r = Some doc"
  shows "\<exists>s' y r'. serve_request senv es nowMs r request doc n s = (s', Inr y) \<and> sv_queue s' = put_row (sv_queue s) r'
    \<and> row_le r r' \<and> row_ok env (se_gate senv) r' \<and> served_row r (sv_gate s) r' (sv_gate s')"
proof -
  let ?ge = "se_gate senv" and ?opts = "permit_options_of r request doc n nowMs" and ?q = "sv_queue s"
  have none: "pr_permit r = None" and asked: "as_asked env r" using assms(2,4) by (simp_all add: row_ok_def)
  have same: "put_row ?q r = ?q" using assms(1,3) by (simp add: put_row_same pq_get_row)
  obtain g' res where run: "requestPermit ?ge es ?opts (sv_gate s) = (g', res)" by fastforce
  have chain: "ga_chain g' = ga_chain (sv_gate s)" using requestPermit_chain [of ?ge es ?opts "sv_gate s"] run by simp
  have quiet: "nonce_saved g'" "next_nonce g' = next_nonce (sv_gate s)" if "\<And>sp. res \<noteq> Inr (Inr sp)"
    using requestPermit_unsigned [OF run that] assms(5) by (simp_all add: nonce_kept_def)
  note unfold_run = serve_request_def Let_def bind_act_run try_gate_def run prod.case sum.case
  show ?thesis
  proof (cases res)
    case (Inl e)
    then have "serve_request senv es nowMs r request doc n s = (s\<lparr>sv_gate := g'\<rparr>, Inr (GateThrew (pr_id r) e))"
      by (simp add: unfold_run)
    then show ?thesis
      using Inl quiet chain none same assms(4)
      by (intro exI [of _ "s\<lparr>sv_gate := g'\<rparr>"] exI [of _ "GateThrew (pr_id r) e"] exI [of _ r])
        (simp add: served_row_def row_le_refl)
  next
    case (Inr answer)
    show ?thesis
    proof (cases answer)
      case (Inl why)
      define r' where "r' = r\<lparr>pr_reason := Some (GateRefused why), pr_status := Refused, pr_updatedAt := se_at senv\<rparr>"
      have "serve_request senv es nowMs r request doc n s =
          (s\<lparr>sv_gate := g', sv_queue := put_row ?q r'\<rparr>, Inr (Answered (pr_id r) (pr_status r') (pr_reason r')))"
        using Inr Inl markRefused_run [OF assms(1)]
        by (simp add: unfold_run serve_refuse_def serve_write_def r'_def)
      moreover have "row_le r r'" "row_ok env ?ge r'"
        using assms(2) none by (simp_all add: row_le_def status_le_def terminal_def PUBLICATION_OPEN_STATUSES_def row_ok_def r'_def)
      moreover have "served_row r (sv_gate s) r' g'"
        using quiet Inr Inl chain none by (simp add: served_row_def r'_def)
      ultimately show ?thesis by (intro exI conjI) (assumption | simp)+
    next
      case signed: (Inr sp)
      define p where "p = sp_permit sp"
      note facts = requestPermit_signed [OF run [unfolded Inr signed]]
      obtain ph where ph: "params_hash (ge_hash ?ge) (ca_templateId (pr_candidate r)) (ca_params (pr_candidate r)) = Inr ph"
          "conditionHash (ge_hash ?ge) doc = Inr (pm_conditionHash p)"
          "slotRequestHash (ge_abi ?ge) request ph (pm_conditionHash p) (pr_restricted r) = Inr (pm_requestHash p)"
          "sp_templateParamsHash sp = ph" and "pm_nonce p = next_nonce (sv_gate s)" "sp_signature sp = ge_sign ?ge p"
        using facts(1) by (auto simp: permit_justified_def permit_options_of_def p_def)
      define r' where "r' = r\<lparr>pr_permit := Some p, pr_signature := Some (sp_signature sp),
        pr_request := Some (bound_request request sp), pr_reason := None, pr_status := Permitted, pr_updatedAt := se_at senv\<rparr>"
      have "markPermitted (pr_id r) p (sp_signature sp) (bound_request request sp) (se_at senv) ?q = Inr (put_row ?q r', r')"
        using assms(1) by (simp add: markPermitted_def transition_at r'_def)
      then have eq: "serve_request senv es nowMs r request doc n s =
          (s\<lparr>sv_gate := g', sv_queue := put_row ?q r'\<rparr>, Inr (SignedFor (pr_id r) (pm_nonce p)))"
        by (simp add: unfold_run Inr signed serve_write_def p_def)
      have "as_asked env r'"
        using asked assms(6) unfolding as_asked_def r'_def by (simp add: bound_request_def)
      moreover have "bound ?ge r' p"
        unfolding bound_def
        by (intro exI [of _ "bound_request request sp"] exI [of _ doc] exI [of _ ph])
          (simp add: r'_def ph assms(7) \<open>sp_signature sp = ge_sign ?ge p\<close>, simp add: bound_request_def ph p_def)
      ultimately have "row_ok env ?ge r'" by (simp add: row_ok_def r'_def)
      moreover have "row_le r r'"
        using assms(2) by (simp add: row_le_def status_le_def terminal_def PUBLICATION_OPEN_STATUSES_def r'_def)
      moreover have "served_row r (sv_gate s) r' g'"
        using facts(2-5) chain assms(5) \<open>pm_nonce p = next_nonce (sv_gate s)\<close>
        by (auto simp: served_row_def r'_def next_nonce_def nonce_saved_def saved_nonce_def)
      ultimately show ?thesis using eq by (intro exI conjI) (assumption | simp)+
    qed
  qed
qed

lemma serve_works:
  assumes "pq_get (sv_queue s) (pr_id r) = Some r" "pr_status r = AwaitingPermit" "well_numbered (sv_queue s)"
    "row_ok env (se_gate senv) r" "nonce_saved (sv_gate s)"
  shows "\<exists>s' y r'. serve senv es nowMs r s = (s', Inr y) \<and> sv_queue s' = put_row (sv_queue s) r'
    \<and> row_le r r' \<and> row_ok env (se_gate senv) r' \<and> served_row r (sv_gate s) r' (sv_gate s')"
proof -
  obtain request doc where r: "pr_request r = Some request" "pr_conditionDocument r = Some doc" "pr_permit r = None"
    using assms(2,4) by (auto simp: row_ok_def as_asked_def)
  note works = serve_request_works [OF assms r(1,2)]
  show ?thesis
  proof (cases "ca_slotIndex (pr_candidate r)")
    case (Some n)
    with works show ?thesis by (simp add: serve_def r(1,2))
  next
    case None
    show ?thesis
    proof (cases "se_slotCount senv (ga_chain (sv_gate s))")
      case (Inl e)
      have "put_row (sv_queue s) r = sv_queue s" using assms(1,3) by (simp add: put_row_same pq_get_row)
      with None Inl assms(4,5) r show ?thesis
        by (intro exI [of _ s] exI [of _ "NoSlotCount (pr_id r) e"] exI [of _ r])
          (simp add: serve_def bind_act_run served_row_def row_le_refl)
    next
      case (Inr n)
      with None works show ?thesis by (simp add: serve_def r(1,2) bind_act_run)
    qed
  qed
qed

definition room_state :: "fake_chain pub_env \<Rightarrow> fake_chain gate_env \<Rightarrow> fake_chain gate \<Rightarrow> pub_queue \<Rightarrow> bool" where
  "room_state env ge g q \<longleftrightarrow> nonce_saved g \<and> channel_ok env ge (next_nonce g) q (ga_chain g)"

lemma served_row_ledger:
  assumes "well_numbered q" "r \<in> set (all_requests q room)" "row_le r r'" "ledger room (next_nonce g) q (ga_chain g)"
    and "pr_permit r = None" "served_row r g r' g'"
  shows "ledger room (next_nonce g') (put_row q r') (ga_chain g')"
proof -
  have ok: "permits_ok room (next_nonce g) q" "landed_ok room q (ga_chain g)" using assms(4) by (simp_all add: ledger_def)
  have "landed_ok room (put_row q r') (ga_chain g')"
    using landed_put [OF assms(1-3) ok(2)] assms(5,6) by (simp add: belongs_def served_row_def)
  moreover have "permits_ok room (next_nonce g') (put_row q r')"
    using permits_ok_put [OF assms(1-3) ok(1)] permits_ok_sign [OF assms(1-3) ok(1)] assms(6)
    by (auto simp: served_row_def)
  ultimately show ?thesis by (simp add: ledger_def)
qed

interpretation serving: queue_worker sv_queue "serve senv es nowMs"
    "\<lambda>r. pr_status r = AwaitingPermit \<and> row_ok env (se_gate senv) r \<and> pr_roomId r = pe_roomId env"
    "\<lambda>r r'. row_le r r' \<and> row_ok env (se_gate senv) r'"
    "\<lambda>s. nonce_saved (sv_gate s) \<and> ledger (pe_roomId env) (next_nonce (sv_gate s)) (sv_queue s) (ga_chain (sv_gate s))"
  for senv :: "fake_chain serve_env" and es nowMs env
proof
  fix s :: "fake_chain serve_state" and r
  assume inv: "nonce_saved (sv_gate s) \<and> ledger (pe_roomId env) (next_nonce (sv_gate s)) (sv_queue s) (ga_chain (sv_gate s))"
    and numbered: "well_numbered (sv_queue s)" and row: "pq_get (sv_queue s) (pr_id r) = Some r"
    and takes: "pr_status r = AwaitingPermit \<and> row_ok env (se_gate senv) r \<and> pr_roomId r = pe_roomId env"
  from takes inv obtain s' y r' where r': "serve senv es nowMs r s = (s', Inr y)" "sv_queue s' = put_row (sv_queue s) r'"
      "row_le r r'" "row_ok env (se_gate senv) r'" "served_row r (sv_gate s) r' (sv_gate s')"
    using serve_works [OF row _ numbered, of env senv es nowMs] by blast
  have "r \<in> set (all_requests (sv_queue s) (pe_roomId env))" "pr_permit r = None"
    using row numbered takes by (simp_all add: pq_get_row all_requests_def row_ok_def)
  from served_row_ledger [OF numbered this(1) r'(3) _ this(2) r'(5)] inv r'(2)
  have "ledger (pe_roomId env) (next_nonce (sv_gate s')) (sv_queue s') (ga_chain (sv_gate s'))" by simp
  with r' show "\<exists>s' y r'. serve senv es nowMs r s = (s', Inr y) \<and> sv_queue s' = put_row (sv_queue s) r' \<and> pr_id r' = pr_id r
      \<and> (row_le r r' \<and> row_ok env (se_gate senv) r') \<and> nonce_saved (sv_gate s')
      \<and> ledger (pe_roomId env) (next_nonce (sv_gate s')) (sv_queue s') (ga_chain (sv_gate s'))"
    by (intro exI [of _ s'] exI [of _ y] exI [of _ r']) (simp add: row_le_def served_row_def)
qed

lemma server_tick_state:
  assumes "room_state env (se_gate senv) (sv_gate s) (sv_queue s)" "se_roomId senv = pe_roomId env"
  shows "\<exists>s' ys. server_tick senv es nowMs s = (s', Inr ys) \<and> room_state env (se_gate senv) (sv_gate s') (sv_queue s')
    \<and> queue_le (sv_queue s) (sv_queue s')"
proof -
  let ?rs = "take (se_maxPerTick senv) (byStatus (sv_queue s) (se_roomId senv) AwaitingPermit)"
  have s: "nonce_saved (sv_gate s)" "well_numbered (sv_queue s)" "rows_ok env (se_gate senv) (sv_queue s)"
      "ledger (pe_roomId env) (next_nonce (sv_gate s)) (sv_queue s) (ga_chain (sv_gate s))"
    using assms(1) by (simp_all add: room_state_def channel_ok_def)
  have sub: "set ?rs \<subseteq> set (byStatus (sv_queue s) (pe_roomId env) AwaitingPermit)"
    using set_take_subset assms(2) by metis
  then have rs: "set ?rs \<subseteq> set (pq_rows (sv_queue s))" by (auto simp: byStatus_def)
  have takes: "\<forall>r \<in> set ?rs. pr_status r = AwaitingPermit \<and> row_ok env (se_gate senv) r \<and> pr_roomId r = pe_roomId env"
    using sub s(3) by (auto simp: byStatus_def rows_ok_def all_requests_def)
  have "distinct (map pr_id ?rs)" using byStatus_ids [OF s(2)] by (simp add: take_map [symmetric] distinct_take)
  from serving.work_all [OF conjI [OF s(1,4)] s(2) rs this takes]
  obtain s' ys f where f: "map_act (serve senv es nowMs) ?rs s = (s', Inr ys)" "nonce_saved (sv_gate s')"
      "ledger (pe_roomId env) (next_nonce (sv_gate s')) (sv_queue s') (ga_chain (sv_gate s'))"
      "pq_rows (sv_queue s') = map f (pq_rows (sv_queue s))" "pq_lastId (sv_queue s') = pq_lastId (sv_queue s)"
      "\<forall>r. pr_id (f r) = pr_id r"
      "\<forall>r \<in> set (pq_rows (sv_queue s)). if r \<in> set ?rs then row_le r (f r) \<and> row_ok env (se_gate senv) (f r) else f r = r"
    by blast
  from pass_from_worker [OF f(4-6) s(2) f(7)] s(3) f(2,3)
  have "room_state env (se_gate senv) (sv_gate s') (sv_queue s') \<and> queue_le (sv_queue s) (sv_queue s')"
    by (simp add: room_state_def channel_ok_def)
  moreover have "server_tick senv es nowMs s = (s', Inr ys)"
    using f(1) by (simp add: server_tick_def bind_act_run)
  ultimately show ?thesis by blast
qed

subsection \<open>The channel as a transition system\<close>

text \<open>What the rows depend on of the two processes' settings stays the same between their runs.\<close>

definition same_keys :: "'c gate_env \<Rightarrow> 'c gate_env \<Rightarrow> bool" where
  "same_keys ge ge' \<longleftrightarrow> ge_hash ge' = ge_hash ge \<and> ge_abi ge' = ge_abi ge \<and> ge_sign ge' = ge_sign ge"

lemma row_ok_keys: "same_keys ge ge' \<Longrightarrow> row_ok env ge' r = row_ok env ge r"
  by (simp add: row_ok_def bound_def same_keys_def)

lemma row_ok_at [simp]: "row_ok (env\<lparr>pe_at := at\<rparr>) ge r = row_ok env ge r"
  by (simp add: row_ok_def as_asked_def)

lemma room_state_keys: "same_keys ge ge' \<Longrightarrow> room_state env ge' g q \<longleftrightarrow> room_state env ge g q"
  by (simp add: room_state_def channel_ok_def rows_ok_def row_ok_keys)

lemma channel_ok_at: "channel_ok (env\<lparr>pe_at := at\<rparr>) ge n q c = channel_ok env ge n q c"
  by (simp add: channel_ok_def rows_ok_def)

inductive channel_step :: "fake_chain pub_env \<Rightarrow> fake_chain gate_env \<Rightarrow> pub_queue \<times> fake_chain gate
    \<Rightarrow> pub_queue \<times> fake_chain gate \<Rightarrow> bool" for env ge where
  asked: "channel_step env ge (q, g) (fst (submit q room cand at), g)"
| publisher: "publisher_tick (env\<lparr>pe_at := at\<rparr>) nowMs \<lparr>pb_queue = q, pb_chain = ga_chain g\<rparr> = (s', r) \<Longrightarrow>
    channel_step env ge (q, g) (pb_queue s', g\<lparr>ga_chain := pb_chain s'\<rparr>)"
| server: "same_keys ge (se_gate senv) \<Longrightarrow> se_roomId senv = pe_roomId env \<Longrightarrow>
    server_tick senv es nowMs \<lparr>sv_gate = g, sv_queue = q\<rparr> = (s', r) \<Longrightarrow>
    channel_step env ge (q, g) (sv_queue s', sv_gate s')"
| gate: "ge_port ge' = fake_port \<Longrightarrow> tick ge' es nowMs g = (g', r) \<Longrightarrow> channel_step env ge (q, g) (q, g')"
| others: "fc_published c = fc_published (ga_chain g) \<Longrightarrow> fc_usedNonces c = fc_usedNonces (ga_chain g) \<Longrightarrow>
    channel_step env ge (q, g) (q, g\<lparr>ga_chain := c, ga_conditions := docs, ga_headlineMarket := hm\<rparr>)"
| restart: "channel_step env ge (q, g) (q, new_gate docs hm (ga_state g) metrics (ga_chain g))"

inductive channel_run :: "fake_chain pub_env \<Rightarrow> fake_chain gate_env \<Rightarrow> pub_queue \<times> fake_chain gate
    \<Rightarrow> pub_queue \<times> fake_chain gate \<Rightarrow> bool" for env ge where
  stay: "channel_run env ge s s"
| move: "channel_run env ge s t \<Longrightarrow> channel_step env ge t u \<Longrightarrow> channel_run env ge s u"

lemma nonce_of_chain [simp]:
  "next_nonce (g\<lparr>ga_chain := c\<rparr>) = next_nonce g" "nonce_saved (g\<lparr>ga_chain := c\<rparr>) = nonce_saved g"
  by (simp_all add: next_nonce_def nonce_saved_def)

lemma ledger_chain:
  assumes "fc_published c' = fc_published c" "fc_usedNonces c' = fc_usedNonces c"
  shows "ledger room n q c' = ledger room n q c"
  using assms by (simp add: ledger_def landed_ok_def)

lemma channel_step_state:
  assumes "channel_step env ge s t" "pe_port env = fake_publish_port" "room_state env ge (snd s) (fst s)"
  shows "room_state env ge (snd t) (fst t) \<and> queue_le (fst s) (fst t)"
  using assms
proof (induction rule: channel_step.induct)
  case (asked q g room cand at)
  then show ?case
    using submit_channel [of env ge "next_nonce g" q "ga_chain g" room cand at] by (simp add: room_state_def)
next
  case (publisher at nowMs q g s' r)
  have "channel_ok (env\<lparr>pe_at := at\<rparr>) ge (next_nonce g) q (ga_chain g)"
    using publisher.prems(2) by (simp add: channel_ok_at room_state_def)
  with publisher_tick_channel [of "env\<lparr>pe_at := at\<rparr>" ge "next_nonce g" "\<lparr>pb_queue = q, pb_chain = ga_chain g\<rparr>" nowMs]
    publisher.hyps publisher.prems(1)
  have "channel_ok env ge (next_nonce g) (pb_queue s') (pb_chain s')" "queue_le q (pb_queue s')"
    by (auto simp: channel_ok_at)
  then show ?case
    using publisher.prems(2) by (simp add: room_state_def)
next
  case (server senv es nowMs g q s' r)
  with server_tick_state [of env senv "\<lparr>sv_gate = g, sv_queue = q\<rparr>" es nowMs]
  show ?case by (auto simp: room_state_keys)
next
  case (gate ge' es nowMs g g' r q)
  have "nonce_kept g g'" using onlyD [OF kept_tick gate.hyps(2)] .
  moreover have "fc_published (ga_chain g') = fc_published (ga_chain g)" "fc_usedNonces (ga_chain g') = fc_usedNonces (ga_chain g)"
    using onlyD [OF tick_moves [OF gate.hyps(1)] gate.hyps(2)] by (simp_all add: gate_moves_def chain_step_def)
  ultimately show ?case
    using gate.prems(2) ledger_chain [of "ga_chain g'" "ga_chain g" "pe_roomId env" "next_nonce g" q]
    by (simp add: room_state_def channel_ok_def nonce_kept_def queue_order.refl)
next
  case (others c g q hm docs)
  then show ?case
    using ledger_chain [OF others.hyps] gate_step_nonces [OF gate_step.outside [where g = g and c = c and docs = docs and hm = hm]]
    by (simp add: room_state_def channel_ok_def queue_order.refl)
next
  case (restart q g docs hm metrics)
  moreover have "ga_chain (new_gate docs hm (ga_state g) metrics (ga_chain g)) = ga_chain g" by (simp add: new_gate_def)
  ultimately show ?case
    using gate_step_nonces [OF gate_step.restarted [where g = g and docs = docs and hm = hm and metrics = metrics and c = "ga_chain g"]]
    by (simp add: room_state_def queue_order.refl)
qed

lemma channel_run_state:
  assumes "channel_run env ge s t" "pe_port env = fake_publish_port" "room_state env ge (snd s) (fst s)"
  shows "room_state env ge (snd t) (fst t) \<and> queue_le (fst s) (fst t)"
  using assms
proof (induction rule: channel_run.induct)
  case (move s t u)
  with channel_step_state [OF move.hyps(2)] show ?case using queue_order.trans by blast
qed (simp add: queue_order.refl)

lemma room_state_start:
  assumes "nonce_saved g" "fc_published (ga_chain g) = []" "fc_usedNonces (ga_chain g) = []"
  shows "room_state env ge g empty_queue"
  using assms by (simp add: room_state_def channel_ok_def well_numbered_def rows_ok_def all_requests_def empty_queue_def
      ledger_def permits_ok_def landed_ok_def)

end
