(* ===== verification/GateTick.thy ===== *)
theory GateTick
  imports GateRoom
begin

section \<open>What a tick achieves\<close>

subsection \<open>Suspension is decided on the chain\<close>

lemma find_act_reads:
  "(\<And>x. x \<in> set xs \<Longrightarrow> f x s = (s, Inr (p x))) \<Longrightarrow> find_act f xs s = (s, Inr (List.find p xs))"
  by (induction xs) (auto simp: bind_act_run)

definition distinct_markets :: "fake_chain \<Rightarrow> bool" where
  "distinct_markets c \<longleftrightarrow> distinct (map sl_market (fc_slots c))"

definition open_slots :: "fake_chain \<Rightarrow> slot set" where
  "open_slots c = {s \<in> set (fc_slots c). \<not> sl_closed s}"

lemma openSlots_set: "set (openSlots c) = ref_of ` open_slots c"
  by (auto simp: openSlots_def open_slots_def)

lemma gateStateOf_slot:
  assumes "distinct_markets c" "s \<in> open_slots c"
  shows "gateStateOf c (sr_market (ref_of s)) = Inr (if sl_suspended s then Suspended else Open)"
  using assms slot_of_unique [of c s] by (simp add: gateStateOf_def ref_of_def open_slots_def distinct_markets_def)

lemma isSuspended_fake:
  assumes "distinct_markets (ga_chain g)"
  shows "isSuspendedOnChain fake_port g = (g, Inr (\<exists>s \<in> open_slots (ga_chain g). sl_suspended s))"
proof -
  let ?p = "\<lambda>r. gateStateOf (ga_chain g) (sr_market r) = Inr Suspended"
  have "find_act (\<lambda>s. bind_act (ask (\<lambda>c. gateStateOf c (sr_market s))) (\<lambda>st. ret (st = Suspended))) (openSlots (ga_chain g)) g
      = (g, Inr (List.find ?p (openSlots (ga_chain g))))"
    by (rule find_act_reads)
      (use gateStateOf_slot [OF assms] in \<open>auto simp: openSlots_set bind_act_run ask_def\<close>)
  moreover have "List.find ?p (openSlots (ga_chain g)) \<noteq> None \<longleftrightarrow> (\<exists>s \<in> open_slots (ga_chain g). sl_suspended s)"
    using gateStateOf_slot [OF assms] by (auto simp: find_None_iff openSlots_set split: if_splits)
  ultimately show ?thesis
    by (simp add: isSuspendedOnChain_def ask_opt_def bind_act_run ask_def [of "\<lambda>c. Inr (openSlots c)"])
qed

lemma everyOpenSlotSuspended_fake:
  assumes "distinct_markets (ga_chain g)"
  shows "everyOpenSlotSuspended fake_port g
    = (g, Inr (open_slots (ga_chain g) \<noteq> {} \<and> (\<forall>s \<in> open_slots (ga_chain g). sl_suspended s)))"
proof (cases "openSlots (ga_chain g) = []")
  case True
  then have "open_slots (ga_chain g) = {}" using openSlots_set [of "ga_chain g"] by simp
  with True isSuspended_fake [OF assms] show ?thesis
    by (simp add: everyOpenSlotSuspended_def bind_act_run ask_def)
next
  case False
  let ?p = "\<lambda>r. gateStateOf (ga_chain g) (sr_market r) \<noteq> Inr Suspended"
  have "find_act (\<lambda>s. bind_act (ask (\<lambda>c. gateStateOf c (sr_market s))) (\<lambda>st. ret (st \<noteq> Suspended))) (openSlots (ga_chain g)) g
      = (g, Inr (List.find ?p (openSlots (ga_chain g))))"
    by (rule find_act_reads)
      (use gateStateOf_slot [OF assms] in \<open>auto simp: openSlots_set bind_act_run ask_def\<close>)
  moreover have "List.find ?p (openSlots (ga_chain g)) = None \<longleftrightarrow> (\<forall>s \<in> open_slots (ga_chain g). sl_suspended s)"
    using gateStateOf_slot [OF assms] by (auto simp: find_None_iff openSlots_set split: if_splits)
  moreover have "open_slots (ga_chain g) \<noteq> {}" using False openSlots_set [of "ga_chain g"] by auto
  ultimately show ?thesis
    using False by (simp add: everyOpenSlotSuspended_def bind_act_run ask_def [of "\<lambda>c. Inr (openSlots c)"])
qed

text \<open>
  The sequences the gate sends, as the room sees them: any action at the watermark or above is
  accepted, and a close goes strictly past it.
\<close>

lemma roomSequence_fake:
  "roomSequence fake_port n g = (g, Inr (max n (fc_lastObserved (ga_chain g))))"
  by (auto simp: roomSequence_def bind_act_run ask_def)

lemma closingSequence_fake:
  "closingSequence fake_port n g
    = (g, Inr (if fc_lastObserved (ga_chain g) < n then n else fc_lastObserved (ga_chain g) + 1))"
  by (auto simp: closingSequence_def bind_act_run ask_def)

definition all_frozen :: "fake_chain \<Rightarrow> bool" where
  "all_frozen c \<longleftrightarrow> (\<forall>s \<in> open_slots c. sl_suspended s)"

lemma suspendRoom_freezes:
  assumes "fc_roomClosed c = 0" "fc_lastObserved c \<le> seq"
  shows "\<exists>c'. suspendRoom c seq = (c', Inr ()) \<and> all_frozen c' \<and> fc_roomClosed c' = 0 \<and> fc_lastObserved c' = seq"
  using assms by (auto simp: suspendRoom_def advance_def set_suspended_def called_def all_frozen_def open_slots_def
      split: if_splits)

lemma suspend_freezes:
  assumes "distinct_markets (ga_chain g)" "fc_roomClosed (ga_chain g) = 0"
  shows "\<exists>g' b. suspend fake_port es r g = (g', Inr b) \<and> all_frozen (ga_chain g') \<and> fc_roomClosed (ga_chain g') = 0"
proof (cases "open_slots (ga_chain g) \<noteq> {} \<and> (\<forall>s \<in> open_slots (ga_chain g). sl_suspended s)")
  case True
  with everyOpenSlotSuspended_fake [OF assms(1)] assms(2) show ?thesis
    by (auto simp: suspend_def bind_act_run all_frozen_def intro: exI [of _ False])
next
  case False
  from suspendRoom_freezes [OF assms(2), of "max (tipSeq es) (fc_lastObserved (ga_chain g))"] obtain c' where
    "suspendRoom (ga_chain g) (max (tipSeq es) (fc_lastObserved (ga_chain g))) = (c', Inr ())"
    "all_frozen c'" "fc_roomClosed c' = 0" by auto
  with False everyOpenSlotSuspended_fake [OF assms(1)] show ?thesis
    by (auto simp: suspend_def bind_act_run roomSequence_fake log_entry_run send_def Let_def)
qed

subsection \<open>A decided headline closes the room and every market\<close>

definition close_if :: "string set \<Rightarrow> int \<Rightarrow> slot \<Rightarrow> slot" where
  "close_if ms seq s =
     (if sl_market s \<in> ms \<and> \<not> sl_closed s then s\<lparr>sl_closed := True, sl_decisiveSeq := Some seq\<rparr> else s)"

lemma close_if_simps [simp]:
  "sl_market (close_if ms seq s) = sl_market s" "sl_lastSafeSeq (close_if ms seq s) = sl_lastSafeSeq s"
  "close_if {} seq s = s"
  by (simp_all add: close_if_def)

lemma closeOne_slots:
  assumes "distinct_markets c" "m \<in> sl_market ` set (fc_slots c)" "\<forall>s \<in> set (fc_slots c). sl_lastSafeSeq s < seq"
  shows "\<exists>c'. closeOne seq m c = (c', Inr ()) \<and> fc_slots c' = map (close_if {m} seq) (fc_slots c)
    \<and> fc_roomClosed c' = fc_roomClosed c \<and> fc_lastObserved c' = fc_lastObserved c"
proof -
  from assms(2) obtain s where s: "s \<in> set (fc_slots c)" "sl_market s = m" by blast
  then have found: "slot_of c m = Inr s" using slot_of_unique [of c s] assms(1) by (simp add: distinct_markets_def)
  have only: "t = s" if "t \<in> set (fc_slots c)" "sl_market t = m" for t
    using that s assms(1) by (auto simp: distinct_markets_def distinct_map inj_on_def)
  show ?thesis
  proof (cases "sl_closed s")
    case True
    have "map (close_if {m} seq) (fc_slots c) = fc_slots c"
      using only True by (intro map_idI) (auto simp: close_if_def)
    with True found show ?thesis by (simp add: closeOne_def)
  next
    case False
    have "fc_slots (update_slot m (\<lambda>s. s\<lparr>sl_closed := True, sl_decisiveSeq := Some seq\<rparr>) c) = map (close_if {m} seq) (fc_slots c)"
      using only False assms(1)
      by (auto simp: update_slot_def update_first_map distinct_markets_def close_if_def)
    with False found s(1) assms(3) show ?thesis by (force simp: closeOne_def update_slot_def)
  qed
qed

lemma each_closeOne_slots:
  assumes "distinct_markets c" "set ms \<subseteq> sl_market ` set (fc_slots c)" "\<forall>s \<in> set (fc_slots c). sl_lastSafeSeq s < seq"
  shows "\<exists>c'. each (closeOne seq) ms c = (c', Inr ()) \<and> fc_slots c' = map (close_if (set ms) seq) (fc_slots c)
    \<and> fc_roomClosed c' = fc_roomClosed c \<and> fc_lastObserved c' = fc_lastObserved c"
  using assms
proof (induction ms arbitrary: c)
  case Nil
  then show ?case by simp
next
  case (Cons m ms)
  then obtain c1 where c1: "closeOne seq m c = (c1, Inr ())" "fc_slots c1 = map (close_if {m} seq) (fc_slots c)"
      "fc_roomClosed c1 = fc_roomClosed c" "fc_lastObserved c1 = fc_lastObserved c"
    using closeOne_slots [of c m seq] by auto
  have mk: "map sl_market (fc_slots c1) = map sl_market (fc_slots c)" by (simp add: c1(2) comp_def)
  have dist: "distinct_markets c1" unfolding distinct_markets_def mk using Cons.prems(1) by (simp add: distinct_markets_def)
  have "sl_market ` set (fc_slots c1) = sl_market ` set (fc_slots c)" unfolding set_map [symmetric] mk ..
  then have known: "set ms \<subseteq> sl_market ` set (fc_slots c1)" using Cons.prems(2) by simp
  have safe: "\<forall>s \<in> set (fc_slots c1). sl_lastSafeSeq s < seq" using Cons.prems(3) c1(2) by simp
  from Cons.IH [OF dist known safe] obtain c' where c': "each (closeOne seq) ms c1 = (c', Inr ())"
      "fc_slots c' = map (close_if (set ms) seq) (fc_slots c1)" "fc_roomClosed c' = fc_roomClosed c1"
      "fc_lastObserved c' = fc_lastObserved c1" by blast
  have "map (close_if (set ms) seq) (fc_slots c1) = map (close_if (set (m # ms)) seq) (fc_slots c)"
    by (auto simp: c1(2) close_if_def)
  with c1 c' show ?case by simp
qed

lemma close_everything:
  assumes "room_ok c" "fc_roomClosed c = 0" "fc_lastObserved c < seq"
  shows "\<exists>c1 c2. closeRoom c seq = (c1, Inr ())
    \<and> closeRemainingSlots c1 (map sr_market (openSlots c)) = (c2, Inr ())
    \<and> fc_roomClosed c2 = seq \<and> fc_slots c2 = map (close_if UNIV seq) (fc_slots c)"
proof -
  define c1 where "c1 = (called (CloseRoom seq) (c\<lparr>fc_lastObserved := seq\<rparr>))\<lparr>fc_roomClosed := seq\<rparr>"
  have run1: "closeRoom c seq = (c1, Inr ())"
    using assms by (simp add: closeRoom_def advance_def c1_def)
  let ?ms = "map sr_market (openSlots c)"
  define c1' where "c1' = called (CloseRemainingSlots ?ms) c1"
  have slots: "fc_slots c1' = fc_slots c" "fc_roomClosed c1' = seq" "fc_roomClosed c1 = seq"
    by (simp_all add: c1'_def c1_def called_def)
  have "seq \<noteq> 0" using assms by (simp add: room_ok_def)
  have "distinct_markets c1'" "set ?ms \<subseteq> sl_market ` set (fc_slots c1')"
    "\<forall>s \<in> set (fc_slots c1'). sl_lastSafeSeq s < seq"
    using assms slots by (fastforce simp: room_ok_def distinct_markets_def openSlots_def ref_of_def)+
  from each_closeOne_slots [OF this] obtain c2 where c2: "each (closeOne seq) ?ms c1' = (c2, Inr ())"
      "fc_slots c2 = map (close_if (set ?ms) seq) (fc_slots c1')" "fc_roomClosed c2 = fc_roomClosed c1'" by blast
  have "close_if (set ?ms) seq s = close_if UNIV seq s" if "s \<in> set (fc_slots c)" for s
    using that by (auto simp: close_if_def openSlots_def ref_of_def)
  then have "fc_slots c2 = map (close_if UNIV seq) (fc_slots c)" using c2(2) slots(1) by simp
  with run1 c2 slots \<open>seq \<noteq> 0\<close> show ?thesis
    by (auto simp: closeRemainingSlots_def c1'_def)
qed

lemma send_run: "f (ga_chain g) = (c, Inr u) \<Longrightarrow> send f g = (g\<lparr>ga_chain := c\<rparr>, Inr u)"
  by (simp add: send_def)

text \<open>C27: a decided headline closes the room, at a sequence the room accepts, and with
  it every market still open, in the same tick; no slot is left open and none that was closed is
  touched.\<close>

lemma tick_closes_decided_room:
  assumes "ge_port env = fake_port" "room_ok (ga_chain g)" "fc_roomClosed (ga_chain g) = 0"
    and "ga_headlineMarket g = Some hm" "s \<in> open_slots (ga_chain g)" "sl_market s = hm"
    and "js_get (ga_conditions g) hm = Some doc" "evaluate_now env es doc None False = Decided outcome seq"
  shows "\<exists>g'. tick env es nowMs g = (g', Inr ())
    \<and> fc_roomClosed (ga_chain g') = (if fc_lastObserved (ga_chain g) < seq then seq else fc_lastObserved (ga_chain g) + 1)
    \<and> fc_slots (ga_chain g') = map (close_if UNIV (fc_roomClosed (ga_chain g'))) (fc_slots (ga_chain g))"
proof -
  let ?g = "ensure_loaded g" and ?c = "ga_chain g"
  define closeAt where "closeAt = (if fc_lastObserved ?c < seq then seq else fc_lastObserved ?c + 1)"
  have loaded: "ga_chain ?g = ?c" "ga_conditions ?g = ga_conditions g" "ga_headlineMarket ?g = ga_headlineMarket g"
    by (auto simp: ensure_loaded_def split: option.splits)
  have "ref_of s \<in> set (openSlots ?c)" using assms(5) by (simp add: openSlots_set)
  with assms(6) have "List.find (\<lambda>r. Some (sr_market r) = Some hm) (openSlots ?c) \<noteq> None"
    by (auto simp: find_None_iff ref_of_def)
  then obtain h where h: "List.find (\<lambda>r. Some (sr_market r) = Some hm) (openSlots ?c) = Some h" "sr_market h = hm"
    by (auto simp: find_Some_iff)
  have "fc_lastObserved ?c < closeAt" by (simp add: closeAt_def)
  from close_everything [OF assms(2,3) this] obtain c1 c2 where c: "closeRoom ?c closeAt = (c1, Inr ())"
      "closeRemainingSlots c1 (map sr_market (openSlots ?c)) = (c2, Inr ())"
      "fc_roomClosed c2 = closeAt" "fc_slots c2 = map (close_if UNIV closeAt) (fc_slots ?c)" by blast
  have cond: "conditionFor (sr_market h) ?g = (?g, Inr doc)"
    using h(2) assms(7) loaded by (simp add: conditionFor_def bind_act_run)
  have seq: "closingSequence fake_port seq ?g = (?g, Inr closeAt)"
    by (simp add: closingSequence_fake closeAt_def loaded)
  obtain g1 where g1: "log_entry (AuditCloseRoom seq closeAt (closeAt \<noteq> seq) outcome) ?g = (g1, Inr ())" "ga_chain g1 = ?c"
    by (simp add: log_entry_run loaded)
  have s1: "send (\<lambda>d. closeRoom d closeAt) g1 = (g1\<lparr>ga_chain := c1\<rparr>, Inr ())"
    using c(1) g1(2) by (intro send_run) simp
  have s2: "send (\<lambda>d. closeRemainingSlots d (map sr_market (openSlots ?c))) (g1\<lparr>ga_chain := c1\<rparr>) = (g1\<lparr>ga_chain := c2\<rparr>, Inr ())"
    using c(2) send_run [of "\<lambda>d. closeRemainingSlots d (map sr_market (openSlots ?c))" "g1\<lparr>ga_chain := c1\<rparr>"] by simp
  have dec: "decide_headline env es nowMs (openSlots ?c) h ?g = (g1\<lparr>ga_chain := c2\<rparr>, Inr True)"
    unfolding decide_headline_def Let_def
    using cond seq g1(1) s1 s2 by (simp add: assms(1,8) bind_act_run)
  have "tick env es nowMs g = (g1\<lparr>ga_chain := c2\<rparr>, Inr ())"
    unfolding tick_def Let_def
    using dec h(1) assms(1,3,4) loaded by (simp add: bind_act_run ask_def)
  with c show ?thesis by (auto simp: closeAt_def)
qed

subsection \<open>A stale source freezes the room\<close>

definition closed_or_frozen :: "fake_chain \<Rightarrow> bool" where
  "closed_or_frozen c \<longleftrightarrow> fc_roomClosed c \<noteq> 0 \<or> all_frozen c"

lemma moved_room:
  assumes "gate_moves ok g g'" "room_ok (ga_chain g)"
  shows "room_ok (ga_chain g')" "fc_roomClosed (ga_chain g) \<noteq> 0 \<Longrightarrow> fc_roomClosed (ga_chain g') \<noteq> 0"
  using assms by (auto simp: gate_moves_def chain_step_def)

lemma suspend_closed_or_frozen:
  assumes "suspend fake_port es r g = (g', Inr b)" "room_ok (ga_chain g)"
  shows "closed_or_frozen (ga_chain g')"
proof (cases "fc_roomClosed (ga_chain g) = 0")
  case True
  with suspend_freezes [of g es r] assms show ?thesis
    by (auto simp: closed_or_frozen_def room_ok_def distinct_markets_def)
next
  case False
  with moved_room [OF onlyD [OF moves_gate_actions(1) assms(1)] assms(2)] show ?thesis
    by (simp add: closed_or_frozen_def)
qed

lemma closing_closes:
  assumes "closingSequence fake_port n g = (g1, Inr seq)" "log_entry x g1 = (g2, Inr u)"
    "send (\<lambda>c. closeRoom c seq) g2 = (g3, Inr v)" "room_ok (ga_chain g)"
  shows "fc_roomClosed (ga_chain g3) \<noteq> 0" "room_ok (ga_chain g3)"
proof -
  have g: "g1 = g" "fc_lastObserved (ga_chain g) < seq" "ga_chain g2 = ga_chain g"
    using assms(1,2) by (auto simp: closingSequence_fake log_entry_run split: if_splits)
  obtain c r where c: "closeRoom (ga_chain g) seq = (c, r)" by fastforce
  with assms(3) g(3) have c3: "ga_chain g3 = c" "\<exists>w. r = Inr w" by (auto simp: send_def result_simps)
  have "fc_roomClosed c = seq" using c c3(2) by (auto simp: closeRoom_def split: sum.splits)
  with g(2) assms(4) c3(1) show "fc_roomClosed (ga_chain g3) \<noteq> 0" by (simp add: room_ok_def)
  show "room_ok (ga_chain g3)"
    using chain_step_writes(4) [of "\<lambda>m e. True" "ga_chain g" seq] c c3 assms(4) by (simp add: chain_step_def)
qed

lemma conditionFor_Inr: "conditionFor m g = (g', Inr doc) \<longleftrightarrow> g' = g \<and> js_get (ga_conditions g) m = Some doc"
  by (auto simp: conditionFor_def bind_act_run split: option.splits)

lemma decide_headline_done:
  assumes "ge_port env = fake_port" "decide_headline env es n open h g = (g', Inr True)" "room_ok (ga_chain g)"
  shows "closed_or_frozen (ga_chain g')"
proof -
  from assms(2) obtain doc where run: "(case evaluate_now env es doc None False of
          Decided outcome seq \<Rightarrow>
            bind_act (closingSequence fake_port seq) (\<lambda>closeAt.
            bind_act (log_entry (AuditCloseRoom seq closeAt (closeAt \<noteq> seq) outcome)) (\<lambda>u.
            bind_act (send (\<lambda>c. closeRoom c closeAt)) (\<lambda>u.
            bind_act (send (\<lambda>c. closeRemainingSlots c (map sr_market open))) (\<lambda>u. ret True))))
        | Unevaluable reason \<Rightarrow>
            bind_act (markUnevaluable (sr_market h) n reason) (\<lambda>persistedMs.
            bind_act (suspend fake_port es (HeadlineUnevaluable reason)) (\<lambda>u.
            bind_act (when_act (persistedMs \<ge> (case gc_unevaluableGraceMs (ge_config env) of Some g \<Rightarrow> g | None \<Rightarrow> 120000))
              (bind_act (closingSequence fake_port (tipSeq es)) (\<lambda>seq.
               bind_act (log_entry (AuditCloseRoomGrace seq persistedMs)) (\<lambda>u.
               bind_act (send (\<lambda>c. closeRoom c seq)) (\<lambda>u.
               send (\<lambda>c. closeRemainingSlots c (map sr_market open))))))) (\<lambda>u. ret True)))
        | Undecided \<Rightarrow> bind_act (clearUnevaluable (sr_market h)) (\<lambda>u. ret False)) g = (g', Inr True)"
    unfolding decide_headline_def Let_def assms(1) fake_port_calls
    by (auto simp: bind_act_Inr conditionFor_Inr)
  have remaining: "fc_roomClosed (ga_chain k') \<noteq> 0"
    if "send (\<lambda>c. closeRemainingSlots c ms) k = (k', r)" "fc_roomClosed (ga_chain k) \<noteq> 0" "room_ok (ga_chain k)" for k k' r ms
    using moved_room(2) [OF onlyD [OF moves_sends(5) that(1)] that(3)] that(2) by simp
  show ?thesis
  proof (cases "evaluate_now env es doc None False")
    case Undecided
    with run show ?thesis by (simp add: bind_act_Inr)
  next
    case (Decided outcome seq)
    with run obtain g1 g2 g3 closeAt u v w r where steps: "closingSequence fake_port seq g = (g1, Inr closeAt)"
        "log_entry (AuditCloseRoom seq closeAt (closeAt \<noteq> seq) outcome) g1 = (g2, Inr u)"
        "send (\<lambda>c. closeRoom c closeAt) g2 = (g3, Inr v)"
        "send (\<lambda>c. closeRemainingSlots c (map sr_market open)) g3 = (g', Inr w)"
      by (auto simp: bind_act_Inr)
    from remaining [OF steps(4)] closing_closes [OF steps(1-3) assms(3)] show ?thesis
      by (simp add: closed_or_frozen_def)
  next
    case (Unevaluable reason)
    with run obtain g1 g2 p b u where steps: "markUnevaluable (sr_market h) n reason g = (g1, Inr p)"
        "suspend fake_port es (HeadlineUnevaluable reason) g1 = (g2, Inr b)"
        "when_act (p \<ge> (case gc_unevaluableGraceMs (ge_config env) of Some g \<Rightarrow> g | None \<Rightarrow> 120000))
              (bind_act (closingSequence fake_port (tipSeq es)) (\<lambda>seq.
               bind_act (log_entry (AuditCloseRoomGrace seq p)) (\<lambda>u.
               bind_act (send (\<lambda>c. closeRoom c seq)) (\<lambda>u.
               send (\<lambda>c. closeRemainingSlots c (map sr_market open)))))) g2 = (g', Inr u)"
      by (auto simp: bind_act_Inr)
    have ok1: "room_ok (ga_chain g1)" using moved_room(1) [OF onlyD [OF moves_unevaluable(1) steps(1)] assms(3)] .
    have ok2: "room_ok (ga_chain g2)" using moved_room(1) [OF onlyD [OF moves_gate_actions(1) steps(2)] ok1] .
    from steps(3) consider "g' = g2"
      | g3 g4 g5 seq v w where "closingSequence fake_port (tipSeq es) g2 = (g3, Inr seq)"
        "log_entry (AuditCloseRoomGrace seq p) g3 = (g4, Inr v)" "send (\<lambda>c. closeRoom c seq) g4 = (g5, Inr w)"
        "send (\<lambda>c. closeRemainingSlots c (map sr_market open)) g5 = (g', Inr u)"
      by (auto simp: when_act_Inr bind_act_Inr split: if_splits)
    then show ?thesis
    proof cases
      case 1
      with suspend_closed_or_frozen [OF steps(2) ok1] show ?thesis by simp
    next
      case 2
      from remaining [OF 2(4)] closing_closes [OF 2(1-3) ok2] show ?thesis by (simp add: closed_or_frozen_def)
    qed
  qed
qed

text \<open>C28: no market stays open to trading on a source the gate has not heard from.
  When the newest event of the log is older than the freshness threshold, a tick that returns
  leaves the room closed or every open market suspended.\<close>

lemma tick_stale_freezes:
  assumes "ge_port env = fake_port" "room_ok (ga_chain g)" "fc_roomClosed (ga_chain g) = 0"
    and "age_exceeds (freshnessAgeMs (last_opt es) n) (gc_freshnessThresholdMs (ge_config env))"
    and "tick env es n g = (g', Inr ())"
  shows "closed_or_frozen (ga_chain g')"
proof -
  let ?g = "ensure_loaded g"
  have chain: "ga_chain ?g = ga_chain g" by (rule next_nonce_loaded)
  define h where "h = List.find (\<lambda>s. Some (sr_market s) = ga_headlineMarket ?g) (openSlots (ga_chain g))"
  have "\<exists>g1 fin.
    (case h of None \<Rightarrow> ret False | Some k \<Rightarrow> decide_headline env es n (openSlots (ga_chain g)) k) ?g = (g1, Inr fin)
    \<and> (if fin then ret () else
        bind_act (map_act (decide_micro env es n (map_option sr_market h)) (openSlots (ga_chain g))) (\<lambda>decided.
        bind_act (close_decided fake_port (some_of decided)) (\<lambda>u.
        bind_act (suspend fake_port es (StaleSource (freshnessAgeMs (last_opt es) n))) (\<lambda>u. ret ())))) g1 = (g', Inr ())"
    using assms(5) unfolding tick_def Let_def assms(1) if_P [OF assms(4)] h_def
    by (simp add: bind_act_Inr ask_def assms(3) chain)
  then obtain g1 fin where first:
    "(case h of None \<Rightarrow> ret False | Some k \<Rightarrow> decide_headline env es n (openSlots (ga_chain g)) k) ?g = (g1, Inr fin)"
    and rest: "(if fin then ret () else
        bind_act (map_act (decide_micro env es n (map_option sr_market h)) (openSlots (ga_chain g))) (\<lambda>decided.
        bind_act (close_decided fake_port (some_of decided)) (\<lambda>u.
        bind_act (suspend fake_port es (StaleSource (freshnessAgeMs (last_opt es) n))) (\<lambda>u. ret ())))) g1 = (g', Inr ())"
    by blast
  show ?thesis
  proof (cases fin)
    case True
    with first obtain k where "decide_headline env es n (openSlots (ga_chain g)) k ?g = (g1, Inr True)"
      by (auto split: option.splits)
    from decide_headline_done [OF assms(1) this] True rest assms(2) chain show ?thesis by simp
  next
    case False
    have "gate_moves (safe_to_mark env es n) ?g g1"
      using first onlyD [OF moves_decide(1) [OF assms(1)]] by (auto simp: moves.refl split: option.splits)
    then have ok1: "room_ok (ga_chain g1)" using moved_room(1) assms(2) chain by metis
    from False rest obtain g2 g3 decided u b where steps:
      "map_act (decide_micro env es n (map_option sr_market h)) (openSlots (ga_chain g)) g1 = (g2, Inr decided)"
      "close_decided fake_port (some_of decided) g2 = (g3, Inr u)"
      "suspend fake_port es (StaleSource (freshnessAgeMs (last_opt es) n)) g3 = (g', Inr b)"
      by (auto simp: bind_act_Inr)
    have ok2: "room_ok (ga_chain g2)"
      using moved_room(1) [OF onlyD [OF moves.only_map [OF moves_decide(2) [OF assms(1)]] steps(1)] ok1] .
    have "room_ok (ga_chain g3)" using moved_room(1) [OF onlyD [OF moves_gate_actions(4) steps(2)] ok2] .
    from suspend_closed_or_frozen [OF steps(3) this] show ?thesis .
  qed
qed

end
