(* ===== verification/GateReturns.thy ===== *)
theory GateReturns
  imports GateTick
begin

section \<open>A tick of a documented room returns\<close>

text \<open>
  Over the in-memory room, none of the calls a tick makes can be refused: sequences are at or
  past the watermark, markets are known, and a room that is closed is not written to again. So
  a tick throws only for a market without a condition document.
\<close>

subsection \<open>Calls that return\<close>

text \<open>From every state of \<open>I\<close> the call returns, in a state of \<open>I\<close>, with a result of \<open>Q\<close>.\<close>

definition sure :: "('s \<Rightarrow> bool) \<Rightarrow> ('s, 'e, 'a) action \<Rightarrow> ('a \<Rightarrow> bool) \<Rightarrow> bool" where
  "sure I m Q \<longleftrightarrow> (\<forall>s. I s \<longrightarrow> (\<exists>s' x. m s = (s', Inr x) \<and> I s' \<and> Q x))"

named_theorems sure_intros \<open>rules to show that a call returns\<close>

lemma sureE:
  assumes "sure I m Q" "I s"
  obtains s' x where "m s = (s', Inr x)" "I s'" "Q x"
  using assms unfolding sure_def by blast

lemma sure_ret [sure_intros]: "Q x \<Longrightarrow> sure I (ret x) Q"
  by (simp add: sure_def)

lemma sure_modify: "(\<And>s. I s \<Longrightarrow> I (f s)) \<Longrightarrow> Q () \<Longrightarrow> sure I (modify f) Q"
  by (simp add: sure_def)

lemma sure_gets: "(\<And>s. I s \<Longrightarrow> Q (f s)) \<Longrightarrow> sure I (gets f) Q"
  by (simp add: sure_def)

lemma sure_weaken: "sure I m P \<Longrightarrow> (\<And>x. P x \<Longrightarrow> Q x) \<Longrightarrow> sure I m Q"
  unfolding sure_def by blast

lemma sure_bind:
  assumes "sure I m P" "\<And>x. P x \<Longrightarrow> sure I (f x) Q"
  shows "sure I (bind_act m f) Q"
  using assms unfolding sure_def by (metis bind_act_simps(1))

lemma sure_when: "(b \<Longrightarrow> sure I m (\<lambda>u. True)) \<Longrightarrow> sure I (when_act b m) (\<lambda>u. True)"
  by (auto simp: when_act_def intro: sure_ret)

lemma sure_map:
  assumes "\<And>x. x \<in> set xs \<Longrightarrow> sure I (f x) Q"
  shows "sure I (map_act f xs) (\<lambda>ys. \<forall>y \<in> set ys. Q y)"
  using assms
proof (induction xs)
  case (Cons x xs)
  then have "sure I (f x) Q" "sure I (map_act f xs) (\<lambda>ys. \<forall>y \<in> set ys. Q y)" by simp_all
  then show ?case by (auto intro!: sure_bind [of I] sure_ret)
qed (simp add: sure_ret)

lemma sure_find:
  assumes "\<And>x. x \<in> set xs \<Longrightarrow> sure I (f x) (\<lambda>b. True)"
  shows "sure I (find_act f xs) (\<lambda>r. \<forall>x. r = Some x \<longrightarrow> x \<in> set xs)"
  using assms
proof (induction xs)
  case (Cons x xs)
  then have "sure I (find_act f xs) (\<lambda>r. \<forall>y. r = Some y \<longrightarrow> y \<in> set xs)" by simp
  then have rest: "sure I (find_act f xs) (\<lambda>r. \<forall>y. r = Some y \<longrightarrow> y \<in> set (x # xs))" by (auto elim: sure_weaken)
  from Cons have "sure I (f x) (\<lambda>b. True)" by simp
  then show ?case using rest by (auto intro!: sure_bind [of I "f x"] sure_ret)
qed (simp add: sure_ret)

subsection \<open>A documented room\<close>

text \<open>The markets, documents and headline of the room, which no call of a tick changes.\<close>

definition documented :: "fake_chain gate \<Rightarrow> bool" where
  "documented g \<longleftrightarrow> (\<forall>s \<in> open_slots (ga_chain g). js_get (ga_conditions g) (sl_market s) \<noteq> None)
     \<and> (\<forall>h. truthy_text (ga_headlineMarket g) = Some h \<longrightarrow> js_get (ga_conditions g) h \<noteq> None)"

definition same_room :: "fake_chain gate \<Rightarrow> fake_chain gate \<Rightarrow> bool" where
  "same_room g0 g \<longleftrightarrow> room_ok (ga_chain g) \<and> documented g
     \<and> map sl_market (fc_slots (ga_chain g)) = map sl_market (fc_slots (ga_chain g0))
     \<and> ga_conditions g = ga_conditions g0 \<and> ga_headlineMarket g = ga_headlineMarket g0
     \<and> fc_roomClosed (ga_chain g) = fc_roomClosed (ga_chain g0)"

lemma slot_le_markets: "list_all2 slot_le ss ts \<Longrightarrow> map sl_market ts = map sl_market ss"
  by (induction rule: list_all2_induct) (auto simp: slot_le_def)

lemma slot_le_open:
  assumes "list_all2 slot_le ss ts" "t \<in> set ts" "\<not> sl_closed t"
  shows "\<exists>s \<in> set ss. \<not> sl_closed s \<and> sl_market s = sl_market t"
  using assms by (induction rule: list_all2_induct) (auto simp: slot_le_def)

lemma same_room_moved:
  assumes "same_room g0 g" "gate_moves ok g g'" "fc_roomClosed (ga_chain g') = fc_roomClosed (ga_chain g)"
  shows "same_room g0 g'"
proof -
  have step: "room_ok (ga_chain g')" "list_all2 slot_le (fc_slots (ga_chain g)) (fc_slots (ga_chain g'))"
      "ga_conditions g' = ga_conditions g" "ga_headlineMarket g' = ga_headlineMarket g"
    using assms(1,2) by (auto simp: same_room_def gate_moves_def chain_step_def)
  have "documented g'"
    using assms(1) slot_le_open [OF step(2)] step(3,4)
    unfolding documented_def same_room_def open_slots_def by (simp, metis)
  with assms(1,3) step slot_le_markets [OF step(2)] show ?thesis by (simp add: same_room_def)
qed

lemma same_room_chain:
  assumes "same_room g0 g" "ga_chain g' = ga_chain g" "ga_conditions g' = ga_conditions g" "ga_headlineMarket g' = ga_headlineMarket g"
  shows "same_room g0 g'"
  using assms unfolding same_room_def documented_def by metis

definition market_in :: "fake_chain gate \<Rightarrow> string \<Rightarrow> bool" where
  "market_in g0 m \<longleftrightarrow> m \<in> sl_market ` set (fc_slots (ga_chain g0))"

definition known_market :: "fake_chain gate \<Rightarrow> string \<Rightarrow> bool" where
  "known_market g0 m \<longleftrightarrow> market_in g0 m \<and> js_get (ga_conditions g0) m \<noteq> None"

lemma same_room_slot:
  assumes "same_room g0 g" "market_in g0 m"
  shows "\<exists>s. slot_of (ga_chain g) m = Inr s"
  using assms slot_of_known [of m "ga_chain g"]
  unfolding market_in_def same_room_def by (metis set_map)

subsection \<open>Reads and bookkeeping\<close>

lemma sure_ask:
  assumes "\<And>g. same_room g0 g \<Longrightarrow> \<exists>x. q (ga_chain g) = Inr x \<and> Q x"
  shows "sure (same_room g0) (ask q) Q"
  using assms by (fastforce simp: sure_def ask_def)

lemma sure_ask_slot:
  assumes "market_in g0 m" "\<And>c s. slot_of c m = Inr s \<Longrightarrow> \<exists>x. q c = Inr x"
  shows "sure (same_room g0) (ask q) (\<lambda>x. True)"
  using same_room_slot [OF _ assms(1)] assms(2) by (intro sure_ask) fastforce

lemma slot_reads:
  assumes "slot_of c m = Inr s"
  shows "\<exists>x. isEpochSafe c m e = Inr x" "\<exists>x. gateStateOf c m = Inr x" "\<exists>x. refundWindowOf c m = Inr x"
    "\<exists>x. unprocessedActions c m e = Inr x"
  using assms by (simp_all add: isEpochSafe_def gateStateOf_def refundWindowOf_def unprocessedActions_def)

lemma sure_ask_opt: "sure I (ask f) Q \<Longrightarrow> sure I (ask_opt (Some f)) Q"
  by (simp add: ask_opt_def)

lemma sure_open:
  "sure (same_room g0) (ask (\<lambda>c. Inr (openSlots c))) (\<lambda>open. \<forall>r \<in> set open. known_market g0 (sr_market r))"
proof (rule sure_ask)
  fix g assume g: "same_room g0 g"
  have "known_market g0 (sl_market s)" if "s \<in> open_slots (ga_chain g)" for s
  proof -
    have "sl_market s \<in> set (map sl_market (fc_slots (ga_chain g)))" using that by (simp add: open_slots_def)
    with that g show ?thesis
      unfolding known_market_def market_in_def same_room_def documented_def by (metis set_map)
  qed
  then show "\<exists>x. Inr (openSlots (ga_chain g)) = Inr x \<and> (\<forall>r \<in> set x. known_market g0 (sr_market r))"
    by (auto simp: openSlots_set ref_of_def)
qed

lemma sure_closed:
  "sure (same_room g0) (ask (\<lambda>c. Inr (closedSlots c))) (\<lambda>closed. \<forall>r \<in> set closed. market_in g0 (sr_market r))"
proof (rule sure_ask)
  fix g assume g: "same_room g0 g"
  have "market_in g0 (sl_market s)" if "s \<in> set (fc_slots (ga_chain g))" for s
    using that g unfolding market_in_def same_room_def by (metis image_eqI set_map)
  then show "\<exists>x. Inr (closedSlots (ga_chain g)) = Inr x \<and> (\<forall>r \<in> set x. market_in g0 (sr_market r))"
    by (auto simp: closedSlots_def ref_of_def)
qed

lemma sure_log: "sure (same_room g0) (log_entry x) (\<lambda>u. True)"
  by (auto simp: sure_def log_entry_run elim!: same_room_chain)

lemma sure_condition: "known_market g0 m \<Longrightarrow> sure (same_room g0) (conditionFor m) (\<lambda>doc. True)"
  by (auto simp: sure_def conditionFor_def bind_act_run known_market_def same_room_def)

lemma sure_updates:
  "sure (same_room g0) (modify (add_cleared m e)) (\<lambda>u. True)"
  "sure (same_room g0) (modify (\<lambda>g. save_unevaluable (g\<lparr>ga_unevaluableSince := f g\<rparr>))) (\<lambda>u. True)"
  "sure (same_room g0) (modify (\<lambda>g. if p g then g else g\<lparr>ga_clearedEpochs := cl g\<rparr>)) (\<lambda>u. True)"
  "sure (same_room g0) (modify (\<lambda>g. g\<lparr>ga_metrics := ms g\<rparr>)) (\<lambda>u. True)"
  "sure (same_room g0) (modify (\<lambda>g. case x of None \<Rightarrow> g | Some at \<Rightarrow> g\<lparr>ga_metrics := mt at g\<rparr>)) (\<lambda>u. True)"
  by (auto intro!: sure_modify elim!: same_room_chain simp: add_cleared_def save_unevaluable_def split: option.splits)

lemma sure_any: "sure I (gets f) (\<lambda>x. True)"
  by (rule sure_gets) simp

lemma sure_unevaluable:
  "sure (same_room g0) (markUnevaluable m n r) (\<lambda>x. True)" "sure (same_room g0) (clearUnevaluable m) (\<lambda>x. True)"
  unfolding markUnevaluable_def clearUnevaluable_def
  by (auto intro!: sure_bind [OF sure_any] sure_bind [OF sure_when] sure_bind [OF sure_updates(2)] sure_when sure_log sure_any)

subsection \<open>Writes\<close>

lemma sure_send:
  assumes "only (gate_moves ok) (send f)"
    and "\<And>g. same_room g0 g \<Longrightarrow> \<exists>c. f (ga_chain g) = (c, Inr ()) \<and> fc_roomClosed c = fc_roomClosed (ga_chain g)"
  shows "sure (same_room g0) (send f) (\<lambda>u. True)"
  unfolding sure_def
proof (intro allI impI)
  fix g assume g: "same_room g0 g"
  from assms(2) [OF g] obtain c where c: "f (ga_chain g) = (c, Inr ())" "fc_roomClosed c = fc_roomClosed (ga_chain g)" by blast
  have run: "send f g = (g\<lparr>ga_chain := c\<rparr>, Inr ())" using c(1) by (rule send_run)
  with same_room_moved [OF g onlyD [OF assms(1) run]] c(2)
  show "\<exists>g' x. send f g = (g', Inr x) \<and> same_room g0 g' \<and> True" by simp
qed

lemma each_known:
  assumes "\<And>x c. x \<in> set xs \<Longrightarrow> market x \<in> sl_market ` set (fc_slots c) \<Longrightarrow> \<exists>c'. f x c = (c', Inr ())
      \<and> map sl_market (fc_slots c') = map sl_market (fc_slots c) \<and> fc_roomClosed c' = fc_roomClosed c"
    and "market ` set xs \<subseteq> sl_market ` set (fc_slots c)"
  shows "\<exists>c'. each f xs c = (c', Inr ()) \<and> fc_roomClosed c' = fc_roomClosed c"
  using assms
proof (induction xs arbitrary: c)
  case (Cons x xs)
  from Cons.prems(1) [of x c] Cons.prems(2) obtain c1 where c1: "f x c = (c1, Inr ())"
      "map sl_market (fc_slots c1) = map sl_market (fc_slots c)" "fc_roomClosed c1 = fc_roomClosed c" by auto
  have "sl_market ` set (fc_slots c1) = sl_market ` set (fc_slots c)" unfolding set_map [symmetric] c1(2) ..
  then have "market ` set xs \<subseteq> sl_market ` set (fc_slots c1)" using Cons.prems(2) by simp
  from Cons.IH [OF Cons.prems(1) this] c1 show ?case by auto
qed simp

lemma update_slot_markets:
  "(\<And>s. sl_market (f s) = sl_market s) \<Longrightarrow> map sl_market (fc_slots (update_slot m f c)) = map sl_market (fc_slots c)
    \<and> fc_roomClosed (update_slot m f c) = fc_roomClosed c"
  by (simp add: update_slot_def map_update_first)

lemma children_known:
  assumes "m \<in> sl_market ` set (fc_slots c)"
  shows "\<exists>c'. closeOne seq m c = (c', Inr ()) \<and> map sl_market (fc_slots c') = map sl_market (fc_slots c) \<and> fc_roomClosed c' = fc_roomClosed c"
    "\<exists>c'. mark_child seq (m, e) c = (c', Inr ()) \<and> map sl_market (fc_slots c') = map sl_market (fc_slots c) \<and> fc_roomClosed c' = fc_roomClosed c"
    "\<exists>c'. process_child k (m, e) c = (c', Inr ()) \<and> map sl_market (fc_slots c') = map sl_market (fc_slots c) \<and> fc_roomClosed c' = fc_roomClosed c"
  using assms slot_of_known [of m c]
  by (auto simp: closeOne_def mark_child_def process_child_def Let_def update_slot_markets)

lemma writes_return:
  assumes "fc_roomClosed c = 0" "fc_lastObserved c \<le> seq"
  shows "\<exists>c'. suspendRoom c seq = (c', Inr ()) \<and> fc_roomClosed c' = 0"
    "\<exists>c'. reopenRoom c seq = (c', Inr ()) \<and> fc_roomClosed c' = 0"
    "set ms \<subseteq> sl_market ` set (fc_slots c) \<Longrightarrow> \<exists>c'. closeSlots c seq ms = (c', Inr ()) \<and> fc_roomClosed c' = 0"
    "set ms \<subseteq> sl_market ` set (fc_slots c) \<Longrightarrow> \<exists>c'. markRoomEpochsSafe c seq ms es = (c', Inr ()) \<and> fc_roomClosed c' = 0"
proof -
  have adv: "advance seq c = Inr (c\<lparr>fc_lastObserved := seq\<rparr>)" using assms by (simp add: advance_def)
  show "\<exists>c'. suspendRoom c seq = (c', Inr ()) \<and> fc_roomClosed c' = 0" "\<exists>c'. reopenRoom c seq = (c', Inr ()) \<and> fc_roomClosed c' = 0"
    using adv assms(1) by (simp_all add: suspendRoom_def reopenRoom_def set_suspended_def called_def)
  assume ms: "set ms \<subseteq> sl_market ` set (fc_slots c)"
  have fields: "fc_slots (called x (c\<lparr>fc_lastObserved := seq\<rparr>)) = fc_slots c"
      "fc_roomClosed (called x (c\<lparr>fc_lastObserved := seq\<rparr>)) = 0" for x
    using assms(1) by (simp_all add: called_def)
  show "\<exists>c'. closeSlots c seq ms = (c', Inr ()) \<and> fc_roomClosed c' = 0"
    using each_known [of ms "\<lambda>m. m" "closeOne seq" "called (CloseSlots seq ms) (c\<lparr>fc_lastObserved := seq\<rparr>)"]
      children_known(1) ms adv by (auto simp: closeSlots_def fields)
  have "fst ` set (zip ms es) \<subseteq> sl_market ` set (fc_slots c)"
    using ms by (auto dest: set_zip_leftD)
  with each_known [of "zip ms es" fst "mark_child seq" "called (MarkRoomEpochsSafe seq ms es) (c\<lparr>fc_lastObserved := seq\<rparr>)"]
    children_known(2) adv
  show "\<exists>c'. markRoomEpochsSafe c seq ms es = (c', Inr ()) \<and> fc_roomClosed c' = 0"
    by (auto simp: markRoomEpochsSafe_def fields)
qed

lemma process_returns:
  assumes "set ms \<subseteq> sl_market ` set (fc_slots c)"
  shows "\<exists>c'. processRoom c ms es k = (c', Inr ()) \<and> fc_roomClosed c' = fc_roomClosed c"
proof -
  have "fst ` set (zip ms es) \<subseteq> sl_market ` set (fc_slots (called (ProcessRoom ms es k) c))"
    using assms by (auto simp: called_def dest: set_zip_leftD)
  from each_known [OF _ this, of "process_child k"] children_known(3) show ?thesis
    by (auto simp: processRoom_def called_def)
qed

lemma remaining_returns:
  assumes "fc_roomClosed c \<noteq> 0" "set ms \<subseteq> sl_market ` set (fc_slots c)"
  shows "\<exists>c'. closeRemainingSlots c ms = (c', Inr ()) \<and> fc_roomClosed c' = fc_roomClosed c"
proof -
  have "(\<lambda>m. m) ` set ms \<subseteq> sl_market ` set (fc_slots (called (CloseRemainingSlots ms) c))"
    using assms by (simp add: called_def)
  from each_known [OF _ this, of "closeOne (fc_roomClosed c)"] children_known(1) assms(1) show ?thesis
    by (auto simp: closeRemainingSlots_def called_def)
qed

lemma same_room_known:
  assumes "same_room g0 g" "\<forall>m \<in> set ms. market_in g0 m"
  shows "set ms \<subseteq> sl_market ` set (fc_slots (ga_chain g))"
  using assms unfolding market_in_def same_room_def by (metis set_map subsetI)

lemma sure_process:
  assumes "\<forall>m \<in> set ms. market_in g0 m"
  shows "sure (same_room g0) (send (\<lambda>c. processRoom c ms es k)) (\<lambda>u. True)"
  by (rule sure_send [OF moves_sends(6)]) (rule process_returns [OF same_room_known [OF _ assms]])

text \<open>
  A write at a sequence read just before: at or past the watermark while the room is open. The
  room keeps its closing sequence whatever is written to the audit in between.
\<close>

lemma sure_at_sequence:
  assumes "fc_roomClosed (ga_chain g0) = 0" "\<And>seq. only (gate_moves ok) (send (\<lambda>c. w c seq))"
    and "\<And>g seq. same_room g0 g \<Longrightarrow> fc_lastObserved (ga_chain g) \<le> seq \<Longrightarrow>
        \<exists>c. w (ga_chain g) seq = (c, Inr ()) \<and> fc_roomClosed c = 0"
    and "sequence \<in> {roomSequence fake_port n, closingSequence fake_port n}" "\<And>u. sure (same_room g0) (k u) Q"
  shows "sure (same_room g0) (bind_act sequence (\<lambda>seq. bind_act (log_entry (x seq)) (\<lambda>u.
    bind_act (send (\<lambda>c. w c seq)) k))) Q"
  unfolding sure_def
proof (intro allI impI)
  fix g assume g: "same_room g0 g"
  obtain seq where seq: "sequence g = (g, Inr seq)" "fc_lastObserved (ga_chain g) \<le> seq"
    using assms(4) by (auto simp: roomSequence_fake closingSequence_fake)
  obtain g1 where g1: "log_entry (x seq) g = (g1, Inr ())" "ga_chain g1 = ga_chain g" "same_room g0 g1"
    using sureE [OF sure_log g, of "x seq"] by (fastforce simp: log_entry_run)
  from assms(3) [OF g1(3)] seq(2) g1(2) obtain c where c: "w (ga_chain g1) seq = (c, Inr ())" "fc_roomClosed c = 0" by auto
  have s: "send (\<lambda>c. w c seq) g1 = (g1\<lparr>ga_chain := c\<rparr>, Inr ())" using c(1) by (rule send_run)
  have "fc_roomClosed (ga_chain g1) = 0" using g1(3) assms(1) by (simp add: same_room_def)
  then have "same_room g0 (g1\<lparr>ga_chain := c\<rparr>)"
    using same_room_moved [OF g1(3) onlyD [OF assms(2) s]] c(2) by simp
  from sureE [OF assms(5) this, of "()"] obtain g' y where
    "k () (g1\<lparr>ga_chain := c\<rparr>) = (g', Inr y)" "same_room g0 g'" "Q y" by blast
  with seq(1) g1(1) s
  show "\<exists>g' y. bind_act sequence (\<lambda>seq. bind_act (log_entry (x seq)) (\<lambda>u. bind_act (send (\<lambda>c. w c seq)) k)) g = (g', Inr y)
      \<and> same_room g0 g' \<and> Q y" by simp
qed

lemma bind_ret: "bind_act m ret = m"
  by (auto simp: bind_act_def ret_def fun_eq_iff split: prod.splits sum.splits)

subsection \<open>The calls of a tick\<close>

lemma sure_find_any:
  assumes "\<And>x. x \<in> set xs \<Longrightarrow> sure I (f x) (\<lambda>b. True)"
  shows "sure I (find_act f xs) (\<lambda>r. True)"
  by (rule sure_weaken [OF sure_find [OF assms]]) simp_all

lemma sure_reads:
  assumes "market_in g0 m"
  shows "sure (same_room g0) (ask (\<lambda>c. gateStateOf c m)) (\<lambda>x. True)"
    "sure (same_room g0) (ask (\<lambda>c. isEpochSafe c m e)) (\<lambda>x. True)"
    "sure (same_room g0) (ask (\<lambda>c. refundWindowOf c m)) (\<lambda>x. True)"
    "sure (same_room g0) (ask (\<lambda>c. unprocessedActions c m e)) (\<lambda>x. True)"
  by (rule sure_ask_slot [OF assms], rule slot_reads, assumption)+

lemma known_in: "known_market g0 m \<Longrightarrow> market_in g0 m"
  by (simp add: known_market_def)

lemma sure_suspended:
  "sure (same_room g0) (isSuspendedOnChain fake_port) (\<lambda>b. True)"
  "sure (same_room g0) (everyOpenSlotSuspended fake_port) (\<lambda>b. True)"
proof -
  show first: "sure (same_room g0) (isSuspendedOnChain fake_port) (\<lambda>b. True)"
    unfolding isSuspendedOnChain_def
    by (auto simp: ask_opt_def intro!: sure_bind [OF sure_open] sure_bind [OF sure_find_any]
        sure_bind [OF sure_reads(1)] sure_ret known_in)
  show "sure (same_room g0) (everyOpenSlotSuspended fake_port) (\<lambda>b. True)"
    unfolding everyOpenSlotSuspended_def
    by (auto simp: first intro!: sure_bind [OF sure_open] sure_bind [OF sure_find_any]
        sure_bind [OF sure_reads(1)] sure_ret known_in)
qed

lemma sure_suspend:
  assumes "fc_roomClosed (ga_chain g0) = 0"
  shows "sure (same_room g0) (suspend fake_port es r) (\<lambda>b. True)" "sure (same_room g0) (reopen fake_port es) (\<lambda>b. True)"
proof -
  have open_room: "fc_roomClosed (ga_chain g) = 0" if "same_room g0 g" for g
    using that assms by (simp add: same_room_def)
  show "sure (same_room g0) (suspend fake_port es r) (\<lambda>b. True)" "sure (same_room g0) (reopen fake_port es) (\<lambda>b. True)"
    unfolding suspend_def reopen_def fake_port_calls
    by (auto intro!: sure_bind [OF sure_suspended(2)] sure_bind [OF sure_suspended(1)] sure_ret
        sure_at_sequence [OF assms, where w = suspendRoom] sure_at_sequence [OF assms, where w = reopenRoom]
        moves_sends writes_return(1,2) open_room)
qed

lemma some_of_all: "\<forall>y \<in> set ys. case y of None \<Rightarrow> True | Some x \<Rightarrow> P x \<Longrightarrow> \<forall>x \<in> set (some_of ys). P x"
  by (fastforce simp: some_of_member)

lemma sure_drain_slot:
  assumes "market_in g0 (sr_market s)"
  shows "sure (same_room g0) (drain_slot fake_port s) (\<lambda>y. case y of None \<Rightarrow> True | Some (m, e) \<Rightarrow> market_in g0 m)"
  unfolding drain_slot_def fake_port_calls option.map ask_opt_def option.case
  by (auto intro!: sure_bind [OF sure_reads(3)] sure_bind [OF sure_find_any] sure_reads(4) sure_ret assms split: option.split)

lemma sure_drain: "sure (same_room g0) (drainClosedEpochs fake_port) (\<lambda>u. True)"
proof -
  have rest: "sure (same_room g0)
      (if some_of found = [] then ret ()
       else bind_act (log_entry (AuditProcessRoom (some_of found))) (\<lambda>u.
            bind_act (send (\<lambda>c. processRoom c (map fst (some_of found)) (map snd (some_of found)) 1000)) (\<lambda>u.
            bind_act (gets ga_metrics) (\<lambda>metrics.
              if metrics = None then ret ()
              else
                bind_act (map_act (\<lambda>(market, epoch). ask_opt (Some (\<lambda>c. unprocessedActions c market epoch))) (some_of found)) (\<lambda>left.
                when_act (0 < length (filter (\<lambda>b. \<not> b) left))
                  (modify (\<lambda>g. g\<lparr>ga_metrics := map_option (\<lambda>ms. ms @ [MissedClearance (length (filter (\<lambda>b. \<not> b) left))])
                    (ga_metrics g)\<rparr>)))))))
      (\<lambda>u. True)" if "\<forall>x \<in> set (some_of found). case x of (m, e) \<Rightarrow> market_in g0 m" for found
  proof -
    have known: "\<forall>m \<in> set (map fst (some_of found)). market_in g0 m" using that by auto
    show ?thesis
      using that
      by (auto simp: ask_opt_def intro!: sure_ret sure_bind [OF sure_log] sure_bind [OF sure_process [OF known]]
          sure_bind [OF sure_any] sure_bind [OF sure_map [where Q = "\<lambda>b. True"]] sure_reads(4) sure_when sure_updates(4))
  qed
  show ?thesis
    unfolding drainClosedEpochs_def Let_def fake_port_calls option.map
    using rest
    by (auto simp: ask_opt_def [of "Some (\<lambda>c. Inr (closedSlots c))"] intro!: sure_bind [OF sure_closed]
        sure_bind [OF sure_map [OF sure_drain_slot]] some_of_all split: option.splits prod.splits)
qed

lemma sure_afterClose:
  assumes "fc_roomClosed (ga_chain g0) \<noteq> 0"
  shows "sure (same_room g0) (afterClose fake_port) (\<lambda>u. True)"
proof -
  have remaining: "sure (same_room g0) (send (\<lambda>c. closeRemainingSlots c ms)) (\<lambda>u. True)" if "\<forall>m \<in> set ms. market_in g0 m" for ms
    using assms
    by (intro sure_send [OF moves_sends(5)] remaining_returns same_room_known [OF _ that]) (auto simp: same_room_def)
  show ?thesis
    unfolding afterClose_def fake_port_calls
    by (auto intro!: sure_bind [OF sure_open] sure_bind [OF sure_when] sure_drain remaining known_in)
qed

lemma sure_clear:
  assumes "ge_port env = fake_port" "fc_roomClosed (ga_chain g0) = 0"
  shows "sure (same_room g0) (clearCompletedEpochs env es n) (\<lambda>u. True)"
proof -
  let ?picked = "\<lambda>y. case y of None \<Rightarrow> True | Some (m, e) \<Rightarrow> market_in g0 m"
  have candidate: "sure (same_room g0) (is_candidate fake_port cfg k tip m e) (\<lambda>y. True)" if "market_in g0 m" for cfg k tip m e
    unfolding is_candidate_def using that
    by (auto simp: ask_opt_def intro!: sure_ret sure_bind [OF sure_any] sure_bind [OF sure_reads(2)] sure_bind [OF sure_updates(1)])
  have choose: "sure (same_room g0) (choose_epoch env es n s) ?picked" if "known_market g0 (sr_market s)" for s
    unfolding choose_epoch_def Let_def assms(1) fake_port_calls option.case using that
    by (auto intro!: sure_ret sure_bind [OF sure_condition] sure_bind [OF sure_updates(3)]
        sure_bind [OF sure_map [OF candidate]] sure_bind [OF sure_find_any] sure_ask known_in split: option.split)
  have confirm: "sure (same_room g0) (confirm_epoch fake_port k me) ?picked" if "market_in g0 (fst me)" for k me
    using that unfolding confirm_epoch_def
    by (cases me) (auto intro!: sure_ret sure_bind [OF sure_reads(2)] sure_bind [OF sure_updates(1)] sure_bind [OF sure_log])
  have mark: "sure (same_room g0) (markAndProcess env es n xs) (\<lambda>u. True)" if xs: "\<forall>x \<in> set xs. market_in g0 (fst x)" for xs
  proof -
    have ms: "\<forall>m \<in> set (map fst xs). market_in g0 m" using xs by simp
    have writes: "\<exists>c. markRoomEpochsSafe (ga_chain g) seq (map fst xs) (map snd xs) = (c, Inr ()) \<and> fc_roomClosed c = 0"
      if "same_room g0 g" "fc_lastObserved (ga_chain g) \<le> seq" for g seq
      using writes_return(4) [OF _ that(2) same_room_known [OF that(1) ms]] that(1) assms(2) by (simp add: same_room_def)
    have moves: "only (gate_moves (\<lambda>_ _ _. True)) (send (\<lambda>c. markRoomEpochsSafe c seq (map fst xs) (map snd xs)))" for seq
      using chain_step_markRoom [of "map fst xs" "map snd xs" "\<lambda>_ _. True"]
      by (auto simp: only_def send_def gate_moves_def Let_def split: prod.splits) (metis fst_conv)
    have known: "\<forall>m \<in> set (map fst (some_of ys)). market_in g0 m"
      if "\<forall>y \<in> set ys. ?picked y" for ys
      using some_of_all [OF that] by (auto split: prod.splits)
    show ?thesis
      unfolding markAndProcess_def Let_def assms(1) fake_port_calls
      using xs
      by (auto intro!: sure_at_sequence [OF assms(2) moves writes] sure_bind [OF sure_map [OF confirm]] sure_ret
          sure_bind [OF sure_updates(5)] sure_process [OF known])
  qed
  have picked: "\<forall>x \<in> set (some_of ys). market_in g0 (fst x)" if "\<forall>y \<in> set ys. ?picked y" for ys
    using some_of_all [OF that] by (auto split: prod.splits)
  show ?thesis
    unfolding clearCompletedEpochs_def assms(1) fake_port_calls
    by (auto intro!: sure_bind [OF sure_open] sure_ret sure_bind [OF sure_map [OF choose]] mark picked)
qed

text \<open>Closing the room for good, the only write after which the room is not the same.\<close>

lemma closing_returns:
  assumes "same_room g0 g" "fc_roomClosed (ga_chain g0) = 0" "\<forall>m \<in> set ms. market_in g0 m"
    and "\<And>u s. k u s = (s, Inr y)"
  shows "\<exists>g'. bind_act (closingSequence fake_port n) (\<lambda>seq. bind_act (log_entry (x seq)) (\<lambda>u.
    bind_act (send (\<lambda>c. closeRoom c seq)) (\<lambda>u. bind_act (send (\<lambda>c. closeRemainingSlots c ms)) k))) g = (g', Inr y)"
proof -
  obtain seq where seq: "closingSequence fake_port n g = (g, Inr seq)" "fc_lastObserved (ga_chain g) < seq"
    by (auto simp: closingSequence_fake)
  obtain g1 where g1: "log_entry (x seq) g = (g1, Inr ())" "ga_chain g1 = ga_chain g" "same_room g0 g1"
    using sureE [OF sure_log assms(1), of "x seq"] by (fastforce simp: log_entry_run)
  have open_room: "fc_roomClosed (ga_chain g1) = 0" "0 \<le> fc_lastObserved (ga_chain g1)"
    using g1(3) assms(2) by (simp_all add: same_room_def room_ok_def)
  define c where "c = (called (CloseRoom seq) ((ga_chain g1)\<lparr>fc_lastObserved := seq\<rparr>))\<lparr>fc_roomClosed := seq\<rparr>"
  have run: "closeRoom (ga_chain g1) seq = (c, Inr ())"
    using open_room seq(2) g1(2) by (simp add: closeRoom_def advance_def c_def)
  have c: "fc_roomClosed c \<noteq> 0" "fc_slots c = fc_slots (ga_chain g1)"
    using open_room seq(2) g1(2) by (simp_all add: c_def called_def)
  have ms: "set ms \<subseteq> sl_market ` set (fc_slots c)" using same_room_known [OF g1(3) assms(3)] c(2) by simp
  from remaining_returns [OF c(1) ms] obtain c' where "closeRemainingSlots c ms = (c', Inr ())" by blast
  with seq(1) g1(1) send_run [of "\<lambda>c. closeRoom c seq", OF run] assms(4)
  show ?thesis by (simp add: send_run)
qed

lemma bind_returns:
  assumes "sure I m (\<lambda>x. True)" "I g" "\<And>x g'. I g' \<Longrightarrow> \<exists>g'' y. f x g' = (g'', Inr y) \<and> R y g''"
  shows "\<exists>g'' y. bind_act m f g = (g'', Inr y) \<and> R y g''"
proof -
  from assms(1,2) obtain g' x where "m g = (g', Inr x)" "I g'" by (rule sureE)
  with assms(3) [of g' x] show ?thesis by simp
qed

lemma sure_runs: "sure I m Q \<Longrightarrow> I g \<Longrightarrow> (\<And>x g'. I g' \<Longrightarrow> Q x \<Longrightarrow> R x g') \<Longrightarrow> \<exists>g' x. m g = (g', Inr x) \<and> R x g'"
  unfolding sure_def by blast

lemma headline_returns:
  assumes "ge_port env = fake_port" "same_room g0 g" "fc_roomClosed (ga_chain g0) = 0" "known_market g0 (sr_market h)"
    and "\<forall>r \<in> set open_refs. known_market g0 (sr_market r)"
  shows "\<exists>g' b. decide_headline env es n open_refs h g = (g', Inr b) \<and> (\<not> b \<longrightarrow> same_room g0 g')"
proof -
  have ms: "\<forall>m \<in> set (map sr_market open_refs). market_in g0 m" using assms(5) known_in by auto
  note closes = closing_returns [OF _ assms(3) ms]
  show ?thesis
    unfolding decide_headline_def Let_def assms(1) fake_port_calls
  proof (rule bind_returns [OF sure_condition [OF assms(4)] assms(2)])
    fix doc g1 assume g1: "same_room g0 g1"
    show "\<exists>g'' y. (case evaluate_now env es doc None False of
          Decided outcome seq \<Rightarrow>
            bind_act (closingSequence fake_port seq) (\<lambda>closeAt.
            bind_act (log_entry (AuditCloseRoom seq closeAt (closeAt \<noteq> seq) outcome)) (\<lambda>u.
            bind_act (send (\<lambda>c. closeRoom c closeAt)) (\<lambda>u.
            bind_act (send (\<lambda>c. closeRemainingSlots c (map sr_market open_refs))) (\<lambda>u. ret True))))
        | Unevaluable reason \<Rightarrow>
            bind_act (markUnevaluable (sr_market h) n reason) (\<lambda>persistedMs.
            bind_act (suspend fake_port es (HeadlineUnevaluable reason)) (\<lambda>u.
            bind_act (when_act (persistedMs \<ge> (case gc_unevaluableGraceMs (ge_config env) of Some g \<Rightarrow> g | None \<Rightarrow> 120000))
              (bind_act (closingSequence fake_port (tipSeq es)) (\<lambda>seq.
               bind_act (log_entry (AuditCloseRoomGrace seq persistedMs)) (\<lambda>u.
               bind_act (send (\<lambda>c. closeRoom c seq)) (\<lambda>u.
               send (\<lambda>c. closeRemainingSlots c (map sr_market open_refs))))))) (\<lambda>u. ret True)))
        | Undecided \<Rightarrow> bind_act (clearUnevaluable (sr_market h)) (\<lambda>u. ret False)) g1 = (g'', Inr y)
        \<and> (\<not> y \<longrightarrow> same_room g0 g'')"
    proof (cases "evaluate_now env es doc None False")
      case Undecided
      show ?thesis
        unfolding Undecided decision.case by (rule bind_returns [OF sure_unevaluable(2) g1]) auto
    next
      case (Decided outcome seq)
      from closes [OF g1, where k = "\<lambda>u. ret True"] Decided show ?thesis by fastforce
    next
      case (Unevaluable reason)
      show ?thesis
        unfolding Unevaluable decision.case
      proof (rule bind_returns [OF sure_unevaluable(1) g1], rule bind_returns [OF sure_suspend(1) [OF assms(3)]])
        fix p b g2 assume g2: "same_room g0 g2"
        from closes [OF g2, where k = ret and n = "tipSeq es" and x = "\<lambda>seq. AuditCloseRoomGrace seq p"]
        obtain g3 where "bind_act (closingSequence fake_port (tipSeq es)) (\<lambda>seq. bind_act (log_entry (AuditCloseRoomGrace seq p)) (\<lambda>u.
            bind_act (send (\<lambda>c. closeRoom c seq)) (\<lambda>u. send (\<lambda>c. closeRemainingSlots c (map sr_market open_refs))))) g2 = (g3, Inr ())"
          by (auto simp: bind_ret)
        then show "\<exists>g'' y. bind_act (when_act (p \<ge> (case gc_unevaluableGraceMs (ge_config env) of Some g \<Rightarrow> g | None \<Rightarrow> 120000))
              (bind_act (closingSequence fake_port (tipSeq es)) (\<lambda>seq.
               bind_act (log_entry (AuditCloseRoomGrace seq p)) (\<lambda>u.
               bind_act (send (\<lambda>c. closeRoom c seq)) (\<lambda>u.
               send (\<lambda>c. closeRemainingSlots c (map sr_market open_refs))))))) (\<lambda>u. ret True) g2 = (g'', Inr y) \<and> (\<not> y \<longrightarrow> same_room g0 g'')"
          by (auto simp: when_act_def)
      qed
    qed
  qed
qed

lemma sure_micro:
  assumes "ge_port env = fake_port" "known_market g0 (sr_market s)" "documented g0"
  shows "sure (same_room g0) (decide_micro env es n ho s) (\<lambda>y. case y of None \<Rightarrow> True | Some (m, q) \<Rightarrow> market_in g0 m)"
proof -
  have headline: "sure (same_room g0) (case truthy_text hm of None \<Rightarrow> ret None | Some h \<Rightarrow> bind_act (conditionFor h) (\<lambda>d. ret (Some d))) (\<lambda>x. True)"
    if "hm = ga_headlineMarket g0" for hm
    using that assms(3)
    by (auto simp: sure_def conditionFor_def bind_act_run documented_def same_room_def split: option.split)
  have hm: "sure (same_room g0) (gets ga_headlineMarket) (\<lambda>hm. hm = ga_headlineMarket g0)"
    by (rule sure_gets) (simp add: same_room_def)
  have last: "sure (same_room g0) (ask (\<lambda>c. Inr (fc_lastObserved c))) (\<lambda>x. True)"
    by (rule sure_ask) simp
  show ?thesis
    unfolding decide_micro_def Let_def assms(1) fake_port_calls
    using assms(2)
    by (auto intro!: sure_ret sure_bind [OF sure_condition] sure_bind [OF hm] sure_bind [OF headline]
        sure_bind [OF sure_unevaluable(1)] sure_bind [OF sure_unevaluable(2)] sure_bind [OF sure_log] sure_bind [OF last]
        known_in split: decision.split)
qed

lemma sure_close_decided:
  assumes "fc_roomClosed (ga_chain g0) = 0" "\<forall>x \<in> set xs. market_in g0 (fst x)"
  shows "sure (same_room g0) (close_decided fake_port xs) (\<lambda>u. True)"
proof -
  have ms: "\<forall>m \<in> set (map fst xs). market_in g0 m" using assms(2) by simp
  have writes: "\<exists>c. closeSlots (ga_chain g) seq (map fst xs) = (c, Inr ()) \<and> fc_roomClosed c = 0"
    if "same_room g0 g" "fc_lastObserved (ga_chain g) \<le> seq" for g seq
    using writes_return(3) [OF _ that(2) same_room_known [OF that(1) ms]] that(1) assms(1) by (simp add: same_room_def)
  have "sure (same_room g0) (bind_act (closingSequence fake_port k) (\<lambda>seq. bind_act (log_entry (x seq)) (\<lambda>u.
      bind_act (send (\<lambda>c. closeSlots c seq (map fst xs))) ret))) (\<lambda>u. True)" for k x
    by (rule sure_at_sequence [OF assms(1) moves_sends(3) writes, where n = k]) (simp_all add: sure_ret)
  then show ?thesis
    unfolding close_decided_def fake_port_calls bind_ret by (rule sure_when)
qed

text \<open>C10: a tick never throws for the room's part. In a well-formed room whose open markets, and whose
  headline, have a condition document, every tick returns, whatever the log, the time, and the
  state of the room: no call it makes is refused by the room.\<close>

theorem tick_returns:
  assumes "ge_port env = fake_port" "room_ok (ga_chain g)" "documented g"
  shows "\<exists>g'. tick env es nowMs g = (g', Inr ())"
proof -
  let ?g = "ensure_loaded g"
  have same: "same_room g ?g"
    using assms(2,3) by (auto simp: same_room_def documented_def ensure_loaded_def split: option.splits)
  have decided: "\<forall>x \<in> set (some_of ys). market_in g (fst x)"
    if "\<forall>y \<in> set ys. case y of None \<Rightarrow> True | Some (m, q) \<Rightarrow> market_in g m" for ys :: "(string \<times> int) option list"
    using some_of_all [OF that] by auto
  let ?rest = "\<lambda>refs headline. bind_act (map_act (decide_micro env es nowMs (map_option sr_market headline)) refs) (\<lambda>decided.
      bind_act (close_decided fake_port (some_of decided)) (\<lambda>u.
      if age_exceeds (freshnessAgeMs (last_opt es) nowMs) (gc_freshnessThresholdMs (ge_config env)) then
        bind_act (suspend fake_port es (StaleSource (freshnessAgeMs (last_opt es) nowMs))) (\<lambda>u. ret ())
      else
        bind_act (reopen fake_port es) (\<lambda>u.
        bind_act (clearCompletedEpochs env es nowMs) (\<lambda>u.
        drainClosedEpochs fake_port))))"
  have rest: "sure (same_room g) (?rest refs headline) (\<lambda>u. True)"
    if "fc_roomClosed (ga_chain g) = 0" "\<forall>r \<in> set refs. known_market g (sr_market r)" for refs headline
    using that(2)
    by (auto intro!: sure_bind [OF sure_map [OF sure_micro]] sure_bind [OF sure_close_decided [OF that(1)]] assms(1,3) decided
        sure_bind [OF sure_suspend(1) [OF that(1)]] sure_ret sure_bind [OF sure_suspend(2) [OF that(1)]]
        sure_bind [OF sure_clear [OF assms(1) that(1)]] sure_drain)
  show ?thesis
  proof (cases "fc_roomClosed (ga_chain g) = 0")
    case False
    from sureE [OF sure_afterClose [OF False] same] obtain g' where "afterClose fake_port ?g = (g', Inr ())" by auto
    with False show ?thesis by (simp add: tick_def Let_def assms(1) bind_act_run ask_def next_nonce_loaded)
  next
    case True
    define refs where "refs = openSlots (ga_chain ?g)"
    have refs_at: "refs = openSlots (ga_chain g)" by (simp add: refs_def next_nonce_loaded)
    have known: "\<forall>r \<in> set refs. known_market g (sr_market r)"
      using sureE [OF sure_open same] by (auto simp: refs_def ask_def)
    define h where "h = List.find (\<lambda>s. Some (sr_market s) = ga_headlineMarket ?g) refs"
    have "\<exists>g1 b. (case h of None \<Rightarrow> ret False | Some k \<Rightarrow> decide_headline env es nowMs refs k) ?g = (g1, Inr b)
        \<and> (\<not> b \<longrightarrow> same_room g g1)"
    proof (cases h)
      case None
      with same show ?thesis by (auto intro: exI [of _ False])
    next
      case (Some k)
      then have "k \<in> set refs" by (auto simp: h_def find_Some_iff)
      with Some headline_returns [OF assms(1) same True _ known, of k es nowMs] known show ?thesis by auto
    qed
    then obtain g1 b where b: "(case h of None \<Rightarrow> ret False | Some k \<Rightarrow> decide_headline env es nowMs refs k) ?g = (g1, Inr b)"
        "\<not> b \<Longrightarrow> same_room g g1" by blast
    have "\<exists>g'. (if b then ret () else ?rest refs h) g1 = (g', Inr ())"
    proof (cases b)
      case False
      from sureE [OF rest [OF True known] b(2) [OF False]] obtain g' where "?rest refs h g1 = (g', Inr ())" by auto
      with False show ?thesis by auto
    qed simp
    moreover have "tick env es nowMs g =
        bind_act (case h of None \<Rightarrow> ret False | Some k \<Rightarrow> decide_headline env es nowMs refs k)
          (\<lambda>b. if b then ret () else ?rest refs h) ?g"
      using True unfolding tick_def Let_def assms(1) fake_port_calls h_def refs_at
      by (simp add: bind_act_run [of "modify ensure_loaded"] bind_act_run [of "ask _"] bind_act_run [of "gets _"]
          ask_def next_nonce_loaded)
    ultimately show ?thesis using b(1) by simp
  qed
qed

end
