(* ===== verification/Samples.thy ===== *)
theory Samples
  imports Agreement
begin

section \<open>A small session\<close>

text \<open>
  The concrete session the instances of the properties are stated on: two accounts, three closed
  trades of one instant, a race for the headline and a threshold question beside it.
\<close>

definition sample_time :: string where
  "sample_time = ''2026-01-01T00:00:00.000Z''"

definition dollars :: "int \<Rightarrow> string" where
  "dollars n = fromScaled (n * ONE)"

definition trade_facts :: "int \<Rightarrow> json" where
  "trade_facts n = JObj [(''realized_pnl_usd'', JStr (dollars n))]"

definition sample_trade :: "int \<Rightarrow> string \<Rightarrow> string \<Rightarrow> int \<Rightarrow> event" where
  "sample_trade i key p n = (blank_event ''room'' i)\<lparr>ev_source := ''hl'', ev_source_event_id := key,
     ev_participant := Some p, ev_kind := ''trade_closed'', ev_observed_at := sample_time,
     ev_facts := trade_facts n, ev_hash := ''h'' @ key\<rparr>"

definition sample_log :: "event list" where
  "sample_log = [sample_trade 1 ''1'' ''a'' 40, sample_trade 2 ''2'' ''b'' 70, sample_trade 3 ''3'' ''a'' 60]"

definition sample_headline :: condition where
  "sample_headline = JObj [(''condition_version'', JStr ''1.0.0''), (''template'', JStr ''first_to_realized_pnl''),
     (''params'', JObj [(''target'', JStr (dollars 100))])]"

definition sample_threshold :: condition where
  "sample_threshold = JObj [(''condition_version'', JStr ''1.0.0''), (''template'', JStr ''participant_metric_threshold''),
     (''params'', JObj [(''participant'', JStr ''b''), (''metric'', JStr ''realized_pnl_usd''), (''operator'', JStr ''>=''),
        (''value'', JStr (dollars 50))])]"

definition sample_draft :: "string \<Rightarrow> string \<Rightarrow> int \<Rightarrow> draft" where
  "sample_draft key p n = \<lparr> dr_source_event_id = key, dr_participant = Some p, dr_observed_at = sample_time,
     dr_kind = ''trade_closed'', dr_facts = Some (trade_facts n), dr_derived = None \<rparr>"

definition sample_reconstruction :: reconstruction where
  "sample_reconstruction = \<lparr> rc_ordered = [sample_draft ''1'' ''a'' 40, sample_draft ''2'' ''b'' 70, sample_draft ''3'' ''a'' 60],
     rc_baselines = [], rc_divergence = [] \<rparr>"

definition bounded_options :: eval_options where
  "bounded_options = default_options\<lparr>opt_headline := Some sample_headline\<rparr>"

subsection \<open>Its figures\<close>

lemma sample_trade_fields [simp]:
  "ev_seq (sample_trade i key p n) = i" "ev_participant (sample_trade i key p n) = Some p" "is_trade (sample_trade i key p n)"
  "figure (sample_trade i key p n) = n * ONE" "ev_corrects (sample_trade i key p n) = None"
  "ev_hash (sample_trade i key p n) = ''h'' @ key" "timeline_key (sample_trade i key p n) = (date_parse sample_time, [])"
  "pnl_text (sample_trade i key p n) = dollars n" "ev_kind (sample_trade i key p n) = ''trade_closed''"
  by (simp_all add: sample_trade_def blank_event_def is_trade_def figure_def pnl_text_def trade_facts_def json_get_def
      dollars_def timeline_key_def tid_text_def nullish.simps)

lemma is_decimal_dollars [simp]: "is_decimal (dollars n)" "scaled (dollars n) = n * ONE"
  by (simp_all add: dollars_def)

lemma rectify_sample [simp]: "rectify sample_log = sample_log"
proof -
  have "snd (rectify_slots sample_log) = sample_log"
    by (simp add: rectify_slots_def rectify_step_def sample_log_def truthy_text_def Let_def)
  moreover have "sorted (map timeline_key sample_log)" by (simp add: sample_log_def)
  ultimately show ?thesis by (simp add: rectify_def sort_key_id_if_sorted)
qed

lemma sample_documents [simp]:
  "is_headline sample_headline" "\<not> is_threshold sample_headline" "is_threshold sample_threshold" "\<not> is_headline sample_threshold"
  "rule_metric sample_headline = PNL" "rule_metric sample_threshold = PNL"
  "rule_operator sample_headline = JStr ''>=''" "rule_operator sample_threshold = JStr ''>=''"
  "rule_value sample_headline = JStr (dollars 100)" "rule_value sample_threshold = JStr (dollars 50)"
  "param_of sample_threshold ''participant'' = JStr ''b''"
  by (simp_all add: sample_headline_def sample_threshold_def is_headline_def is_threshold_def template_of_def json_get_def
      rule_metric_def rule_operator_def rule_value_def param_of_def PNL_def)

lemma sample_ready: "wf_event (sample_trade i key p n)" if "p \<noteq> []"
  using that by (simp add: wf_event_def truthy_text_def)

lemma sample_evaluable:
  "evaluable sample_headline default_options sample_log" "evaluable sample_threshold bounded_options sample_log"
  by (simp_all add: evaluable_def wf_condition_def sample_log_def ready_def sample_ready roster_admits_def roster_of_def
      bounding_headline_def default_options_def bounded_options_def PNL_def RETURN_def)

lemma sample_hits:
  "first_hit (rule_hit sample_headline) [] sample_log = Some (sample_trade 3 ''3'' ''a'' 60)"
  "first_hit (rule_hit sample_threshold) [] sample_log = Some (sample_trade 2 ''2'' ''b'' 70)"
  by (simp_all add: sample_log_def rule_hit_def holds_op_def rule_figure_def json_or_null_def PNL_def realized_def)

lemma no_baseline: "\<forall>x \<in> set es. ev_kind x = ''trade_closed'' \<Longrightarrow> baseline_after es p = JNull"
  by (simp add: baseline_after_def)

lemma sample_session: "of_session sample_reconstruction sample_log"
proof -
  have "baselines_known [] [] sample_log"
    unfolding baselines_known_def
  proof (intro allI impI)
    fix as e bs assume "sample_log = as @ e # bs"
    then have "set sample_log = set (as @ e # bs)" by metis
    then have "set (as @ [e]) \<subseteq> set sample_log" by auto
    then have "\<forall>x \<in> set ([] @ as @ [e]). ev_kind x = ''trade_closed''" by (auto simp: sample_log_def)
    then show "let b = baseline_after ([] @ as @ [e]) (the (ev_participant e)) in
        b \<noteq> JNull \<longrightarrow> js_get [] (the (ev_participant e)) = Some (json_text b)"
      by (simp add: no_baseline)
  qed
  moreover have "list_all2 same_fact (rc_ordered sample_reconstruction) (filter is_trade sample_log)"
    by (simp add: sample_reconstruction_def sample_log_def same_fact_def sample_draft_def draft_pnl_def
      draft_field_def draft_facts_def trade_facts_def json_get_def)
  ultimately show ?thesis by (simp add: of_session_def sample_reconstruction_def)
qed


lemma sample_slot: "\<exists>fill at. evaluateSlot sample_threshold sample_headline False sample_reconstruction = SlotDecided ''yes'' fill at"
proof -
  have ready: "all_ready sample_threshold [] sample_log" "all_ready sample_headline [] sample_log"
      "wf_condition sample_threshold" "wf_condition sample_headline" "distinct (map ev_seq sample_log)"
    using sample_evaluable by (simp_all add: evaluable_def)
  have "counted (Some sample_headline) sample_log = sample_log"
    using sample_hits(1) by (simp add: counted_def session_end_def sample_log_def)
  then have "resolver_outcome sample_threshold sample_headline False sample_log = Some ''yes''"
    using sample_hits(2) by (simp add: resolver_outcome_def verdict_def rule_outcome_def)
  with evaluateSlot_outcome [OF ready(3,4) sample_documents(1) ready(1,2) sample_session ready(5), of False]
  show ?thesis by simp
qed

end
