(* ===== verification/GateProperties.thy ===== *)
theory GateProperties
  imports GateReturns Samples
begin

section \<open>Properties of the gate\<close>

text \<open>
  What the gate's calls promise, put together from the lemmas of its theories, with instances on
  a small room: one market whose condition is the sample headline.
\<close>

definition plain_abi :: abi where
  "plain_abi = \<lparr> ab_encode = (\<lambda>ws ns. concat ws), ab_packed = concat, ab_keccak = (\<lambda>t. ''k''), ab_keccakText = (\<lambda>t. ''k'') \<rparr>"

definition sample_gate_env :: "fake_chain gate_env" where
  "sample_gate_env = \<lparr> ge_port = fake_port,
     ge_config = \<lparr> gc_epochDurationS = 60, gc_sourceFinalityDelayS = 10, gc_freshnessThresholdMs = 60000,
       gc_maxPermitLifetimeS = 300, gc_participants = None, gc_unevaluableGraceMs = None, gc_maxPendingTimeS = None \<rparr>,
     ge_hash = (\<lambda>t. ''h''), ge_abi = plain_abi, ge_catalog = None, ge_sign = (\<lambda>p. ''signature''), ge_nowS = 1000 \<rparr>"

definition empty_durable :: durable where
  "empty_durable = \<lparr> du_audit = None, du_nextNonce = None, du_unevaluableSince = None \<rparr>"

definition sample_room :: fake_chain where
  "sample_room = addSlot ''m'' 0 ''c'' new_chain"

definition sample_gate :: "fake_chain gate" where
  "sample_gate = new_gate [(''m'', sample_headline)] (Some ''m'') (Some empty_durable) None sample_room"

lemma sample_env [simp]:
  "ge_port sample_gate_env = fake_port" "ge_catalog sample_gate_env = None"
  "gc_freshnessThresholdMs (ge_config sample_gate_env) = 60000"
  by (simp_all add: sample_gate_env_def)

lemma sample_gate_fields [simp]:
  "ga_chain sample_gate = sample_room" "ga_headlineMarket sample_gate = Some ''m''"
  "ga_conditions sample_gate = [(''m'', sample_headline)]" "ga_state sample_gate = Some empty_durable"
  "ga_loaded sample_gate = False"
  by (simp_all add: sample_gate_def new_gate_def)

lemma sample_room_fields [simp]:
  "fc_slots sample_room = [new_slot ''m'' 0 ''c'']" "fc_roomClosed sample_room = 0" "fc_lastObserved sample_room = 0"
  "fc_published sample_room = []" "fc_usedNonces sample_room = []" "room_ok sample_room"
  by (simp_all add: sample_room_def addSlot_def new_chain_def room_ok_def new_slot_def)

lemma sample_nonce: "nonce_saved sample_gate" "next_nonce sample_gate = 1"
  by (simp_all add: nonce_saved_def next_nonce_def saved_nonce_def empty_durable_def)

lemma evaluate_now_empty: "wf_condition c \<Longrightarrow> evaluate_now sample_gate_env [] c None False = Undecided"
  using evaluate_verdict [of "[]" "default_options" "[]" c]
  by (simp add: evaluate_now_def sample_gate_env_def default_options_def known_events_def rectify_def rectify_slots_def
      evaluable_def roster_admits_def roster_of_def bounding_headline_def verdict_def counted_def session_end_def split: option.split)

lemma evaluate_now_sample: "evaluate_now sample_gate_env sample_log sample_headline None False = Decided ''a'' 3"
  using evaluate_verdict [of sample_log default_options sample_log sample_headline] sample_evaluable(1) sample_hits(1)
  by (simp add: evaluate_now_def sample_gate_env_def default_options_def known_events_def bounding_headline_def
      verdict_def counted_def session_end_def rule_outcome_def)

subsection \<open>Permits\<close>

lemma question_returns:
  assumes "returns (assertQuestionMatches catalog t ps question)"
  shows "\<exists>q expected. question = Some q \<and> renderQuestion catalog t ps = Inr expected
    \<and> normalizeQuestion (trim q) = normalizeQuestion expected"
  using assms
  by (cases question; cases "renderQuestion catalog t ps")
    (auto simp: returns_def assertQuestionMatches_def trim_def Let_def split: if_splits sum.splits)

text \<open>C8: a signed permit is true when it is signed. For a gate deployed with a catalogue and a durable
  store and asked with a clock, as the operators wire it and the permit server calls it: the room is
  open and not suspended; the log has a last event, not observed longer ago than the freshness
  threshold; the condition document is undecided on the whole log; the question of the request is,
  up to case and spacing, the one the catalogue renders from the template and the parameters. The
  permit names the slot it was asked for, the tip of that log, the hashes of that document and of the
  complete request, carries the configured lifetime and the next nonce, which is spent in memory and in
  the durable store, and no write reaches the room.\<close>

theorem requestPermit_signs_what_is_true:
  assumes "requestPermit env es opts g = (g', Inr (Inr sp))"
    and "ge_catalog env = Some catalog" "po_nowMs opts = Some nowMs" "ga_state g = Some durable"
  shows "rp_roomClosedSequence (ge_port env) (ga_chain g) = Inr 0
    \<and> snd (isSuspendedOnChain (ge_port env) (ensure_loaded g)) = Inr False
    \<and> (\<exists>t. last_opt es = Some t
        \<and> (\<forall>at. date_parse (ev_observed_at t) = Some at \<longrightarrow> nowMs - at \<le> gc_freshnessThresholdMs (ge_config env)))
    \<and> evaluate_now env es (po_conditionDocument opts) None False = Undecided
    \<and> (\<exists>request question expected ph. po_request opts = Some request \<and> rq_question request = Some question
        \<and> renderQuestion catalog (po_templateId opts) (po_params opts) = Inr expected
        \<and> normalizeQuestion (trim question) = normalizeQuestion expected
        \<and> params_hash (ge_hash env) (po_templateId opts) (po_params opts) = Inr ph
        \<and> conditionHash (ge_hash env) (po_conditionDocument opts) = Inr (pm_conditionHash (sp_permit sp))
        \<and> slotRequestHash (ge_abi env) request ph (pm_conditionHash (sp_permit sp)) (po_restricted opts)
            = Inr (pm_requestHash (sp_permit sp)))
    \<and> pm_slotIndex (sp_permit sp) = po_slotIndex opts \<and> pm_undecidedThroughSequence (sp_permit sp) = tipSeq es
    \<and> pm_expiresAt (sp_permit sp) - pm_issuedAt (sp_permit sp) = gc_maxPermitLifetimeS (ge_config env)
    \<and> sp_signature sp = ge_sign env (sp_permit sp)
    \<and> pm_nonce (sp_permit sp) = next_nonce g \<and> next_nonce g' = next_nonce g + 1
    \<and> saved_nonce g' = Some (next_nonce g + 1) \<and> ga_chain g' = ga_chain g"
proof -
  note signed = requestPermit_signed [OF assms(1)]
  from signed(1) assms(2,3) have fresh: "\<not> age_exceeds (freshnessAgeMs (last_opt es) nowMs) (gc_freshnessThresholdMs (ge_config env))"
    and question: "returns (assertQuestionMatches catalog (po_templateId opts) (po_params opts) (Option.bind (po_request opts) rq_question))"
    by (simp_all add: permit_justified_def)
  have fresh': "\<exists>t. last_opt es = Some t
      \<and> (\<forall>at. date_parse (ev_observed_at t) = Some at \<longrightarrow> nowMs - at \<le> gc_freshnessThresholdMs (ge_config env))"
    using fresh by (auto simp: age_exceeds_def freshnessAgeMs_def split: option.splits)
  from question_returns [OF question] obtain request q expected where
    "po_request opts = Some request" "rq_question request = Some q"
    "renderQuestion catalog (po_templateId opts) (po_params opts) = Inr expected"
    "normalizeQuestion (trim q) = normalizeQuestion expected"
    by (auto simp: bind_eq_Some_conv)
  with signed assms(4) fresh' show ?thesis by (auto simp: permit_justified_def next_nonce_def)
qed

definition sample_request :: slot_request where
  "sample_request = \<lparr> rq_templateId = ''t'', rq_templateParamsHash = None, rq_conditionHash = None, rq_announceDelay = 5,
     rq_winnerRewardBps = 0, rq_question = None, rq_streamUrl = None, rq_imageUrl = None \<rparr>"

definition sample_permit_options :: permit_options where
  "sample_permit_options = \<lparr> po_slotIndex = 1, po_templateId = ''t'', po_params = JObj [],
     po_conditionDocument = sample_headline, po_announceDelay = 5, po_request = Some sample_request,
     po_restricted = [], po_nowMs = None \<rparr>"

lemma sample_signed: "\<exists>g' sp. requestPermit sample_gate_env [] sample_permit_options sample_gate = (g', Inr (Inr sp))"
proof -
  have headline: "wf_condition sample_headline" using sample_evaluable(1) by (simp add: evaluable_def)
  have h: "conditionHash (ge_hash sample_gate_env) sample_headline = Inr ''h''"
    by (simp add: conditionHash_def sample_gate_env_def sample_headline_def)
  have p: "params_hash (ge_hash sample_gate_env) ''t'' (JObj []) = Inr ''h''"
    by (simp add: params_hash_def sample_gate_env_def)
  have q: "slotRequestHash (ge_abi sample_gate_env) sample_request ''h'' ''h'' [] = Inr ''k''"
    by (simp add: slotRequestHash_def sample_request_def sample_gate_env_def plain_abi_def toBytes32_def)
  have susp: "isSuspendedOnChain fake_port (ensure_loaded sample_gate) = (ensure_loaded sample_gate, Inr False)"
    by (simp add: isSuspendedOnChain_def bind_act_run ask_def ask_opt_def next_nonce_loaded openSlots_def ref_of_def
        gateStateOf_def slot_of_def new_slot_def)
  show ?thesis
    unfolding requestPermit_def Let_def
    by (simp add: sample_permit_options_def bind_act_run next_nonce_loaded h p q ask_def susp evaluate_now_empty [OF headline]
        sign_permit_def log_entry_run Let_def)
qed

text \<open>The instance: the gate of the sample room with the deployed catalogue, a log of one trade a minute old
  and the race for 100 dollars, asked in other letter case and spacing.\<close>

definition catalogue_env :: "fake_chain gate_env" where
  "catalogue_env = sample_gate_env\<lparr>ge_catalog := Some (firstTemplateCatalog None)\<rparr>"

definition race_options :: permit_options where
  "race_options = \<lparr> po_slotIndex = 1, po_templateId = ''tpl-participant-v1'',
     po_params = JObj [(''target'', JStr ''100'')], po_conditionDocument = sample_headline, po_announceDelay = 5,
     po_request = Some (sample_request\<lparr>rq_templateId := ''tpl-participant-v1'',
       rq_question := Some '' who is first  to reach $100 in realized p&l?''\<rparr>),
     po_restricted = [''0xa''], po_nowMs = map_option (\<lambda>t. t + 60000) (date_parse sample_time) \<rparr>"

lemma race_signed:
  "case snd (requestPermit catalogue_env [sample_trade 1 ''1'' ''a'' 40] race_options sample_gate) of
     Inr (Inr sp) \<Rightarrow> True | _ \<Rightarrow> False"
  by code_simp

lemma requestPermit_signs_what_is_true_witness:
  "\<exists>g' sp. requestPermit catalogue_env [sample_trade 1 ''1'' ''a'' 40] race_options sample_gate = (g', Inr (Inr sp))
    \<and> pm_nonce (sp_permit sp) = 1 \<and> pm_undecidedThroughSequence (sp_permit sp) = 1
    \<and> saved_nonce g' = Some 2"
proof -
  obtain g' sp where run: "requestPermit catalogue_env [sample_trade 1 ''1'' ''a'' 40] race_options sample_gate = (g', Inr (Inr sp))"
    using race_signed by (cases "requestPermit catalogue_env [sample_trade 1 ''1'' ''a'' 40] race_options sample_gate")
      (auto split: sum.splits)
  have "ge_catalog catalogue_env = Some (firstTemplateCatalog None)" by (simp add: catalogue_env_def)
  moreover obtain nowMs where "po_nowMs race_options = Some nowMs"
  proof -
    have "date_parse sample_time \<noteq> None" by code_simp
    then show ?thesis using that by (auto simp: race_options_def)
  qed
  moreover have "tipSeq [sample_trade 1 ''1'' ''a'' 40] = 1" by (simp add: tipSeq_def last_opt_def)
  ultimately show ?thesis
    using requestPermit_signs_what_is_true [OF run, of "firstTemplateCatalog None" nowMs empty_durable] run
    by (simp add: sample_nonce)
qed

lemma gate_run_nonces_witness: "\<exists>g'. gate_run sample_gate [1] g' \<and> sorted_wrt (<) [1 :: int] \<and> nonce_saved g'"
proof -
  obtain g' sp where run: "requestPermit sample_gate_env [] sample_permit_options sample_gate = (g', Inr (Inr sp))"
    using sample_signed by blast
  have "gate_run sample_gate ([] @ [pm_nonce (sp_permit sp)]) g'"
    by (rule gate_run.more [OF gate_run.start gate_step.signed [OF run]])
  moreover have "pm_nonce (sp_permit sp) = 1"
    using requestPermit_signed(1) [OF run] by (simp add: permit_justified_def sample_nonce)
  ultimately have "gate_run sample_gate [1] g'" by simp
  with gate_run_nonces [OF this sample_nonce(1)] show ?thesis by blast
qed

subsection \<open>Ticks\<close>

text \<open>C11: no epoch is cleared too early. Whatever a tick marks safe on the room, it has at least one
  epoch for each market, each of an ended epoch past source finality, observed past by the log,
  of a market whose own condition the whole log leaves undecided.\<close>

theorem tick_marks_only_safe_epochs:
  assumes "ge_port env = fake_port" "tick env es nowMs g = (g', r)"
  shows "\<exists>new. fc_calls (ga_chain g') = fc_calls (ga_chain g) @ new
    \<and> (\<forall>seq ms eps. MarkRoomEpochsSafe seq ms eps \<in> set new \<longrightarrow> length ms = length eps
        \<and> (\<forall>(m, e) \<in> set (zip ms eps). safe_to_mark env es nowMs (ga_conditions g) m e))"
  using onlyD [OF tick_moves [OF assms(1)] assms(2)]
  by (simp add: gate_moves_def chain_step_def marks_only_def)

text \<open>C12: a tick only moves the room forward, whether it returns or throws. Markets stay distinct and
  none is marked past the watermark; the watermark never falls; a closed market stays closed
  with its cleared epochs as they were; a closed room keeps its closing sequence.\<close>

theorem tick_moves_the_room_forward:
  assumes "ge_port env = fake_port" "tick env es nowMs g = (g', r)" "room_ok (ga_chain g)"
  shows "room_ok (ga_chain g') \<and> fc_lastObserved (ga_chain g) \<le> fc_lastObserved (ga_chain g')
    \<and> list_all2 slot_le (fc_slots (ga_chain g)) (fc_slots (ga_chain g'))
    \<and> (fc_roomClosed (ga_chain g) \<noteq> 0 \<longrightarrow> fc_roomClosed (ga_chain g') = fc_roomClosed (ga_chain g))
    \<and> fc_published (ga_chain g') = fc_published (ga_chain g) \<and> ga_conditions g' = ga_conditions g"
  using onlyD [OF tick_moves [OF assms(1)] assms(2)] assms(3)
  by (simp add: gate_moves_def chain_step_def)

lemma marking_calls:
  "fc_calls (ga_chain (fst (tick catalogue_env [sample_trade 1 ''1'' ''a'' 40] 1767225640000 sample_gate)))
    = [MarkRoomEpochsSafe 1 [''m''] [29453756], ProcessRoom [''m''] [29453756] 1000]"
  by code_simp

lemma tick_marks_only_safe_epochs_witness:
  "safe_to_mark catalogue_env [sample_trade 1 ''1'' ''a'' 40] 1767225640000 (ga_conditions sample_gate) ''m'' 29453756
    \<and> MarkRoomEpochsSafe 1 [''m''] [29453756]
        \<in> set (fc_calls (ga_chain (fst (tick catalogue_env [sample_trade 1 ''1'' ''a'' 40] 1767225640000 sample_gate))))"
proof -
  obtain g' r where run: "tick catalogue_env [sample_trade 1 ''1'' ''a'' 40] 1767225640000 sample_gate = (g', r)" by fastforce
  have port: "ge_port catalogue_env = fake_port" by (simp add: catalogue_env_def)
  have start: "fc_calls (ga_chain sample_gate) = []" by (simp add: sample_room_def addSlot_def new_chain_def)
  from tick_marks_only_safe_epochs [OF port run] start marking_calls run show ?thesis by auto
qed

lemma tick_moves_the_room_forward_witness:
  "room_ok (ga_chain (fst (tick sample_gate_env sample_log 120000 sample_gate)))"
proof -
  obtain g' r where run: "tick sample_gate_env sample_log 120000 sample_gate = (g', r)" by fastforce
  from tick_moves_the_room_forward [OF sample_env(1) run] run show ?thesis by simp
qed

lemma tick_closes_decided_room_witness:
  "\<exists>g'. tick sample_gate_env sample_log 120000 sample_gate = (g', Inr ()) \<and> fc_roomClosed (ga_chain g') = 3
    \<and> (\<forall>s \<in> set (fc_slots (ga_chain g')). sl_closed s)"
proof -
  have "new_slot ''m'' 0 ''c'' \<in> open_slots (ga_chain sample_gate)"
    by (simp add: open_slots_def new_slot_def)
  from tick_closes_decided_room [OF sample_env(1) _ _ _ this _ _ evaluate_now_sample, of "''m''" 120000]
  show ?thesis by (auto simp: new_slot_def close_if_def)
qed

lemma tick_stale_freezes_witness:
  "\<exists>g'. tick sample_gate_env [] 120000 (sample_gate\<lparr>ga_headlineMarket := None\<rparr>) = (g', Inr ()) \<and> closed_or_frozen (ga_chain g')"
proof -
  have stale: "age_exceeds (freshnessAgeMs (last_opt []) 120000) (gc_freshnessThresholdMs (ge_config sample_gate_env))"
    by (simp add: age_exceeds_def freshnessAgeMs_def last_opt_def)
  have headline: "wf_condition sample_headline" using sample_evaluable(1) by (simp add: evaluable_def)
  let ?g = "ensure_loaded (sample_gate\<lparr>ga_headlineMarket := None\<rparr>)"
  have g: "ga_chain ?g = sample_room" "ga_headlineMarket ?g = None" "ga_conditions ?g = [(''m'', sample_headline)]"
      "ga_unevaluableSince ?g = []"
    by (simp_all add: ensure_loaded_def empty_durable_def)
  obtain g' b where "suspend fake_port [] (StaleSource (freshnessAgeMs (last_opt []) 120000)) ?g = (g', Inr b)"
    using suspend_freezes [of ?g "[]" "StaleSource (freshnessAgeMs (last_opt []) 120000)"] g(1)
    by (auto simp: distinct_markets_def)
  then have "\<exists>g'. tick sample_gate_env [] 120000 (sample_gate\<lparr>ga_headlineMarket := None\<rparr>) = (g', Inr ())"
    unfolding tick_def Let_def
    using stale
    by (simp add: bind_act_run ask_def g openSlots_def ref_of_def new_slot_def decide_micro_def Let_def conditionFor_def
        evaluate_now_empty [OF headline] truthy_text_def clearUnevaluable_def js_has_def close_decided_def some_of_def
        when_act_def room_ok_def distinct_markets_def)
  then obtain g2 where run: "tick sample_gate_env [] 120000 (sample_gate\<lparr>ga_headlineMarket := None\<rparr>) = (g2, Inr ())" by blast
  from tick_stale_freezes [OF sample_env(1) _ _ stale run] run show ?thesis by simp
qed

lemma tick_returns_witness: "\<exists>g'. tick sample_gate_env sample_log 400000 sample_gate = (g', Inr ())"
  by (rule tick_returns) (simp_all add: documented_def open_slots_def new_slot_def truthy_text_def)

end
