(* ===== verification/PublicationProperties.thy ===== *)
theory PublicationProperties
  imports PublicationChannel GateProperties
begin

section \<open>Properties of the publication channel\<close>

text \<open>
  What the queue, the publisher and the permit server promise together, with instances on a small
  room.
\<close>

subsection \<open>One market per request\<close>

text \<open>C3: every market the channel deploys was asked for, once. After any interleaving of submissions,
  publisher ticks, permit-server ticks, gate ticks, gate restarts and outside changes, started
  with an empty queue, each published slot has a nonce of its own and belongs to exactly one
  row of the queue, whose question, document, request, access list and permit are its own.\<close>

theorem one_market_per_request:
  assumes "channel_run env ge (empty_queue, g) (q', g')" "pe_port env = fake_publish_port"
    and "nonce_saved g" "fc_published (ga_chain g) = []" "fc_usedNonces (ga_chain g) = []"
  shows "distinct (map nonce_of (fc_published (ga_chain g')))
    \<and> (\<forall>ps \<in> set (fc_published (ga_chain g')). \<exists>!r. r \<in> set (all_requests q' (pe_roomId env)) \<and> belongs r ps)
    \<and> (\<forall>ps \<in> set (fc_published (ga_chain g')). \<forall>r \<in> set (all_requests q' (pe_roomId env)). belongs r ps \<longrightarrow>
         as_asked env r \<and> bound ge r (ps_permit ps))"
proof -
  have "room_state env ge g' q'"
    using channel_run_state [OF assms(1,2)] room_state_start [OF assms(3-5)] by simp
  then have ok: "rows_ok env ge q'" "permits_ok (pe_roomId env) (next_nonce g') q'"
      "landed_ok (pe_roomId env) q' (ga_chain g')"
    by (simp_all add: room_state_def channel_ok_def ledger_def)
  have "r' = r" if "r \<in> set (all_requests q' (pe_roomId env))" "r' \<in> set (all_requests q' (pe_roomId env))" "belongs r ps" "belongs r' ps" for r r' ps
  proof -
    have "permit_nonce r = Some (nonce_of ps)" "permit_nonce r' = Some (nonce_of ps)"
      using that(3,4) by (simp_all add: permit_nonce_def belongs_def nonce_of_def)
    with ok(2) that(1,2) show ?thesis by (auto simp: permits_ok_def)
  qed
  moreover have "as_asked env r \<and> bound ge r (ps_permit ps)"
    if "r \<in> set (all_requests q' (pe_roomId env))" "belongs r ps" for r ps
    using ok(1) that by (auto simp: rows_ok_def row_ok_def belongs_def)
  ultimately show ?thesis
    using ok(3) unfolding landed_ok_def by blast
qed

definition sample_publisher :: "fake_chain pub_env" where
  "sample_publisher = \<lparr> pe_roomId = ''room'', pe_catalog = firstTemplateCatalog None, pe_minAnnounceDelay = 5,
     pe_maxPermitAttempts = 3, pe_at = sample_time, pe_port = fake_publish_port \<rparr>"

definition sample_candidate :: candidate where
  "sample_candidate = \<lparr> ca_templateId = ''tpl-participant-v1'', ca_params = JObj [(''target'', JStr (dollars 100))],
     ca_announceDelay = None, ca_question = None, ca_streamUrl = None, ca_imageUrl = None, ca_restricted = None,
     ca_slotIndex = None \<rparr>"

text \<open>A run that publishes: a question is asked for, the publisher prepares its request, the permit server has
  the gate of the sample room sign it, the publisher sends it.\<close>

definition sample_server :: "fake_chain serve_env" where
  "sample_server = \<lparr> se_gate = catalogue_env, se_roomId = ''room'', se_maxPerTick = 5, se_at = sample_time,
     se_slotCount = (\<lambda>c. Inr (slotCount c)) \<rparr>"

definition sample_asked :: pub_queue where
  "sample_asked = fst (submit empty_queue ''room''
     (sample_candidate\<lparr>ca_question := Some ''Who is first to reach $100 in realized P&L?''\<rparr>) sample_time)"

definition sample_prepared :: "fake_chain pub_state" where
  "sample_prepared = fst (publisher_tick sample_publisher 0 \<lparr>pb_queue = sample_asked, pb_chain = ga_chain sample_gate\<rparr>)"

definition sample_served :: "fake_chain serve_state" where
  "sample_served = fst (server_tick sample_server [sample_trade 1 ''1'' ''a'' 40] 1767225660000
     \<lparr>sv_gate = sample_gate\<lparr>ga_chain := pb_chain sample_prepared\<rparr>, sv_queue = pb_queue sample_prepared\<rparr>)"

definition sample_sent :: "fake_chain pub_state" where
  "sample_sent = fst (publisher_tick sample_publisher 0
     \<lparr>pb_queue = sv_queue sample_served, pb_chain = ga_chain (sv_gate sample_served)\<rparr>)"

lemma sample_sent_one: "length (fc_published (pb_chain sample_sent)) = 1"
  by code_simp

lemma sample_channel_run:
  "channel_run sample_publisher catalogue_env (empty_queue, sample_gate)
    (pb_queue sample_sent, sv_gate sample_served\<lparr>ga_chain := pb_chain sample_sent\<rparr>)"
proof -
  have env: "sample_publisher\<lparr>pe_at := sample_time\<rparr> = sample_publisher" by (simp add: sample_publisher_def)
  obtain r1 where 1: "publisher_tick (sample_publisher\<lparr>pe_at := sample_time\<rparr>) 0
      \<lparr>pb_queue = sample_asked, pb_chain = ga_chain sample_gate\<rparr> = (sample_prepared, r1)"
    unfolding env sample_prepared_def by (metis prod.collapse)
  obtain r2 where 2: "server_tick sample_server [sample_trade 1 ''1'' ''a'' 40] 1767225660000
      \<lparr>sv_gate = sample_gate\<lparr>ga_chain := pb_chain sample_prepared\<rparr>, sv_queue = pb_queue sample_prepared\<rparr> = (sample_served, r2)"
    unfolding sample_served_def by (metis prod.collapse)
  obtain r3 where 3: "publisher_tick (sample_publisher\<lparr>pe_at := sample_time\<rparr>) 0
      \<lparr>pb_queue = sv_queue sample_served, pb_chain = ga_chain (sv_gate sample_served)\<rparr> = (sample_sent, r3)"
    unfolding env sample_sent_def by (metis prod.collapse)
  have "channel_run sample_publisher catalogue_env (empty_queue, sample_gate) (sample_asked, sample_gate)"
    unfolding sample_asked_def by (rule channel_run.move [OF channel_run.stay channel_step.asked])
  note prepared = channel_run.move [OF this channel_step.publisher [OF 1]]
  have "same_keys catalogue_env (se_gate sample_server)" "se_roomId sample_server = pe_roomId sample_publisher"
    by (simp_all add: sample_server_def sample_publisher_def same_keys_def)
  note channel_run.move [OF prepared channel_step.server [OF this 2]]
  from channel_run.move [OF this channel_step.publisher [OF 3]] show ?thesis .
qed

lemma one_market_per_request_witness:
  "\<exists>ps. fc_published (pb_chain sample_sent) = [ps]
    \<and> (\<exists>!r. r \<in> set (all_requests (pb_queue sample_sent) ''room'') \<and> belongs r ps)"
proof -
  obtain ps where ps: "fc_published (pb_chain sample_sent) = [ps]"
    using sample_sent_one by (auto simp: length_Suc_conv)
  from one_market_per_request [OF sample_channel_run] sample_nonce ps show ?thesis
    by (simp add: sample_publisher_def)
qed

lemma publisher_tick_safe_witness:
  "\<exists>s' xs. publisher_tick sample_publisher 0
      \<lparr>pb_queue = fst (submit empty_queue ''room'' sample_candidate sample_time), pb_chain = new_chain\<rparr> = (s', Inr xs)
    \<and> well_numbered (pb_queue s')"
proof -
  let ?q = "fst (submit empty_queue ''room'' sample_candidate sample_time)"
  have "well_numbered ?q" "rows_ok sample_publisher sample_gate_env ?q"
    by (simp_all add: submit_def empty_queue_def Let_def well_numbered_def rows_ok_def all_requests_def row_ok_def)
  with publisher_tick_safe [of "\<lparr>pb_queue = ?q, pb_chain = new_chain\<rparr>" sample_publisher sample_gate_env 0]
  show ?thesis by fastforce
qed

subsection \<open>A landed market the publisher gives up\<close>

text \<open>The publish step asks for another permit without looking whether the last one was used. A
  permitted row whose market the chain already has, found by its nonce and its condition, is
  put back to wait for a permit as soon as the room's slot count has moved past the permit's
  slot, which the landed market itself sees to.\<close>

theorem publish_reopens_a_landed_row:
  assumes "pq_get (pb_queue s) (pr_id r) = Some r" "pr_permit r = Some p" "nowMs div 1000 < pm_expiresAt p"
    and "slot_count_now env (pb_chain s) = Some n" "pm_slotIndex p \<noteq> n" "findLanded env r (pb_chain s) = Some market"
  shows "\<exists>s' x r'. publish env nowMs r s = (s', Inr x) \<and> pb_chain s' = pb_chain s
    \<and> pb_queue s' = put_row (pb_queue s) r' \<and> pr_id r' = pr_id r
    \<and> pr_status r' = AwaitingPermit \<and> pr_permit r' = None"
  using assms(1-5)
  by (auto simp: publish_def Let_def bind_act_run answer_with_def write_queue_def reopenForPermit_def transition_def)

definition sample_permit :: permit where
  "sample_permit = \<lparr> pm_slotIndex = 0, pm_requestHash = ''r'', pm_conditionHash = ''c'', pm_undecidedThroughSequence = 0,
     pm_announceDelay = 5, pm_issuedAt = 0, pm_expiresAt = 300, pm_nonce = 1 \<rparr>"

definition landed_row :: pub_request where
  "landed_row = \<lparr> pr_id = 1, pr_roomId = ''room'', pr_status = Permitted, pr_candidate = sample_candidate,
     pr_request = Some sample_request, pr_restricted = [], pr_conditionDocument = None, pr_permit = Some sample_permit,
     pr_signature = None, pr_market = None, pr_reason = None, pr_attempts = 0, pr_submittedAt = [], pr_updatedAt = [] \<rparr>"

definition landed_chain :: fake_chain where
  "landed_chain = fst (publishSlot new_chain sample_request sample_permit [])"

lemma publish_reopens_a_landed_row_witness:
  "\<exists>s' x r'. publish sample_publisher 0 landed_row \<lparr>pb_queue = \<lparr>pq_rows = [landed_row], pq_lastId = 1\<rparr>, pb_chain = landed_chain\<rparr>
      = (s', Inr x) \<and> pq_rows (pb_queue s') = [r'] \<and> pr_status r' = AwaitingPermit \<and> usedNonce (pb_chain s') 1"
proof -
  let ?s = "\<lparr>pb_queue = \<lparr>pq_rows = [landed_row], pq_lastId = 1\<rparr>, pb_chain = landed_chain\<rparr>"
  have chain: "fc_slots landed_chain = [new_slot (market_address 0) 0 ''c'']" "fc_usedNonces landed_chain = [1]"
    by (simp_all add: landed_chain_def publishSlot_def new_chain_def addSlot_def called_def Let_def sample_request_def sample_permit_def)
  then have "findLanded sample_publisher landed_row landed_chain = Some (market_address 0)"
    by (simp add: findLanded_def sample_publisher_def fake_publish_port_def usedNonce_def landed_row_def
        marketForConditionHash_def sample_permit_def new_slot_def)
  then show ?thesis
    using publish_reopens_a_landed_row [of ?s landed_row sample_permit 0 sample_publisher 1 "market_address 0"] chain
    by (auto simp: pq_get_def landed_row_def sample_permit_def slot_count_now_def sample_publisher_def fake_publish_port_def
        slotCount_def put_row_def usedNonce_def)
qed

end
