(* ===== verification/CatalogProperties.thy ===== *)
theory CatalogProperties
  imports PublicationProperties
begin

section \<open>Instances of the catalogue's properties\<close>

text \<open>An encoding that is injective by construction: the canonical text of its arguments.\<close>

definition json_text_of :: "json \<Rightarrow> string" where
  "json_text_of v = (case canonicalize v of Inr t \<Rightarrow> t | Inl _ \<Rightarrow> [])"

definition text_list :: "string list \<Rightarrow> json" where
  "text_list ws = JArr (map JStr ws)"

definition faithful_abi :: abi where
  "faithful_abi = \<lparr> ab_encode = (\<lambda>ws ns. json_text_of (JArr [text_list ws, text_list (map int_string ns)])),
     ab_packed = (\<lambda>ws. json_text_of (text_list ws)), ab_keccak = (\<lambda>t. t), ab_keccakText = (\<lambda>t. t) \<rparr>"

lemma arr_returns: "returns (canonicalize (JArr vs)) \<longleftrightarrow> (\<forall>v \<in> set vs. returns (canonicalize v))"
  by (simp add: seq_res_returns)

lemma text_list_returns: "returns (canonicalize (text_list ws))"
  unfolding text_list_def arr_returns by (simp add: returns_def)

lemma json_text_of_returns: "returns (canonicalize v) \<Longrightarrow> canonicalize v = Inr (json_text_of v)"
  by (auto simp: json_text_of_def returns_def)

lemma text_list_canonical:
  "canonicalize (text_list ws) = Inr (json_text_of (text_list ws))"
  "canonicalize (JArr [text_list ws, text_list vs]) = Inr (json_text_of (JArr [text_list ws, text_list vs]))"
  by (rule json_text_of_returns, simp only: arr_returns text_list_returns list.set ball_simps)+

lemma json_text_inject:
  assumes "json_text_of v = json_text_of w" "returns (canonicalize v)" "returns (canonicalize w)"
  shows "jnorm v = jnorm w"
  using canonicalize_inject [OF json_text_of_returns [OF assms(2)]] json_text_of_returns [OF assms(3)] assms(1) by simp

lemma jnorm_text_list [simp]: "jnorm (text_list ws) = text_list ws"
  by (simp add: text_list_def comp_def)

lemma text_list_inject: "text_list ws = text_list vs \<longleftrightarrow> ws = vs"
  by (auto simp: text_list_def inj_def inj_map_eq_map [of JStr])

lemma int_strings_inject: "map int_string ns = map int_string ms \<longleftrightarrow> ns = ms"
proof -
  have "inj int_string"
    using int_string_append_inject [of _ "[]" _ "[]"] by (auto simp: inj_def)
  then show ?thesis by (simp add: inj_map_eq_map)
qed

lemma faithful_abi_binds: "binding_abi faithful_abi"
proof -
  have packed: "ws = vs" if "json_text_of (text_list ws) = json_text_of (text_list vs)" for ws vs
    using json_text_inject [OF that text_list_returns text_list_returns] by (simp add: text_list_inject)
  have encode: "ws = vs \<and> us = xs"
    if "json_text_of (JArr [text_list ws, text_list us]) = json_text_of (JArr [text_list vs, text_list xs])" for ws us vs xs
  proof -
    have "returns (canonicalize (JArr [text_list as, text_list bs]))" for as bs
      unfolding arr_returns by (simp add: text_list_returns del: canonicalize.simps)
    from json_text_inject [OF that this this] show ?thesis by (simp add: text_list_inject)
  qed
  have start: "json_text_of (text_list ws) \<noteq> ''0x''" for ws
    using canonicalize_starts [OF text_list_canonical(1) [of ws]] by (auto simp: text_list_def)
  have encoded: "ws = ws' \<and> ns = ns'"
    if "json_text_of (JArr [text_list ws, text_list (map int_string ns)]) = json_text_of (JArr [text_list ws', text_list (map int_string ns')])"
    for ws ws' ns ns'
    using encode [OF that] int_strings_inject by blast
  have inj: "inj (ab_packed faithful_abi)" "inj (ab_keccak faithful_abi)" "inj (ab_keccakText faithful_abi)"
    using packed by (auto simp: faithful_abi_def intro: injI)
  have enc: "\<forall>ws ws' ns ns'. length ws = length ws' \<longrightarrow> length ns = length ns' \<longrightarrow>
      ab_encode faithful_abi ws ns = ab_encode faithful_abi ws' ns' \<longrightarrow> ws = ws' \<and> ns = ns'"
    unfolding faithful_abi_def abi.select_convs by (intro allI impI encoded)
  have pack: "\<forall>rs. rs \<noteq> [] \<longrightarrow> ab_packed faithful_abi rs \<noteq> ''0x''"
    using start by (simp add: faithful_abi_def)
  show ?thesis
    unfolding binding_abi_def by (rule conjI [OF enc conjI [OF inj(1) conjI [OF pack conjI [OF inj(2,3)]]]])
qed

lemma slotRequestHash_binds_witness:
  "slotRequestHash faithful_abi sample_request ''p'' ''c'' [] \<noteq> slotRequestHash faithful_abi sample_request ''p'' ''c'' [''w'']"
proof
  assume same: "slotRequestHash faithful_abi sample_request ''p'' ''c'' [] = slotRequestHash faithful_abi sample_request ''p'' ''c'' [''w'']"
  obtain t where t: "toBytes32 (rq_templateId sample_request) = Inr t"
    by (simp add: sample_request_def toBytes32_def)
  have "returns (slotRequestHash faithful_abi sample_request ''p'' ''c'' [])"
    unfolding slotRequestHash_def t by (simp add: returns_def)
  then obtain h where h: "slotRequestHash faithful_abi sample_request ''p'' ''c'' [] = Inr h" by (auto simp: returns_def)
  have "([] :: string list) = [''w'']"
    using slotRequestHash_binds [OF faithful_abi_binds h h [unfolded same]] by (elim conjE)
  then show False by simp
qed

lemma dollars_some: "dollars n \<noteq> []"
proof -
  have "\<not> is_decimal []" by (simp add: is_decimal_def returns_def toScaled_def match_decimal_def split_sign_def)
  then show ?thesis using is_decimal_dollars(1) by metis
qed


end
