(* ===== verification/Chat.thy ===== *)
theory Chat
  imports Indexer
begin

section \<open>Room chat (edge/edge.mjs, ChatService)\<close>

text \<open>
  Signed posts and moderation. A request runs up to the await of its signature check, then is
  resumed with the answer, and other requests run in between: the two halves are separate
  definitions, and the service is a step relation over them. \<open>Number(text)\<close> of a client's text is
  the parameter \<open>cf_number\<close> (\<open>None\<close> for \<open>NaN\<close> and the infinities, whole milliseconds
  otherwise); what is proved holds for every such reading.
\<close>

definition CLAIM_LIFETIME_MS :: int where
  "CLAIM_LIFETIME_MS = 5 * 60000"

definition CLAIM_SKEW_MS :: int where
  "CLAIM_SKEW_MS = 60000"

record chat_config =
  cf_roomId :: "string option"
  cf_rateLimitPerMinute :: "nat option"
  cf_slowModeMs :: "int option"
  cf_labels :: "(string, string) js_map"
  cf_moderators :: "string list"
  cf_maxMessages :: nat
  cf_number :: "string \<Rightarrow> int option"

record message =
  mg_id :: nat
  mg_author :: string
  mg_label :: "string option"
  mg_text :: string
  mg_at :: int

record chat =
  ct_messages :: "message list"
  ct_deleted :: "nat list"
  ct_timeouts :: "(string, int) js_map"
  ct_audits :: "(string \<times> string \<times> nat) list"
  ct_nextId :: nat
  ct_recent :: "(string, int list) js_map"
  ct_used :: "(string, int) js_map"

definition new_chat :: chat where
  "new_chat = \<lparr> ct_messages = [], ct_deleted = [], ct_timeouts = [], ct_audits = [], ct_nextId = 1, ct_recent = [], ct_used = [] \<rparr>"

subsection \<open>The message store (MemoryChatStore)\<close>

definition append_message :: "string \<Rightarrow> string option \<Rightarrow> string \<Rightarrow> int \<Rightarrow> chat \<Rightarrow> chat \<times> message" where
  "append_message author label body at ct =
     (let m = \<lparr> mg_id = ct_nextId ct, mg_author = author, mg_label = label, mg_text = body, mg_at = at \<rparr>
      in (ct\<lparr>ct_nextId := ct_nextId ct + 1, ct_messages := ct_messages ct @ [m]\<rparr>, m))"

definition chat_history :: "nat \<Rightarrow> chat \<Rightarrow> message list" where
  "chat_history sinceId ct = filter (\<lambda>m. sinceId < mg_id m \<and> mg_id m \<notin> set (ct_deleted ct)) (ct_messages ct)"

definition find_message :: "nat \<Rightarrow> chat \<Rightarrow> message option" where
  "find_message i ct = find (\<lambda>m. mg_id m = i) (ct_messages ct)"

definition timeoutFor :: "string \<Rightarrow> chat \<Rightarrow> int" where
  "timeoutFor account ct = (case js_get (ct_timeouts ct) (to_lower account) of Some t \<Rightarrow> t | None \<Rightarrow> 0)"

definition prune_store :: "int \<Rightarrow> nat \<Rightarrow> chat \<Rightarrow> chat" where
  "prune_store nowMs maxMessages ct =
     (let excess = length (ct_messages ct) - maxMessages;
          dropped = map mg_id (take excess (ct_messages ct))
      in ct\<lparr>ct_timeouts := filter (\<lambda>(_, until). \<not> until \<le> nowMs) (ct_timeouts ct),
           ct_messages := drop excess (ct_messages ct),
           ct_deleted := filter (\<lambda>i. i \<notin> set dropped) (ct_deleted ct)\<rparr>)"

definition prune :: "chat_config \<Rightarrow> int \<Rightarrow> chat \<Rightarrow> chat" where
  "prune cf nowMs ct = prune_store nowMs (cf_maxMessages cf)
     (ct\<lparr>ct_recent := filter (\<lambda>(_, stamps). stamps \<noteq> []) (map (\<lambda>(k, stamps). (k, filter (\<lambda>at. nowMs - at < 60000) stamps)) (ct_recent ct)),
        ct_used := filter (\<lambda>(_, issuedAt). \<not> CLAIM_LIFETIME_MS + CLAIM_SKEW_MS < nowMs - issuedAt) (ct_used ct)\<rparr>)"

subsection \<open>Claims\<close>

definition newline :: char where
  "newline = CHR 0x0A"

fun split_lines :: "string \<Rightarrow> string list" where
  "split_lines [] = [[]]"
| "split_lines (c # cs) =
     (if c = newline then [] # split_lines cs
      else (case split_lines cs of l # ls \<Rightarrow> (c # l) # ls | [] \<Rightarrow> [[c]]))"

fun join_lines :: "string list \<Rightarrow> string" where
  "join_lines [] = []"
| "join_lines [l] = l"
| "join_lines (l # ls) = l @ newline # join_lines ls"

definition line_at :: "string list \<Rightarrow> nat \<Rightarrow> string option" where
  "line_at parts i = (if i < length parts then Some (parts ! i) else None)"

definition or_empty :: "string option \<Rightarrow> string" where
  "or_empty x = (case x of Some s \<Rightarrow> s | None \<Rightarrow> [])"

definition room_of :: "chat_config \<Rightarrow> string option \<Rightarrow> string" where
  "room_of cf roomId = (case roomId of Some r \<Rightarrow> r | None \<Rightarrow> or_empty (cf_roomId cf))"

definition claimFor :: "chat_config \<Rightarrow> string option \<Rightarrow> string \<Rightarrow> string \<Rightarrow> string \<Rightarrow> string" where
  "claimFor cf roomId address body issuedAt =
     join_lines [''tradermarket-chat-v1'', room_of cf roomId, to_lower address, issuedAt, body]"

definition moderationClaimFor :: "chat_config \<Rightarrow> string option \<Rightarrow> string \<Rightarrow> string \<Rightarrow> string \<Rightarrow> string \<Rightarrow> string \<Rightarrow> string" where
  "moderationClaimFor cf roomId moderator action messageId untilMs issuedAt =
     join_lines [''tradermarket-moderation-v1'', room_of cf roomId, to_lower moderator, action, messageId, untilMs, issuedAt]"

text \<open>\<open>Number(text)\<close> of a line that may be missing; a claim is fresh within its lifetime and the skew.\<close>

definition issued_at :: "chat_config \<Rightarrow> string option \<Rightarrow> int option" where
  "issued_at cf line = Option.bind line (cf_number cf)"

definition fresh_claim :: "chat_config \<Rightarrow> string option \<Rightarrow> int \<Rightarrow> bool" where
  "fresh_claim cf line nowMs = (case issued_at cf line of None \<Rightarrow> False
     | Some t \<Rightarrow> nowMs - t \<le> CLAIM_LIFETIME_MS \<and> - CLAIM_SKEW_MS \<le> nowMs - t)"

text \<open>What is stored beside a reserved claim: \<open>Number(...) || nowMs\<close>.\<close>

definition reserved_at :: "chat_config \<Rightarrow> string option \<Rightarrow> int \<Rightarrow> int" where
  "reserved_at cf line nowMs = (case issued_at cf line of None \<Rightarrow> nowMs | Some t \<Rightarrow> if t = 0 then nowMs else t)"

subsection \<open>Posting\<close>

record post_request =
  pq_address :: json
  pq_text :: json
  pq_signature :: json
  pq_claim :: "string option"
  pq_roomId :: "string option"

text \<open>The first half of \<open>post\<close>: the claim is checked and reserved. \<open>Inr\<close> is a reservation.\<close>

definition begin_post :: "chat_config \<Rightarrow> post_request \<Rightarrow> int \<Rightarrow> chat \<Rightarrow> string + (chat \<times> string)" where
  "begin_post cf rq nowMs ct =
     (if falsy (pq_address rq) \<or> falsy (pq_signature rq) then Inl ''unauthenticated''
      else (case (pq_address rq, pq_text rq) of
        (JStr address, JStr body) \<Rightarrow>
          (if nowMs < timeoutFor (to_lower address) ct then Inl ''timed out''
           else (case truthy_text (pq_claim rq) of
              None \<Rightarrow> Inl ''a signed claim is required: this client is out of date''
            | Some claim \<Rightarrow>
                (let parts = split_lines claim in
                 if line_at parts 0 \<noteq> Some ''tradermarket-chat-v1'' then Inl ''unrecognised claim''
                 else if line_at parts 2 \<noteq> Some (to_lower address) then Inl ''claim is for another address''
                 else if join_lines (drop 4 parts) \<noteq> body then Inl ''claim does not match the message''
                 else if line_at parts 1 \<noteq> Some (room_of cf (pq_roomId rq)) then Inl ''claim is for another room''
                 else if \<not> fresh_claim cf (line_at parts 3) nowMs then Inl ''claim expired''
                 else if js_has (ct_used ct) claim then Inl ''replay: this claim was already used''
                 else Inr (ct\<lparr>ct_used := js_set claim (reserved_at cf (line_at parts 3) nowMs) (ct_used ct)\<rparr>, claim))))
      | _ \<Rightarrow> Inl ''address and text must be strings''))"

definition release :: "string \<Rightarrow> chat \<Rightarrow> chat" where
  "release claim ct = ct\<lparr>ct_used := js_delete claim (ct_used ct)\<rparr>"

text \<open>The second half, once the signature check answered.\<close>

definition finish_post :: "chat_config \<Rightarrow> string \<Rightarrow> string \<Rightarrow> string \<Rightarrow> int \<Rightarrow> bool \<Rightarrow> chat \<Rightarrow> chat \<times> (string + message)" where
  "finish_post cf address body claim nowMs verified ct =
     (let key = to_lower address;
          history = filter (\<lambda>at. nowMs - at < 60000) (case js_get (ct_recent ct) key of Some hs \<Rightarrow> hs | None \<Rightarrow> [])
      in if \<not> verified then (release claim ct, Inl ''bad signature'')
         else if (case cf_rateLimitPerMinute cf of Some n \<Rightarrow> n | None \<Rightarrow> 10) \<le> length history
           then (release claim ct, Inl ''rate limited'')
         else if history \<noteq> [] \<and> nowMs - last history < (case cf_slowModeMs cf of Some n \<Rightarrow> n | None \<Rightarrow> 0)
           then (release claim ct, Inl ''slow mode'')
         else (let ct1 = prune cf nowMs (ct\<lparr>ct_recent := js_set key (history @ [nowMs]) (ct_recent ct)\<rparr>);
                   (ct2, m) = append_message address (js_get (cf_labels cf) key) body nowMs ct1
               in (ct2, Inr m)))"

subsection \<open>Moderation\<close>

record moderation_request =
  mq_moderator :: "string option"
  mq_messageId :: nat
  mq_action :: string
  mq_untilMs :: int
  mq_signature :: "string option"
  mq_claim :: "string option"
  mq_roomId :: "string option"

definition begin_moderation :: "chat_config \<Rightarrow> moderation_request \<Rightarrow> int \<Rightarrow> chat \<Rightarrow> string + (chat \<times> string)" where
  "begin_moderation cf rq nowMs ct =
     (let key = to_lower (or_empty (mq_moderator rq)) in
      if key \<notin> set (cf_moderators cf) then Inl ''not a moderator''
      else if truthy_text (mq_signature rq) = None then Inl ''not a moderator''
      else (case truthy_text (mq_claim rq) of
         None \<Rightarrow> Inl ''not a moderator''
       | Some claim \<Rightarrow>
           (let parts = split_lines claim in
            if line_at parts 0 \<noteq> Some ''tradermarket-moderation-v1'' then Inl ''unrecognised claim''
            else if line_at parts 2 \<noteq> Some key then Inl ''claim is for another moderator''
            else if line_at parts 3 \<noteq> Some (mq_action rq) \<or> line_at parts 4 \<noteq> Some (dec_string (mq_messageId rq))
              \<or> line_at parts 5 \<noteq> Some (int_string (mq_untilMs rq)) then Inl ''claim does not match the action''
            else if line_at parts 1 \<noteq> Some (room_of cf (mq_roomId rq)) then Inl ''claim is for another room''
            else if \<not> fresh_claim cf (line_at parts 6) nowMs then Inl ''claim expired''
            else if js_has (ct_used ct) claim then Inl ''replay: this claim was already used''
            else Inr (ct\<lparr>ct_used := js_set claim (reserved_at cf (line_at parts 6) nowMs) (ct_used ct)\<rparr>, claim))))"

definition audit :: "string \<Rightarrow> string \<Rightarrow> nat \<Rightarrow> chat \<Rightarrow> chat" where
  "audit moderator action messageId ct = ct\<lparr>ct_audits := ct_audits ct @ [(moderator, action, messageId)]\<rparr>"

definition finish_moderation :: "chat_config \<Rightarrow> moderation_request \<Rightarrow> string \<Rightarrow> int \<Rightarrow> bool \<Rightarrow> chat \<Rightarrow> chat \<times> (string + string)" where
  "finish_moderation cf rq claim nowMs verified ct =
     (if \<not> verified then (release claim ct, Inl ''not a moderator'')
      else (let ct1 = prune cf nowMs ct; moderator = or_empty (mq_moderator rq) in
        case find_message (mq_messageId rq) ct1 of
          None \<Rightarrow> (ct1, Inl ''no such message'')
        | Some m \<Rightarrow>
            if mq_action rq = ''delete'' then
              (audit moderator ''delete'' (mq_messageId rq)
                 (ct1\<lparr>ct_deleted := set_add (mq_messageId rq) (ct_deleted ct1)\<rparr>), Inr ''deleted'')
            else if mq_action rq = ''timeout'' then
              (audit moderator ''timeout'' (mq_messageId rq)
                 (ct1\<lparr>ct_timeouts := js_set (to_lower (mg_author m)) (mq_untilMs rq) (ct_timeouts ct1)\<rparr>), Inr ''timedOut'')
            else (ct1, Inl ''unknown action'')))"

subsection \<open>The service as a step relation\<close>

text \<open>
  A flight is a request between its two halves. \<open>verify address claim signature\<close> is the signature
  check the service is built with. The clock never runs backwards; accepted posts are remembered
  with their claims.
\<close>

datatype flight =
    PostFlight string string string json "string option" int
  | ModFlight moderation_request string int

record chat_service =
  cs_chat :: chat
  cs_flights :: "flight list"
  cs_accepted :: "(string \<times> message) list"
  cs_now :: int

definition new_service :: chat_service where
  "new_service = \<lparr> cs_chat = new_chat, cs_flights = [], cs_accepted = [], cs_now = 0 \<rparr>"

inductive chat_step :: "chat_config \<Rightarrow> (string \<Rightarrow> string \<Rightarrow> json \<Rightarrow> bool) \<Rightarrow> chat_service \<Rightarrow> chat_service \<Rightarrow> bool"
  for cf verify where
  post_begins: "begin_post cf rq nowMs (cs_chat s) = Inr (ct, claim) \<Longrightarrow> cs_now s \<le> nowMs
    \<Longrightarrow> pq_address rq = JStr address \<Longrightarrow> pq_text rq = JStr body
    \<Longrightarrow> chat_step cf verify s (s\<lparr>cs_chat := ct, cs_now := nowMs,
          cs_flights := cs_flights s @ [PostFlight address body claim (pq_signature rq) (pq_roomId rq) nowMs]\<rparr>)"
| post_refused: "begin_post cf rq nowMs (cs_chat s) = Inl reason \<Longrightarrow> cs_now s \<le> nowMs \<Longrightarrow> chat_step cf verify s (s\<lparr>cs_now := nowMs\<rparr>)"
| post_ends: "cs_flights s = xs @ PostFlight address body claim sig roomId nowMs # ys
    \<Longrightarrow> finish_post cf address body claim nowMs (verify address claim sig) (cs_chat s) = (ct, r)
    \<Longrightarrow> chat_step cf verify s (s\<lparr>cs_chat := ct, cs_flights := xs @ ys,
          cs_accepted := cs_accepted s @ (case r of Inr m \<Rightarrow> [(claim, m)] | Inl e \<Rightarrow> [])\<rparr>)"
| moderation_begins: "begin_moderation cf mq nowMs (cs_chat s) = Inr (ct, claim) \<Longrightarrow> cs_now s \<le> nowMs
    \<Longrightarrow> chat_step cf verify s (s\<lparr>cs_chat := ct, cs_now := nowMs, cs_flights := cs_flights s @ [ModFlight mq claim nowMs]\<rparr>)"
| moderation_ends: "cs_flights s = xs @ ModFlight mq claim nowMs # ys
    \<Longrightarrow> finish_moderation cf mq claim nowMs
          (verify (or_empty (mq_moderator mq)) claim (case mq_signature mq of Some t \<Rightarrow> JStr t | None \<Rightarrow> JNull)) (cs_chat s) = (ct, r)
    \<Longrightarrow> chat_step cf verify s (s\<lparr>cs_chat := ct, cs_flights := xs @ ys\<rparr>)"

inductive chat_reachable :: "chat_config \<Rightarrow> (string \<Rightarrow> string \<Rightarrow> json \<Rightarrow> bool) \<Rightarrow> chat_service \<Rightarrow> bool" for cf verify where
  chat_init: "chat_reachable cf verify new_service"
| chat_next: "chat_reachable cf verify s \<Longrightarrow> chat_step cf verify s s' \<Longrightarrow> chat_reachable cf verify s'"

inductive_cases chat_stepE: "chat_step cf verify s s'"

subsection \<open>What a flight and an accepted post carry\<close>

definition flight_claims :: "flight list \<Rightarrow> string list" where
  "flight_claims fl = concat (map (\<lambda>f. case f of PostFlight a b c sg r t \<Rightarrow> [c] | _ \<Rightarrow> []) fl)"

definition post_claims :: "chat_service \<Rightarrow> string list" where
  "post_claims s = flight_claims (cs_flights s) @ map fst (cs_accepted s)"

text \<open>A claim as \<open>post\<close> accepts it.\<close>

definition binds :: "chat_config \<Rightarrow> string option \<Rightarrow> string \<Rightarrow> string \<Rightarrow> string \<Rightarrow> bool" where
  "binds cf roomId address body claim \<longleftrightarrow> (let parts = split_lines claim in
     line_at parts 0 = Some ''tradermarket-chat-v1'' \<and> line_at parts 1 = Some (room_of cf roomId)
     \<and> line_at parts 2 = Some (to_lower address) \<and> join_lines (drop 4 parts) = body)"

definition chat_claim_time :: "chat_config \<Rightarrow> string \<Rightarrow> int option" where
  "chat_claim_time cf claim = issued_at cf (line_at (split_lines claim) 3)"

lemma begin_post_Inr:
  assumes "begin_post cf rq nowMs ct = Inr (ct', claim)" "pq_address rq = JStr address" "pq_text rq = JStr body"
  shows "binds cf (pq_roomId rq) address body claim" "\<not> js_has (ct_used ct) claim"
    "\<exists>t. chat_claim_time cf claim = Some t \<and> nowMs - t \<le> CLAIM_LIFETIME_MS"
    "ct' = ct\<lparr>ct_used := js_set claim (reserved_at cf (line_at (split_lines claim) 3) nowMs) (ct_used ct)\<rparr>"
  using assms by (auto simp: begin_post_def binds_def Let_def fresh_claim_def chat_claim_time_def
      split: if_splits option.splits)

lemma begin_moderation_Inr:
  assumes "begin_moderation cf mq nowMs ct = Inr (ct', claim)"
  shows "line_at (split_lines claim) 0 = Some ''tradermarket-moderation-v1''" "\<not> js_has (ct_used ct) claim"
    "\<exists>v. ct' = ct\<lparr>ct_used := js_set claim v (ct_used ct)\<rparr>"
  using assms by (auto simp: begin_moderation_def Let_def split: if_splits option.splits)

subsection \<open>The invariant\<close>

text \<open>
  Every claim of a flight or an accepted post is either still held or past its lifetime; it is
  held under a time not before its own; no two share a claim; what was accepted was signed and
  says what its claim says.
\<close>

definition guarded :: "chat_config \<Rightarrow> chat_service \<Rightarrow> string \<Rightarrow> bool" where
  "guarded cf s c \<longleftrightarrow> (\<exists>t. chat_claim_time cf c = Some t \<and>
     (case js_get (ct_used (cs_chat s)) c of Some v \<Rightarrow> t \<le> v | None \<Rightarrow> CLAIM_LIFETIME_MS < cs_now s - t))"

definition signed_post :: "chat_config \<Rightarrow> (string \<Rightarrow> string \<Rightarrow> json \<Rightarrow> bool) \<Rightarrow> string \<times> message \<Rightarrow> bool" where
  "signed_post cf verify cm \<longleftrightarrow> (\<exists>sig roomId. verify (mg_author (snd cm)) (fst cm) sig
     \<and> binds cf roomId (mg_author (snd cm)) (mg_text (snd cm)) (fst cm))"

definition flight_ok :: "chat_config \<Rightarrow> int \<Rightarrow> flight \<Rightarrow> bool" where
  "flight_ok cf now f = (case f of PostFlight a b c sg r t \<Rightarrow> binds cf r a b c \<and> t \<le> now
     | ModFlight mq c t \<Rightarrow> line_at (split_lines c) 0 = Some ''tradermarket-moderation-v1'' \<and> t \<le> now)"

definition chat_ok :: "chat_config \<Rightarrow> (string \<Rightarrow> string \<Rightarrow> json \<Rightarrow> bool) \<Rightarrow> chat_service \<Rightarrow> bool" where
  "chat_ok cf verify s \<longleftrightarrow> 0 \<le> cs_now s \<and> distinct (map fst (ct_used (cs_chat s))) \<and> distinct (post_claims s) \<and> (\<forall>c \<in> set (post_claims s). guarded cf s c)
     \<and> (\<forall>f \<in> set (cs_flights s). flight_ok cf (cs_now s) f) \<and> (\<forall>cm \<in> set (cs_accepted s). signed_post cf verify cm
         \<and> line_at (split_lines (fst cm)) 0 = Some ''tradermarket-chat-v1'')
     \<and> set (ct_messages (cs_chat s)) \<subseteq> snd ` set (cs_accepted s)"

lemma flight_claims_simps [simp]: "flight_claims [] = []" "flight_claims (xs @ ys) = flight_claims xs @ flight_claims ys"
  "flight_claims (PostFlight a b c sg r t # ys) = c # flight_claims ys" "flight_claims (ModFlight mq c t # ys) = flight_claims ys"
  by (simp_all add: flight_claims_def)

lemma chat_ok_domain:
  assumes "chat_ok cf verify s" "c \<in> set (post_claims s)"
  shows "line_at (split_lines c) 0 = Some ''tradermarket-chat-v1''"
  using assms by (auto simp: chat_ok_def post_claims_def flight_claims_def flight_ok_def binds_def Let_def split: flight.splits)

lemma get_filter: "distinct (map fst m) \<Longrightarrow> js_get (filter (\<lambda>(k, v). P v) m) k =
    (case js_get m k of Some v \<Rightarrow> if P v then Some v else None | None \<Rightarrow> None)"
proof (induction m)
  case (Cons x m)
  obtain a b where x: "x = (a, b)" by (cases x)
  show ?case
  proof (cases "a = k")
    case True
    with Cons.prems x have "js_get m k = None" by (simp add: map_of_eq_None_iff)
    with Cons True x show ?thesis by simp
  qed (use Cons x in simp)
qed simp

lemma distinct_filter_keys: "distinct (map fst m) \<Longrightarrow> distinct (map fst (filter Q m))"
  by (induction m) auto

lemma prune_used [simp]: "ct_used (prune cf nowMs ct) =
    filter (\<lambda>(_, issuedAt). \<not> CLAIM_LIFETIME_MS + CLAIM_SKEW_MS < nowMs - issuedAt) (ct_used ct)"
  by (simp add: prune_def prune_store_def Let_def)

lemma prune_messages: "set (ct_messages (prune cf nowMs ct)) \<subseteq> set (ct_messages ct)"
  by (auto simp: prune_def prune_store_def Let_def dest: in_set_dropD)

text \<open>Dropping expired claims keeps every claim guarded, and so does the passing of time.\<close>

lemma guarded_prune:
  assumes "guarded cf s c" "distinct (map fst (ct_used (cs_chat s)))" "nowMs \<le> cs_now s"
    and "ct_used (cs_chat s') = filter (\<lambda>(_, issuedAt). \<not> CLAIM_LIFETIME_MS + CLAIM_SKEW_MS < nowMs - issuedAt) (ct_used (cs_chat s))"
    and "cs_now s' = cs_now s"
  shows "guarded cf s' c"
  using assms get_filter [OF assms(2), of "\<lambda>v. \<not> CLAIM_LIFETIME_MS + CLAIM_SKEW_MS < nowMs - v" c]
  by (auto simp: guarded_def CLAIM_SKEW_MS_def split: option.splits if_splits)

lemma guarded_set:
  assumes "guarded cf s c" "ct_used (cs_chat s') = js_set c' v (ct_used (cs_chat s))" "c \<noteq> c'" "cs_now s \<le> cs_now s'"
  shows "guarded cf s' c"
  using assms by (auto simp: guarded_def port_simps split: option.splits)

lemma guarded_delete:
  assumes "guarded cf s c" "ct_used (cs_chat s') = js_delete c' (ct_used (cs_chat s))" "c \<noteq> c'" "cs_now s' = cs_now s"
  shows "guarded cf s' c"
  using assms by (auto simp: guarded_def port_simps split: option.splits)

lemma guarded_fresh:
  assumes "guarded cf s c" "\<not> js_has (ct_used (cs_chat s)) c" "chat_claim_time cf c = Some t" "cs_now s \<le> nowMs"
  shows "CLAIM_LIFETIME_MS < nowMs - t"
  using assms by (auto simp: guarded_def js_has_def)

subsection \<open>Every step keeps it\<close>

lemma flight_ok_later: "flight_ok cf now f \<Longrightarrow> now \<le> now' \<Longrightarrow> flight_ok cf now' f"
  by (auto simp: flight_ok_def split: flight.splits)

lemma keep_post_begins:
  assumes "chat_ok cf verify s" "begin_post cf rq nowMs (cs_chat s) = Inr (ct, claim)" "cs_now s \<le> nowMs"
    and "pq_address rq = JStr address" "pq_text rq = JStr body"
  shows "chat_ok cf verify (s\<lparr>cs_chat := ct, cs_now := nowMs,
          cs_flights := cs_flights s @ [PostFlight address body claim (pq_signature rq) (pq_roomId rq) nowMs]\<rparr>)"
    (is "chat_ok cf verify ?s'")
proof -
  note b = begin_post_Inr [OF assms(2,4,5)]
  from b(3) obtain t where t: "chat_claim_time cf claim = Some t" "nowMs - t \<le> CLAIM_LIFETIME_MS" by blast
  have new: "claim \<notin> set (post_claims s)"
  proof
    assume "claim \<in> set (post_claims s)"
    with assms(1) have "guarded cf s claim" by (simp add: chat_ok_def)
    from guarded_fresh [OF this b(2) t(1) assms(3)] t(2) show False by simp
  qed
  have claims: "post_claims ?s' = flight_claims (cs_flights s) @ claim # map fst (cs_accepted s)"
    by (simp add: post_claims_def)
  have used: "ct_used ct = js_set claim (reserved_at cf (line_at (split_lines claim) 3) nowMs) (ct_used (cs_chat s))"
    using b(4) by simp
  have "reserved_at cf (line_at (split_lines claim) 3) nowMs \<ge> t"
    using t assms(1,3) by (auto simp: reserved_at_def chat_claim_time_def chat_ok_def split: option.splits)
  then have "guarded cf ?s' claim" using t(1) by (simp add: guarded_def used port_simps)
  moreover have "guarded cf ?s' c" if "c \<in> set (post_claims s)" for c
    using that new assms(1,3) by (intro guarded_set [of cf s c ?s' claim]) (auto simp: chat_ok_def used)
  ultimately have "\<forall>c \<in> set (post_claims ?s'). guarded cf ?s' c"
    unfolding claims by (auto simp: post_claims_def)
  moreover have "distinct (post_claims ?s')" using new assms(1) by (auto simp: claims chat_ok_def post_claims_def)
  moreover have "flight_ok cf nowMs f" if "f \<in> set (cs_flights s)" for f
    using that assms(1,3) flight_ok_later by (auto simp: chat_ok_def)
  moreover have "ct_messages ct = ct_messages (cs_chat s)" using b(4) by simp
  ultimately show ?thesis using assms(1,3) b(1)
    by (auto simp: chat_ok_def used distinct_update flight_ok_def)
qed

lemma keep_time:
  assumes "chat_ok cf verify s" "cs_now s \<le> nowMs"
  shows "chat_ok cf verify (s\<lparr>cs_now := nowMs\<rparr>)"
proof -
  have "guarded cf (s\<lparr>cs_now := nowMs\<rparr>) c" if "guarded cf s c" for c
    using that assms(2) by (auto simp: guarded_def split: option.splits)
  with assms flight_ok_later show ?thesis by (auto simp: chat_ok_def post_claims_def)
qed

text \<open>What the second halves do to the held claims and the messages.\<close>

lemma finish_post_cases:
  assumes "finish_post cf address body claim nowMs verified ct = (ct', r)"
  obtains (refused) e where "r = Inl e" "ct' = release claim ct"
    | (accepted) m where "r = Inr m" "verified" "mg_author m = address" "mg_text m = body"
        "ct_used ct' = filter (\<lambda>(_, issuedAt). \<not> CLAIM_LIFETIME_MS + CLAIM_SKEW_MS < nowMs - issuedAt) (ct_used ct)"
        "set (ct_messages ct') \<subseteq> insert m (set (ct_messages ct))"
proof (cases "r")
  case (Inl e)
  with assms show ?thesis by (intro refused) (auto simp: finish_post_def Let_def append_message_def split: if_splits prod.splits)
next
  case (Inr m)
  with assms have v: "verified" by (auto simp: finish_post_def Let_def split: if_splits)
  from Inr assms have e: "(ct', m) = append_message address (js_get (cf_labels cf) (to_lower address)) body nowMs
      (prune cf nowMs (ct\<lparr>ct_recent := js_set (to_lower address) (filter (\<lambda>at. nowMs - at < 60000)
        (case js_get (ct_recent ct) (to_lower address) of Some hs \<Rightarrow> hs | None \<Rightarrow> []) @ [nowMs]) (ct_recent ct)\<rparr>))"
    by (auto simp: finish_post_def Let_def split: if_splits prod.splits)
  show ?thesis
  proof (rule accepted [OF Inr v])
    show "mg_author m = address" "mg_text m = body" using e by (simp_all add: append_message_def Let_def)
    show "ct_used ct' = filter (\<lambda>(_, issuedAt). \<not> CLAIM_LIFETIME_MS + CLAIM_SKEW_MS < nowMs - issuedAt) (ct_used ct)"
      using e by (simp add: append_message_def Let_def)
    show "set (ct_messages ct') \<subseteq> insert m (set (ct_messages ct))"
      using e prune_messages by (fastforce simp: append_message_def Let_def)
  qed
qed

lemma keep_post_ends:
  assumes "chat_ok cf verify s" "cs_flights s = xs @ PostFlight address body claim sig roomId nowMs # ys"
    and "finish_post cf address body claim nowMs (verify address claim sig) (cs_chat s) = (ct, r)"
  shows "chat_ok cf verify (s\<lparr>cs_chat := ct, cs_flights := xs @ ys,
          cs_accepted := cs_accepted s @ (case r of Inr m \<Rightarrow> [(claim, m)] | Inl e \<Rightarrow> [])\<rparr>)" (is "chat_ok cf verify ?s'")
proof -
  from assms(1,2) have fl: "binds cf roomId address body claim" "nowMs \<le> cs_now s"
    by (auto simp: chat_ok_def flight_ok_def)
  have d: "distinct (map fst (ct_used (cs_chat s)))" and dc: "distinct (post_claims s)" using assms(1) by (simp_all add: chat_ok_def)
  have cl: "set (post_claims s) = insert claim (set (flight_claims (xs @ ys) @ map fst (cs_accepted s)))"
    "claim \<notin> set (flight_claims (xs @ ys) @ map fst (cs_accepted s))"
    "distinct (flight_claims (xs @ ys) @ map fst (cs_accepted s))"
    using dc by (auto simp: post_claims_def assms(2))
  from assms(3) show ?thesis
  proof (cases rule: finish_post_cases)
    case (refused e)
    have "guarded cf ?s' c" if "c \<in> set (post_claims ?s')" for c
    proof -
      from that refused cl have "c \<in> set (post_claims s)" "c \<noteq> claim" by (auto simp: post_claims_def)
      with assms(1) refused show ?thesis
        by (intro guarded_delete [of cf s c ?s' claim]) (auto simp: chat_ok_def release_def)
    qed
    with refused assms(1,2) cl(3) d show ?thesis
      by (auto simp: chat_ok_def post_claims_def release_def distinct_delete)
  next
    case (accepted m)
    have "guarded cf ?s' c" if "c \<in> set (post_claims s)" for c
      using that assms(1) accepted d fl(2)
      by (intro guarded_prune [of cf s c nowMs ?s']) (auto simp: chat_ok_def)
    moreover have "set (post_claims ?s') \<subseteq> set (post_claims s)" "distinct (post_claims ?s')"
      using cl accepted(1) by (auto simp: post_claims_def)
    moreover have "signed_post cf verify (claim, m)"
      using accepted fl(1) by (auto simp: signed_post_def)
    moreover have "line_at (split_lines claim) 0 = Some ''tradermarket-chat-v1''"
      using fl(1) by (simp add: binds_def Let_def)
    ultimately show ?thesis using assms(1,2) accepted d
      by (auto simp: chat_ok_def distinct_filter_keys subset_iff)
  qed
qed

lemma finish_moderation_cases:
  assumes "finish_moderation cf mq claim nowMs verified ct = (ct', r)"
  obtains (refused) "ct_used ct' = js_delete claim (ct_used ct)" "ct_messages ct' = ct_messages ct"
    | (pruned) "ct_used ct' = filter (\<lambda>(_, issuedAt). \<not> CLAIM_LIFETIME_MS + CLAIM_SKEW_MS < nowMs - issuedAt) (ct_used ct)"
        "set (ct_messages ct') \<subseteq> set (ct_messages ct)"
proof (cases verified)
  case False
  with assms have "ct' = release claim ct" by (simp add: finish_moderation_def)
  with refused show ?thesis by (simp add: release_def)
next
  case True
  with assms have "ct_used ct' = ct_used (prune cf nowMs ct)" "ct_messages ct' = ct_messages (prune cf nowMs ct)"
    by (auto simp: finish_moderation_def Let_def audit_def split: option.splits if_splits)
  with pruned prune_messages show ?thesis by simp
qed

lemma keep_moderation_begins:
  assumes "chat_ok cf verify s" "begin_moderation cf mq nowMs (cs_chat s) = Inr (ct, claim)" "cs_now s \<le> nowMs"
  shows "chat_ok cf verify (s\<lparr>cs_chat := ct, cs_now := nowMs, cs_flights := cs_flights s @ [ModFlight mq claim nowMs]\<rparr>)"
    (is "chat_ok cf verify ?s'")
proof -
  note b = begin_moderation_Inr [OF assms(2)]
  from b(3) obtain v where v: "ct = (cs_chat s)\<lparr>ct_used := js_set claim v (ct_used (cs_chat s))\<rparr>" by blast
  have "guarded cf ?s' c" if "c \<in> set (post_claims s)" for c
  proof -
    from chat_ok_domain [OF assms(1) that] b(1) have "c \<noteq> claim" by auto
    with that assms(1,3) show ?thesis
      by (intro guarded_set [of cf s c ?s' claim v]) (auto simp: chat_ok_def v)
  qed
  moreover have "flight_ok cf nowMs f" if "f \<in> set (cs_flights s)" for f
    using that assms(1,3) flight_ok_later by (auto simp: chat_ok_def)
  ultimately show ?thesis using assms(1,3) b(1)
    by (auto simp: chat_ok_def v distinct_update flight_ok_def post_claims_def)
qed

lemma keep_moderation_ends:
  assumes "chat_ok cf verify s" "cs_flights s = xs @ ModFlight mq claim nowMs # ys"
    and "finish_moderation cf mq claim nowMs verified (cs_chat s) = (ct, r)"
  shows "chat_ok cf verify (s\<lparr>cs_chat := ct, cs_flights := xs @ ys\<rparr>)" (is "chat_ok cf verify ?s'")
proof -
  from assms(1,2) have fl: "line_at (split_lines claim) 0 = Some ''tradermarket-moderation-v1''" "nowMs \<le> cs_now s"
    by (auto simp: chat_ok_def flight_ok_def)
  have claims: "post_claims ?s' = post_claims s" by (simp add: post_claims_def assms(2))
  from assms(3) show ?thesis
  proof (cases rule: finish_moderation_cases)
    case refused
    have "guarded cf ?s' c" if "c \<in> set (post_claims s)" for c
    proof -
      from chat_ok_domain [OF assms(1) that] fl(1) have "c \<noteq> claim" by auto
      with that assms(1) refused show ?thesis
        by (intro guarded_delete [of cf s c ?s' claim]) (auto simp: chat_ok_def)
    qed
    with refused assms(1,2) show ?thesis by (auto simp: chat_ok_def claims distinct_delete)
  next
    case pruned
    have "guarded cf ?s' c" if "c \<in> set (post_claims s)" for c
      using that assms(1) pruned fl(2) by (intro guarded_prune [of cf s c nowMs ?s']) (auto simp: chat_ok_def)
    with pruned assms(1,2) show ?thesis by (auto simp: chat_ok_def claims distinct_filter_keys)
  qed
qed

lemma chat_step_ok: "chat_step cf verify s s' \<Longrightarrow> chat_ok cf verify s \<Longrightarrow> chat_ok cf verify s'"
  by (induction rule: chat_step.induct)
    (rule keep_post_begins keep_time keep_post_ends keep_moderation_begins keep_moderation_ends; assumption)+

lemma chat_reachable_ok: "chat_reachable cf verify s \<Longrightarrow> chat_ok cf verify s"
proof (induction rule: chat_reachable.induct)
  case chat_init
  show ?case by (simp add: chat_ok_def new_service_def new_chat_def post_claims_def)
qed (rule chat_step_ok)

text \<open>C15: in every interleaving of posts and moderations, whatever the order in which the signature
  checks answer, no signed claim is accepted as a post twice, and every message the room shows was
  accepted with a signature of its author over a claim that names the chat, a room, that author
  and that very text.\<close>

theorem chat_claim_posts_once:
  assumes "chat_reachable cf verify s"
  shows "distinct (map fst (cs_accepted s)) \<and> (\<forall>m \<in> set (ct_messages (cs_chat s)). \<exists>claim sig roomId.
    (claim, m) \<in> set (cs_accepted s) \<and> verify (mg_author m) claim sig \<and> binds cf roomId (mg_author m) (mg_text m) claim)"
proof -
  from chat_reachable_ok [OF assms] have ok: "distinct (map fst (cs_accepted s))"
      "\<forall>cm \<in> set (cs_accepted s). signed_post cf verify cm"
      "set (ct_messages (cs_chat s)) \<subseteq> snd ` set (cs_accepted s)"
    by (auto simp: chat_ok_def post_claims_def)
  then show ?thesis by (fastforce simp: signed_post_def)
qed

text \<open>The instance: one message, posted and shown.\<close>

definition sample_chat_config :: chat_config where
  "sample_chat_config = \<lparr> cf_roomId = Some ''room'', cf_rateLimitPerMinute = None, cf_slowModeMs = None, cf_labels = [],
     cf_moderators = [], cf_maxMessages = 500, cf_number = (\<lambda>t. if t = ''9'' then Some 9 else None) \<rparr>"

definition sample_post :: post_request where
  "sample_post = \<lparr> pq_address = JStr ''0xa'', pq_text = JStr ''hi'', pq_signature = JStr ''sig'',
     pq_claim = Some (claimFor sample_chat_config None ''0xa'' ''hi'' ''9''), pq_roomId = None \<rparr>"

definition posted_state :: chat_service where
  "posted_state =
     (case begin_post sample_chat_config sample_post 10 new_chat of
        Inl e \<Rightarrow> new_service
      | Inr (ct, claim) \<Rightarrow>
          (case finish_post sample_chat_config ''0xa'' ''hi'' claim 10 True ct of
             (ct', Inl e) \<Rightarrow> new_service
           | (ct', Inr m) \<Rightarrow> \<lparr> cs_chat = ct', cs_flights = [], cs_accepted = [(claim, m)], cs_now = 10 \<rparr>))"

lemma posted_reachable: "chat_reachable sample_chat_config (\<lambda>_ _ _. True) posted_state"
proof (cases "begin_post sample_chat_config sample_post 10 new_chat")
  case (Inr b)
  obtain ct claim where b: "b = (ct, claim)" by (cases b)
  let ?s1 = "new_service\<lparr>cs_chat := ct, cs_now := 10,
    cs_flights := cs_flights new_service @ [PostFlight ''0xa'' ''hi'' claim (pq_signature sample_post) (pq_roomId sample_post) 10]\<rparr>"
  have "chat_step sample_chat_config (\<lambda>_ _ _. True) new_service ?s1"
    using Inr b by (intro post_begins) (simp_all add: new_service_def sample_post_def)
  from chat_next [OF chat_init this] have r1: "chat_reachable sample_chat_config (\<lambda>_ _ _. True) ?s1" .
  obtain ct' r where f: "finish_post sample_chat_config ''0xa'' ''hi'' claim 10 True ct = (ct', r)" by fastforce
  show ?thesis
  proof (cases r)
    case (Inl e)
    with Inr b f show ?thesis by (simp add: posted_state_def chat_init)
  next
    case (Inr m)
    have "chat_step sample_chat_config (\<lambda>_ _ _. True) ?s1 (?s1\<lparr>cs_chat := ct', cs_flights := [] @ [],
        cs_accepted := cs_accepted ?s1 @ (case r of Inr m \<Rightarrow> [(claim, m)] | Inl e \<Rightarrow> [])\<rparr>)"
      by (rule post_ends [where xs = "[]" and ys = "[]"]) (use f in \<open>simp_all add: new_service_def\<close>)
    from chat_next [OF r1 this] show ?thesis
      using \<open>begin_post sample_chat_config sample_post 10 new_chat = Inr b\<close> b f Inr by (simp add: posted_state_def new_service_def)
  qed
qed (simp add: posted_state_def chat_init)

theorem chat_claim_posts_once_witness:
  "map (mg_text \<circ> snd) (cs_accepted posted_state) = [''hi''] \<and> distinct (map fst (cs_accepted posted_state))
    \<and> (\<exists>m claim roomId. ct_messages (cs_chat posted_state) = [m] \<and> (claim, m) \<in> set (cs_accepted posted_state)
        \<and> binds sample_chat_config roomId (mg_author m) (mg_text m) claim)"
proof -
  have shown: "map (mg_text \<circ> snd) (cs_accepted posted_state) = [''hi'']" "length (ct_messages (cs_chat posted_state)) = 1"
    by code_simp+
  from shown(2) obtain m where m: "ct_messages (cs_chat posted_state) = [m]" by (auto simp: length_Suc_conv)
  with chat_claim_posts_once [OF posted_reachable] shown(1) show ?thesis by auto
qed

end
