(* ===== verification/ConditionRegistry.thy ===== *)
theory ConditionRegistry
  imports Publication
begin

section \<open>Loading the gate's conditions from the queue (gate/condition-registry.mjs)\<close>

text \<open>
  \<open>syncConditions\<close> fills the gate's condition map from the published rows of the queue: a
  document is registered only when it hashes to the binding the chain holds, every other open
  market gets a document no evaluator accepts. The chain port is a record; a call the code tests
  for with \<open>typeof\<close> is optional, a failed call is \<open>Inl\<close> of its message.
\<close>

definition unverifiableCondition :: "string \<Rightarrow> condition" where
  "unverifiableCondition reason =
     JObj [(''condition_version'', JStr ''1.0.0''), (''template'', JStr ''unverifiable''),
           (''params'', JObj [(''reason'', JStr reason)])]"

record 'c registry_port =
  gp_headlineMarket :: "('c \<Rightarrow> string + string option) option"
  gp_openSlots :: "'c \<Rightarrow> slot_ref list"
  gp_conditionHashOf :: "('c \<Rightarrow> string \<Rightarrow> string + string) option"

record sync_report =
  sy_loaded :: "string list"
  sy_unverified :: "(string \<times> string) list"
  sy_headlineMarket :: "string option"

definition headline_now :: "'c registry_port \<Rightarrow> 'c \<Rightarrow> string option" where
  "headline_now port c =
     (case gp_headlineMarket port of
        None \<Rightarrow> None
      | Some read \<Rightarrow> (case read c of Inr m \<Rightarrow> m | Inl _ \<Rightarrow> None))"

text \<open>The documents of the published rows, by lower-cased market; a later row replaces an earlier one.\<close>

definition documents_of :: "pub_queue \<Rightarrow> string \<Rightarrow> (string, condition) js_map" where
  "documents_of q room =
     foldl (\<lambda>docs r. case (truthy_text (pr_market r), pr_conditionDocument r) of
         (Some market, Some doc) \<Rightarrow> if falsy doc then docs else js_set (to_lower market) doc docs
       | _ \<Rightarrow> docs) [] (byStatus q room Published)"

text \<open>The binding the slot carries, or the one the chain answers; \<open>Inr None\<close> when neither is to be had.\<close>

definition binding_of :: "'c registry_port \<Rightarrow> 'c \<Rightarrow> slot_ref \<Rightarrow> string + string option" where
  "binding_of port c s =
     (case sr_conditionHash s of
        Some h \<Rightarrow> Inr (Some h)
      | None \<Rightarrow>
          (case gp_conditionHashOf port of
             None \<Rightarrow> Inr None
           | Some read \<Rightarrow> map_sum id Some (read c (sr_market s))))"

text \<open>The verdict on one open slot: a verified document, or why there is none.\<close>

definition check_slot :: "hash_fun \<Rightarrow> 'c registry_port \<Rightarrow> 'c \<Rightarrow> (string, condition) js_map \<Rightarrow> slot_ref
    \<Rightarrow> canon_error + (string + condition)" where
  "check_slot H port c docs s =
     (case js_get docs (to_lower (sr_market s)) of
        None \<Rightarrow> Inr (Inl (''no condition document recorded for '' @ sr_market s))
      | Some doc \<Rightarrow>
          (case binding_of port c s of
               Inl message \<Rightarrow> Inr (Inl (''cannot read the condition binding: '' @ message))
             | Inr onChain \<Rightarrow>
                 bind_res (conditionHash H doc) (\<lambda>computed.
                   case onChain of
                     Some h \<Rightarrow>
                       if computed \<noteq> h then
                         Inr (Inl (''condition hash mismatch: the record hashes to '' @ computed @ '', the chain holds '' @ h))
                       else Inr (Inr doc)
                   | None \<Rightarrow> Inr (Inr doc))))"

definition register_slot :: "hash_fun \<Rightarrow> 'c registry_port \<Rightarrow> 'c \<Rightarrow> (string, condition) js_map \<Rightarrow> slot_ref
    \<Rightarrow> (string, condition) js_map \<times> sync_report \<Rightarrow> canon_error + (string, condition) js_map \<times> sync_report" where
  "register_slot H port c docs s = (\<lambda>(conditions, report).
     bind_res (check_slot H port c docs s) (\<lambda>verdict.
       case verdict of
         Inl reason \<Rightarrow> Inr (js_set (sr_market s) (unverifiableCondition reason) conditions,
           report\<lparr>sy_unverified := sy_unverified report @ [(sr_market s, reason)]\<rparr>)
       | Inr doc \<Rightarrow> Inr (js_set (sr_market s) doc conditions,
           report\<lparr>sy_loaded := sy_loaded report @ [sr_market s]\<rparr>)))"

fun register_slots :: "hash_fun \<Rightarrow> 'c registry_port \<Rightarrow> 'c \<Rightarrow> (string, condition) js_map \<Rightarrow> slot_ref list
    \<Rightarrow> (string, condition) js_map \<times> sync_report \<Rightarrow> canon_error + (string, condition) js_map \<times> sync_report" where
  "register_slots H port c docs [] acc = Inr acc"
| "register_slots H port c docs (s # ss) acc =
     bind_res (register_slot H port c docs s acc) (register_slots H port c docs ss)"

definition syncConditions :: "hash_fun \<Rightarrow> 'c registry_port \<Rightarrow> pub_queue \<Rightarrow> string \<Rightarrow> 'c gate
    \<Rightarrow> canon_error + 'c gate \<times> sync_report" where
  "syncConditions H port q room g =
     (let headline = truthy_text (headline_now port (ga_chain g));
          g1 = (case headline of Some m \<Rightarrow> g\<lparr>ga_headlineMarket := Some m\<rparr> | None \<Rightarrow> g);
          report = \<lparr> sy_loaded = [], sy_unverified = [], sy_headlineMarket = headline_now port (ga_chain g) \<rparr>
      in map_sum id (\<lambda>(conditions, report). (g1\<lparr>ga_conditions := conditions\<rparr>, report))
           (register_slots H port (ga_chain g) (documents_of q room) (gp_openSlots port (ga_chain g)) (ga_conditions g, report)))"

definition fake_registry_port :: "fake_chain registry_port" where
  "fake_registry_port = \<lparr> gp_headlineMarket = Some (\<lambda>c. Inr (headlineMarket c)), gp_openSlots = openSlots,
     gp_conditionHashOf = Some (\<lambda>c m. map_sum (\<lambda>e. []) id (conditionHashOf c m)) \<rparr>"

subsection \<open>Nothing unverified is evaluated\<close>

lemma unverifiable_never_decides:
  "\<exists>err. evaluateCondition (unverifiableCondition reason) es opts = Unevaluable err"
  by (simp add: evaluateCondition_def Let_def evaluateWindow_def template_of_def json_get_def unverifiableCondition_def caught_def)

text \<open>What stands in the gate's map for a market: the document the chain is bound to, or one that never decides.\<close>

definition vouched :: "hash_fun \<Rightarrow> 'c registry_port \<Rightarrow> 'c \<Rightarrow> slot_ref \<Rightarrow> condition \<Rightarrow> bool" where
  "vouched H port c s doc \<longleftrightarrow>
     (\<exists>reason. doc = unverifiableCondition reason)
     \<or> (\<exists>h. conditionHash H doc = Inr h \<and> (binding_of port c s = Inr (Some h) \<or> binding_of port c s = Inr None))"

lemma register_slot_vouched:
  assumes "register_slot H port c docs s (conditions, report) = Inr (conditions', report')"
  shows "\<exists>doc. conditions' = js_set (sr_market s) doc conditions \<and> vouched H port c s doc"
proof -
  obtain verdict where v: "check_slot H port c docs s = Inr verdict"
    using assms by (cases "check_slot H port c docs s") (simp_all add: register_slot_def)
  show ?thesis
  proof (cases verdict)
    case (Inl reason)
    with v assms show ?thesis by (auto simp: register_slot_def vouched_def)
  next
    case (Inr doc)
    have "vouched H port c s doc"
      using v Inr by (auto simp: check_slot_def vouched_def result_simps split: option.splits sum.splits if_splits)
    with v Inr assms show ?thesis by (auto simp: register_slot_def)
  qed
qed

lemma register_slots_vouched:
  assumes "register_slots H port c docs ss (conditions, report) = Inr (conditions', report')" "distinct (map sr_market ss)"
  shows "\<forall>s \<in> set ss. \<exists>doc. js_get conditions' (sr_market s) = Some doc \<and> vouched H port c s doc"
    "\<And>m. m \<notin> sr_market ` set ss \<Longrightarrow> js_get conditions' m = js_get conditions m"
proof -
  have "(\<forall>s \<in> set ss. \<exists>doc. js_get conditions' (sr_market s) = Some doc \<and> vouched H port c s doc)
      \<and> (\<forall>m. m \<notin> sr_market ` set ss \<longrightarrow> js_get conditions' m = js_get conditions m)"
    using assms
  proof (induction ss arbitrary: conditions report)
    case (Cons s ss)
    obtain conditions1 report1 where step: "register_slot H port c docs s (conditions, report) = Inr (conditions1, report1)"
        "register_slots H port c docs ss (conditions1, report1) = Inr (conditions', report')"
      using Cons.prems(1) by (auto simp: result_simps)
    obtain doc where doc: "conditions1 = js_set (sr_market s) doc conditions" "vouched H port c s doc"
      using register_slot_vouched [OF step(1)] by blast
    have "sr_market s \<notin> sr_market ` set ss" using Cons.prems(2) by auto
    with Cons.IH [OF step(2)] Cons.prems(2) doc show ?case by (auto simp: port_simps)
  qed simp
  then show "\<forall>s \<in> set ss. \<exists>doc. js_get conditions' (sr_market s) = Some doc \<and> vouched H port c s doc"
    "\<And>m. m \<notin> sr_market ` set ss \<Longrightarrow> js_get conditions' m = js_get conditions m"
    by auto
qed

end
