(* ===== verification/Coordinator.thy ===== *)
theory Coordinator
  imports Conditions Indexer
begin

section \<open>The live room coordinator (coordinator/coordinator.mjs)\<close>

text \<open>
  What viewers are shown: a snapshot derived from the projections and the last observed log tip
  and chain head, and a sequence of frames for what changed. The coordinator writes nothing to
  the chain. \<open>co_sent\<close> is what went to the fan-out sink, oldest first; the clock text of a
  frame is left out.
\<close>

definition PRESENTATION_ONLY_TYPES :: "string list" where
  "PRESENTATION_ONLY_TYPES = [''hello'', ''heartbeat'', ''resync'', ''error'', ''stream.health_changed'',
     ''viewers.updated'', ''chat.message'', ''chat.deleted'', ''chat.pinned'']"

subsection \<open>Snapshots\<close>

record slot_view =
  sl_slot_index :: json
  sl_state :: json
  sl_shape :: json
  sl_question :: json
  sl_market :: json
  sl_stream_url :: json
  sl_condition_hash :: json
  sl_winner_reward_bps :: json
  sl_opens_at :: json
  sl_published_seq :: "string option"
  sl_closed_seq :: "string option"
  sl_price :: "(string \<times> json) option"
  sl_liquidity :: "(string \<times> json) option"
  sl_pressure :: "pressure option"

record health =
  hl_stream :: string
  hl_source :: string
  hl_indexer :: string

text \<open>An age is \<open>None\<close> without a tip, \<open>Some None\<close> when the tip's time does not parse.\<close>

record snapshot =
  sn_seq :: nat
  sn_state :: json
  sn_block :: nat
  sn_slots :: "slot_view list"
  sn_focus :: "json option"
  sn_open_count :: nat
  sn_max_open :: json
  sn_last_seq :: int
  sn_observed_at :: "string option"
  sn_age :: "int option option"
  sn_fresh :: bool
  sn_stream :: string
  sn_viewers :: "int option"
  sn_health :: health

datatype payload =
    RoomState json
  | Freshness bool "int option option"
  | SlotShown slot_view
  | SlotState json json
  | SlotPrice json "(string \<times> json) option"
  | SlotLiquidity json "(string \<times> json) option"
  | Focus "json option"
  | StreamHealth string
  | Viewers "int option"
  | Heartbeat nat int "int option option" health
  | OtherPayload json

record frame =
  fr_seq :: nat
  fr_type :: string
  fr_source_seq :: "int option"
  fr_chain :: "nat option"
  fr_presentation_only :: bool
  fr_payload :: payload

record coordinator_config =
  cc_freshnessThresholdMs :: int
  cc_retention :: "nat option"
  cc_maxOpenSlots :: json
  cc_chainHeadMaxAgeMs :: "int option"

record coordinator =
  co_roomSeq :: nat
  co_frames :: "frame list"
  co_lastSnapshot :: "snapshot option"
  co_streamHealth :: string
  co_viewers :: "int option"
  co_focus :: "json option"
  co_pending :: "string list"
  co_chainHead :: "int option"
  co_chainHeadAt :: int
  co_tip :: "event option"
  co_sent :: "frame list"

definition new_coordinator :: coordinator where
  "new_coordinator = \<lparr> co_roomSeq = 0, co_frames = [], co_lastSnapshot = None, co_streamHealth = ''unknown'',
     co_viewers = None, co_focus = None, co_pending = [], co_chainHead = None, co_chainHeadAt = 0, co_tip = None,
     co_sent = [] \<rparr>"

definition observeEventLogTip :: "event option \<Rightarrow> coordinator \<Rightarrow> coordinator" where
  "observeEventLogTip tip co = co\<lparr>co_tip := tip\<rparr>"

text \<open>A head that is not a finite number is \<open>None\<close>.\<close>

definition observeChainHead :: "int option \<Rightarrow> int \<Rightarrow> coordinator \<Rightarrow> coordinator" where
  "observeChainHead block atMs co =
     (case block of None \<Rightarrow> co | Some head \<Rightarrow> co\<lparr>co_chainHead := Some head, co_chainHeadAt := atMs\<rparr>)"

subsection \<open>Publishing\<close>

datatype publish_error = NoProvenance string

definition publish_frame ::
  "coordinator_config \<Rightarrow> string \<Rightarrow> payload \<Rightarrow> nat option \<Rightarrow> int option \<Rightarrow> coordinator \<Rightarrow> publish_error + coordinator" where
  "publish_frame cfg type body chain sourceSeq co =
     (let presentationOnly = type \<in> set PRESENTATION_ONLY_TYPES in
      if \<not> presentationOnly \<and> chain = None \<and> sourceSeq = None then Inl (NoProvenance type)
      else (let frame = \<lparr> fr_seq = co_roomSeq co + 1, fr_type = type, fr_source_seq = sourceSeq, fr_chain = chain,
                  fr_presentation_only = (presentationOnly \<and> chain = None \<and> sourceSeq = None), fr_payload = body \<rparr>;
                all_frames = co_frames co @ [frame];
                retention = (case cc_retention cfg of Some n \<Rightarrow> n | None \<Rightarrow> 600)
            in Inr (co\<lparr>co_roomSeq := co_roomSeq co + 1,
                 co_frames := (if retention < length all_frames then drop (length all_frames - retention) all_frames else all_frames),
                 co_sent := co_sent co @ [frame]\<rparr>)))"

subsection \<open>Deriving the snapshot\<close>

definition string_or_none :: "json \<Rightarrow> string option" where
  "string_or_none v = (if v = JUndefined then None else if v = JNull then Some [] else Some (json_text v))"

definition slot_view_of :: "projection \<Rightarrow> row \<Rightarrow> slot_view" where
  "slot_view_of p slot =
     (let address = row_get slot ''market_address'';
          has_market = (\<not> falsy address);
          market = (if has_market then getMarket p (json_text address) else None);
          m = row_of market;
          price = row_get m ''implied_prob_a'';
          shares = row_get m ''total_lp_shares''
      in \<lparr> sl_slot_index = row_get slot ''slot_index'', sl_state = row_get slot ''state'', sl_shape = row_get slot ''shape'',
           sl_question = row_get slot ''question'', sl_market = address,
           sl_stream_url = coalesce (row_get m ''stream_url'') JNull,
           sl_condition_hash = row_get slot ''condition_hash'',
           sl_winner_reward_bps = coalesce (row_get m ''winner_reward_bps'') (coalesce (row_get slot ''winner_reward_bps'') JNull),
           sl_opens_at = row_get slot ''opens_at'',
           sl_published_seq = string_or_none (row_get slot ''published_seq''),
           sl_closed_seq = (let c = row_get slot ''closed_seq'' in if nullish c then None else Some (json_text c)),
           sl_price = (if \<not> nullish price \<and> 0 < num_of (coalesce shares (JBig 0))
             then Some (json_text price, row_get m ''block_number'') else None),
           sl_liquidity = (if \<not> nullish shares then Some (json_text shares, row_get m ''block_number'') else None),
           sl_pressure = (if has_market then Some (pendingPressure p (json_text address)) else None) \<rparr>)"

definition tradable :: "slot_view \<Rightarrow> bool" where
  "tradable s \<longleftrightarrow> sl_state s = JStr ''open'' \<or> sl_state s = JStr ''awaiting-liquidity''"

definition within :: "int option option \<Rightarrow> int \<Rightarrow> bool" where
  "within age limit = (case age of Some (Some a) \<Rightarrow> a \<le> limit | _ \<Rightarrow> False)"

definition indexerHealth :: "coordinator_config \<Rightarrow> projection \<Rightarrow> coordinator \<Rightarrow> int \<Rightarrow> string" where
  "indexerHealth cfg p co nowMs =
     (case co_chainHead co of
        None \<Rightarrow> ''unknown''
      | Some head \<Rightarrow>
          if (case cc_chainHeadMaxAgeMs cfg of Some n \<Rightarrow> n | None \<Rightarrow> 60000) < nowMs - co_chainHeadAt co then ''unknown''
          else if snd (staleness p head 3) then ''delayed'' else ''current'')"

definition health_of :: "coordinator_config \<Rightarrow> projection \<Rightarrow> coordinator \<Rightarrow> int \<Rightarrow> health" where
  "health_of cfg p co nowMs =
     (let age = freshnessAgeMs (co_tip co) nowMs in
      \<lparr> hl_stream = co_streamHealth co,
        hl_source = (if age = None then ''unknown'' else if within age (cc_freshnessThresholdMs cfg) then ''fresh'' else ''stale''),
        hl_indexer = indexerHealth cfg p co nowMs \<rparr>)"

definition snapshot_of :: "coordinator_config \<Rightarrow> string \<Rightarrow> projection \<Rightarrow> coordinator \<Rightarrow> int \<Rightarrow> snapshot" where
  "snapshot_of cfg roomId p co nowMs =
     (let room = row_of (getRoom p roomId);
          slots = map (slot_view_of p) (listSlots p roomId);
          age = freshnessAgeMs (co_tip co) nowMs
      in \<lparr> sn_seq = co_roomSeq co, sn_state = coalesce (row_get room ''state'') (JStr ''draft''), sn_block = pj_cursor p,
           sn_slots = slots, sn_focus = co_focus co, sn_open_count = length (filter tradable slots),
           sn_max_open = coalesce (row_get room ''max_open_slots'') (coalesce (cc_maxOpenSlots cfg) JNull),
           sn_last_seq = (case co_tip co of Some t \<Rightarrow> ev_seq t | None \<Rightarrow> 0),
           sn_observed_at = map_option ev_observed_at (co_tip co),
           sn_age = age, sn_fresh = within age (cc_freshnessThresholdMs cfg),
           sn_stream = co_streamHealth co, sn_viewers = co_viewers co, sn_health = health_of cfg p co nowMs \<rparr>)"

subsection \<open>Reading on\<close>

datatype delivery = Resync snapshot | Deliver "frame list"

definition framesSince :: "coordinator_config \<Rightarrow> string \<Rightarrow> projection \<Rightarrow> int option \<Rightarrow> int \<Rightarrow> coordinator \<Rightarrow> delivery" where
  "framesSince cfg roomId p sinceSeq nowMs co =
     (case sinceSeq of
        None \<Rightarrow> Resync (snapshot_of cfg roomId p co nowMs)
      | Some since \<Rightarrow>
          (let floor = (case co_frames co of f # fs \<Rightarrow> int (fr_seq f) - 1 | [] \<Rightarrow> int (co_roomSeq co)) in
           if since < floor then Resync (snapshot_of cfg roomId p co nowMs)
           else Deliver (filter (\<lambda>f. since < int (fr_seq f)) (co_frames co))))"

subsection \<open>The tick\<close>

type_synonym publishing = "coordinator \<Rightarrow> publish_error + coordinator"

definition then_publish :: "publishing \<Rightarrow> publishing \<Rightarrow> publishing" where
  "then_publish f g co = bind_res (f co) g"

definition publish_when :: "bool \<Rightarrow> publishing \<Rightarrow> publishing" where
  "publish_when b f co = (if b then f co else Inr co)"

fun publish_each :: "('a \<Rightarrow> publishing) \<Rightarrow> 'a list \<Rightarrow> publishing" where
  "publish_each f [] co = Inr co"
| "publish_each f (x # xs) co = bind_res (f x co) (publish_each f xs)"

definition slotEventFor :: "json \<Rightarrow> string" where
  "slotEventFor state =
     (if state = JStr ''open'' then ''slot.opened'' else if state = JStr ''suspended'' then ''slot.gate_changed''
      else if state = JStr ''closed'' then ''slot.closed'' else if state = JStr ''provisional'' then ''slot.provisional''
      else if state = JStr ''challenged'' then ''slot.challenged'' else if state = JStr ''final'' then ''slot.final''
      else if state = JStr ''invalid'' then ''slot.invalid'' else ''slot.gate_changed'')"

definition slot_deltas :: "coordinator_config \<Rightarrow> nat \<Rightarrow> (json, slot_view) js_map \<Rightarrow> slot_view \<Rightarrow> publishing" where
  "slot_deltas cfg block previousSlots slot =
     (case js_get previousSlots (sl_slot_index slot) of
        None \<Rightarrow> publish_frame cfg ''slot.published'' (SlotShown slot) (Some block) None
      | Some before \<Rightarrow>
          then_publish
            (publish_when (sl_state before \<noteq> sl_state slot)
              (publish_frame cfg (slotEventFor (sl_state slot)) (SlotState (sl_slot_index slot) (sl_state slot)) (Some block) None))
            (then_publish
              (publish_when (map_option fst (sl_price before) \<noteq> map_option fst (sl_price slot))
                (publish_frame cfg ''slot.price_changed'' (SlotPrice (sl_slot_index slot) (sl_price slot)) (Some block) None))
              (publish_when (map_option fst (sl_liquidity before) \<noteq> map_option fst (sl_liquidity slot))
                (publish_frame cfg ''slot.liquidity_changed'' (SlotLiquidity (sl_slot_index slot) (sl_liquidity slot))
                  (Some block) None))))"

definition next_focus :: "slot_view list \<Rightarrow> json option" where
  "next_focus slots =
     (let trading = filter tradable slots;
          micro = filter (\<lambda>s. 0 < num_of (sl_slot_index s)) trading
      in if micro \<noteq> [] then Some (sl_slot_index (last micro))
         else if trading \<noteq> [] then Some (sl_slot_index (hd trading)) else None)"

definition advanceFocus :: "coordinator_config \<Rightarrow> nat \<Rightarrow> snapshot \<Rightarrow> publishing" where
  "advanceFocus cfg block snap co =
     (let focus = next_focus (sn_slots snap) in
      if focus \<noteq> co_focus co
      then publish_frame cfg ''room.focus_changed'' (Focus focus) (Some block) None (co\<lparr>co_focus := focus\<rparr>)
      else Inr co)"

definition coordinator_tick :: "coordinator_config \<Rightarrow> string \<Rightarrow> projection \<Rightarrow> int \<Rightarrow> publishing" where
  "coordinator_tick cfg roomId p nowMs co =
     (let snap = snapshot_of cfg roomId p co nowMs;
          block = pj_cursor p;
          co1 = co\<lparr>co_lastSnapshot := Some snap\<rparr>
      in case co_lastSnapshot co of
           None \<Rightarrow> then_publish (publish_frame cfg ''room.state_changed'' (RoomState (sn_state snap)) (Some block) None)
             (advanceFocus cfg block snap) co1
         | Some previous \<Rightarrow>
             then_publish (publish_when (sn_state previous \<noteq> sn_state snap)
                 (publish_frame cfg ''room.state_changed'' (RoomState (sn_state snap)) (Some block) None))
               (then_publish (publish_when (sn_last_seq previous \<noteq> sn_last_seq snap \<or> sn_fresh previous \<noteq> sn_fresh snap)
                   (publish_frame cfg ''source.freshness_changed'' (Freshness (sn_fresh snap) (sn_age snap)) None
                     (Some (sn_last_seq snap))))
                 (then_publish (publish_each (slot_deltas cfg block
                     (foldl (\<lambda>m s. js_set (sl_slot_index s) s m) [] (sn_slots previous))) (sn_slots snap))
                   (advanceFocus cfg block snap))) co1)"

subsection \<open>Presentation channels\<close>

definition setStreamHealth :: "coordinator_config \<Rightarrow> string \<Rightarrow> publishing" where
  "setStreamHealth cfg h co =
     (if h = co_streamHealth co then Inr co
      else publish_frame cfg ''stream.health_changed'' (StreamHealth h) None None (co\<lparr>co_streamHealth := h\<rparr>))"

definition setViewers :: "coordinator_config \<Rightarrow> int option \<Rightarrow> publishing" where
  "setViewers cfg n co = publish_frame cfg ''viewers.updated'' (Viewers n) None None (co\<lparr>co_viewers := n\<rparr>)"

definition coordinator_heartbeat :: "coordinator_config \<Rightarrow> string \<Rightarrow> projection \<Rightarrow> int \<Rightarrow> publishing" where
  "coordinator_heartbeat cfg roomId p nowMs co =
     (let snap = snapshot_of cfg roomId p co nowMs in
      publish_frame cfg ''heartbeat'' (Heartbeat (co_roomSeq co) (sn_last_seq snap) (sn_age snap) (sn_health snap)) None None co)"

subsection \<open>Asking for a slot\<close>

text \<open>
  \<open>maybeRequestSlot\<close> awaits the publisher: the guards and the mark up to the call, then the release
  when the call settles, whatever it answered.
\<close>

definition begin_request :: "coordinator_config \<Rightarrow> string \<Rightarrow> projection \<Rightarrow> bool \<Rightarrow> string \<Rightarrow> int \<Rightarrow> coordinator \<Rightarrow> string + coordinator" where
  "begin_request cfg roomId p hasPublisher key nowMs co =
     (if \<not> hasPublisher then Inl ''no publisher configured''
      else (let snap = snapshot_of cfg roomId p co nowMs in
        if sn_state snap \<noteq> JStr ''live'' \<and> sn_state snap \<noteq> JStr ''armed'' then Inl (''room '' @ json_text (sn_state snap))
        else if \<not> nullish (sn_max_open snap) \<and> num_of (sn_max_open snap) \<le> int (sn_open_count snap) then Inl ''concurrency cap''
        else (case find (\<lambda>s. sl_slot_index s = JNum 0) (sn_slots snap) of
            None \<Rightarrow> Inl ''headline unbacked''
          | Some headline \<Rightarrow>
              if sl_state headline = JStr ''awaiting-liquidity'' then Inl ''headline unbacked''
              else if \<not> sn_fresh snap then Inl ''source stale''
              else if key \<in> set (co_pending co) then Inl ''already requested''
              else Inr (co\<lparr>co_pending := set_add key (co_pending co)\<rparr>))))"

definition end_request :: "string \<Rightarrow> coordinator \<Rightarrow> coordinator" where
  "end_request key co = co\<lparr>co_pending := removeAll key (co_pending co)\<rparr>"

end
