(* ===== verification/Discovery.thy ===== *)
theory Discovery
  imports AccountProperties
begin

section \<open>Discovery (discovery/leaderboard.mjs, discovery/schedule.mjs, discovery/activity.mjs)\<close>

text \<open>
  The public read models over the projections: rankings by credited amount, rooms grouped by their
  state, settled questions, credits and the stages of a market. Fixed sentences are left out; a flag
  says whether an empty answer explains itself. The rankings are related to the logs of the chain.
\<close>

subsection \<open>Leaderboard\<close>

record board_account =
  ba_account :: string
  ba_credited :: int
  ba_claims :: nat
  ba_trades :: nat
  ba_markets :: "string list"

definition new_account :: "string \<Rightarrow> board_account" where
  "new_account key = \<lparr> ba_account = key, ba_credited = 0, ba_claims = 0, ba_trades = 0, ba_markets = [] \<rparr>"

text \<open>\<open>touch\<close> answers the account's entry, a new one where there is none; the entry is changed in place.\<close>

definition touch_account :: "string \<Rightarrow> (board_account \<Rightarrow> board_account) \<Rightarrow> (string, board_account) js_map \<Rightarrow> (string, board_account) js_map" where
  "touch_account account f m =
     (let key = to_lower account in
      js_set key (f (case js_get m key of Some e \<Rightarrow> e | None \<Rightarrow> new_account key)) m)"

definition count_claim :: "claim_row \<Rightarrow> (string, board_account) js_map \<Rightarrow> (string, board_account) js_map" where
  "count_claim c = touch_account (cl_account c) (\<lambda>e. e\<lparr>ba_credited := ba_credited e + cl_amount c, ba_claims := ba_claims e + 1,
     ba_markets := set_add (to_lower (cl_market c)) (ba_markets e)\<rparr>)"

definition count_trade :: "trade_row \<Rightarrow> (string, board_account) js_map \<Rightarrow> (string, board_account) js_map" where
  "count_trade t = touch_account (tr_account t) (\<lambda>e. e\<lparr>ba_trades := ba_trades e + 1,
     ba_markets := set_add (to_lower (tr_market t)) (ba_markets e)\<rparr>)"

definition board_accounts :: "projection \<Rightarrow> (string, board_account) js_map" where
  "board_accounts p = foldl (\<lambda>m t. count_trade t m) (foldl (\<lambda>m c. count_claim c m) [] (listClaims p None)) (listTrades p None 0)"

definition settledCount :: "projection \<Rightarrow> string list \<Rightarrow> nat" where
  "settledCount p markets = length (filter (\<lambda>m. outcome_of (row_of (getMarket p m)) \<noteq> 0) markets)"

record ranking =
  rk_rank :: nat
  rk_account :: string
  rk_credited :: string
  rk_claims :: nat
  rk_trades :: nat
  rk_settled :: nat
  rk_route :: string

definition top_accounts :: "projection \<Rightarrow> nat \<Rightarrow> board_account list" where
  "top_accounts p limit = take limit (sort_key (\<lambda>e. - ba_credited e) (filter (\<lambda>e. 0 < ba_claims e) (map snd (board_accounts p))))"

definition leaderboard_top :: "projection \<Rightarrow> nat \<Rightarrow> ranking list" where
  "leaderboard_top p limit = map (\<lambda>(i, e). \<lparr> rk_rank = i + 1, rk_account = ba_account e, rk_credited = int_string (ba_credited e),
     rk_claims = ba_claims e, rk_trades = ba_trades e, rk_settled = settledCount p (ba_markets e),
     rk_route = ''/profile/'' @ ba_account e \<rparr>) (enumerate 0 (top_accounts p limit))"

record profile =
  pr_account :: string
  pr_credited :: string
  pr_claims :: nat
  pr_trades :: nat
  pr_settled :: nat

definition profile_of :: "projection \<Rightarrow> string \<Rightarrow> profile" where
  "profile_of p account =
     (let key = to_lower account in
      case js_get (board_accounts p) key of
        None \<Rightarrow> \<lparr> pr_account = key, pr_credited = ''0'', pr_claims = 0, pr_trades = 0, pr_settled = 0 \<rparr>
      | Some e \<Rightarrow> \<lparr> pr_account = key, pr_credited = int_string (ba_credited e), pr_claims = ba_claims e,
          pr_trades = ba_trades e, pr_settled = settledCount p (ba_markets e) \<rparr>)"

subsection \<open>Schedule\<close>

definition LIVE :: "string list" where "LIVE = [''live'']"
definition UPCOMING :: "string list" where "UPCOMING = [''draft'', ''armed'']"
definition RECENT :: "string list" where "RECENT = [''closing'', ''settling'', ''final'', ''invalid'']"

definition in_states :: "string list \<Rightarrow> json \<Rightarrow> bool" where
  "in_states states v = list_ex (\<lambda>s. v = JStr s) states"

record room_entry =
  re_room_id :: json
  re_state :: json
  re_route :: string
  re_headline_question :: json
  re_slots :: nat
  re_open_slots :: nat
  re_settled_slots :: nat
  re_closed_source_seq :: "string option"
  re_block_number :: json

definition nullable_text :: "json \<Rightarrow> string option" where
  "nullable_text v = (if nullish v then None else Some (json_text v))"

definition room_entry_of :: "projection \<Rightarrow> row \<Rightarrow> room_entry" where
  "room_entry_of p room =
     (let slots = listSlots p (row_text room ''room_id'');
          headline = find (\<lambda>s. row_get s ''slot_index'' = JNum 0) slots
      in \<lparr> re_room_id = row_get room ''room_id'', re_state = row_get room ''state'',
           re_route = ''/room/'' @ row_text room ''room_id'',
           re_headline_question = (case headline of Some s \<Rightarrow> coalesce (row_get s ''question'') JNull | None \<Rightarrow> JNull),
           re_slots = length slots,
           re_open_slots = length (filter (\<lambda>s. in_states [''open'', ''awaiting-liquidity''] (row_get s ''state'')) slots),
           re_settled_slots = length (filter (\<lambda>s. in_states [''final'', ''invalid''] (row_get s ''state'')) slots),
           re_closed_source_seq = nullable_text (row_get room ''closed_source_seq''),
           re_block_number = coalesce (row_get room ''block_number'') JNull \<rparr>)"

text \<open>The rooms a process serves: all of them where none is configured.\<close>

definition configured_rooms :: "string option \<Rightarrow> string list option \<Rightarrow> string list option" where
  "configured_rooms roomId roomIds = (case roomIds of Some ids \<Rightarrow> Some ids
     | None \<Rightarrow> map_option (\<lambda>r. [r]) (truthy_text roomId))"

definition servable :: "string list option \<Rightarrow> projection \<Rightarrow> row list" where
  "servable configured p = (case configured of None \<Rightarrow> listRooms p None
     | Some ids \<Rightarrow> filter (\<lambda>room. in_states ids (row_get room ''room_id'')) (listRooms p None))"

record schedule_view =
  sd_live :: "room_entry list"
  sd_upcoming :: "room_entry list"
  sd_recent :: "room_entry list"
  sd_empty :: bool

definition block_rank :: "json \<Rightarrow> int" where
  "block_rank v = - num_of (coalesce v (JNum 0))"

definition schedule :: "string list option \<Rightarrow> projection \<Rightarrow> schedule_view" where
  "schedule configured p =
     (let rooms = servable configured p;
          group = (\<lambda>states. map (room_entry_of p) (filter (\<lambda>room. in_states states (row_get room ''state'')) rooms))
      in if rooms = [] then \<lparr> sd_live = [], sd_upcoming = [], sd_recent = [], sd_empty = True \<rparr>
         else \<lparr> sd_live = group LIVE, sd_upcoming = group UPCOMING,
                sd_recent = sort_key (\<lambda>e. block_rank (re_block_number e)) (group RECENT), sd_empty = False \<rparr>)"

subsection \<open>Market activity\<close>

definition SETTLED :: "string list" where "SETTLED = [''final'', ''invalid'']"

definition activity_payout :: "int \<Rightarrow> (string \<times> string) option" where
  "activity_payout outcome =
     (if outcome = 1 then Some (''1'', ''0'') else if outcome = 2 then Some (''0'', ''1'')
      else if outcome = 3 \<or> outcome = 4 then Some (''0.5'', ''0.5'') else None)"

definition settledSlots :: "projection \<Rightarrow> (row \<times> row) list" where
  "settledSlots p = sort_key (\<lambda>(room, slot). block_rank (row_get slot ''block_number''))
     (concat (map (\<lambda>room. map (Pair room) (filter (\<lambda>slot. in_states SETTLED (row_get slot ''state''))
        (listSlots p (row_text room ''room_id'')))) (listRooms p None)))"

record resolution_item =
  ri_room_id :: json
  ri_slot_index :: json
  ri_market :: json
  ri_question :: json
  ri_state :: json
  ri_outcome :: int
  ri_outcome_label :: string
  ri_participants :: "json \<times> json"
  ri_winner_name :: json
  ri_payout_vector :: "(string \<times> string) option"
  ri_winner_reward_bps :: json
  ri_closed_seq :: "string option"
  ri_condition_hash :: json
  ri_block_number :: json
  ri_route :: string

definition truthy_or_null :: "json \<Rightarrow> json" where
  "truthy_or_null v = (if falsy v then JNull else v)"

definition resolution_item_of :: "projection \<Rightarrow> row \<times> row \<Rightarrow> resolution_item" where
  "resolution_item_of p = (\<lambda>(room, slot).
     (let market = row_of (getMarket p (row_text slot ''market_address''));
          outcome = outcome_of market;
          a = truthy_or_null (row_get market ''participant_a_name'');
          b = truthy_or_null (row_get market ''participant_b_name'')
      in \<lparr> ri_room_id = row_get room ''room_id'', ri_slot_index = row_get slot ''slot_index'',
           ri_market = row_get slot ''market_address'', ri_question = row_get slot ''question'',
           ri_state = row_get slot ''state'', ri_outcome = outcome,
           ri_outcome_label = (case OUTCOME_LABEL outcome of Some s \<Rightarrow> s | None \<Rightarrow> ''unknown''),
           ri_participants = (a, b),
           ri_winner_name = (if outcome = 1 then a else if outcome = 2 then b else JNull),
           ri_payout_vector = activity_payout outcome,
           ri_winner_reward_bps = coalesce (row_get market ''winner_reward_bps'')
             (coalesce (row_get slot ''winner_reward_bps'') JNull),
           ri_closed_seq = nullable_text (row_get slot ''closed_seq''),
           ri_condition_hash = coalesce (row_get slot ''condition_hash'') JNull,
           ri_block_number = coalesce (row_get slot ''block_number'') JNull,
           ri_route = activity_route (row_text slot ''market_address'') \<rparr>))"

definition recentResolutions :: "projection \<Rightarrow> nat \<Rightarrow> resolution_item list" where
  "recentResolutions p limit = map (resolution_item_of p) (take limit (settledSlots p))"

text \<open>A credit is shown as its claim row, with a route.\<close>

definition recentCredits :: "projection \<Rightarrow> nat \<Rightarrow> (claim_row \<times> string) list" where
  "recentCredits p limit = map (\<lambda>c. (c, activity_route (cl_market c)))
     (take limit (sort_key (\<lambda>c. - int (cl_block c)) (listClaims p None)))"

record stage =
  sg_stage :: string
  sg_reached :: bool
  sg_at :: "string option"

definition timeline :: "projection \<Rightarrow> string \<Rightarrow> stage list" where
  "timeline p market =
     (let slot = slotByMarket p market; s = row_of slot; r = row_of (getMarket p market);
          claims = filter (\<lambda>c. to_lower (cl_market c) = to_lower market) (listClaims p None);
          finalized = row_get r ''finalized_block_number''
      in [\<lparr> sg_stage = ''opened'', sg_reached = (\<not> falsy (row_get s ''opens_at'')),
            sg_at = (if row_get s ''opens_at'' = JUndefined then None
                     else Some (json_text (coalesce (row_get s ''opens_at'') (JStr [])))) \<rparr>,
          \<lparr> sg_stage = ''closed'', sg_reached = (slot \<noteq> None \<and>
              in_states [''closed'', ''provisional'', ''challenged'', ''final'', ''invalid''] (row_get s ''state'')),
            sg_at = map_option (\<lambda>t. ''source sequence '' @ t) (nullable_text (row_get s ''closed_seq'')) \<rparr>,
          \<lparr> sg_stage = ''final'', sg_reached = (outcome_of r \<noteq> 0),
            sg_at = (if falsy finalized then None else Some (''block '' @ json_text finalized)) \<rparr>,
          \<lparr> sg_stage = ''credited'', sg_reached = (claims \<noteq> []),
            sg_at = (if claims = [] then None else Some (''block '' @ dec_string (Max (set (map cl_block claims))))) \<rparr>])"

subsection \<open>The leaderboard against the chain\<close>

definition of_account :: "string \<Rightarrow> claim_row list \<Rightarrow> claim_row list" where
  "of_account k cs = filter (\<lambda>c. to_lower (cl_account c) = k) cs"

fun entry_ok :: "claim_row list \<Rightarrow> string \<Rightarrow> board_account option \<Rightarrow> bool" where
  "entry_ok cs k None \<longleftrightarrow> of_account k cs = []"
| "entry_ok cs k (Some e) \<longleftrightarrow> ba_account e = k \<and> ba_credited e = (\<Sum>c \<leftarrow> of_account k cs. cl_amount c)
     \<and> ba_claims e = length (of_account k cs)"

definition board_ok :: "claim_row list \<Rightarrow> (string, board_account) js_map \<Rightarrow> bool" where
  "board_ok cs m \<longleftrightarrow> distinct (map fst m) \<and> (\<forall>k. entry_ok cs k (js_get m k))"

lemma touch_account_get: "js_get (touch_account a f m) k =
    (if k = to_lower a then Some (f (case js_get m k of Some e \<Rightarrow> e | None \<Rightarrow> new_account k)) else js_get m k)"
  by (auto simp: touch_account_def Let_def port_simps)

lemma touch_account_distinct: "distinct (map fst m) \<Longrightarrow> distinct (map fst (touch_account a f m))"
  by (simp add: touch_account_def Let_def distinct_update)

lemma board_ok_claim:
  assumes "board_ok cs m"
  shows "board_ok (cs @ [c]) (count_claim c m)"
proof -
  have "entry_ok (cs @ [c]) k (js_get (count_claim c m) k)" if "entry_ok cs k (js_get m k)" for k
    using that by (cases "js_get m k") (auto simp: count_claim_def touch_account_get new_account_def of_account_def)
  with assms show ?thesis by (simp add: board_ok_def count_claim_def touch_account_distinct)
qed

lemma board_ok_trade:
  assumes "board_ok cs m"
  shows "board_ok cs (count_trade t m)"
proof -
  have "entry_ok cs k (js_get (count_trade t m) k)" if "entry_ok cs k (js_get m k)" for k
    using that by (cases "js_get m k") (auto simp: count_trade_def touch_account_get new_account_def)
  with assms show ?thesis by (simp add: board_ok_def count_trade_def touch_account_distinct)
qed

lemma board_accounts_ok: "board_ok (pj_claims p) (board_accounts p)"
proof -
  have "board_ok cs (foldl (\<lambda>m c. count_claim c m) [] cs)" for cs
    by (induction cs rule: rev_induct) (simp_all add: board_ok_claim, simp add: board_ok_def of_account_def)
  moreover have "board_ok cs m \<Longrightarrow> board_ok cs (foldl (\<lambda>m t. count_trade t m) m ts)" for cs m ts
    by (induction ts arbitrary: m) (simp_all add: board_ok_trade)
  ultimately show ?thesis by (simp add: board_accounts_def listClaims_def of_market_def truthy_text_def)
qed

lemma board_entry:
  assumes "(k, e) \<in> set (board_accounts p)"
  shows "js_get (board_accounts p) k = Some e" "entry_ok (pj_claims p) k (Some e)"
proof -
  from board_accounts_ok [of p] have ok: "distinct (map fst (board_accounts p))"
      "entry_ok (pj_claims p) k (js_get (board_accounts p) k)" by (auto simp: board_ok_def)
  then show "js_get (board_accounts p) k = Some e" using assms by simp
  with ok(2) show "entry_ok (pj_claims p) k (Some e)" by metis
qed

lemma listed_account:
  assumes "e \<in> set (map snd (board_accounts p))"
  shows "entry_ok (pj_claims p) (ba_account e) (Some e)" "js_get (board_accounts p) (ba_account e) = Some e"
proof -
  from assms obtain k where k: "(k, e) \<in> set (board_accounts p)" by auto
  from board_entry(2) [OF k] have "ba_account e = k" by simp
  with board_entry [OF k] show "entry_ok (pj_claims p) (ba_account e) (Some e)"
    "js_get (board_accounts p) (ba_account e) = Some e" by (simp_all only:)
qed

lemma board_distinct: "distinct (map ba_account (map snd (board_accounts p)))"
proof -
  have "ba_account (snd x) = fst x" if "x \<in> set (board_accounts p)" for x
    using board_entry(2) [of "fst x" "snd x" p] that by simp
  then have "map ba_account (map snd (board_accounts p)) = map fst (board_accounts p)" by simp
  with board_accounts_ok [of p] show ?thesis by (simp add: board_ok_def del: map_map)
qed

lemma ranked_order:
  "sorted_wrt (\<lambda>e e'. ba_credited e' \<le> ba_credited e) (sort_key (\<lambda>e. - ba_credited e) es)"
proof -
  have "sorted (map (\<lambda>e. - ba_credited e) (sort_key (\<lambda>e. - ba_credited e) es))" by simp
  then show ?thesis unfolding sorted_map by simp
qed

text \<open>An account with a claim is among the entries or below all of them.\<close>

lemma top_accounts_complete:
  assumes "e \<in> set (map snd (board_accounts p))" "0 < ba_claims e" "e \<notin> set (top_accounts p limit)"
  shows "length (top_accounts p limit) = limit \<and> (\<forall>e' \<in> set (top_accounts p limit). ba_credited e \<le> ba_credited e')"
proof -
  let ?all = "sort_key (\<lambda>e. - ba_credited e) (filter (\<lambda>e. 0 < ba_claims e) (map snd (board_accounts p)))"
  have "e \<in> set ?all" using assms(1,2) by simp
  then have "e \<in> set (take limit ?all) \<or> e \<in> set (drop limit ?all)" by (metis Un_iff append_take_drop_id set_append)
  with assms(3) have e: "e \<in> set (drop limit ?all)" by (simp add: top_accounts_def)
  then have "limit \<le> length ?all" by (metis drop_all empty_iff empty_set linorder_le_cases)
  moreover have "sorted_wrt (\<lambda>e e'. ba_credited e' \<le> ba_credited e) (take limit ?all @ drop limit ?all)"
    unfolding append_take_drop_id by (rule ranked_order)
  then have "\<forall>e' \<in> set (take limit ?all). ba_credited e \<le> ba_credited e'"
    using e unfolding sorted_wrt_append by blast
  ultimately show ?thesis by (simp add: top_accounts_def)
qed

lemma top_rows:
  "length (leaderboard_top p limit) = length (top_accounts p limit)"
  "i < length (top_accounts p limit) \<Longrightarrow> rk_rank (leaderboard_top p limit ! i) = i + 1"
  "i < length (top_accounts p limit) \<Longrightarrow> rk_account (leaderboard_top p limit ! i) = ba_account (top_accounts p limit ! i)"
  "i < length (top_accounts p limit) \<Longrightarrow> rk_credited (leaderboard_top p limit ! i) = int_string (ba_credited (top_accounts p limit ! i))"
  by (simp_all add: leaderboard_top_def nth_enumerate_eq)

text \<open>What the chain credited an account, over the logs that are indexed.\<close>

definition chain_credit :: "log set \<Rightarrow> string \<Rightarrow> int" where
  "chain_credit ls account = (\<Sum>l \<in> ls. credited account l)"

lemma listed_credit:
  assumes "follows_chain C st" "deployment fs rs C" "e \<in> set (map snd (board_accounts (ix_store st)))" "0 < ba_claims e"
  shows "ba_credited e = chain_credit (indexed_part C st) (ba_account e)"
proof -
  from listed_account(1) [OF assms(3)] assms(4) have e: "ba_credited e = (\<Sum>c \<leftarrow> of_account (ba_account e) (pj_claims (ix_store st)). cl_amount c)"
      "of_account (ba_account e) (pj_claims (ix_store st)) \<noteq> []" by auto
  from e(2) obtain c :: claim_row where c: "to_lower (cl_account c) = ba_account e" unfolding of_account_def filter_empty_conv by blast
  have "to_lower (ba_account e) = ba_account e" by (simp flip: c)
  with e(1) follows_claims [OF assms(1,2), of "\<lambda>c. to_lower (cl_account c) = ba_account e"]
  show ?thesis by (simp add: of_account_def chain_credit_def credited_def)
qed

lemma claimer_listed:
  assumes "c \<in> set (pj_claims p)"
  obtains e where "e \<in> set (map snd (board_accounts p))" "ba_account e = to_lower (cl_account c)" "0 < ba_claims e"
proof -
  let ?k = "to_lower (cl_account c)"
  from assms have "of_account ?k (pj_claims p) \<noteq> []" by (auto simp: of_account_def filter_empty_conv)
  moreover have "entry_ok (pj_claims p) ?k (js_get (board_accounts p) ?k)" using board_accounts_ok [of p] by (simp add: board_ok_def)
  ultimately obtain e where "js_get (board_accounts p) ?k = Some e" "ba_account e = ?k" "0 < ba_claims e"
    by (cases "js_get (board_accounts p) ?k") auto
  with that show ?thesis by (metis map_of_SomeD in_set_zipE snd_conv image_eqI set_map)
qed

text \<open>C6: over an honest node, after any polls, the leaderboard is the chain's: each account is listed once, with
  the total its indexed claim logs credited, ranks follow the totals, and an account with a claim
  that is not listed has not been credited more than any that is.\<close>

theorem leaderboard_ranks_the_chain:
  assumes "deployment fs rs C" "\<forall>(nd, head) \<in> set polls. wired fs rs C nd" "st = run_polls polls new_indexer"
    and "ranks = leaderboard_top (ix_store st) limit" "paid = chain_credit (indexed_part C st)"
  shows "distinct (map rk_account ranks)
    \<and> (\<forall>i < length ranks. rk_rank (ranks ! i) = i + 1 \<and> rk_credited (ranks ! i) = int_string (paid (rk_account (ranks ! i)))
        \<and> (\<forall>j < i. paid (rk_account (ranks ! i)) \<le> paid (rk_account (ranks ! j))))
    \<and> (\<forall>l \<in> indexed_part C st. \<forall>c \<in> set (log_claims l). to_lower (cl_account c) \<in> set (map rk_account ranks)
        \<or> length ranks = limit \<and> (\<forall>r \<in> set ranks. paid (cl_account c) \<le> paid (rk_account r)))"
proof -
  let ?p = "ix_store st" and ?es = "top_accounts (ix_store st) limit"
  have fol: "follows_chain C st"
    unfolding assms(3) by (rule run_polls_follows [OF assms(2,1) follows_new [OF assms(1)]])
  have members: "e \<in> set (map snd (board_accounts ?p))" "0 < ba_claims e" if "e \<in> set ?es" for e
    using that by (auto simp: top_accounts_def dest!: in_set_takeD)
  have paid: "ba_credited e = paid (ba_account e)" if "e \<in> set (map snd (board_accounts ?p))" "0 < ba_claims e" for e
    using listed_credit [OF fol assms(1) that] assms(5) by simp
  note rows = top_rows [where p = ?p and limit = limit, folded assms(4)]
  have accounts: "map rk_account ranks = map ba_account ?es" by (rule nth_equalityI) (simp_all add: rows)
  have "distinct (map ba_account ?es)"
  proof -
    have d: "distinct (map snd (board_accounts ?p))" "inj_on ba_account (set (map snd (board_accounts ?p)))"
      using iffD1 [OF distinct_map board_distinct [of ?p]] by blast+
    from d(1) have "distinct ?es" unfolding top_accounts_def by (intro distinct_take) (simp only: distinct_sort distinct_filter)
    moreover have "set ?es \<subseteq> set (map snd (board_accounts ?p))" using members(1) by blast
    ultimately show ?thesis using inj_on_subset [OF d(2)] by (simp only: distinct_map)
  qed
  moreover have "\<forall>i < length ranks. rk_rank (ranks ! i) = i + 1 \<and> rk_credited (ranks ! i) = int_string (paid (rk_account (ranks ! i)))
        \<and> (\<forall>j < i. paid (rk_account (ranks ! i)) \<le> paid (rk_account (ranks ! j)))"
  proof (intro allI impI)
    fix i assume "i < length ranks"
    then have i: "i < length ?es" by (simp add: rows)
    have pay: "paid (rk_account (ranks ! j)) = ba_credited (?es ! j)" if "j < length ?es" for j
      using paid [OF members [OF nth_mem [OF that]]] rows(3) [OF that] by simp
    have "ba_credited (?es ! i) \<le> ba_credited (?es ! j)" if "j < i" for j
      using sorted_wrt_nth_less [OF sorted_wrt_take [OF ranked_order] that] i unfolding top_accounts_def by blast
    with i show "rk_rank (ranks ! i) = i + 1 \<and> rk_credited (ranks ! i) = int_string (paid (rk_account (ranks ! i)))
        \<and> (\<forall>j < i. paid (rk_account (ranks ! i)) \<le> paid (rk_account (ranks ! j)))"
      using rows(2,4) [OF i] by (simp add: pay)
  qed
  moreover have "to_lower (cl_account c) \<in> set (map rk_account ranks)
        \<or> length ranks = limit \<and> (\<forall>r \<in> set ranks. paid (cl_account c) \<le> paid (rk_account r))"
    if "l \<in> indexed_part C st" "c \<in> set (log_claims l)" for l c
  proof -
    from follows_posted [OF fol assms(1)] obtain ls where ls: "set ls = indexed_part C st" "ledger_of ?p = posted ls" .
    have "pj_claims ?p = le_claims (posted ls)" by (simp add: ledger_of_def flip: ls(2))
    with that ls(1) have "c \<in> set (pj_claims ?p)" by (auto simp: posted_parts)
    then obtain e where e: "e \<in> set (map snd (board_accounts ?p))" "ba_account e = to_lower (cl_account c)" "0 < ba_claims e"
      by (rule claimer_listed)
    show ?thesis
    proof (cases "e \<in> set ?es")
      case True
      then have "ba_account e \<in> set (map rk_account ranks)" unfolding accounts by simp
      with e(2) show ?thesis by simp
    next
      case False
      note below = top_accounts_complete [OF e(1,3) False]
      have "paid (cl_account c) = ba_credited e" using paid [OF e(1,3)] assms(5) e(2) by (simp add: chain_credit_def credited_def)
      moreover have "paid (rk_account r) \<in> ba_credited ` set ?es" if "r \<in> set ranks" for r
      proof -
        from that accounts have "rk_account r \<in> ba_account ` set ?es" by (metis image_eqI set_map)
        with paid members show ?thesis by force
      qed
      ultimately show ?thesis using below rows(1) by fastforce
    qed
  qed
  ultimately show ?thesis using accounts by simp
qed

theorem leaderboard_ranks_the_chain_witness:
  "map rk_credited (leaderboard_top (ix_store payout_state) 5) = [''5'']
    \<and> rk_credited (leaderboard_top (ix_store payout_state) 5 ! 0) = int_string (chain_credit (indexed_part payout_chain payout_state) ''0xa'')"
proof -
  have ranks: "map rk_account (leaderboard_top (ix_store payout_state) 5) = [''0xa'']" "map rk_credited (leaderboard_top (ix_store payout_state) 5) = [''5'']"
    by code_simp+
  then have len: "0 < length (leaderboard_top (ix_store payout_state) 5)" by (metis length_map length_greater_0_conv list.distinct(1))
  from leaderboard_ranks_the_chain [OF payout_deployment _ payout_state_def refl refl, of 5] wired_serving
  have "rk_credited (leaderboard_top (ix_store payout_state) 5 ! 0)
      = int_string (chain_credit (indexed_part payout_chain payout_state) (rk_account (leaderboard_top (ix_store payout_state) 5 ! 0)))"
    using len by auto
  moreover have "rk_account (leaderboard_top (ix_store payout_state) 5 ! 0) = ''0xa''"
    using ranks(1) len by (metis nth_Cons_0 nth_map)
  ultimately show ?thesis using ranks(2) by simp
qed

text \<open>A profile and a portfolio state the same total for an account.\<close>

lemma profile_matches_portfolio:
  assumes "account \<noteq> []"
  shows "pr_credited (profile_of p account) = int_string (po_total_credited (portfolio_of p reader account))"
proof -
  have ok: "entry_ok (pj_claims p) (to_lower account) (js_get (board_accounts p) (to_lower account))"
    using board_accounts_ok [of p] by (simp add: board_ok_def)
  have "int_string 0 = ''0''" by code_simp
  with ok show ?thesis
    by (cases "js_get (board_accounts p) (to_lower account)")
      (simp_all add: profile_of_def Let_def portfolio_total [OF assms] of_account_def)
qed

text \<open>A question is in the recent list only when its slot settled, and the list is newest first.\<close>

lemma resolutions_settled:
  "set (settledSlots p) \<subseteq> {(room, slot). in_states SETTLED (row_get slot ''state'')}"
  "sorted_wrt (\<lambda>(_, s) (_, s'). block_rank (row_get s ''block_number'') \<le> block_rank (row_get s' ''block_number'')) (settledSlots p)"
proof -
  have "sorted (map (\<lambda>(room, slot). block_rank (row_get slot ''block_number'')) (settledSlots p))"
    unfolding settledSlots_def by simp
  then show "sorted_wrt (\<lambda>(_, s) (_, s'). block_rank (row_get s ''block_number'') \<le> block_rank (row_get s' ''block_number'')) (settledSlots p)"
    unfolding sorted_map by (simp add: case_prod_unfold)
qed (auto simp: settledSlots_def)

end
