(* ===== verification/Edge.thy ===== *)
theory Edge
  imports Coordinator
begin

section \<open>The realtime edge (edge/edge.mjs, RealtimeEdge)\<close>

text \<open>
  Fan-out of the coordinator's frames to connections, with resumption from a cursor and
  backpressure. The sink behind a connection is a parameter: to each send it answers that it
  accepted, that its buffer is full, or it throws because it is gone. What a connection was sent
  is kept in \<open>cn_out\<close>, oldest first.
\<close>

datatype item =
    Hello nat int
  | FrameItem frame
  | ResyncItem snapshot
  | ResyncRequired nat

datatype sink_answer = Accepted | Full | Gone

type_synonym sink = "nat \<Rightarrow> item list \<Rightarrow> item \<Rightarrow> sink_answer"

record connection =
  cn_backlog :: nat
  cn_dropped :: nat
  cn_out :: "item list"

definition new_connection :: connection where
  "new_connection = \<lparr> cn_backlog = 0, cn_dropped = 0, cn_out = [] \<rparr>"

record edge =
  eg_connections :: "(nat, connection) js_map"
  eg_private :: "(string, nat list) js_map"

definition new_edge :: edge where
  "new_edge = \<lparr> eg_connections = [], eg_private = [] \<rparr>"

text \<open>The configured cap when it is a positive number, else 256.\<close>

definition queue_cap :: "int option \<Rightarrow> nat" where
  "queue_cap maxQueue = (case maxQueue of Some n \<Rightarrow> if 0 < n then nat n else 256 | None \<Rightarrow> 256)"

text \<open>A throw is \<open>None\<close>.\<close>

definition sink_send :: "sink \<Rightarrow> nat \<Rightarrow> connection \<Rightarrow> item \<Rightarrow> (connection \<times> bool) option" where
  "sink_send snk i c x =
     (case snk i (cn_out c) x of
        Gone \<Rightarrow> None
      | Accepted \<Rightarrow> Some (c\<lparr>cn_out := cn_out c @ [x]\<rparr>, True)
      | Full \<Rightarrow> Some (c\<lparr>cn_out := cn_out c @ [x]\<rparr>, False))"

definition send_item :: "nat \<Rightarrow> sink \<Rightarrow> nat \<Rightarrow> item \<Rightarrow> connection \<Rightarrow> connection option" where
  "send_item cap snk i x c =
     (if cap \<le> cn_backlog c then
        (let c1 = c\<lparr>cn_dropped := cn_dropped c + 1\<rparr> in
         if cn_dropped c1 mod cap = 1 \<or> cap = 1 then
           map_option (\<lambda>(c2, accepted). if accepted then c2\<lparr>cn_backlog := 0\<rparr> else c2)
             (sink_send snk i c1 (ResyncRequired (cn_dropped c1)))
         else Some c1)
      else map_option (\<lambda>(c2, accepted). c2\<lparr>cn_backlog := (if accepted then 0 else cn_backlog c + 1)\<rparr>) (sink_send snk i c x))"

fun send_items :: "nat \<Rightarrow> sink \<Rightarrow> nat \<Rightarrow> item list \<Rightarrow> connection \<Rightarrow> connection option" where
  "send_items cap snk i [] c = Some c"
| "send_items cap snk i (x # xs) c = Option.bind (send_item cap snk i x c) (send_items cap snk i xs)"

definition detach :: "nat \<Rightarrow> edge \<Rightarrow> edge" where
  "detach i eg = eg\<lparr>eg_connections := js_delete i (eg_connections eg),
     eg_private := filter (\<lambda>(_, is). is \<noteq> []) (map (\<lambda>(a, is). (a, removeAll i is)) (eg_private eg))\<rparr>"

definition hello_item :: "coordinator \<Rightarrow> item" where
  "hello_item co = Hello (co_roomSeq co)
     (case co_frames co of f # fs \<Rightarrow> int (fr_seq f) - 1 | [] \<Rightarrow> int (co_roomSeq co))"

text \<open>The replay of a cursor: nothing without one.\<close>

definition replay_items ::
  "coordinator_config \<Rightarrow> string \<Rightarrow> projection \<Rightarrow> int option option \<Rightarrow> int \<Rightarrow> coordinator \<Rightarrow> item list" where
  "replay_items cfg roomId p since nowMs co =
     (case since of
        None \<Rightarrow> []
      | Some cursor \<Rightarrow> (case framesSince cfg roomId p cursor nowMs co of
            Resync s \<Rightarrow> [ResyncItem s]
          | Deliver fs \<Rightarrow> map FrameItem fs))"

definition attach :: "nat \<Rightarrow> sink \<Rightarrow> nat \<Rightarrow> string option \<Rightarrow> item \<Rightarrow> item list \<Rightarrow> edge \<Rightarrow> edge" where
  "attach cap snk i address hello replay eg =
     (let eg1 = eg\<lparr>eg_connections := js_set i new_connection (eg_connections eg),
            eg_private := (case truthy_text address of
                Some a \<Rightarrow> js_set a (set_add i (case js_get (eg_private eg) a of Some is \<Rightarrow> is | None \<Rightarrow> [])) (eg_private eg)
              | None \<Rightarrow> eg_private eg)\<rparr>
      in case send_items cap snk i (hello # replay) new_connection of
           None \<Rightarrow> detach i eg1
         | Some c \<Rightarrow> eg1\<lparr>eg_connections := js_set i c (eg_connections eg1)\<rparr>)"

definition send_to :: "nat \<Rightarrow> sink \<Rightarrow> item \<Rightarrow> nat \<Rightarrow> edge \<Rightarrow> edge" where
  "send_to cap snk x i eg =
     (case js_get (eg_connections eg) i of
        None \<Rightarrow> eg
      | Some c \<Rightarrow>
          (case send_item cap snk i x c of
             None \<Rightarrow> detach i eg
           | Some c' \<Rightarrow> eg\<lparr>eg_connections := js_set i c' (eg_connections eg)\<rparr>))"

definition broadcast :: "nat \<Rightarrow> sink \<Rightarrow> frame \<Rightarrow> edge \<Rightarrow> edge" where
  "broadcast cap snk f eg = foldl (\<lambda>e i. send_to cap snk (FrameItem f) i e) eg (map fst (eg_connections eg))"

text \<open>The number delivered is of sends that did not throw.\<close>

definition sendPrivate :: "nat \<Rightarrow> sink \<Rightarrow> string \<Rightarrow> frame \<Rightarrow> edge \<Rightarrow> edge \<times> nat" where
  "sendPrivate cap snk address f eg =
     (case js_get (eg_private eg) address of
        None \<Rightarrow> (eg, 0)
      | Some is \<Rightarrow> foldl (\<lambda>(e, n) i. (send_to cap snk (FrameItem f) i e,
            if (case js_get (eg_connections e) i of Some c \<Rightarrow> send_item cap snk i (FrameItem f) c \<noteq> None | None \<Rightarrow> False)
            then n + 1 else n)) (eg, 0) is)"

subsection \<open>Playback\<close>

text \<open>The stream's health and the map from source sequences to stream offsets.\<close>

record playback =
  pb_health :: string
  pb_timecodes :: "(int \<times> int) list"
  pb_startedAtMs :: "int option"

definition new_playback :: playback where
  "new_playback = \<lparr> pb_health = ''unknown'', pb_timecodes = [], pb_startedAtMs = None \<rparr>"

definition observe_stream :: "int option \<Rightarrow> bool \<Rightarrow> int \<Rightarrow> int \<Rightarrow> playback \<Rightarrow> playback \<times> bool" where
  "observe_stream degradedAfterMs good lastSegmentAgeMs nowMs pb =
     (let limit = (case degradedAfterMs of Some n \<Rightarrow> n | None \<Rightarrow> 10000);
          pb' = (if \<not> good then pb\<lparr>pb_health := ''unavailable''\<rparr>
            else if limit < lastSegmentAgeMs then pb\<lparr>pb_health := ''degraded''\<rparr>
            else pb\<lparr>pb_health := ''live'', pb_startedAtMs := Some (case pb_startedAtMs pb of Some t \<Rightarrow> t | None \<Rightarrow> nowMs)\<rparr>)
      in (pb', pb_health pb \<noteq> pb_health pb'))"

text \<open>\<open>Math.round(x / 1000)\<close> of a whole number of milliseconds rounds half up.\<close>

definition round_seconds :: "int \<Rightarrow> int" where
  "round_seconds ms = (ms + 500) div 1000"

definition mark_source :: "int \<Rightarrow> int \<Rightarrow> int \<Rightarrow> playback \<Rightarrow> playback \<times> (int \<times> int) option" where
  "mark_source disclosedDelayS sourceSeq observedAtMs pb =
     (case pb_startedAtMs pb of
        None \<Rightarrow> (pb, None)
      | Some started \<Rightarrow>
          (let entry = (sourceSeq, max 0 (round_seconds (observedAtMs - started) - disclosedDelayS))
           in (pb\<lparr>pb_timecodes := pb_timecodes pb @ [entry]\<rparr>, Some entry)))"

definition offsetFor :: "int \<Rightarrow> playback \<Rightarrow> int option" where
  "offsetFor sourceSeq pb =
     map_option snd (last_opt (takeWhile (\<lambda>(s, _). s \<le> sourceSeq) (pb_timecodes pb)))"

end
