(* ===== verification/EdgeDelivery.thy ===== *)
theory EdgeDelivery
  imports Edge
begin

section \<open>What viewers can rely on\<close>

text \<open>
  The coordinator numbers its frames without gaps and retains a suffix of them; a reader that
  resumes from a cursor gets every later frame or a snapshot at the current number; and a
  connection is never left with a hole it was not told about.
\<close>

declare upt_Suc [simp del]

subsection \<open>The numbering of frames\<close>

definition numbered :: "coordinator \<Rightarrow> bool" where
  "numbered co \<longleftrightarrow> map fr_seq (co_sent co) = [1..<co_roomSeq co + 1]
     \<and> (\<exists>k. co_frames co = drop k (co_sent co))
     \<and> (\<forall>f \<in> set (co_sent co). fr_chain f \<noteq> None \<or> fr_source_seq f \<noteq> None \<or> fr_presentation_only f)"

lemma numbered_new [simp]: "numbered new_coordinator"
  by (simp add: numbered_def new_coordinator_def)

lemma publish_frame_sent:
  assumes "publish_frame cfg type body chain sourceSeq co = Inr co'"
  shows "\<exists>f. co_sent co' = co_sent co @ [f] \<and> fr_seq f = co_roomSeq co + 1 \<and> co_roomSeq co' = co_roomSeq co + 1
    \<and> (\<exists>k. co_frames co' = drop k (co_frames co @ [f]))
    \<and> (fr_chain f \<noteq> None \<or> fr_source_seq f \<noteq> None \<or> fr_presentation_only f)"
proof -
  define f where "f = \<lparr> fr_seq = co_roomSeq co + 1, fr_type = type, fr_source_seq = sourceSeq, fr_chain = chain,
    fr_presentation_only = (type \<in> set PRESENTATION_ONLY_TYPES \<and> chain = None \<and> sourceSeq = None), fr_payload = body \<rparr>"
  define frames where "frames = co_frames co @ [f]"
  define keep where "keep = (case cc_retention cfg of Some n \<Rightarrow> n | None \<Rightarrow> 600)"
  from assms have ok: "type \<in> set PRESENTATION_ONLY_TYPES \<or> chain \<noteq> None \<or> sourceSeq \<noteq> None"
    by (auto simp: publish_frame_def Let_def split: if_splits)
  with assms have co': "co' = co\<lparr>co_roomSeq := co_roomSeq co + 1,
      co_frames := (if keep < length frames then drop (length frames - keep) frames else frames), co_sent := co_sent co @ [f]\<rparr>"
    unfolding publish_frame_def Let_def f_def [symmetric] frames_def [symmetric] keep_def [symmetric]
    by (auto split: if_splits)
  have "\<exists>k. co_frames co' = drop k frames"
    by (cases "keep < length frames") (auto simp: co' intro: exI [of _ 0])
  with ok show ?thesis unfolding frames_def by (intro exI [of _ f]) (auto simp: co' f_def)
qed

lemma publish_frame_numbered:
  assumes "numbered co" "publish_frame cfg type body chain sourceSeq co = Inr co'"
  shows "numbered co'"
proof -
  from publish_frame_sent [OF assms(2)] obtain f k where
    f: "co_sent co' = co_sent co @ [f]" "fr_seq f = co_roomSeq co + 1" "co_roomSeq co' = co_roomSeq co + 1"
      "co_frames co' = drop k (co_frames co @ [f])" "fr_chain f \<noteq> None \<or> fr_source_seq f \<noteq> None \<or> fr_presentation_only f"
    by blast
  from assms(1) obtain j where j: "co_frames co = drop j (co_sent co)" by (auto simp: numbered_def)
  have "drop k (drop j (co_sent co) @ [f]) = drop (k + min j (length (co_sent co))) (co_sent co @ [f])"
  proof (cases "j \<le> length (co_sent co)")
    case True
    then have "drop j (co_sent co) @ [f] = drop j (co_sent co @ [f])" by simp
    with True show ?thesis by (simp add: min_def add.commute)
  next
    case False
    then show ?thesis by (simp add: min_def)
  qed
  with f j assms(1) show ?thesis by (auto simp: numbered_def upt_Suc)
qed

text \<open>A publishing that keeps the numbering, whatever state it starts in.\<close>

definition keeps_numbering :: "publishing \<Rightarrow> bool" where
  "keeps_numbering f \<longleftrightarrow> (\<forall>co co'. numbered co \<longrightarrow> f co = Inr co' \<longrightarrow> numbered co' \<and> (\<exists>fs. co_sent co' = co_sent co @ fs))"

named_theorems numbering \<open>publishings that keep the numbering\<close>

lemma numbered_fields [simp]:
  "numbered (co\<lparr>co_lastSnapshot := x\<rparr>) = numbered co" "numbered (co\<lparr>co_focus := fc\<rparr>) = numbered co"
  "numbered (co\<lparr>co_streamHealth := h\<rparr>) = numbered co" "numbered (co\<lparr>co_viewers := v\<rparr>) = numbered co"
  "numbered (co\<lparr>co_pending := ps\<rparr>) = numbered co" "numbered (co\<lparr>co_tip := t\<rparr>) = numbered co"
  "numbered (co\<lparr>co_chainHead := ch, co_chainHeadAt := at\<rparr>) = numbered co"
  by (simp_all add: numbered_def)

lemma keeps_publish [numbering]: "keeps_numbering (publish_frame cfg type body chain sourceSeq)"
  unfolding keeps_numbering_def using publish_frame_numbered publish_frame_sent by blast

lemma keeps_then [numbering]: "keeps_numbering f \<Longrightarrow> keeps_numbering g \<Longrightarrow> keeps_numbering (then_publish f g)"
  unfolding keeps_numbering_def then_publish_def bind_res_eq_Inr by (metis append.assoc)

lemma keeps_when [numbering]: "keeps_numbering f \<Longrightarrow> keeps_numbering (publish_when b f)"
  unfolding keeps_numbering_def publish_when_def by auto

lemma keeps_each [numbering]:
  assumes "\<And>x. keeps_numbering (f x)"
  shows "keeps_numbering (publish_each f xs)"
proof (induction xs)
  case Nil
  then show ?case by (simp add: keeps_numbering_def)
next
  case (Cons x xs)
  have "publish_each f (x # xs) = then_publish (f x) (publish_each f xs)" by (simp add: then_publish_def fun_eq_iff)
  with keeps_then [OF assms Cons.IH] show ?case by simp
qed

lemma keeps_slot_deltas [numbering]: "keeps_numbering (slot_deltas cfg block previous slot)"
  unfolding slot_deltas_def by (cases "js_get previous (sl_slot_index slot)") (auto intro: numbering)

lemma keeps_focus [numbering]: "keeps_numbering (advanceFocus cfg block snap)"
proof -
  have p: "keeps_numbering (publish_frame cfg ''room.focus_changed'' (Focus (next_focus (sn_slots snap))) (Some block) None)"
    by (rule numbering)
  show ?thesis unfolding keeps_numbering_def advanceFocus_def Let_def
  proof (intro allI impI)
    fix co co'
    assume n: "numbered co" and r: "(if next_focus (sn_slots snap) \<noteq> co_focus co
      then publish_frame cfg ''room.focus_changed'' (Focus (next_focus (sn_slots snap))) (Some block) None
        (co\<lparr>co_focus := next_focus (sn_slots snap)\<rparr>) else Inr co) = Inr co'"
    show "numbered co' \<and> (\<exists>fs. co_sent co' = co_sent co @ fs)"
    proof (cases "next_focus (sn_slots snap) \<noteq> co_focus co")
      case True
      with n r p [unfolded keeps_numbering_def, rule_format, of "co\<lparr>co_focus := next_focus (sn_slots snap)\<rparr>" co']
      show ?thesis by simp
    qed (use n r in simp)
  qed
qed

lemma keeps_apply:
  assumes "then_publish f g co1 = Inr co'" "keeps_numbering f" "keeps_numbering g" "numbered co1" "co_sent co1 = co_sent co"
  shows "numbered co' \<and> (\<exists>fs. co_sent co' = co_sent co @ fs)"
  using keeps_then [OF assms(2,3), unfolded keeps_numbering_def, rule_format, OF assms(4,1)] assms(5) by simp

lemma coordinator_tick_keeps [numbering]: "keeps_numbering (coordinator_tick cfg roomId p nowMs)"
  unfolding keeps_numbering_def
proof (intro allI impI)
  fix co co'
  assume n: "numbered co" and t: "coordinator_tick cfg roomId p nowMs co = Inr co'"
  show "numbered co' \<and> (\<exists>fs. co_sent co' = co_sent co @ fs)"
  proof (cases "co_lastSnapshot co")
    case None
    with t n show ?thesis
      unfolding coordinator_tick_def Let_def option.case
      by simp (erule keeps_apply; auto intro!: numbering)
  next
    case (Some previous)
    from t n show ?thesis
      unfolding coordinator_tick_def Let_def Some option.case
      by - (erule keeps_apply; auto intro!: numbering)
  qed
qed

subsection \<open>Every operation of the coordinator\<close>

datatype operation =
    Tick projection int
  | StreamHealthOp string
  | ViewersOp "int option"
  | HeartbeatOp projection int
  | PublishOp string payload "nat option" "int option"
  | TipOp "event option"
  | HeadOp "int option" int
  | BeginOp projection bool string int
  | EndOp string

text \<open>An operation that throws or is refused leaves the coordinator as it was.\<close>

definition settled :: "coordinator \<Rightarrow> 'e + coordinator \<Rightarrow> coordinator" where
  "settled co r = (case r of Inl e \<Rightarrow> co | Inr co' \<Rightarrow> co')"

fun operate :: "coordinator_config \<Rightarrow> string \<Rightarrow> operation \<Rightarrow> coordinator \<Rightarrow> coordinator" where
  "operate cfg room (Tick p nowMs) co = settled co (coordinator_tick cfg room p nowMs co)"
| "operate cfg room (StreamHealthOp h) co = settled co (setStreamHealth cfg h co)"
| "operate cfg room (ViewersOp n) co = settled co (setViewers cfg n co)"
| "operate cfg room (HeartbeatOp p nowMs) co = settled co (coordinator_heartbeat cfg room p nowMs co)"
| "operate cfg room (PublishOp t b c s) co = settled co (publish_frame cfg t b c s co)"
| "operate cfg room (TipOp t) co = observeEventLogTip t co"
| "operate cfg room (HeadOp b nowMs) co = observeChainHead b nowMs co"
| "operate cfg room (BeginOp p pub key nowMs) co = settled co (begin_request cfg room p pub key nowMs co)"
| "operate cfg room (EndOp key) co = end_request key co"

definition extends_sent :: "coordinator \<Rightarrow> coordinator \<Rightarrow> bool" where
  "extends_sent co co' \<longleftrightarrow> numbered co' \<and> (\<exists>fs. co_sent co' = co_sent co @ fs)"

lemma settled_keeps: "keeps_numbering f \<Longrightarrow> numbered co \<Longrightarrow> extends_sent co (settled co (f co))"
  unfolding keeps_numbering_def extends_sent_def settled_def by (cases "f co") auto

lemma keeps_after:
  assumes "publish_frame cfg type body c s (g co) = Inr co'" "numbered (g co)" "co_sent (g co) = co_sent co"
  shows "extends_sent co co'"
  using keeps_publish [unfolded keeps_numbering_def, rule_format, OF assms(2,1)] assms(3) by (simp add: extends_sent_def)

lemma operate_extends:
  assumes "numbered co"
  shows "extends_sent co (operate cfg room act co)"
proof (cases act)
  case (Tick p nowMs)
  with settled_keeps [OF coordinator_tick_keeps assms] show ?thesis by simp
next
  case (PublishOp t b c s)
  with settled_keeps [OF keeps_publish assms] show ?thesis by simp
next
  case (HeartbeatOp p nowMs)
  with settled_keeps [OF keeps_publish assms] show ?thesis by (simp add: coordinator_heartbeat_def Let_def)
next
  case (StreamHealthOp h)
  then show ?thesis using assms
    by (auto simp: setStreamHealth_def settled_def extends_sent_def split: sum.splits
        dest!: keeps_publish [unfolded keeps_numbering_def, rule_format, rotated])
next
  case (ViewersOp n)
  then show ?thesis using assms
    by (auto simp: setViewers_def settled_def extends_sent_def split: sum.splits
        dest!: keeps_publish [unfolded keeps_numbering_def, rule_format, rotated])
next
  case (BeginOp p pub key nowMs)
  then show ?thesis using assms
    by (auto simp: begin_request_def Let_def settled_def extends_sent_def split: option.splits)
qed (use assms in \<open>auto simp: extends_sent_def observeEventLogTip_def observeChainHead_def end_request_def split: option.splits\<close>)

definition operate_all :: "coordinator_config \<Rightarrow> string \<Rightarrow> operation list \<Rightarrow> coordinator \<Rightarrow> coordinator" where
  "operate_all cfg room acts co = foldl (\<lambda>c a. operate cfg room a c) co acts"

lemma operate_all_extends: "numbered co \<Longrightarrow> extends_sent co (operate_all cfg room acts co)"
proof (induction acts rule: rev_induct)
  case (snoc a acts)
  then have "extends_sent co (operate_all cfg room acts co)" by simp
  moreover from this operate_extends have "extends_sent (operate_all cfg room acts co) (operate cfg room a (operate_all cfg room acts co))"
    by (simp add: extends_sent_def)
  ultimately show ?case by (auto simp: operate_all_def extends_sent_def)
qed (simp add: operate_all_def extends_sent_def)

subsection \<open>Resuming from a cursor\<close>

lemma filter_upt: "filter (\<lambda>s. m < s) [a..<b] = [max a (m + 1)..<b]" for m :: nat
  by (induction b) (auto simp: max_def upt_Suc)

lemma frames_seqs:
  assumes "numbered co"
  shows "\<exists>k. map fr_seq (co_frames co) = [k + 1..<co_roomSeq co + 1] \<and> set (co_frames co) \<subseteq> set (co_sent co)"
proof -
  from assms obtain k where k: "co_frames co = drop k (co_sent co)" "map fr_seq (co_sent co) = [1..<co_roomSeq co + 1]"
    by (auto simp: numbered_def)
  then have "map fr_seq (co_frames co) = drop k [1..<co_roomSeq co + 1]" by (metis drop_map)
  then show ?thesis using k(1) by (intro exI [of _ k]) (auto simp: drop_upt dest: in_set_dropD)
qed

lemma framesSince_exact:
  assumes "numbered co" "n \<le> co_roomSeq co"
  shows "(\<exists>s. framesSince cfg room p (Some (int n)) nowMs co = Resync s \<and> sn_seq s = co_roomSeq co)
    \<or> (\<exists>fs. framesSince cfg room p (Some (int n)) nowMs co = Deliver fs \<and> map fr_seq fs = [n + 1..<co_roomSeq co + 1]
        \<and> set fs \<subseteq> set (co_sent co))"
proof -
  from frames_seqs [OF assms(1)] obtain k where
    k: "map fr_seq (co_frames co) = [k + 1..<co_roomSeq co + 1]" "set (co_frames co) \<subseteq> set (co_sent co)" by blast
  define since_floor where "since_floor = (case co_frames co of f # fs \<Rightarrow> int (fr_seq f) - 1 | [] \<Rightarrow> int (co_roomSeq co))"
  show ?thesis
  proof (cases "int n < since_floor")
    case True
    then show ?thesis
      by (simp add: framesSince_def since_floor_def [symmetric] snapshot_of_def Let_def)
  next
    case False
    let ?fs = "filter (\<lambda>f. int n < int (fr_seq f)) (co_frames co)"
    have "map fr_seq ?fs = filter (\<lambda>s. n < s) (map fr_seq (co_frames co))"
      by (induction "co_frames co") (auto simp: filter_map comp_def)
    also have "\<dots> = [max (k + 1) (n + 1)..<co_roomSeq co + 1]" by (simp only: k(1) filter_upt)
    also have "\<dots> = [n + 1..<co_roomSeq co + 1]"
    proof (cases "co_frames co")
      case Nil
      with False assms(2) have "n = co_roomSeq co" by (simp add: since_floor_def)
      then show ?thesis by simp
    next
      case (Cons f fs)
      with k(1) have "fr_seq f = k + 1" by (cases "k + 1 < co_roomSeq co + 1") (auto simp: upt_conv_Cons)
      with False Cons have "k \<le> n" by (simp add: since_floor_def)
      then show ?thesis by (simp add: max_def)
    qed
    finally have "map fr_seq ?fs = [n + 1..<co_roomSeq co + 1]" .
    moreover have "framesSince cfg room p (Some (int n)) nowMs co = Deliver ?fs"
      using False by (simp add: framesSince_def since_floor_def [symmetric])
    ultimately show ?thesis using k(2) by auto
  qed
qed

text \<open>A cursor beyond the coordinator's own sequence, as after a restart, is answered as caught up.\<close>

lemma framesSince_beyond:
  assumes "numbered co" "int (co_roomSeq co) \<le> n"
  shows "framesSince cfg room p (Some n) nowMs co = Deliver []"
proof -
  from frames_seqs [OF assms(1)] obtain k where k: "map fr_seq (co_frames co) = [k + 1..<co_roomSeq co + 1]" by blast
  then have le: "\<forall>f \<in> set (co_frames co). fr_seq f \<le> co_roomSeq co"
    by (metis (no_types, lifting) atLeastLessThan_iff imageI less_Suc_eq_le list.set_map set_upt Suc_eq_plus1)
  then have "\<not> n < (case co_frames co of f # fs \<Rightarrow> int (fr_seq f) - 1 | [] \<Rightarrow> int (co_roomSeq co))"
    using assms(2) by (cases "co_frames co") auto
  moreover have "filter (\<lambda>f. n < int (fr_seq f)) (co_frames co) = []"
    using le assms(2) by (auto simp: filter_empty_conv)
  ultimately show ?thesis by (simp add: framesSince_def)
qed

subsection \<open>What one connection received\<close>

text \<open>
  The number a reader can continue from: that of the last frame or snapshot, unless a notice of
  dropped frames came since. A reader opens with the cursor it asked to resume from.
\<close>

definition heard :: "nat option \<Rightarrow> item \<Rightarrow> nat option" where
  "heard at x = (case x of Hello n fl \<Rightarrow> at | FrameItem f \<Rightarrow> Some (fr_seq f) | ResyncItem s \<Rightarrow> Some (sn_seq s)
     | ResyncRequired n \<Rightarrow> None)"

definition position :: "nat option \<Rightarrow> item list \<Rightarrow> nat option" where
  "position start out = foldl heard start out"

definition no_silent_gap :: "nat option \<Rightarrow> item list \<Rightarrow> bool" where
  "no_silent_gap start out \<longleftrightarrow> (\<forall>xs f ys n. out = xs @ FrameItem f # ys \<longrightarrow> position start xs = Some n \<longrightarrow> fr_seq f = n + 1)"

lemma no_silent_gap_Nil [simp]: "no_silent_gap start []"
  by (simp add: no_silent_gap_def)

lemma no_silent_gap_snoc:
  "no_silent_gap start (out @ [x]) \<longleftrightarrow> no_silent_gap start out
    \<and> (\<forall>f n. x = FrameItem f \<longrightarrow> position start out = Some n \<longrightarrow> fr_seq f = n + 1)"
  unfolding no_silent_gap_def by (auto simp: append_eq_append_conv2 append_eq_Cons_conv Cons_eq_append_conv) blast+

text \<open>A connection with room in its queue stands at the number the coordinator has reached.\<close>

definition in_step_to :: "nat \<Rightarrow> nat option \<Rightarrow> nat \<Rightarrow> connection \<Rightarrow> bool" where
  "in_step_to cap start seq c \<longleftrightarrow> no_silent_gap start (cn_out c)
     \<and> (cn_backlog c < cap \<longrightarrow> position start (cn_out c) \<in> {None, Some seq})"

definition follows_on :: "nat \<Rightarrow> item \<Rightarrow> nat \<Rightarrow> bool" where
  "follows_on seq x seq' \<longleftrightarrow> (case x of Hello n fl \<Rightarrow> seq' = seq | FrameItem f \<Rightarrow> fr_seq f = seq + 1 \<and> seq' = seq + 1
     | ResyncItem s \<Rightarrow> seq' = sn_seq s | ResyncRequired n \<Rightarrow> False)"

lemma position_snoc [simp]: "position start (out @ [x]) = heard (position start out) x"
  by (simp add: position_def)

lemma send_item_in_step:
  assumes "send_item cap snk i x c = Some c'" "in_step_to cap start seq c" "follows_on seq x seq'" "0 < cap"
  shows "in_step_to cap start seq' c'"
proof (cases "cap \<le> cn_backlog c")
  case True
  with assms show ?thesis
    by (auto simp: send_item_def sink_send_def Let_def in_step_to_def no_silent_gap_snoc heard_def
        split: if_splits sink_answer.splits)
next
  case False
  with assms show ?thesis
    by (auto simp: send_item_def sink_send_def in_step_to_def no_silent_gap_snoc heard_def follows_on_def
        split: sink_answer.splits item.splits)
qed

fun follow_all :: "nat \<Rightarrow> item list \<Rightarrow> nat \<Rightarrow> bool" where
  "follow_all seq [] seq' \<longleftrightarrow> seq' = seq"
| "follow_all seq (x # xs) seq' \<longleftrightarrow> (\<exists>m. follows_on seq x m \<and> follow_all m xs seq')"

lemma send_items_in_step:
  "send_items cap snk i xs c = Some c' \<Longrightarrow> in_step_to cap start seq c \<Longrightarrow> follow_all seq xs seq' \<Longrightarrow> 0 < cap
    \<Longrightarrow> in_step_to cap start seq' c'"
proof (induction xs arbitrary: c seq)
  case (Cons x xs)
  then obtain c1 m where "send_item cap snk i x c = Some c1" "send_items cap snk i xs c1 = Some c'"
      "follows_on seq x m" "follow_all m xs seq'" by (auto simp: bind_eq_Some_conv)
  with Cons.IH [OF this(2)] send_item_in_step Cons.prems(2,4) show ?case by blast
qed simp

lemma follow_frames: "map fr_seq fs = [n + 1..<m + 1] \<Longrightarrow> n \<le> m \<Longrightarrow> follow_all n (map FrameItem fs) m"
proof (induction fs arbitrary: n)
  case Nil
  then have "length [n + 1..<m + 1] = 0" by (metis list.size(3) map_is_Nil_conv)
  with Nil.prems(2) show ?case by simp
next
  case (Cons f fs)
  then have "n < m" by (cases "n < m") auto
  with Cons.prems have "fr_seq f = n + 1" "map fr_seq fs = [(n + 1) + 1..<m + 1]" by (auto simp: upt_conv_Cons)
  with Cons.IH [of "n + 1"] \<open>n < m\<close> show ?case by (auto simp: follows_on_def)
qed

lemma replay_follows:
  assumes "numbered co" "n \<le> co_roomSeq co"
  shows "follow_all n (hello_item co # replay_items cfg room p (Some (Some (int n))) nowMs co) (co_roomSeq co)"
  using framesSince_exact [OF assms, of cfg room p nowMs] follow_frames assms(2)
  by (auto simp: replay_items_def hello_item_def follows_on_def)

subsection \<open>The fan-out\<close>

lemma connection_send_to:
  "js_get (eg_connections (send_to cap snk x j eg)) i =
    (if i = j then Option.bind (js_get (eg_connections eg) i) (send_item cap snk i x) else js_get (eg_connections eg) i)"
  by (auto simp: send_to_def detach_def port_simps split: option.splits)

lemma connections_broadcast:
  assumes "distinct is"
  shows "js_get (eg_connections (foldl (\<lambda>e j. send_to cap snk x j e) eg is)) i =
    (if i \<in> set is then Option.bind (js_get (eg_connections eg) i) (send_item cap snk i x) else js_get (eg_connections eg) i)"
  using assms by (induction "is" arbitrary: eg) (auto simp: connection_send_to)

lemma distinct_connections:
  "distinct (map fst (eg_connections eg)) \<Longrightarrow> distinct (map fst (eg_connections (send_to cap snk x j eg)))"
  by (auto simp: send_to_def detach_def distinct_update distinct_delete split: option.splits)

lemma distinct_broadcast:
  "distinct (map fst (eg_connections eg)) \<Longrightarrow> distinct (map fst (eg_connections (broadcast cap snk f eg)))"
  unfolding broadcast_def
proof -
  fix js assume d: "distinct (map fst (eg_connections eg))"
  have "distinct (map fst (eg_connections (foldl (\<lambda>e j. send_to cap snk (FrameItem f) j e) eg js)))" for js
    using d by (induction js arbitrary: eg) (auto simp: distinct_connections)
  then show "distinct (map fst (eg_connections (foldl (\<lambda>e j. send_to cap snk (FrameItem f) j e) eg (map fst (eg_connections eg)))))" .
qed

lemma connection_broadcast:
  assumes "distinct (map fst (eg_connections eg))"
  shows "js_get (eg_connections (broadcast cap snk f eg)) i =
    Option.bind (js_get (eg_connections eg) i) (send_item cap snk i (FrameItem f))"
  unfolding broadcast_def connections_broadcast [OF assms]
proof (cases "i \<in> set (map fst (eg_connections eg))")
  case False
  then have "js_get (eg_connections eg) i = None" by (simp add: map_of_eq_None_iff)
  then show "(if i \<in> set (map fst (eg_connections eg))
      then Option.bind (js_get (eg_connections eg) i) (send_item cap snk i (FrameItem f)) else js_get (eg_connections eg) i) =
    Option.bind (js_get (eg_connections eg) i) (send_item cap snk i (FrameItem f))" by simp
qed simp

definition broadcast_all :: "nat \<Rightarrow> sink \<Rightarrow> frame list \<Rightarrow> edge \<Rightarrow> edge" where
  "broadcast_all cap snk fs eg = foldl (\<lambda>e f. broadcast cap snk f e) eg fs"

lemma connection_broadcast_all:
  assumes "distinct (map fst (eg_connections eg))"
  shows "js_get (eg_connections (broadcast_all cap snk fs eg)) i =
    Option.bind (js_get (eg_connections eg) i) (send_items cap snk i (map FrameItem fs))"
  using assms
proof (induction fs arbitrary: eg)
  case (Cons f fs)
  from Cons.IH [OF distinct_broadcast [OF Cons.prems]] connection_broadcast [OF Cons.prems]
  have "js_get (eg_connections (broadcast_all cap snk (f # fs) eg)) i =
      Option.bind (Option.bind (js_get (eg_connections eg) i) (send_item cap snk i (FrameItem f)))
        (send_items cap snk i (map FrameItem fs))" by (simp add: broadcast_all_def)
  then show ?case by (cases "js_get (eg_connections eg) i") simp_all
next
  case Nil
  show ?case by (cases "js_get (eg_connections eg) i") (simp_all add: broadcast_all_def)
qed

lemma attach_connection:
  "js_get (eg_connections (attach cap snk i address hello replay eg)) i = send_items cap snk i (hello # replay) new_connection"
  by (auto simp: attach_def Let_def detach_def port_simps split: option.splits)

lemma distinct_attach:
  "distinct (map fst (eg_connections eg)) \<Longrightarrow> distinct (map fst (eg_connections (attach cap snk i address hello replay eg)))"
  by (auto simp: attach_def Let_def detach_def distinct_update distinct_delete split: option.splits)

lemma queue_cap_pos [simp]: "0 < queue_cap m"
  by (simp add: queue_cap_def split: option.split)

subsection \<open>The properties\<close>

text \<open>C19: over any operations of the coordinator, every frame it sent carries a chain block, a source
  sequence or the presentation-only mark, and a reader that resumes from a sequence the
  coordinator has reached gets either a snapshot at its current sequence or exactly the frames
  after its cursor, each once, in order, none missing.\<close>

theorem resume_misses_nothing:
  assumes "co = operate_all cfg room acts new_coordinator" "n \<le> co_roomSeq co"
  shows "(\<forall>f \<in> set (co_sent co). fr_chain f \<noteq> None \<or> fr_source_seq f \<noteq> None \<or> fr_presentation_only f)
    \<and> ((\<exists>s. framesSince cfg room p (Some (int n)) nowMs co = Resync s \<and> sn_seq s = co_roomSeq co)
      \<or> (\<exists>fs. framesSince cfg room p (Some (int n)) nowMs co = Deliver fs
          \<and> map fr_seq fs = [n + 1..<co_roomSeq co + 1] \<and> set fs \<subseteq> set (co_sent co)))"
proof -
  from operate_all_extends [OF numbered_new, of cfg room acts] assms(1) have n: "numbered co" by (simp add: extends_sent_def)
  then have "\<forall>f \<in> set (co_sent co). fr_chain f \<noteq> None \<or> fr_source_seq f \<noteq> None \<or> fr_presentation_only f"
    by (simp add: numbered_def)
  with framesSince_exact [OF n assms(2)] show ?thesis by blast
qed

text \<open>C18: a connection that resumed from a sequence the coordinator had reached, and is then sent
  everything the coordinator publishes through whatever fills and drains its sink, never holds a
  frame that skips a number after the one before it unless a notice of dropped frames or a
  snapshot stands between; with room in its queue and no such notice last, it is up to date.\<close>

theorem connection_no_silent_gap:
  assumes "co = operate_all cfg room acts new_coordinator" "n \<le> co_roomSeq co"
    and "co' = operate_all cfg room later co" "co_sent co' = co_sent co @ fs"
    and "distinct (map fst (eg_connections eg))" "cap = queue_cap maxQueue"
    and "js_get (eg_connections (broadcast_all cap snk fs (attach cap snk i address (hello_item co)
        (replay_items cfg room p (Some (Some (int n))) nowMs co) eg))) i = Some c"
  shows "no_silent_gap (Some n) (cn_out c)
    \<and> (cn_backlog c < cap \<longrightarrow> position (Some n) (cn_out c) \<in> {None, Some (co_roomSeq co')})"
proof -
  from operate_all_extends [OF numbered_new, of cfg room acts] assms(1) have nco: "numbered co" by (simp add: extends_sent_def)
  with operate_all_extends [OF nco, of cfg room later] assms(3) have nco': "numbered co'" by (simp add: extends_sent_def)
  have "map fr_seq (co_sent co @ fs) = [1..<co_roomSeq co' + 1]" "map fr_seq (co_sent co) = [1..<co_roomSeq co + 1]"
    using nco nco' assms(4) by (simp_all add: numbered_def)
  moreover from this have le: "co_roomSeq co \<le> co_roomSeq co'" by (metis Suc_eq_plus1 diff_Suc_1 le_add1 length_append length_map length_upt)
  ultimately have fs: "map fr_seq fs = [co_roomSeq co + 1..<co_roomSeq co' + 1]"
    using upt_add_eq_append [of 1 "co_roomSeq co + 1" "co_roomSeq co' - co_roomSeq co"] by simp
  from assms(7) connection_broadcast_all [OF distinct_attach [OF assms(5)]] attach_connection obtain c0 where
    c0: "send_items cap snk i (hello_item co # replay_items cfg room p (Some (Some (int n))) nowMs co) new_connection = Some c0"
      "send_items cap snk i (map FrameItem fs) c0 = Some c"
    by (auto simp: bind_eq_Some_conv)
  have "in_step_to cap (Some n) n new_connection" by (simp add: in_step_to_def new_connection_def position_def)
  from send_items_in_step [OF c0(1) this replay_follows [OF nco assms(2)]] assms(6)
  have "in_step_to cap (Some n) (co_roomSeq co) c0" by simp
  from send_items_in_step [OF c0(2) this follow_frames [OF fs le]] assms(6)
  have "in_step_to cap (Some n) (co_roomSeq co') c" by simp
  then show ?thesis by (simp add: in_step_to_def)
qed

text \<open>The instance: one viewer, one frame.\<close>

definition sample_config :: coordinator_config where
  "sample_config = \<lparr> cc_freshnessThresholdMs = 10000, cc_retention = None, cc_maxOpenSlots = JNull, cc_chainHeadMaxAgeMs = None \<rparr>"

definition viewers_frame :: frame where
  "viewers_frame = \<lparr> fr_seq = 1, fr_type = ''viewers.updated'', fr_source_seq = None, fr_chain = None,
     fr_presentation_only = True, fr_payload = Viewers (Some 3) \<rparr>"

lemma sample_operation:
  "operate_all sample_config ''room'' [ViewersOp (Some 3)] new_coordinator =
    new_coordinator\<lparr>co_roomSeq := 1, co_frames := [viewers_frame], co_viewers := Some 3, co_sent := [viewers_frame]\<rparr>"
  by (simp add: operate_all_def setViewers_def publish_frame_def Let_def PRESENTATION_ONLY_TYPES_def settled_def
      new_coordinator_def sample_config_def viewers_frame_def)

theorem resume_misses_nothing_witness:
  "framesSince sample_config ''room'' reset_store (Some 0) 0 (operate_all sample_config ''room'' [ViewersOp (Some 3)] new_coordinator)
    = Deliver [viewers_frame]
   \<and> list_all (\<lambda>f. \<not> (fr_chain f = None \<and> fr_source_seq f = None \<and> \<not> fr_presentation_only f))
        (co_sent (operate_all sample_config ''room'' [ViewersOp (Some 3)] new_coordinator))"
proof (intro conjI)
  show "framesSince sample_config ''room'' reset_store (Some 0) 0
      (operate_all sample_config ''room'' [ViewersOp (Some 3)] new_coordinator) = Deliver [viewers_frame]"
    by (simp add: sample_operation framesSince_def viewers_frame_def)
qed (use resume_misses_nothing [OF refl, of 0 sample_config "''room''" "[ViewersOp (Some 3)]" reset_store 0]
  in \<open>auto simp: list_all_iff\<close>)

definition open_sink :: sink where
  "open_sink i out x = Accepted"

theorem connection_no_silent_gap_witness:
  "\<exists>c. js_get (eg_connections (broadcast_all 256 open_sink [viewers_frame] (attach 256 open_sink 7 None (hello_item new_coordinator)
        (replay_items sample_config ''room'' reset_store (Some (Some 0)) 0 new_coordinator) new_edge))) 7 = Some c
     \<and> FrameItem viewers_frame \<in> set (cn_out c) \<and> no_silent_gap (Some 0) (cn_out c)"
proof -
  let ?eg = "broadcast_all 256 open_sink [viewers_frame] (attach 256 open_sink 7 None (hello_item new_coordinator)
        (replay_items sample_config ''room'' reset_store (Some (Some 0)) 0 new_coordinator) new_edge)"
  have "\<exists>c. js_get (eg_connections ?eg) 7 = Some c \<and> FrameItem viewers_frame \<in> set (cn_out c)"
    by (simp add: connection_broadcast_all distinct_attach attach_connection new_edge_def send_item_def sink_send_def
        open_sink_def new_connection_def replay_items_def framesSince_def new_coordinator_def)
  then obtain c where c: "js_get (eg_connections ?eg) 7 = Some c" "FrameItem viewers_frame \<in> set (cn_out c)" by blast
  have "operate_all sample_config ''room'' [] new_coordinator = new_coordinator" by (simp add: operate_all_def)
  from connection_no_silent_gap [OF this [symmetric] le0 sample_operation [symmetric], of "[viewers_frame]" new_edge 256 None
      open_sink 7 None reset_store 0 c] c(1)
  have "no_silent_gap (Some 0) (cn_out c)"
    by (simp add: queue_cap_def new_edge_def new_coordinator_def)
  with c show ?thesis by blast
qed

end
