(* ===== verification/Keeper.thy ===== *)
theory Keeper
  imports RoomChain
begin

section \<open>The keeper (keeper/keeper.mjs)\<close>

text \<open>
  Finalizes markets once the contract would let anyone do it: a pure decision over the
  settlement state of a market, and one pass over the closed markets of a room.
\<close>

datatype keeper_action = DoExpireChallenge | DoFinalizeUnchallenged | DoInvalidateUnresolved

definition UNSET :: int where
  "UNSET = 0"

definition dueAction :: "settlement_state \<Rightarrow> int \<Rightarrow> keeper_action option" where
  "dueAction state nowS =
     (if st_finalOutcome state \<noteq> UNSET then None
      else if st_challenged state then
        (if nowS \<ge> st_challengedAt state + st_challengeTimeout state then Some DoExpireChallenge else None)
      else if st_provisionalOutcome state \<noteq> UNSET then
        (if nowS \<ge> st_provisionalAt state + st_challengeWindow state then Some DoFinalizeUnchallenged else None)
      else
        let dueAt = st_resolutionDueAt state in
        if st_gateState state = Closed \<and> dueAt > 0 \<and> nowS \<ge> dueAt then Some DoInvalidateUnresolved else None)"

definition keeper_call :: "keeper_action \<Rightarrow> fake_chain \<Rightarrow> string \<Rightarrow> int \<Rightarrow> fake_chain \<times> unit chain_result" where
  "keeper_call a c market nowS =
     (case a of
        DoExpireChallenge \<Rightarrow> expireChallenge c market nowS
      | DoFinalizeUnchallenged \<Rightarrow> finalizeUnchallenged c market nowS
      | DoInvalidateUnresolved \<Rightarrow> invalidateUnresolved c market nowS)"

record keeper_report =
  kr_market :: string
  kr_action :: "keeper_action option"
  kr_error :: "chain_error option"

definition keep_slot :: "int \<Rightarrow> string \<Rightarrow> fake_chain \<Rightarrow> fake_chain \<times> keeper_report list" where
  "keep_slot nowS market c =
     (case settlementStateOf c market of
        Inl err \<Rightarrow> (c, [\<lparr> kr_market = market, kr_action = None, kr_error = Some err \<rparr>])
      | Inr state \<Rightarrow>
          (case dueAction state nowS of
             None \<Rightarrow> (c, [])
           | Some a \<Rightarrow>
               (case keeper_call a c market nowS of
                  (c', Inr u) \<Rightarrow> (c', [\<lparr> kr_market = market, kr_action = Some a, kr_error = None \<rparr>])
                | (c', Inl err) \<Rightarrow> (c', [\<lparr> kr_market = market, kr_action = Some a, kr_error = Some err \<rparr>]))))"

fun keep_slots :: "int \<Rightarrow> string list \<Rightarrow> fake_chain \<Rightarrow> fake_chain \<times> keeper_report list" where
  "keep_slots nowS [] c = (c, [])"
| "keep_slots nowS (m # ms) c =
     (let (c1, r1) = keep_slot nowS m c; (c2, r2) = keep_slots nowS ms c1 in (c2, r1 @ r2))"

definition keeper_tick :: "fake_chain \<Rightarrow> int \<Rightarrow> fake_chain \<times> keeper_report list" where
  "keeper_tick c nowS = keep_slots nowS (map sr_market (closedSlots c)) c"

subsection \<open>The keeper calls exactly what the chain accepts\<close>

text \<open>
  States the contract can be in: a challenge disputes a registered outcome, and a deadline that
  is set is a positive time.
\<close>

definition wf_slot :: "slot \<Rightarrow> bool" where
  "wf_slot s \<longleftrightarrow> (sl_challenged s \<longrightarrow> sl_provisionalOutcome s \<noteq> 0)
     \<and> (\<forall>t. sl_resolutionDueAt s = Some t \<longrightarrow> 0 < t)"

definition accepts :: "fake_chain \<Rightarrow> string \<Rightarrow> int \<Rightarrow> keeper_action \<Rightarrow> bool" where
  "accepts c market nowS a \<longleftrightarrow> (\<exists>c'. keeper_call a c market nowS = (c', Inr ()))"

lemma guarded_write_ok:
  "(\<exists>c'. guarded_write market refused f x c = (c', Inr ()))
    \<longleftrightarrow> (\<exists>s. slot_of c market = Inr s \<and> \<not> refused s) \<and> truthy_text (js_get (fc_failures c) market) = None"
  by (auto simp: guarded_write_def maybeFail_def split: sum.splits option.splits)

text \<open>C35: the keeper acts exactly when the chain would let it. On a closed market, an
  action is due by the keeper's decision table if and only if the settlement call it stands for
  is accepted at that time.\<close>

lemma dueAction_accepted:
  assumes "slot_of c market = Inr s" "wf_slot s" "sl_closed s" "sl_resolutionDueAt s \<noteq> None"
    and "truthy_text (js_get (fc_failures c) market) = None"
  shows "dueAction (settlement_of s) nowS = Some a \<longleftrightarrow> accepts c market nowS a"
proof -
  from assms(4) obtain t where t: "sl_resolutionDueAt s = Some t" by blast
  with assms(2) have "0 < t" by (simp add: wf_slot_def)
  with assms t show ?thesis
    by (cases a) (auto simp: accepts_def keeper_call_def finalizeUnchallenged_def expireChallenge_def
        invalidateUnresolved_def guarded_write_ok dueAction_def settlement_of_def UNSET_def wf_slot_def Let_def)
qed

lemma keep_slot_effect:
  assumes "slot_of c m = Inr s" "truthy_text (js_get (fc_failures c) m) = None"
    and "dueAction (settlement_of s) nowS \<noteq> None" "wf_slot s"
    and "sl_resolutionDueAt s \<noteq> None"
  shows "\<exists>s'. slot_of (fst (keep_slot nowS m c)) m = Inr s' \<and> sl_finalOutcome s' \<noteq> 0"
proof -
  from assms(3) obtain a where a: "dueAction (settlement_of s) nowS = Some a" by blast
  with assms(1,2,4,5) show ?thesis
    by (cases a) (auto simp: keep_slot_def settlementStateOf_def keeper_call_def guarded_write_def maybeFail_def
        finalizeUnchallenged_def expireChallenge_def invalidateUnresolved_def port_simps dueAction_def
        settlement_of_def UNSET_def wf_slot_def Let_def split: if_splits)
qed

lemma guarded_write_other:
  assumes "m' \<noteq> m" "\<And>s. sl_market (f s) = sl_market s"
  shows "slot_of (fst (guarded_write m refused f x c)) m' = slot_of c m'"
    "js_get (fc_failures (fst (guarded_write m refused f x c))) m' = js_get (fc_failures c) m'"
proof -
  show "slot_of (fst (guarded_write m refused f x c)) m' = slot_of c m'"
    using assms(1)
    by (auto simp: guarded_write_def maybeFail_def slot_of_update [OF assms(2)] slot_of_other sum.map_ident
        split: sum.splits option.splits)
  show "js_get (fc_failures (fst (guarded_write m refused f x c))) m' = js_get (fc_failures c) m'"
    using assms(1)
    by (auto simp: guarded_write_def maybeFail_def port_simps called_def update_slot_def
        split: sum.splits option.splits)
qed

lemma keep_slot_other:
  assumes "m' \<noteq> m"
  shows "slot_of (fst (keep_slot nowS m c)) m' = slot_of c m'"
    "js_get (fc_failures (fst (keep_slot nowS m c))) m' = js_get (fc_failures c) m'"
proof -
  have "slot_of (fst (keeper_call a c m nowS)) m' = slot_of c m'"
    "js_get (fc_failures (fst (keeper_call a c m nowS))) m' = js_get (fc_failures c) m'" for a
    using assms
    by (cases a; simp add: keeper_call_def finalizeUnchallenged_def expireChallenge_def invalidateUnresolved_def
        guarded_write_other)+
  then show "slot_of (fst (keep_slot nowS m c)) m' = slot_of c m'"
    "js_get (fc_failures (fst (keep_slot nowS m c))) m' = js_get (fc_failures c) m'"
    by (auto simp: keep_slot_def split: sum.splits option.splits prod.splits) (metis fst_conv)+
qed

lemma keep_slots_Cons: "fst (keep_slots nowS (x # xs) c) = fst (keep_slots nowS xs (fst (keep_slot nowS x c)))"
  by (simp add: Let_def split: prod.splits)

lemma keep_slots_other:
  assumes "m' \<notin> set ms"
  shows "slot_of (fst (keep_slots nowS ms c)) m' = slot_of c m'
    \<and> js_get (fc_failures (fst (keep_slots nowS ms c))) m' = js_get (fc_failures c) m'"
  using assms
proof (induction ms arbitrary: c)
  case (Cons m ms)
  then have "m' \<noteq> m" "m' \<notin> set ms" by auto
  with Cons.IH [of "fst (keep_slot nowS m c)"] show ?case
    unfolding keep_slots_Cons by (simp add: keep_slot_other)
qed simp

lemma keep_slots_settle:
  assumes "m \<in> set ms" "distinct ms" "slot_of c m = Inr s" "truthy_text (js_get (fc_failures c) m) = None"
    and "dueAction (settlement_of s) nowS \<noteq> None" "wf_slot s" "sl_resolutionDueAt s \<noteq> None"
  shows "\<exists>s'. slot_of (fst (keep_slots nowS ms c)) m = Inr s' \<and> sl_finalOutcome s' \<noteq> 0"
  using assms
proof (induction ms arbitrary: c)
  case (Cons x xs)
  show ?case
  proof (cases "x = m")
    case True
    with Cons.prems have "m \<notin> set xs" by simp
    with keep_slot_effect [OF Cons.prems(3-7)] True keep_slots_other show ?thesis unfolding keep_slots_Cons by simp
  next
    case False
    with Cons.prems show ?thesis
      unfolding keep_slots_Cons by (intro Cons.IH) (simp_all add: keep_slot_other)
  qed
qed simp

text \<open>C36: one pass of the keeper settles every market that is due. Whatever happens to the others,
  each closed market whose settlement call is due has a final outcome after the pass.\<close>

theorem keeper_tick_settles:
  assumes "distinct (map sl_market (fc_slots c))" "s \<in> set (fc_slots c)" "sl_closed s" "wf_slot s"
    and "sl_resolutionDueAt s \<noteq> None" "truthy_text (js_get (fc_failures c) (sl_market s)) = None"
    and "dueAction (settlement_of s) nowS \<noteq> None"
  shows "\<exists>s'. slot_of (fst (keeper_tick c nowS)) (sl_market s) = Inr s' \<and> sl_finalOutcome s' \<noteq> 0"
proof -
  have "sl_finalOutcome s = 0"
    using assms(7) by (auto simp: dueAction_def settlement_of_def UNSET_def split: if_splits)
  then have due: "sl_market s \<in> set (map sr_market (closedSlots c))"
    using assms(2,3) by (force simp: closedSlots_def ref_of_def)
  have "map sr_market (closedSlots c) = map sl_market (filter (\<lambda>s. sl_closed s \<and> sl_finalOutcome s = 0) (fc_slots c))"
    by (simp add: closedSlots_def ref_of_def comp_def)
  then have dist: "distinct (map sr_market (closedSlots c))" using assms(1) by (simp add: distinct_map_filter)
  show ?thesis
    unfolding keeper_tick_def
    by (rule keep_slots_settle [OF due dist slot_of_unique [OF assms(1,2)] assms(6,7,4,5)])
qed

subsection \<open>A market due for settlement\<close>

definition due_slot :: slot where
  "due_slot = (new_slot ''m'' 0 ''c'')\<lparr>sl_closed := True, sl_resolutionDueAt := Some 100\<rparr>"

definition due_chain :: fake_chain where
  "due_chain = new_chain\<lparr>fc_slots := [due_slot]\<rparr>"

lemma dueAction_accepted_witness: "accepts due_chain ''m'' 100 DoInvalidateUnresolved"
proof -
  have "slot_of due_chain ''m'' = Inr due_slot"
    by (simp add: slot_of_def due_chain_def due_slot_def new_slot_def)
  from dueAction_accepted [OF this, of 100 DoInvalidateUnresolved] show ?thesis
    by (simp add: wf_slot_def due_slot_def new_slot_def due_chain_def new_chain_def truthy_text_def dueAction_def
        settlement_of_def UNSET_def)
qed

lemma keeper_tick_settles_witness:
  "\<exists>s'. slot_of (fst (keeper_tick due_chain 100)) ''m'' = Inr s' \<and> sl_finalOutcome s' \<noteq> 0"
  using keeper_tick_settles [of due_chain due_slot 100]
  by (simp add: wf_slot_def due_slot_def new_slot_def due_chain_def new_chain_def truthy_text_def dueAction_def
      settlement_of_def UNSET_def)

end
