(* ===== verification/MarketMath.thy ===== *)
theory MarketMath
  imports Decimal
begin

section \<open>Fixed-product quotes (prototype/live-market-app/src/web3/marketMath.js)\<close>

text \<open>
  The quotes the trading surface shows, on \<open>BigInt\<close> amounts of collateral. Division is the
  truncated quotient and throws on a zero divisor; \<open>sqrtFloor\<close> is Newton's iteration and
  throws on a negative argument. The floating-point conversions \<open>toUsdc\<close> and \<open>fromUsdc\<close>
  are not modelled.
\<close>

datatype quote_error =
    WinnerRewardBpsRequired
  | RangeErrorDivisionByZero
  | NegativeSquareRoot

definition big_div :: "int \<Rightarrow> int \<Rightarrow> quote_error + int" where
  "big_div a b = (if b = 0 then Inl RangeErrorDivisionByZero else Inr (trunc_div a b))"

lemma trunc_div_nonneg: "0 \<le> a \<Longrightarrow> 0 < b \<Longrightarrow> trunc_div a b = a div b"
  by (cases "a = 0") (simp_all add: trunc_div_def)

lemma big_div_pos: "0 \<le> a \<Longrightarrow> 0 < b \<Longrightarrow> big_div a b = Inr (a div b)"
  by (simp add: big_div_def trunc_div_nonneg)

subsection \<open>Buying\<close>

record buy_quote =
  winnerRewardFee :: int
  buyLiquidityFee :: int
  tradeInput :: int
  positionsOut :: int
  buyNewSelected :: int
  buyNewOther :: int

definition quoteBuy :: "int \<Rightarrow> int \<Rightarrow> bool \<Rightarrow> int \<Rightarrow> int option \<Rightarrow> quote_error + buy_quote" where
  "quoteBuy reserveA reserveB participantAOutcome budget winnerRewardBps =
     (case winnerRewardBps of
        None \<Rightarrow> Inl WinnerRewardBpsRequired
      | Some bps \<Rightarrow>
          (let rewardFee = trunc_div (budget * bps) 10000;
               liquidityFee = trunc_div (budget * 30) 10000;
               input = budget - rewardFee - liquidityFee;
               selected = (if participantAOutcome then reserveA else reserveB);
               other = (if participantAOutcome then reserveB else reserveA);
               newOther = other + input;
               product = selected * other
           in bind_res (big_div (product + newOther - 1) newOther) (\<lambda>newSelected.
                Inr \<lparr> winnerRewardFee = rewardFee, buyLiquidityFee = liquidityFee, tradeInput = input,
                      positionsOut = selected + input - newSelected,
                      buyNewSelected = newSelected, buyNewOther = newOther \<rparr>)))"

subsection \<open>The integer square root\<close>

fun sqrt_loop :: "nat \<Rightarrow> nat \<Rightarrow> nat \<Rightarrow> quote_error + nat" where
  "sqrt_loop v x nxt =
     (if nxt < x
      then if nxt = 0 then Inl RangeErrorDivisionByZero
           else sqrt_loop v nxt ((nxt + v div nxt) div 2)
      else Inr x)"

declare sqrt_loop.simps [simp del]

definition sqrtFloor :: "int \<Rightarrow> quote_error + int" where
  "sqrtFloor value =
     (if value < 0 then Inl NegativeSquareRoot
      else if value < 2 then Inr value
      else let v = nat value in
           map_sum id int (sqrt_loop v v ((v + v div v) div 2)))"

subsection \<open>Selling\<close>

record sell_quote =
  grossCollateral :: int
  sellLiquidityFee :: int
  collateralOut :: int
  sellNewSelected :: int
  sellNewOther :: int

definition quoteSell :: "int \<Rightarrow> int \<Rightarrow> bool \<Rightarrow> int \<Rightarrow> quote_error + sell_quote" where
  "quoteSell reserveA reserveB participantAOutcome positionsIn =
     (let selected = (if participantAOutcome then reserveA else reserveB);
          other = (if participantAOutcome then reserveB else reserveA);
          total = selected + positionsIn + other;
          discriminant = total * total - 4 * positionsIn * other
      in bind_res (sqrtFloor discriminant) (\<lambda>floorRoot.
           let root = (if floorRoot * floorRoot = discriminant then floorRoot else floorRoot + 1);
               gross = trunc_div (total - root) 2;
               liquidityFee = trunc_div (gross * 30) 10000
           in Inr \<lparr> grossCollateral = gross, sellLiquidityFee = liquidityFee,
                    collateralOut = gross - liquidityFee,
                    sellNewSelected = selected + positionsIn - gross,
                    sellNewOther = other - gross \<rparr>))"

subsection \<open>Newton's iteration returns the floor of the root\<close>

lemma four_mul_le_square: "4 * (a * b) \<le> (a + b) ^ 2" for a b :: nat
proof -
  have "int (4 * (a * b)) \<le> int ((a + b) ^ 2)"
    using zero_le_power2 [of "int a - int b"] by (simp add: power2_eq_square algebra_simps)
  then show ?thesis by (simp only: of_nat_le_iff)
qed

lemma newton_step_above:
  fixes x v :: nat
  assumes "0 < x"
  shows "v < ((x + v div x) div 2 + 1) ^ 2"
proof -
  let ?q = "v div x" and ?n = "(x + v div x) div 2"
  have v: "v < x * (?q + 1)"
    using assms dividend_less_times_div [of x v] by (simp add: algebra_simps)
  have "y + 1 \<le> 2 * (y div 2 + 1)" for y :: nat by presburger
  from this [of "x + ?q"] have "x + (?q + 1) \<le> 2 * (?n + 1)" by (simp only: add.assoc)
  then have "(x + (?q + 1)) ^ 2 \<le> (2 * (?n + 1)) ^ 2" by (rule power_mono) simp
  moreover have "4 * (x * (?q + 1)) \<le> (x + (?q + 1)) ^ 2" by (rule four_mul_le_square)
  ultimately have "4 * (x * (?q + 1)) \<le> (2 * (?n + 1)) ^ 2" by (rule le_trans [rotated])
  then have "4 * (x * (?q + 1)) \<le> 4 * (?n + 1) ^ 2" unfolding power_mult_distrib by simp
  with v show ?thesis by linarith
qed

lemma newton_step_pos: "0 < x \<Longrightarrow> 2 \<le> v \<Longrightarrow> 0 < (x + v div x) div (2 :: nat)"
  by (cases "x = 1") (simp_all add: div_greater_zero_iff)

lemma sqrt_loop_correct:
  assumes "2 \<le> v" "0 < x" "v < (x + 1) ^ 2" "nxt = (x + v div x) div 2"
  shows "\<exists>r. sqrt_loop v x nxt = Inr r \<and> r ^ 2 \<le> v \<and> v < (r + 1) ^ 2"
  using assms
proof (induction v x nxt rule: sqrt_loop.induct)
  case (1 v x nxt)
  show ?case
  proof (cases "nxt < x")
    case True
    have pos: "0 < nxt" using 1 newton_step_pos by simp
    have above: "v < (nxt + 1) ^ 2" using 1(3,5) newton_step_above [of x v] by simp
    have "\<exists>r. sqrt_loop v nxt ((nxt + v div nxt) div 2) = Inr r \<and> r ^ 2 \<le> v \<and> v < (r + 1) ^ 2"
      using 1(1) [OF True _ 1(2) pos above refl] pos by simp
    with True pos show ?thesis by (simp add: sqrt_loop.simps [of v x nxt])
  next
    case False
    with 1 have "x \<le> v div x" by linarith
    then have "x * x \<le> x * (v div x)" by (rule mult_le_mono2)
    also have "\<dots> \<le> v" by (simp add: mult.commute div_times_less_eq_dividend)
    finally have "x ^ 2 \<le> v" by (simp add: power2_eq_square)
    with False 1(4) show ?thesis by (simp add: sqrt_loop.simps [of v x nxt])
  qed
qed

lemma sqrtFloor_correct:
  assumes "0 \<le> n"
  shows "\<exists>r. sqrtFloor n = Inr r \<and> 0 \<le> r \<and> r * r \<le> n \<and> n < (r + 1) * (r + 1)"
proof (cases "n < 2")
  case True
  with assms have "n = 0 \<or> n = 1" by auto
  then show ?thesis by (auto simp: sqrtFloor_def)
next
  case False
  define v where "v = nat n"
  have v: "2 \<le> v" "int v = n" using False by (simp_all add: v_def)
  have "v < (v + 1) ^ 2" by (simp add: power2_eq_square)
  with v obtain r where r: "sqrt_loop v v ((v + v div v) div 2) = Inr r" "r ^ 2 \<le> v" "v < (r + 1) ^ 2"
    using sqrt_loop_correct [of v v] by auto
  have "sqrtFloor n = Inr (int r)" using False r(1) by (simp add: sqrtFloor_def v_def)
  moreover have "int r * int r \<le> n" using r(2) v(2) by (metis of_nat_le_iff of_nat_mult power2_eq_square)
  moreover have "int v < int ((r + 1) ^ 2)" using r(3) by (simp only: of_nat_less_iff)
  then have "n < (int r + 1) * (int r + 1)" using v(2) by (simp add: power2_eq_square algebra_simps)
  ultimately show ?thesis by auto
qed

subsection \<open>What a quote promises\<close>

text \<open>The smallest reserve that keeps the product: the division rounded up.\<close>

lemma ceil_div_bounds:
  fixes k d :: int
  assumes "0 < d" "0 \<le> k"
  shows "k \<le> ((k + d - 1) div d) * d \<and> ((k + d - 1) div d) * d < k + d"
proof -
  have "(k + d - 1) div d * d = (k + d - 1) - (k + d - 1) mod d" by (simp add: minus_mod_eq_div_mult)
  moreover have "0 \<le> (k + d - 1) mod d" "(k + d - 1) mod d < d" using assms by simp_all
  ultimately show ?thesis by linarith
qed

definition buy_side :: "int \<Rightarrow> int \<Rightarrow> bool \<Rightarrow> int \<times> int" where
  "buy_side a b pa = (if pa then (a, b) else (b, a))"

lemma fee_split:
  fixes budget bps :: int
  assumes "0 \<le> budget" "0 \<le> bps" "bps \<le> 9970"
  shows "0 \<le> budget - budget * bps div 10000 - budget * 30 div 10000"
proof -
  have "budget * bps \<le> budget * 9970" using assms by (simp add: mult_left_mono)
  then have "budget * bps div 10000 \<le> budget * 9970 div 10000" by (rule zdiv_mono1) simp
  then show ?thesis using assms(1) by linarith
qed

lemma quoteBuy_bounds:
  assumes "0 < reserveA" "0 < reserveB" "0 \<le> budget" "0 \<le> bps" "bps \<le> 9970"
    and "buy_side reserveA reserveB pa = (selected, other)"
  shows "\<exists>q. quoteBuy reserveA reserveB pa budget (Some bps) = Inr q
    \<and> winnerRewardFee q + buyLiquidityFee q + tradeInput q = budget
    \<and> 0 \<le> tradeInput q
    \<and> buyNewOther q = other + tradeInput q
    \<and> buyNewSelected q = selected + tradeInput q - positionsOut q
    \<and> selected * other \<le> buyNewSelected q * buyNewOther q
    \<and> buyNewSelected q * buyNewOther q < selected * other + buyNewOther q
    \<and> 0 < buyNewSelected q \<and> tradeInput q \<le> positionsOut q"
proof -
  define rf where "rf = budget * bps div 10000"
  define lf where "lf = budget * 30 div 10000"
  define inp where "inp = budget - rf - lf"
  define d where "d = other + inp"
  define ns where "ns = (selected * other + d - 1) div d"
  have sides: "0 < selected" "0 < other"
      "(if pa then reserveA else reserveB) = selected" "(if pa then reserveB else reserveA) = other"
    using assms by (auto simp: buy_side_def split: if_splits)
  have fees: "trunc_div (budget * bps) 10000 = rf" "trunc_div (budget * 30) 10000 = lf"
    using assms by (simp_all add: trunc_div_nonneg rf_def lf_def)
  have input: "0 \<le> inp" using fee_split [OF assms(3-5)] by (simp only: inp_def rf_def lf_def)
  have d: "0 < d" using sides input by (simp add: d_def)
  have div: "big_div (selected * other + d - 1) d = Inr ns"
    unfolding ns_def using mult_pos_pos [OF sides(1,2)] d by (intro big_div_pos) linarith+
  have "quoteBuy reserveA reserveB pa budget (Some bps)
      = Inr \<lparr>winnerRewardFee = rf, buyLiquidityFee = lf, tradeInput = inp,
             positionsOut = selected + inp - ns, buyNewSelected = ns, buyNewOther = d\<rparr>"
    unfolding quoteBuy_def option.case Let_def fees sides(3,4) inp_def [symmetric] d_def [symmetric] div
    by simp
  moreover have ns: "selected * other \<le> ns * d \<and> ns * d < selected * other + d"
    unfolding ns_def using ceil_div_bounds [OF d, of "selected * other"] sides by simp
  moreover have "0 < ns"
  proof -
    have "0 < ns * d" using ns mult_pos_pos [OF sides(1,2)] by linarith
    then show ?thesis using d by (simp add: zero_less_mult_iff)
  qed
  moreover have "ns \<le> selected"
  proof -
    have "selected * other \<le> selected * d" using sides input by (intro mult_left_mono) (simp_all add: d_def)
    with ns have "ns * d < (selected + 1) * d" by (simp add: distrib_right)
    then show ?thesis using d by (simp add: mult_less_cancel_right)
  qed
  ultimately show ?thesis using input by (simp add: inp_def d_def)
qed

lemma discriminant_nonneg:
  fixes s p b :: int
  assumes "0 \<le> s" "0 \<le> p" "0 \<le> b"
  shows "(p + b) ^ 2 \<le> (s + p + b) ^ 2 \<and> 4 * p * b \<le> (p + b) ^ 2"
proof -
  have "0 \<le> (p - b) ^ 2" by simp
  moreover have "(p + b) ^ 2 \<le> (s + p + b) ^ 2" using assms by (intro power_mono) auto
  ultimately show ?thesis by (simp add: power2_eq_square algebra_simps)
qed

text \<open>The seller is paid \<open>g\<close> exactly when the pool keeps its product.\<close>

lemma product_kept_iff:
  fixes s p b g :: int
  shows "s * b \<le> (s + p - g) * (b - g) \<longleftrightarrow> (s + p + b) ^ 2 - 4 * p * b \<le> (s + p + b - 2 * g) ^ 2"
proof -
  have "(s + p + b - 2 * g) ^ 2 - ((s + p + b) ^ 2 - 4 * p * b) = 4 * ((s + p - g) * (b - g) - s * b)"
    by (simp add: power2_eq_square algebra_simps)
  moreover have "W \<le> Z \<longleftrightarrow> Y \<le> X" if "X - Y = 4 * (Z - W)" for X Y Z W :: int
    using that by presburger
  ultimately show ?thesis by blast
qed

lemma ceil_root_le_iff:
  fixes d f m :: int
  assumes "0 \<le> f" "f * f \<le> d" "d < (f + 1) * (f + 1)" "0 \<le> m"
  shows "d \<le> m * m \<longleftrightarrow> (if f * f = d then f else f + 1) \<le> m"
proof
  assume *: "d \<le> m * m"
  show "(if f * f = d then f else f + 1) \<le> m"
  proof (rule ccontr)
    assume "\<not> ?thesis"
    then have less: "m < (if f * f = d then f else f + 1)" by simp
    show False
    proof (cases "f * f = d")
      case True
      with less have "m * m < f * f" using assms by (intro mult_strict_mono') simp_all
      with True * show False by simp
    next
      case False
      with less have "m \<le> f" by simp
      then have "m * m \<le> f * f" using assms by (intro mult_mono) simp_all
      with False * assms(2) show False by simp
    qed
  qed
next
  assume "(if f * f = d then f else f + 1) \<le> m"
  then show "d \<le> m * m"
    using assms mult_mono [of "f + 1" m "f + 1" m] mult_mono [of f m f m] by (auto split: if_splits)
qed

lemma quoteSell_bounds:
  assumes "0 < reserveA" "0 < reserveB" "0 \<le> positionsIn"
    and "buy_side reserveA reserveB pa = (selected, other)"
  shows "\<exists>q. quoteSell reserveA reserveB pa positionsIn = Inr q
    \<and> sellNewSelected q = selected + positionsIn - grossCollateral q
    \<and> sellNewOther q = other - grossCollateral q
    \<and> 0 \<le> grossCollateral q
    \<and> 2 * grossCollateral q \<le> selected + positionsIn + other
    \<and> collateralOut q + sellLiquidityFee q = grossCollateral q \<and> 0 \<le> sellLiquidityFee q
    \<and> selected * other \<le> sellNewSelected q * sellNewOther q
    \<and> (\<forall>g. 2 * g \<le> selected + positionsIn + other \<longrightarrow>
          selected * other \<le> (selected + positionsIn - g) * (other - g) \<longrightarrow> g \<le> grossCollateral q)"
proof -
  let ?t = "selected + positionsIn + other"
  let ?d = "?t * ?t - 4 * positionsIn * other"
  have sides: "0 < selected" "0 < other"
      "(if pa then reserveA else reserveB) = selected" "(if pa then reserveB else reserveA) = other"
    using assms by (auto simp: buy_side_def split: if_splits)
  have d: "0 \<le> ?d" "?d \<le> ?t * ?t"
    using discriminant_nonneg [of selected positionsIn other] sides assms
    by (simp_all add: power2_eq_square)
  obtain f where f: "sqrtFloor ?d = Inr f" "0 \<le> f" "f * f \<le> ?d" "?d < (f + 1) * (f + 1)"
    using sqrtFloor_correct [OF d(1)] by blast
  let ?root = "if f * f = ?d then f else f + 1"
  note root_le = ceil_root_le_iff [OF f(2-4)]
  have "?root \<le> ?t" using root_le [of ?t] d sides assms by simp
  then have gross: "trunc_div (?t - ?root) 2 = (?t - ?root) div 2" by (simp add: trunc_div_nonneg)
  let ?g = "(?t - ?root) div 2"
  have max: "selected * other \<le> (selected + positionsIn - g) * (other - g) \<longleftrightarrow> ?root \<le> ?t - 2 * g"
    if "2 * g \<le> ?t" for g
    using product_kept_iff [of selected other positionsIn g] root_le [of "?t - 2 * g"] that
    by (simp add: power2_eq_square)
  have "2 * ?g \<le> ?t - ?root" by linarith
  moreover have "0 \<le> ?root" using f(2) by simp
  ultimately have g: "2 * ?g \<le> ?t" "?root \<le> ?t - 2 * ?g" by linarith+
  have "g \<le> ?g" if "2 * g \<le> ?t" "selected * other \<le> (selected + positionsIn - g) * (other - g)" for g
    using max [OF that(1)] that(2) by linarith
  moreover have g0: "0 \<le> ?g" using \<open>?root \<le> ?t\<close> by simp
  moreover have "selected * other \<le> (selected + positionsIn - ?g) * (other - ?g)"
    using max [OF g(1)] g(2) by blast
  moreover have "0 \<le> trunc_div (x * 30) 10000" if "0 \<le> x" for x using that by (simp add: trunc_div_nonneg)
  from this [OF g0] have "0 \<le> trunc_div (?g * 30) 10000" by assumption
  ultimately show ?thesis
    using f(1) g(1) by (simp add: quoteSell_def sides(3,4) gross Let_def)
qed

lemma sell_back_bound:
  fixes s b i p ns nb g :: int
  assumes "0 < s" "0 < b" "0 \<le> i" "nb = b + i" "ns = s + i - p"
    and "ns * nb \<le> (ns + p - g) * (nb - g)" "s * b \<le> ns * nb" "2 * g \<le> ns + p + nb"
  shows "g \<le> i"
proof (rule ccontr)
  assume "\<not> g \<le> i"
  then have more: "i < g" by simp
  have kept: "s * b \<le> (s + i - g) * (b + i - g)" using assms by simp
  have half: "0 \<le> (s + i - g) + (b + i - g)" using assms by simp
  have "(s + i - g) * (b + i - g) < s * b"
  proof (cases "0 \<le> s + i - g \<and> 0 \<le> b + i - g")
    case True
    then have "(s + i - g) * (b + i - g) \<le> (s + i - g) * b"
      using more by (intro mult_left_mono) simp_all
    also have "\<dots> < s * b" using more assms(2) by (intro mult_strict_right_mono) simp_all
    finally show ?thesis by simp
  next
    case False
    with half have "(s + i - g) * (b + i - g) \<le> 0" by (auto simp: mult_le_0_iff)
    also have "0 < s * b" using assms(1,2) by (rule mult_pos_pos)
    finally show ?thesis by simp
  qed
  with kept show False by simp
qed

text \<open>C40: Whichever participant's side is bought, a buy quote and the quote of selling the bought positions
  back at once to the pool the buy left both exist; the sale never pays more collateral than the buy put
  into the curve, and it leaves the pool at least the two reserves it had before the buy: the roundings of
  \<open>quoteBuy\<close>, \<open>sqrtFloor\<close> and \<open>quoteSell\<close> all favour the pool.\<close>

theorem quoteSell_after_quoteBuy:
  assumes "0 < reserveA" "0 < reserveB" "0 \<le> budget" "0 \<le> bps" "bps \<le> 9970"
  shows "\<exists>q r. quoteBuy reserveA reserveB pa budget (Some bps) = Inr q
    \<and> quoteSell (if pa then buyNewSelected q else buyNewOther q)
        (if pa then buyNewOther q else buyNewSelected q) pa (positionsOut q) = Inr r
    \<and> collateralOut r \<le> tradeInput q
    \<and> (if pa then reserveA else reserveB) \<le> sellNewSelected r
    \<and> (if pa then reserveB else reserveA) \<le> sellNewOther r"
proof -
  obtain selected other where side: "buy_side reserveA reserveB pa = (selected, other)" by force
  then have sides: "0 < selected" "0 < other"
      "(if pa then reserveA else reserveB) = selected" "(if pa then reserveB else reserveA) = other"
    using assms(1,2) by (auto simp: buy_side_def split: if_splits)
  obtain q where buy: "quoteBuy reserveA reserveB pa budget (Some bps) = Inr q"
    and q: "0 \<le> tradeInput q" "buyNewOther q = other + tradeInput q"
      "buyNewSelected q = selected + tradeInput q - positionsOut q"
      "selected * other \<le> buyNewSelected q * buyNewOther q"
      "0 < buyNewSelected q" "tradeInput q \<le> positionsOut q"
    using quoteBuy_bounds [OF assms side] by blast
  let ?a = "if pa then buyNewSelected q else buyNewOther q"
  let ?b = "if pa then buyNewOther q else buyNewSelected q"
  have pool: "0 < ?a" "0 < ?b" "0 \<le> positionsOut q" using q(1,2,5,6) sides(2) by simp_all
  have pool_side: "buy_side ?a ?b pa = (buyNewSelected q, buyNewOther q)" by (simp add: buy_side_def)
  obtain r where sell: "quoteSell ?a ?b pa (positionsOut q) = Inr r"
    and r: "sellNewSelected r = buyNewSelected q + positionsOut q - grossCollateral r"
      "sellNewOther r = buyNewOther q - grossCollateral r"
      "2 * grossCollateral r \<le> buyNewSelected q + positionsOut q + buyNewOther q"
      "collateralOut r + sellLiquidityFee r = grossCollateral r" "0 \<le> sellLiquidityFee r"
      "buyNewSelected q * buyNewOther q \<le> sellNewSelected r * sellNewOther r"
    using quoteSell_bounds [OF pool pool_side] by blast
  have "grossCollateral r \<le> tradeInput q"
    using sell_back_bound [OF sides(1,2) q(1-3) _ q(4) r(3)] r(1,2,6) by simp
  then show ?thesis using buy sell q(2,3) r(1,2,4,5) sides(3,4) by (intro exI [of _ q] exI [of _ r]) simp
qed

lemma quoteSell_after_quoteBuy_witness:
  "\<exists>q r. quoteBuy 5000000 7000000 False 250000 (Some 30) = Inr q
    \<and> quoteSell (buyNewOther q) (buyNewSelected q) False (positionsOut q) = Inr r
    \<and> collateralOut r \<le> tradeInput q \<and> 7000000 \<le> sellNewSelected r \<and> 5000000 \<le> sellNewOther r"
  using quoteSell_after_quoteBuy [of 5000000 7000000 250000 30 False] by simp

text \<open>A buy quote splits the whole budget into the two fees and the trade, moves the reserves so that the
  fixed product never decreases and grows by less than one unit of the other side, keeps the selected
  reserve positive and returns at least as many positions as collateral traded.\<close>

theorem quoteBuy_keeps_product:
  assumes "0 < reserveA" "0 < reserveB" "0 \<le> budget" "0 \<le> bps" "bps \<le> 9970"
    and "buy_side reserveA reserveB pa = (selected, other)"
  shows "\<exists>q. quoteBuy reserveA reserveB pa budget (Some bps) = Inr q
    \<and> winnerRewardFee q + buyLiquidityFee q + tradeInput q = budget \<and> 0 \<le> tradeInput q
    \<and> buyNewOther q = other + tradeInput q
    \<and> buyNewSelected q = selected + tradeInput q - positionsOut q
    \<and> selected * other \<le> buyNewSelected q * buyNewOther q
    \<and> buyNewSelected q * buyNewOther q < selected * other + buyNewOther q
    \<and> 0 < buyNewSelected q \<and> tradeInput q \<le> positionsOut q"
  using quoteBuy_bounds [OF assms] by blast

lemma quoteBuy_keeps_product_witness:
  "\<exists>q. quoteBuy 5000000 7000000 False 250000 (Some 100) = Inr q
    \<and> buyNewOther q = 5000000 + tradeInput q \<and> 7000000 * 5000000 \<le> buyNewSelected q * buyNewOther q"
  using quoteBuy_keeps_product [of 5000000 7000000 250000 100 False 7000000 5000000]
  by (auto simp: buy_side_def)

text \<open>A sell quote pays the largest gross amount that keeps the fixed product from decreasing, never
  overdraws either reserve, and splits that amount into payout and fee without loss.\<close>

theorem quoteSell_largest_payout:
  assumes "0 < reserveA" "0 < reserveB" "0 \<le> positionsIn"
    and "buy_side reserveA reserveB pa = (selected, other)"
  shows "\<exists>q. quoteSell reserveA reserveB pa positionsIn = Inr q
    \<and> sellNewSelected q = selected + positionsIn - grossCollateral q
    \<and> sellNewOther q = other - grossCollateral q \<and> 0 \<le> grossCollateral q
    \<and> collateralOut q + sellLiquidityFee q = grossCollateral q \<and> 0 \<le> sellLiquidityFee q
    \<and> selected * other \<le> sellNewSelected q * sellNewOther q
    \<and> (\<forall>g. 2 * g \<le> selected + positionsIn + other \<longrightarrow>
          selected * other \<le> (selected + positionsIn - g) * (other - g) \<longrightarrow> g \<le> grossCollateral q)"
  using quoteSell_bounds [OF assms] by blast

lemma quoteSell_largest_payout_witness:
  "\<exists>q. quoteSell 5000000 7000000 True 40000 = Inr q \<and> 0 \<le> grossCollateral q
    \<and> 5000000 * 7000000 \<le> sellNewSelected q * sellNewOther q"
  using quoteSell_largest_payout [of 5000000 7000000 40000 True 5000000 7000000]
  by (auto simp: buy_side_def)

end
