(* ===== verification/Resolution.thy ===== *)
theory Resolution
  imports Resolver ConditionRegistry
begin

section \<open>The resolver's production loop (resolver/resolution.mjs)\<close>

text \<open>
  Which closed markets to resolve, with which documents, and what is recorded. The chain, the
  raw archive and the event log are parameters; the resolver's own log is the state, one row per
  lower-cased market of its room, with the stamp of a row left out. A failed chain call is
  \<open>Inl\<close> of its message.
\<close>

subsection \<open>The resolver's own log (SqliteResolutionLog)\<close>

datatype attempt_status = Attested | AttemptRefused | Missed

datatype condition_reason =
    NoConditionDocument string
  | BindingUnreadable string
  | BindingMismatch string string
  | NoHeadlineSlot

datatype why =
    HeadlineUnusable condition_reason
  | LogDoesNotVerify nat "failure list"
  | DeadlinePassed int
  | NoCondition condition_reason
  | NotDecided slot_reason
  | CallFailed "slot_reason + string"
  | ChallengeUnreviewable condition_reason
  | ChallengeUndecided

record attempt =
  at_status :: attempt_status
  at_outcome :: "int option"
  at_evidenceHash :: "string option"
  at_reason :: "why option"

record verdict_row =
  vd_accepted :: bool
  vd_outcome :: int
  vd_provisional :: int

record resolution_log =
  lg_attempts :: "(string, attempt) js_map"
  lg_verdicts :: "(string, verdict_row) js_map"

definition log_record :: "resolution_log \<Rightarrow> string \<Rightarrow> attempt \<Rightarrow> resolution_log" where
  "log_record l market a = l\<lparr>lg_attempts := js_set (to_lower market) a (lg_attempts l)\<rparr>"

definition log_get :: "resolution_log \<Rightarrow> string \<Rightarrow> attempt option" where
  "log_get l market = js_get (lg_attempts l) (to_lower market)"

definition log_attested :: "resolution_log \<Rightarrow> string \<Rightarrow> bool" where
  "log_attested l market \<longleftrightarrow> map_option at_status (log_get l market) = Some Attested"

definition log_recordVerdict :: "resolution_log \<Rightarrow> string \<Rightarrow> verdict_row \<Rightarrow> resolution_log" where
  "log_recordVerdict l market v =
     (if js_has (lg_verdicts l) (to_lower market) then l
      else l\<lparr>lg_verdicts := js_set (to_lower market) v (lg_verdicts l)\<rparr>)"

definition log_verdict :: "resolution_log \<Rightarrow> string \<Rightarrow> verdict_row option" where
  "log_verdict l market = js_get (lg_verdicts l) (to_lower market)"

subsection \<open>The service\<close>

record 'c resolution_port =
  np_closedSlots :: "'c \<Rightarrow> string + slot_ref list"
  np_headlineMarket :: "'c \<Rightarrow> string + string option"
  np_conditionHashOf :: "'c \<Rightarrow> string \<Rightarrow> string + string"
  np_resolutionDueAtOf :: "'c \<Rightarrow> string \<Rightarrow> string + int option"
  np_attestResult :: "'c \<Rightarrow> string \<Rightarrow> int \<Rightarrow> string \<Rightarrow> string + 'c"
  np_challengeStateOf :: "('c \<Rightarrow> string \<Rightarrow> string + challenge_state) option"
  np_attestChallengeVerdict :: "'c \<Rightarrow> string \<Rightarrow> bool \<Rightarrow> string + 'c"

record 'c resolution_env =
  nv_port :: "'c resolution_port"
  nv_resolver :: resolver_env
  nv_verifySignature :: "(event \<Rightarrow> bool) option"

record 'c resolution_state =
  rn_chain :: 'c
  rn_log :: resolution_log
  rn_verifier :: chain_verifier

datatype tick_error = ReadFailed string | DocumentHash canon_error | VerifyFailed canon_error

type_synonym ('c, 'a) resolution_call = "('c resolution_state, tick_error, 'a) action"

datatype slot_report =
    ReportAttested string int string
  | ReportRefused string why
  | ReportSkipped string
  | ReportAdjudicated string bool int

definition read_chain :: "('c \<Rightarrow> string + 'a) \<Rightarrow> ('c, 'a) resolution_call" where
  "read_chain q = (\<lambda>s. (s, map_sum ReadFailed id (q (rn_chain s))))"

definition write_log :: "(resolution_log \<Rightarrow> resolution_log) \<Rightarrow> ('c, unit) resolution_call" where
  "write_log f = modify (\<lambda>s. s\<lparr>rn_log := f (rn_log s)\<rparr>)"

text \<open>Published rows by lower-cased market; a later row replaces an earlier one.\<close>

definition publishedRecords :: "pub_queue \<Rightarrow> string \<Rightarrow> (string, pub_request) js_map" where
  "publishedRecords q room =
     foldl (\<lambda>m r. case truthy_text (pr_market r) of Some market \<Rightarrow> js_set (to_lower market) r m | None \<Rightarrow> m) []
       (byStatus q room Published)"

definition document_for :: "'c resolution_env \<Rightarrow> string \<Rightarrow> (string, pub_request) js_map
    \<Rightarrow> ('c, condition_reason + (condition \<times> string)) resolution_call" where
  "document_for env market records =
     (case Option.bind (js_get records (to_lower market)) pr_conditionDocument of
        None \<Rightarrow> ret (Inl (NoConditionDocument market))
      | Some doc \<Rightarrow>
          if falsy doc then ret (Inl (NoConditionDocument market))
          else bind_act (gets (\<lambda>s. np_conditionHashOf (nv_port env) (rn_chain s) market)) (\<lambda>onChain.
            case onChain of
              Inl message \<Rightarrow> ret (Inl (BindingUnreadable message))
            | Inr h \<Rightarrow>
                bind_act (lift_res DocumentHash (conditionHash (rs_hash (nv_resolver env)) doc)) (\<lambda>computed.
                  if computed \<noteq> h then ret (Inl (BindingMismatch computed h)) else ret (Inr (doc, computed)))))"

definition refused_attempt :: "attempt_status \<Rightarrow> why \<Rightarrow> attempt" where
  "refused_attempt st reason = \<lparr> at_status = st, at_outcome = None, at_evidenceHash = None, at_reason = Some reason \<rparr>"

text \<open>A room-wide refusal: each closed market gets a row unless its row already says so.\<close>

definition refuse_slot :: "why \<Rightarrow> slot_ref \<Rightarrow> ('c, slot_report) resolution_call" where
  "refuse_slot reason slot =
     bind_act (gets (\<lambda>s. log_get (rn_log s) (sr_market slot))) (\<lambda>existing.
     bind_act (when_act (Option.bind existing at_reason \<noteq> Some reason)
       (write_log (\<lambda>l. log_record l (sr_market slot) (refused_attempt AttemptRefused reason)))) (\<lambda>u.
     ret (ReportRefused (sr_market slot) reason)))"

definition key_at :: "(string \<times> string) list \<Rightarrow> nat \<Rightarrow> string" where
  "key_at ps i = (if i < length ps then fst (ps ! i) else [])"

definition slot_args_of :: "'c resolution_env \<Rightarrow> string \<Rightarrow> condition \<times> string \<Rightarrow> condition \<times> string \<Rightarrow> bool \<Rightarrow> slot_args" where
  "slot_args_of env market found headline same =
     \<lparr> sa_market = market, sa_condition = fst (if same then headline else found), sa_conditionHash = snd found,
       sa_headline = fst headline, sa_same = same,
       sa_participantAKey = key_at (rs_participants (nv_resolver env)) 0,
       sa_participantBKey = key_at (rs_participants (nv_resolver env)) 1 \<rparr>"

definition try_resolve :: "'c resolution_env \<Rightarrow> slot_args \<Rightarrow> event list
    \<Rightarrow> ('c, (slot_reason + string) + (slot_reason + (int \<times> string \<times> json))) resolution_call" where
  "try_resolve env a es = (\<lambda>s.
     (case resolveSlot (np_attestResult (nv_port env)) (nv_resolver env) a es (rn_chain s) of
        Inl e \<Rightarrow> (s, Inr (Inl e))
      | Inr (chain, result) \<Rightarrow> (s\<lparr>rn_chain := chain\<rparr>, Inr (Inr result))))"

definition same_market :: "string \<Rightarrow> string option \<Rightarrow> bool" where
  "same_market market hm \<longleftrightarrow> to_lower market = to_lower (case hm of Some m \<Rightarrow> m | None \<Rightarrow> ''null'')"

definition resolve_found :: "'c resolution_env \<Rightarrow> event list \<Rightarrow> string \<Rightarrow> condition \<times> string \<Rightarrow> condition \<times> string \<Rightarrow> bool
    \<Rightarrow> ('c, slot_report) resolution_call" where
  "resolve_found env es market found headline same =
     bind_act (try_resolve env (slot_args_of env market found headline same) es) (\<lambda>result.
       case result of
         Inl e \<Rightarrow> ret (ReportRefused market (CallFailed e))
       | Inr (Inl reason) \<Rightarrow>
           bind_act (write_log (\<lambda>l. log_record l market (refused_attempt AttemptRefused (NotDecided reason)))) (\<lambda>u.
           ret (ReportRefused market (NotDecided reason)))
       | Inr (Inr (n, evidenceHash, bundle)) \<Rightarrow>
           bind_act (write_log (\<lambda>l. log_record l market
             \<lparr> at_status = Attested, at_outcome = Some n, at_evidenceHash = Some evidenceHash, at_reason = None \<rparr>)) (\<lambda>u.
           ret (ReportAttested market n evidenceHash)))"

definition resolve_market :: "'c resolution_env \<Rightarrow> event list \<Rightarrow> int \<Rightarrow> (string, pub_request) js_map \<Rightarrow> string option
    \<Rightarrow> condition \<times> string \<Rightarrow> slot_ref \<Rightarrow> ('c, slot_report) resolution_call" where
  "resolve_market env es nowMs records hm headline slot =
     (let market = sr_market slot in
      bind_act (gets (\<lambda>s. log_attested (rn_log s) market)) (\<lambda>done.
        if done then ret (ReportSkipped market)
        else
          bind_act (gets (\<lambda>s. np_resolutionDueAtOf (nv_port env) (rn_chain s) market)) (\<lambda>due.
          let nowS = nowMs div 1000 in
          case (case due of Inr (Some dueAt) \<Rightarrow> if dueAt < nowS then Some (DeadlinePassed (nowS - dueAt)) else None | _ \<Rightarrow> None) of
            Some late \<Rightarrow>
              bind_act (write_log (\<lambda>l. log_record l market (refused_attempt Missed late))) (\<lambda>u. ret (ReportRefused market late))
          | None \<Rightarrow>
              let same = same_market market hm in
              bind_act (if same then ret (Inr headline) else document_for env market records) (\<lambda>found.
                case found of
                  Inl reason \<Rightarrow>
                    bind_act (write_log (\<lambda>l. log_record l market (refused_attempt AttemptRefused (NoCondition reason)))) (\<lambda>u.
                    ret (ReportRefused market (NoCondition reason)))
                | Inr f \<Rightarrow> resolve_found env es market f headline same))))"

definition vote :: "'c resolution_env \<Rightarrow> string \<Rightarrow> int \<Rightarrow> challenge_state \<Rightarrow> ('c, slot_report) resolution_call" where
  "vote env market n st =
     (let accept = (n \<noteq> ch_provisionalOutcome st) in
      bind_act (\<lambda>s. case np_attestChallengeVerdict (nv_port env) (rn_chain s) market accept of
          Inl message \<Rightarrow> (s, Inr (Some message)) | Inr chain \<Rightarrow> (s\<lparr>rn_chain := chain\<rparr>, Inr None)) (\<lambda>failed.
        case failed of
          Some message \<Rightarrow> ret (ReportRefused market (CallFailed (Inr message)))
        | None \<Rightarrow>
            bind_act (write_log (\<lambda>l. log_recordVerdict l market
              \<lparr> vd_accepted = accept, vd_outcome = n, vd_provisional = ch_provisionalOutcome st \<rparr>)) (\<lambda>u.
            ret (ReportAdjudicated market accept n))))"

definition review_found :: "'c resolution_env \<Rightarrow> event list \<Rightarrow> string \<Rightarrow> challenge_state \<Rightarrow> condition \<times> string \<Rightarrow> condition \<times> string
    \<Rightarrow> bool \<Rightarrow> ('c, slot_report option) resolution_call" where
  "review_found env es market st found headline same =
     (case reconstructSlot (nv_resolver env) (slot_args_of env market found headline same) es of
        Inl e \<Rightarrow> ret (Some (ReportRefused market (CallFailed (Inl e))))
      | Inr (Inl reason) \<Rightarrow> ret (Some (ReportRefused market ChallengeUndecided))
      | Inr (Inr (n, evidenceHash, bundle)) \<Rightarrow> bind_act (vote env market n st) (\<lambda>x. ret (Some x)))"

definition adjudicate_market :: "'c resolution_env \<Rightarrow> ('c \<Rightarrow> string \<Rightarrow> string + challenge_state) \<Rightarrow> event list
    \<Rightarrow> (string, pub_request) js_map \<Rightarrow> string option \<Rightarrow> condition \<times> string \<Rightarrow> slot_ref
    \<Rightarrow> ('c, slot_report option) resolution_call" where
  "adjudicate_market env stateOf es records hm headline slot =
     (let market = sr_market slot in
      bind_act (gets (\<lambda>s. stateOf (rn_chain s) market)) (\<lambda>st.
        case st of
          Inl e \<Rightarrow> ret None
        | Inr st \<Rightarrow>
            if \<not> ch_challenged st \<or> ch_finalOutcome st \<noteq> 0 then ret None
            else bind_act (gets (\<lambda>s. log_verdict (rn_log s) market)) (\<lambda>voted.
              if voted \<noteq> None then ret (Some (ReportSkipped market))
              else
                let same = same_market market hm in
                bind_act (if same then ret (Inr headline) else document_for env market records) (\<lambda>found.
                  case found of
                    Inl reason \<Rightarrow> ret (Some (ReportRefused market (ChallengeUnreviewable reason)))
                  | Inr f \<Rightarrow> review_found env es market st f headline same))))"

definition adjudicateChallenges :: "'c resolution_env \<Rightarrow> event list \<Rightarrow> (string, pub_request) js_map \<Rightarrow> condition \<times> string
    \<Rightarrow> ('c, slot_report option list) resolution_call" where
  "adjudicateChallenges env es records headline =
     (case np_challengeStateOf (nv_port env) of
        None \<Rightarrow> ret []
      | Some stateOf \<Rightarrow>
          bind_act (read_chain (np_closedSlots (nv_port env))) (\<lambda>slots.
          bind_act (read_chain (np_headlineMarket (nv_port env))) (\<lambda>hm.
          map_act (adjudicate_market env stateOf es records hm headline) slots)))"

definition verify_log :: "'c resolution_env \<Rightarrow> event list \<Rightarrow> ('c, bool \<times> failure list) resolution_call" where
  "verify_log env es = (\<lambda>s.
     (case cv_verify (rs_hash (nv_resolver env)) (nv_verifySignature env) (rn_verifier s) es of
        Inl e \<Rightarrow> (s, Inl (VerifyFailed e))
      | Inr (result, v) \<Rightarrow> (s\<lparr>rn_verifier := v\<rparr>, Inr result)))"

definition resolve_all :: "'c resolution_env \<Rightarrow> event list \<Rightarrow> int \<Rightarrow> (string, pub_request) js_map \<Rightarrow> string option
    \<Rightarrow> condition \<times> string \<Rightarrow> slot_ref list \<Rightarrow> ('c, slot_report list \<times> slot_report option list) resolution_call" where
  "resolve_all env es nowMs records hm headline closed =
     bind_act (verify_log env es) (\<lambda>(ok, failures).
       if \<not> ok then
         bind_act (map_act (refuse_slot (LogDoesNotVerify (length failures) (take 3 failures))) closed) (\<lambda>xs. ret (xs, []))
       else
         bind_act (map_act (resolve_market env es nowMs records hm headline) closed) (\<lambda>xs.
         bind_act (adjudicateChallenges env es records headline) (\<lambda>ys. ret (xs, ys))))"

definition resolution_tick :: "'c resolution_env \<Rightarrow> pub_queue \<Rightarrow> string \<Rightarrow> event list \<Rightarrow> int
    \<Rightarrow> ('c, slot_report list \<times> slot_report option list) resolution_call" where
  "resolution_tick env q room es nowMs =
     bind_act (read_chain (np_closedSlots (nv_port env))) (\<lambda>closed.
       if closed = [] then ret ([], [])
       else
         let records = publishedRecords q room in
         bind_act (read_chain (np_headlineMarket (nv_port env))) (\<lambda>hm.
         bind_act (case truthy_text hm of
             None \<Rightarrow> ret (Inl NoHeadlineSlot)
           | Some m \<Rightarrow> document_for env m records) (\<lambda>headline.
           case headline of
             Inl reason \<Rightarrow> bind_act (map_act (refuse_slot (HeadlineUnusable reason)) closed) (\<lambda>xs. ret (xs, []))
           | Inr h \<Rightarrow> resolve_all env es nowMs records hm h closed)))"

end
