(* ===== verification/ResolutionFlow.thy ===== *)
theory ResolutionFlow
  imports Resolution PublicationLedger
begin

section \<open>What a resolver puts its signature behind\<close>

text \<open>
  Every change a resolution tick makes, as a sequence of three kinds of step: a refusal noted, a
  result attested, a challenge voted on; each with what was established before it.
\<close>

subsection \<open>Steps\<close>

definition checked :: "'c resolution_env \<Rightarrow> (string, pub_request) js_map \<Rightarrow> 'c \<Rightarrow> string \<Rightarrow> condition \<times> string \<Rightarrow> bool" where
  "checked env records c market found \<longleftrightarrow>
     (\<exists>r. js_get records (to_lower market) = Some r \<and> pr_conditionDocument r = Some (fst found))
     \<and> conditionHash (rs_hash (nv_resolver env)) (fst found) = Inr (snd found)
     \<and> np_conditionHashOf (nv_port env) c market = Inr (snd found)"

text \<open>The raw bytes give this outcome for this market, under the headline's document where the market is
  the headline market and under its own checked document where it is not.\<close>

definition rebuilt :: "'c resolution_env \<Rightarrow> (string, pub_request) js_map \<Rightarrow> event list \<Rightarrow> string option \<Rightarrow> condition \<times> string \<Rightarrow> 'c
    \<Rightarrow> string \<Rightarrow> int \<Rightarrow> string \<Rightarrow> bool" where
  "rebuilt env records es hm headline c market n evidenceHash \<longleftrightarrow>
     (\<exists>found bundle. (if same_market market hm then found = headline else checked env records c market found)
        \<and> reconstructSlot (nv_resolver env) (slot_args_of env market found headline (same_market market hm)) es
            = Inr (Inr (n, evidenceHash, bundle)))"

inductive res_step :: "'c resolution_env \<Rightarrow> (string, pub_request) js_map \<Rightarrow> event list \<Rightarrow> string option \<Rightarrow> condition \<times> string
    \<Rightarrow> 'c resolution_state \<Rightarrow> 'c resolution_state \<Rightarrow> bool" for env records es hm headline where
  note_refusal: "\<not> log_attested (rn_log s) market \<Longrightarrow> at_status a \<noteq> Attested \<Longrightarrow>
    res_step env records es hm headline s (s\<lparr>rn_log := log_record (rn_log s) market a\<rparr>)"
| attest: "\<not> log_attested (rn_log s) market \<Longrightarrow> np_attestResult (nv_port env) (rn_chain s) market n h = Inr c \<Longrightarrow>
    rebuilt env records es hm headline (rn_chain s) market n h \<Longrightarrow> at_status a = Attested \<Longrightarrow>
    res_step env records es hm headline s (s\<lparr>rn_chain := c, rn_log := log_record (rn_log s) market a\<rparr>)"
| vote: "log_verdict (rn_log s) market = None \<Longrightarrow>
    np_attestChallengeVerdict (nv_port env) (rn_chain s) market accept = Inr c \<Longrightarrow>
    rebuilt env records es hm' headline (rn_chain s) market n h \<Longrightarrow>
    np_challengeStateOf (nv_port env) = Some stateOf \<Longrightarrow> stateOf (rn_chain s) market = Inr st \<Longrightarrow>
    accept = (n \<noteq> ch_provisionalOutcome st) \<Longrightarrow>
    res_step env records es hm headline s (s\<lparr>rn_chain := c, rn_log := log_recordVerdict (rn_log s) market v\<rparr>)"

abbreviation res_steps where
  "res_steps env records es hm headline \<equiv> (res_step env records es hm headline)\<^sup>*\<^sup>*"

interpretation resolving: preorder_on "res_steps env records es hm headline" for env records es hm headline
  by unfold_locales auto

lemma res_step_only:
  assumes "\<And>s. fst (m s) = s \<or> res_step env records es hm headline s (fst (m s))"
  shows "only (res_steps env records es hm headline) m"
  unfolding only_def using assms by (metis r_into_rtranclp rtranclp.rtrancl_refl)

subsection \<open>Reading a document changes nothing and checks it\<close>

lemma document_for_run:
  "fst (document_for env market records s) = s"
  "snd (document_for env market records s) = Inr (Inr found) \<Longrightarrow> checked env records (rn_chain s) market found"
  by (auto simp: document_for_def checked_def bind_act_run bind_eq_Some_conv result_simps
      split: option.splits sum.splits if_splits)

lemma read_chain_run: "fst (read_chain q s) = s"
  by (simp add: read_chain_def)

subsection \<open>One market\<close>

lemma resolveSlot_Inr:
  assumes "resolveSlot att renv a es c = Inr (c', Inr (n, h, bundle))"
  shows "reconstructSlot renv a es = Inr (Inr (n, h, bundle)) \<and> att c (sa_market a) n h = Inr c'"
proof (cases "reconstructSlot renv a es")
  case (Inr x)
  with assms show ?thesis by (cases x) (auto simp: resolveSlot_def result_simps)
qed (use assms in \<open>simp add: resolveSlot_def\<close>)

lemma resolveSlot_undecided:
  assumes "resolveSlot att renv a es c = Inr (c', Inl reason)"
  shows "c' = c"
proof (cases "reconstructSlot renv a es")
  case (Inr x)
  with assms show ?thesis by (cases x) (auto simp: resolveSlot_def result_simps)
qed (use assms in \<open>simp add: resolveSlot_def\<close>)

lemma resolve_found_step:
  assumes "\<not> log_attested (rn_log s) market"
    and "same = same_market market hm" "if same then found = headline else checked env records (rn_chain s) market found"
  shows "fst (resolve_found env es market found headline same s) = s
    \<or> res_step env records es hm headline s (fst (resolve_found env es market found headline same s))"
proof -
  let ?a = "slot_args_of env market found headline same"
  have market: "sa_market ?a = market" by (simp add: slot_args_of_def)
  show ?thesis
  proof (cases "resolveSlot (np_attestResult (nv_port env)) (nv_resolver env) ?a es (rn_chain s)")
    case (Inl e)
    then show ?thesis by (simp add: resolve_found_def try_resolve_def bind_act_run)
  next
    case (Inr cr)
    obtain c r where cr: "cr = (c, r)" by fastforce
    note run = Inr [unfolded cr]
    show ?thesis
    proof (cases r)
      case (Inl reason)
      with run resolveSlot_undecided [OF run [unfolded Inl]]
      have "fst (resolve_found env es market found headline same s)
          = s\<lparr>rn_log := log_record (rn_log s) market (refused_attempt AttemptRefused (NotDecided reason))\<rparr>"
        by (simp add: resolve_found_def try_resolve_def bind_act_run write_log_def)
      with res_step.note_refusal [OF assms(1), of "refused_attempt AttemptRefused (NotDecided reason)"]
      show ?thesis by (simp add: refused_attempt_def)
    next
      case decided: (Inr x)
      obtain n h doc where x: "x = (n, h, doc)" by (metis prod_cases3)
      note sent = resolveSlot_Inr [OF run [unfolded decided x]]
      have "rebuilt env records es hm headline (rn_chain s) market n h"
        unfolding rebuilt_def using sent assms(2,3) by (intro exI [of _ found] exI [of _ doc]) simp
      moreover have "np_attestResult (nv_port env) (rn_chain s) market n h = Inr c" using sent market by simp
      ultimately have "np_attestResult (nv_port env) (rn_chain s) market n h = Inr c" "rebuilt env records es hm headline (rn_chain s) market n h"
        by simp_all
      from res_step.attest [OF assms(1) this, of "\<lparr> at_status = Attested, at_outcome = Some n, at_evidenceHash = Some h, at_reason = None \<rparr>"]
      show ?thesis
        using run decided x by (simp add: resolve_found_def try_resolve_def bind_act_run write_log_def)
    qed
  qed
qed

lemma resolve_market_step:
  "fst (resolve_market env es nowMs records hm headline slot s) = s
    \<or> res_step env records es hm headline s (fst (resolve_market env es nowMs records hm headline slot s))"
proof (cases "log_attested (rn_log s) (sr_market slot)")
  case True
  then show ?thesis by (simp add: resolve_market_def Let_def bind_act_run)
next
  case False
  let ?market = "sr_market slot" and ?same = "same_market (sr_market slot) hm"
  define late where "late = (case np_resolutionDueAtOf (nv_port env) (rn_chain s) ?market of
    Inr (Some dueAt) \<Rightarrow> if dueAt < nowMs div 1000 then Some (DeadlinePassed (nowMs div 1000 - dueAt)) else None | _ \<Rightarrow> None)"
  note refusal = res_step.note_refusal [OF False, of "refused_attempt st why" env records es hm headline for st why,
      unfolded refused_attempt_def, simplified, folded refused_attempt_def]
  show ?thesis
  proof (cases late)
    case (Some why)
    with False refusal [of Missed why] show ?thesis
      by (simp add: resolve_market_def Let_def bind_act_run write_log_def late_def refused_attempt_def)
  next
    case None
    then have run: "resolve_market env es nowMs records hm headline slot s =
        bind_act (if ?same then ret (Inr headline) else document_for env ?market records) (\<lambda>found.
          case found of
            Inl reason \<Rightarrow>
              bind_act (write_log (\<lambda>l. log_record l ?market (refused_attempt AttemptRefused (NoCondition reason)))) (\<lambda>u.
              ret (ReportRefused ?market (NoCondition reason)))
          | Inr f \<Rightarrow> resolve_found env es ?market f headline ?same) s"
      using False by (simp add: resolve_market_def Let_def bind_act_run late_def)
    have "fst ((if ?same then ret (Inr headline) else document_for env ?market records) s) = s"
      by (simp add: document_for_run)
    then obtain r where r: "(if ?same then ret (Inr headline) else document_for env ?market records) s = (s, r)"
      by (metis prod.collapse)
    show ?thesis
    proof (cases r)
      case (Inl e)
      with r run show ?thesis by (simp add: bind_act_run)
    next
      case (Inr found)
      show ?thesis
      proof (cases found)
        case (Inl reason)
        with r run Inr refusal [of AttemptRefused "NoCondition reason"] show ?thesis
          by (simp add: bind_act_run write_log_def refused_attempt_def)
      next
        case f: (Inr f)
        have "if ?same then f = headline else checked env records (rn_chain s) ?market f"
          using r Inr f document_for_run(2) [of env ?market records s f] by (auto split: if_splits)
        with resolve_found_step [OF False refl this, of es] r run Inr f show ?thesis by (simp add: bind_act_run)
      qed
    qed
  qed
qed

subsection \<open>One challenge\<close>

lemma review_found_step:
  assumes "np_challengeStateOf (nv_port env) = Some stateOf" "stateOf (rn_chain s) market = Inr st"
    and "log_verdict (rn_log s) market = None" "same = same_market market hm'" "if same then found = headline else checked env records (rn_chain s) market found"
  shows "fst (review_found env es market st found headline same s) = s
    \<or> res_step env records es hm headline s (fst (review_found env es market st found headline same s))"
proof -
  consider "fst (review_found env es market st found headline same s) = s"
    | n h ev where "reconstructSlot (nv_resolver env) (slot_args_of env market found headline same) es = Inr (Inr (n, h, ev))"
    by (cases "reconstructSlot (nv_resolver env) (slot_args_of env market found headline same) es";
        cases "projr (reconstructSlot (nv_resolver env) (slot_args_of env market found headline same) es)")
      (auto simp: review_found_def)
  then show ?thesis
  proof cases
    case (2 n h ev)
    then have rebuilt: "rebuilt env records es hm' headline (rn_chain s) market n h"
      unfolding rebuilt_def using assms(4,5) by (intro exI [of _ found] exI [of _ ev]) simp
    have run: "fst (review_found env es market st found headline same s) = fst (vote env market n st s)"
      using 2 by (simp add: review_found_def bind_act_run split: prod.split sum.split)
    show ?thesis
    proof (cases "np_attestChallengeVerdict (nv_port env) (rn_chain s) market (n \<noteq> ch_provisionalOutcome st)")
      case (Inl message)
      then show ?thesis using run by (simp add: vote_def Let_def bind_act_run)
    next
      case (Inr c)
      from res_step.vote [where v = "\<lparr> vd_accepted = n \<noteq> ch_provisionalOutcome st, vd_outcome = n, vd_provisional = ch_provisionalOutcome st \<rparr>",
          OF assms(3) this rebuilt assms(1,2) refl]
      show ?thesis using run Inr by (simp add: vote_def Let_def bind_act_run write_log_def)
    qed
  qed simp
qed

lemma adjudicate_market_step:
  assumes "np_challengeStateOf (nv_port env) = Some stateOf"
  shows "fst (adjudicate_market env stateOf es records hm' headline slot s) = s
    \<or> res_step env records es hm headline s (fst (adjudicate_market env stateOf es records hm' headline slot s))"
proof (cases "stateOf (rn_chain s) (sr_market slot)")
  case (Inl e)
  then show ?thesis by (simp add: adjudicate_market_def Let_def bind_act_run)
next
  case st: (Inr st)
  let ?market = "sr_market slot" and ?same = "same_market (sr_market slot) hm'"
  have "fst ((if ?same then ret (Inr headline) else document_for env ?market records) s) = s"
    by (simp add: document_for_run)
  then obtain r where r: "(if ?same then ret (Inr headline) else document_for env ?market records) s = (s, r)"
    by (metis prod.collapse)
  show ?thesis
  proof (cases "ch_challenged st \<and> ch_finalOutcome st = 0 \<and> log_verdict (rn_log s) ?market = None")
    case False
    with st show ?thesis by (auto simp: adjudicate_market_def Let_def bind_act_run)
  next
    case True
    have run: "adjudicate_market env stateOf es records hm' headline slot s =
        bind_act (if ?same then ret (Inr headline) else document_for env ?market records) (\<lambda>found.
          case found of
            Inl reason \<Rightarrow> ret (Some (ReportRefused ?market (ChallengeUnreviewable reason)))
          | Inr f \<Rightarrow> review_found env es ?market st f headline ?same) s"
      using st True by (simp add: adjudicate_market_def Let_def bind_act_run)
    show ?thesis
    proof (cases "\<exists>f. r = Inr (Inr f)")
      case False
      with r run show ?thesis by (cases r; cases "projr r") (auto simp: bind_act_run)
    next
      case True
      then obtain f where f: "r = Inr (Inr f)" by blast
      have "if ?same then f = headline else checked env records (rn_chain s) ?market f"
        using r f document_for_run(2) [of env ?market records s f] by (auto split: if_splits)
      with review_found_step [OF assms st _ refl this, of es] \<open>ch_challenged st \<and> _\<close> r f run show ?thesis
        by (simp add: bind_act_run)
    qed
  qed
qed

subsection \<open>A tick\<close>

definition usable :: "'c resolution_env \<Rightarrow> (string, pub_request) js_map \<Rightarrow> event list \<Rightarrow> 'c resolution_state
    \<Rightarrow> string \<Rightarrow> condition \<times> string \<Rightarrow> chain_verifier \<Rightarrow> bool" where
  "usable env records es s hm headline v \<longleftrightarrow>
     np_headlineMarket (nv_port env) (rn_chain s) = Inr (Some hm) \<and> checked env records (rn_chain s) hm headline
     \<and> (\<exists>fl. cv_verify (rs_hash (nv_resolver env)) (nv_verifySignature env) (rn_verifier s) es = Inr ((True, fl), v))"

text \<open>A tick that does not get past its checks signs nothing and keeps every vote.\<close>

definition quiet :: "'c resolution_state \<Rightarrow> 'c resolution_state \<Rightarrow> bool" where
  "quiet s s' \<longleftrightarrow> rn_chain s' = rn_chain s \<and> lg_verdicts (rn_log s') = lg_verdicts (rn_log s)"

interpretation quietly: preorder_on quiet
  by unfold_locales (auto simp: quiet_def)

lemma refuse_quiet: "only quiet (map_act (refuse_slot reason) slots)"
proof (rule quietly.only_map)
  show "only quiet (refuse_slot reason slot)" for slot
    by (simp add: only_def refuse_slot_def bind_act_run when_act_def write_log_def quiet_def log_record_def)
qed

lemma adjudicate_steps: "only (res_steps env records es hm headline) (adjudicateChallenges env es records headline)"
proof (cases "np_challengeStateOf (nv_port env)")
  case (Some stateOf)
  have "only (res_steps env records es hm headline) (adjudicate_market env stateOf es records hm' headline slot)" for hm' slot
    using adjudicate_market_step [OF Some] by (rule res_step_only)
  then show ?thesis
    unfolding adjudicateChallenges_def Some option.case
    by (intro resolving.only_bind resolving.only_map) (simp_all add: only_def read_chain_run)
qed (simp add: adjudicateChallenges_def resolving.only_ret)

lemma resolve_all_steps:
  assumes "np_headlineMarket (nv_port env) (rn_chain s) = Inr (Some hm)" "checked env records (rn_chain s) hm headline"
    and "resolve_all env es nowMs records (Some hm) headline closed s = (s', r)"
  shows "quiet s s' \<or> (\<exists>v. usable env records es s hm headline v
    \<and> res_steps env records es (Some hm) headline (s\<lparr>rn_verifier := v\<rparr>) s')"
proof (cases "cv_verify (rs_hash (nv_resolver env)) (nv_verifySignature env) (rn_verifier s) es")
  case (Inl e)
  with assms(3) show ?thesis by (simp add: resolve_all_def verify_log_def bind_act_run quiet_def)
next
  case (Inr x)
  obtain ok failures v where x: "x = ((ok, failures), v)" by (metis prod.exhaust)
  let ?s = "s\<lparr>rn_verifier := v\<rparr>"
  show ?thesis
  proof (cases ok)
    case False
    have "only quiet (bind_act (map_act (refuse_slot (LogDoesNotVerify (length failures) (take 3 failures))) closed) (\<lambda>xs. ret (xs, [])))"
      by (intro quietly.only_bind quietly.only_ret refuse_quiet)
    moreover have "resolve_all env es nowMs records (Some hm) headline closed s
        = bind_act (map_act (refuse_slot (LogDoesNotVerify (length failures) (take 3 failures))) closed) (\<lambda>xs. ret (xs, [])) ?s"
      unfolding resolve_all_def using Inr x False by (subst bind_act_run) (simp add: verify_log_def)
    ultimately have "quiet ?s s'" using assms(3) by (metis onlyD)
    then show ?thesis by (simp add: quiet_def)
  next
    case True
    have "only (res_steps env records es (Some hm) headline) (bind_act (map_act (resolve_market env es nowMs records (Some hm) headline) closed) (\<lambda>xs.
         bind_act (adjudicateChallenges env es records headline) (\<lambda>ys. ret (xs, ys))))"
      using res_step_only [OF resolve_market_step]
      by (intro resolving.only_bind resolving.only_map adjudicate_steps resolving.only_ret)
    moreover have "resolve_all env es nowMs records (Some hm) headline closed s
        = bind_act (map_act (resolve_market env es nowMs records (Some hm) headline) closed) (\<lambda>xs.
         bind_act (adjudicateChallenges env es records headline) (\<lambda>ys. ret (xs, ys))) ?s"
      unfolding resolve_all_def using Inr x True by (subst bind_act_run) (simp add: verify_log_def)
    ultimately have "res_steps env records es (Some hm) headline ?s s'"
      using assms(3) by (metis onlyD)
    then show ?thesis using assms(1,2) Inr x True by (auto simp: usable_def)
  qed
qed

lemma resolution_tick_steps:
  assumes "resolution_tick env q room es nowMs s = (s', r)"
  shows "quiet s s' \<or> (\<exists>hm headline v. usable env (publishedRecords q room) es s hm headline v
    \<and> res_steps env (publishedRecords q room) es (Some hm) headline (s\<lparr>rn_verifier := v\<rparr>) s')"
proof -
  let ?port = "nv_port env" and ?records = "publishedRecords q room"
  have trivial: "quiet s s" by (simp add: quiet_def)
  show ?thesis
  proof (cases "\<exists>closed hm. np_closedSlots ?port (rn_chain s) = Inr closed \<and> closed \<noteq> []
      \<and> np_headlineMarket ?port (rn_chain s) = Inr hm")
    case False
    with assms trivial show ?thesis
      by (cases "np_closedSlots ?port (rn_chain s)"; cases "np_headlineMarket ?port (rn_chain s)")
        (auto simp: resolution_tick_def Let_def bind_act_run read_chain_def split: if_splits)
  next
    case True
    then obtain closed hm where reads: "np_closedSlots ?port (rn_chain s) = Inr closed" "closed \<noteq> []"
        "np_headlineMarket ?port (rn_chain s) = Inr hm" by blast
    define doc where "doc = (case truthy_text hm of None \<Rightarrow> ret (Inl NoHeadlineSlot) | Some m \<Rightarrow> document_for env m ?records)"
    have run: "resolution_tick env q room es nowMs s = bind_act doc (\<lambda>headline.
           case headline of
             Inl reason \<Rightarrow> bind_act (map_act (refuse_slot (HeadlineUnusable reason)) closed) (\<lambda>xs. ret (xs, []))
           | Inr h \<Rightarrow> resolve_all env es nowMs ?records hm h closed) s"
      using reads by (simp add: resolution_tick_def Let_def bind_act_run read_chain_def doc_def)
    have "fst (doc s) = s" by (simp add: doc_def document_for_run split: option.split)
    then obtain d where d: "doc s = (s, d)" by (metis prod.collapse)
    consider e where "d = Inl e" | reason where "d = Inr (Inl reason)" | h where "d = Inr (Inr h)"
      by (metis obj_sumE)
    then show ?thesis
    proof cases
      case 1
      with run d assms trivial show ?thesis by (simp add: bind_act_run)
    next
      case 2
      have "only quiet (bind_act (map_act (refuse_slot (HeadlineUnusable reason)) closed) (\<lambda>xs. ret (xs, [])))"
        by (intro quietly.only_bind quietly.only_ret refuse_quiet)
      moreover have "resolution_tick env q room es nowMs s
          = bind_act (map_act (refuse_slot (HeadlineUnusable reason)) closed) (\<lambda>xs. ret (xs, [])) s"
        unfolding run using d 2 by (subst bind_act_run) simp
      ultimately show ?thesis using assms by (metis onlyD)
    next
      case 3
      with d have "doc s = (s, Inr (Inr h))" by simp
      then obtain m where m: "hm = Some m" "document_for env m ?records s = (s, Inr (Inr h))"
        by (auto simp: doc_def truthy_text_Some split: option.splits)
      have "resolve_all env es nowMs ?records hm h closed s = (s', r)"
        using assms unfolding run using d 3 by (subst (asm) bind_act_run) simp
      moreover have "checked env ?records (rn_chain s) m h" using document_for_run(2) [of env m ?records s h] m(2) by simp
      ultimately show ?thesis using resolve_all_steps [OF reads(3) [unfolded m(1)]] m(1) by blast
    qed
  qed
qed

subsection \<open>Over the in-memory chain\<close>

definition fake_resolution_port :: "fake_chain resolution_port" where
  "fake_resolution_port =
     \<lparr> np_closedSlots = (\<lambda>c. Inr (closedSlots c)), np_headlineMarket = (\<lambda>c. Inr (headlineMarket c)),
       np_conditionHashOf = (\<lambda>c m. map_sum (\<lambda>e. cx_text (failure_of e)) id (conditionHashOf c m)),
       np_resolutionDueAtOf = (\<lambda>c m. map_sum (\<lambda>e. cx_text (failure_of e)) Some (resolutionDueAtOf c m)),
       np_attestResult = (\<lambda>c m n h. map_sum (\<lambda>e. cx_text (failure_of e)) id (attestResult c m n h)),
       np_challengeStateOf = Some (\<lambda>c m. map_sum (\<lambda>e. cx_text (failure_of e)) id (challengeStateOf c m)),
       np_attestChallengeVerdict = (\<lambda>c m b. map_sum (\<lambda>e. cx_text (failure_of e)) id (attestChallengeVerdict c m b)) \<rparr>"

definition verdicts_of :: "fake_chain \<Rightarrow> string \<Rightarrow> chain_call list" where
  "verdicts_of c market = filter (\<lambda>x. case x of AttestChallengeVerdict m b \<Rightarrow> m = market | _ \<Rightarrow> False) (fc_calls c)"

text \<open>What this resolver voted on is what its log remembers.\<close>

definition votes_remembered :: "fake_chain resolution_state \<Rightarrow> bool" where
  "votes_remembered s \<longleftrightarrow> (\<forall>m. length (verdicts_of (rn_chain s) m) \<le> 1
     \<and> (verdicts_of (rn_chain s) m \<noteq> [] \<longrightarrow> log_verdict (rn_log s) m \<noteq> None))"

lemma fake_attest_calls:
  assumes "np_attestResult fake_resolution_port c market n h = Inr c'"
  shows "fc_calls c' = fc_calls c @ [AttestResult market n h]"
  using assms by (auto simp: fake_resolution_port_def attestResult_def result_simps called_def update_slot_def
      map_sum_def split: sum.splits if_splits)

lemma fake_verdict_calls:
  assumes "np_attestChallengeVerdict fake_resolution_port c market b = Inr c'"
  shows "fc_calls c' = fc_calls c @ [AttestChallengeVerdict market b]"
  using assms by (auto simp: fake_resolution_port_def attestChallengeVerdict_def result_simps called_def update_slot_def
      map_sum_def split: sum.splits if_splits)

lemma log_reads [simp]:
  "log_attested (log_record l market a) m \<longleftrightarrow> (if to_lower m = to_lower market then at_status a = Attested else log_attested l m)"
  "log_attested (log_recordVerdict l market v) m \<longleftrightarrow> log_attested l m"
  "log_verdict (log_record l market a) m = log_verdict l m"
  "log_verdict (log_recordVerdict l market v) m
    = (if to_lower m = to_lower market \<and> log_verdict l market = None then Some v else log_verdict l m)"
  by (auto simp: log_attested_def log_record_def log_get_def log_recordVerdict_def log_verdict_def js_has_def port_simps)

lemma log_same:
  assumes "to_lower m = to_lower m'"
  shows "log_attested l m = log_attested l m'" "log_verdict l m = log_verdict l m'"
  using assms by (simp_all add: log_attested_def log_get_def log_verdict_def)

lemma votes_rememberedD: "votes_remembered s \<Longrightarrow> log_verdict (rn_log s) m = None \<Longrightarrow> verdicts_of (rn_chain s) m = []"
  by (metis votes_remembered_def)

lemma res_step_votes:
  assumes "res_step env records es hm headline s s'" "nv_port env = fake_resolution_port" "votes_remembered s"
  shows "votes_remembered s'"
  using assms(1)
proof cases
  case (note_refusal market a)
  with assms(3) show ?thesis by (simp add: votes_remembered_def)
next
  case (attest market n h c a)
  have "verdicts_of c m = verdicts_of (rn_chain s) m" for m
    using fake_attest_calls attest(3) assms(2) by (auto simp: verdicts_of_def)
  with attest(1) assms(3) show ?thesis by (simp add: votes_remembered_def)
next
  case (vote market accept c n h stateOf st v)
  have new: "verdicts_of c m = verdicts_of (rn_chain s) m @ (if m = market then [AttestChallengeVerdict market accept] else [])" for m
    using fake_verdict_calls vote(3) assms(2) by (auto simp: verdicts_of_def)
  have old: "verdicts_of (rn_chain s) m = []" if "to_lower m = to_lower market" for m
    using assms(3) vote(2) log_same(2) [OF that] votes_rememberedD by metis
  then show ?thesis using assms(3) vote(1,2) by (auto simp: votes_remembered_def new)
qed

lemma res_steps_keep:
  assumes "res_steps env records es hm headline s s'" "\<And>s s'. res_step env records es hm headline s s' \<Longrightarrow> P s \<Longrightarrow> P s'" "P s"
  shows "P s'"
  using assms(1,3) by (induction rule: rtranclp_induct) (auto intro: assms(2))

subsection \<open>Properties\<close>

lemma quiet_votes: "quiet s s' \<Longrightarrow> votes_remembered s \<Longrightarrow> votes_remembered s'"
  by (simp add: quiet_def votes_remembered_def log_verdict_def)

text \<open>C32: Ticking never casts a second vote on a market's bonded challenge: what the resolver voted on stays
  recorded, whatever else a tick does, and a recorded vote is never repeated.\<close>

theorem resolution_votes_once:
  assumes "nv_port env = fake_resolution_port" "resolution_tick env q room es nowMs s = (s', r)" "votes_remembered s"
  shows "votes_remembered s'"
proof (rule disjE [OF resolution_tick_steps [OF assms(2)]])
  assume "\<exists>hm headline v. usable env (publishedRecords q room) es s hm headline v
    \<and> res_steps env (publishedRecords q room) es (Some hm) headline (s\<lparr>rn_verifier := v\<rparr>) s'"
  then obtain hm headline v where steps: "res_steps env (publishedRecords q room) es (Some hm) headline (s\<lparr>rn_verifier := v\<rparr>) s'" by blast
  have "votes_remembered (s\<lparr>rn_verifier := v\<rparr>)" using assms(3) by (simp add: votes_remembered_def)
  from res_steps_keep [of env _ es _ headline _ s' votes_remembered, OF steps res_step_votes [OF _ assms(1)] this]
  show ?thesis .
qed (rule quiet_votes [OF _ assms(3)])

lemma condition_binding_kept:
  assumes "np_attestResult fake_resolution_port c market n h = Inr c'
    \<or> np_attestChallengeVerdict fake_resolution_port c market b = Inr c'"
  shows "np_conditionHashOf fake_resolution_port c' m = np_conditionHashOf fake_resolution_port c m"
proof -
  have "conditionHashOf (called x (update_slot market f c)) m = conditionHashOf c m"
    if "\<And>s. sl_market (f s) = sl_market s" "\<And>s. sl_conditionHash (f s) = sl_conditionHash s" for x f
    using slot_of_update [of f market c m] that
    by (cases "slot_of c m") (auto simp: conditionHashOf_def called_def slot_of_def update_slot_def)
  with assms show ?thesis
    by (auto simp: fake_resolution_port_def attestResult_def attestChallengeVerdict_def result_simps
        map_sum_def split: sum.splits if_splits)
qed

text \<open>Every result sent is one the raw bytes gave, under documents the chain is bound to.\<close>

definition sent_rebuilt where
  "sent_rebuilt env records es hm headline c0 s \<longleftrightarrow>
     (\<forall>m. np_conditionHashOf (nv_port env) (rn_chain s) m = np_conditionHashOf (nv_port env) c0 m)
     \<and> (\<exists>new. fc_calls (rn_chain s) = fc_calls c0 @ new
          \<and> (\<forall>m n h. AttestResult m n h \<in> set new \<longrightarrow> rebuilt env records es hm headline c0 m n h))"

lemma res_step_sent:
  assumes "res_step env records es hm headline s s'" "nv_port env = fake_resolution_port" "sent_rebuilt env records es hm headline c0 s"
  shows "sent_rebuilt env records es hm headline c0 s'"
proof -
  have same: "rebuilt env records es hm headline (rn_chain s) m n h \<longleftrightarrow> rebuilt env records es hm headline c0 m n h" for m n h
    using assms(3) by (simp add: sent_rebuilt_def rebuilt_def checked_def)
  from assms(1) show ?thesis
  proof cases
    case (note_refusal market a)
    with assms(3) show ?thesis by (simp add: sent_rebuilt_def)
  next
    case (attest market n h c a)
    have calls: "fc_calls c = fc_calls (rn_chain s) @ [AttestResult market n h]"
      using fake_attest_calls attest(3) assms(2) by simp
    have "np_conditionHashOf (nv_port env) c m = np_conditionHashOf (nv_port env) (rn_chain s) m" for m
      using condition_binding_kept [OF disjI1] attest(3) assms(2) by metis
    with assms(3) attest(1,4) same show ?thesis by (auto simp: sent_rebuilt_def calls)
  next
    case (vote market accept c n h stateOf st v)
    have calls: "fc_calls c = fc_calls (rn_chain s) @ [AttestChallengeVerdict market accept]"
      using fake_verdict_calls vote(3) assms(2) by simp
    have "np_conditionHashOf (nv_port env) c m = np_conditionHashOf (nv_port env) (rn_chain s) m" for m
      using condition_binding_kept [OF disjI2] vote(3) assms(2) by metis
    with assms(3) vote(1) show ?thesis by (auto simp: sent_rebuilt_def calls)
  qed
qed

text \<open>No two results of a tick are for one market, each is new to the resolver's log and recorded there.\<close>

definition attested_markets :: "chain_call list \<Rightarrow> string list" where
  "attested_markets calls = concat (map (\<lambda>x. case x of AttestResult m n h \<Rightarrow> [to_lower m] | _ \<Rightarrow> []) calls)"

lemma attested_markets_simps [simp]:
  "attested_markets [] = []" "attested_markets (xs @ ys) = attested_markets xs @ attested_markets ys"
  "attested_markets [AttestResult m n h] = [to_lower m]" "attested_markets [AttestChallengeVerdict m b] = []"
  by (simp_all add: attested_markets_def)

lemma attested_markets_member: "AttestResult m n h \<in> set calls \<Longrightarrow> to_lower m \<in> set (attested_markets calls)"
  by (force simp: attested_markets_def)

definition sent_once :: "fake_chain resolution_state \<Rightarrow> fake_chain resolution_state \<Rightarrow> bool" where
  "sent_once s0 s \<longleftrightarrow>
     (\<forall>m. log_attested (rn_log s0) m \<longrightarrow> log_attested (rn_log s) m)
     \<and> (\<exists>new. fc_calls (rn_chain s) = fc_calls (rn_chain s0) @ new \<and> distinct (attested_markets new)
          \<and> (\<forall>m. to_lower m \<in> set (attested_markets new) \<longrightarrow> \<not> log_attested (rn_log s0) m \<and> log_attested (rn_log s) m))"

lemma res_step_once:
  assumes "res_step env records es hm headline s s'" "nv_port env = fake_resolution_port" "sent_once s0 s"
  shows "sent_once s0 s'"
proof -
  obtain new where kept: "\<And>m. log_attested (rn_log s0) m \<Longrightarrow> log_attested (rn_log s) m"
    and new: "fc_calls (rn_chain s) = fc_calls (rn_chain s0) @ new" "distinct (attested_markets new)"
      "\<And>m. to_lower m \<in> set (attested_markets new) \<Longrightarrow> \<not> log_attested (rn_log s0) m \<and> log_attested (rn_log s) m"
    using assms(3) by (auto simp: sent_once_def)
  from assms(1) show ?thesis
  proof cases
    case (note_refusal market a)
    have "\<not> log_attested (rn_log s) m" if "to_lower m = to_lower market" for m
      using note_refusal(2) log_same(1) [OF that] by simp
    with kept new note_refusal(1) show ?thesis
      unfolding sent_once_def by (intro conjI exI [of _ new]) auto
  next
    case (attest market n h c a)
    have calls: "fc_calls c = fc_calls (rn_chain s0) @ (new @ [AttestResult market n h])"
      using fake_attest_calls attest(3) assms(2) new(1) by simp
    have fresh: "\<not> log_attested (rn_log s) m" if "to_lower m = to_lower market" for m
      using attest(2) log_same(1) [OF that] by simp
    show ?thesis
      unfolding sent_once_def
    proof (intro conjI exI [of _ "new @ [AttestResult market n h]"])
      show "distinct (attested_markets (new @ [AttestResult market n h]))" using new(2,3) fresh [OF refl] by auto
      show "\<forall>m. to_lower m \<in> set (attested_markets (new @ [AttestResult market n h])) \<longrightarrow>
          \<not> log_attested (rn_log s0) m \<and> log_attested (rn_log s') m"
        using new(3) kept fresh attest(1,5) by auto
    qed (use kept calls attest(1,5) in auto)
  next
    case (vote market accept c n h hm' stateOf st v)
    have "fc_calls c = fc_calls (rn_chain s0) @ (new @ [AttestChallengeVerdict market accept])"
      using fake_verdict_calls vote(3) assms(2) new(1) by simp
    with kept new vote(1) show ?thesis
      unfolding sent_once_def by (intro conjI exI [of _ "new @ [AttestChallengeVerdict market accept]"]) auto
  qed
qed

lemma usable_replays:
  assumes "usable env records (es0 @ fs) s hm headline v"
    and "cv_knows (rs_hash (nv_resolver env)) (nv_verifySignature env) (rn_verifier s) es0"
  shows "verifyChain (rs_hash (nv_resolver env)) (nv_verifySignature env) None None (es0 @ fs) = Inr (True, [])"
proof -
  obtain fl where run: "cv_verify (rs_hash (nv_resolver env)) (nv_verifySignature env) (rn_verifier s) (es0 @ fs) = Inr ((True, fl), v)"
    using assms(1) by (auto simp: usable_def)
  then have "fl = []" by (auto simp: cv_verify_def verifyChain_def result_simps)
  with run cv_verify_full [OF assms(2), of fs] show ?thesis by auto
qed


lemma refuse_slot_row:
  "log_get (rn_log (fst (refuse_slot why slot s))) m =
    (if to_lower m = to_lower (sr_market slot) \<and> Option.bind (log_get (rn_log s) m) at_reason \<noteq> Some why
     then Some (refused_attempt AttemptRefused why) else log_get (rn_log s) m)"
  by (auto simp: refuse_slot_def bind_act_run when_act_def write_log_def log_get_def log_record_def port_simps)

lemma refuse_slot_returns: "refuse_slot why slot s = (fst (refuse_slot why slot s), Inr (ReportRefused (sr_market slot) why))"
  by (simp add: refuse_slot_def bind_act_run when_act_def write_log_def)

lemma refuse_slots_row:
  assumes "map_act (refuse_slot why) slots s = (s', r)" "m \<in> sr_market ` set slots \<or> a = refused_attempt AttemptRefused why"
    and "log_get (rn_log s) m = Some a" "at_reason a = None \<or> a = refused_attempt AttemptRefused why"
  shows "log_get (rn_log s') m = Some (refused_attempt AttemptRefused why)"
  using assms
proof (induction slots arbitrary: s a r)
  case (Cons slot slots)
  let ?s = "fst (refuse_slot why slot s)"
  obtain r1 where run: "map_act (refuse_slot why) slots ?s = (s', r1)"
    using Cons.prems(1) refuse_slot_returns [of why slot s]
    by (auto simp: bind_act_run split: prod.splits sum.splits)
  define a' where "a' = (if to_lower m = to_lower (sr_market slot) \<and> at_reason a \<noteq> Some why then refused_attempt AttemptRefused why else a)"
  have row: "log_get (rn_log ?s) m = Some a'"
    using Cons.prems(3) by (simp add: refuse_slot_row a'_def)
  have "at_reason a' = None \<or> a' = refused_attempt AttemptRefused why"
    using Cons.prems(4) by (auto simp: a'_def)
  moreover have "m \<in> sr_market ` set slots \<or> a' = refused_attempt AttemptRefused why"
    using Cons.prems(2,4) by (auto simp: a'_def refused_attempt_def)
  ultimately show ?case using Cons.IH [OF run _ row] by blast
qed (auto simp: ret_def)

text \<open>A room-wide refusal rewrites the row of a market this resolver has already attested: when the headline's
  document cannot be used, even because of one failed read, every closed market's row becomes a refusal, and the
  resolver no longer knows that its result is on the chain.\<close>

theorem unusable_headline_forgets:
  assumes "np_closedSlots (nv_port env) (rn_chain s) = Inr closed" "slot \<in> set closed"
    and "np_headlineMarket (nv_port env) (rn_chain s) = Inr (Some hm)" "hm \<noteq> []"
    and "snd (document_for env hm (publishedRecords q room) s) = Inr (Inl reason)"
    and "log_get (rn_log s) (sr_market slot) = Some a" "at_status a = Attested" "at_reason a = None"
    and "resolution_tick env q room es nowMs s = (s', r)"
  shows "\<not> log_attested (rn_log s') (sr_market slot)"
proof -
  have "document_for env hm (publishedRecords q room) s = (s, Inr (Inl reason))"
    using assms(5) document_for_run(1) [of env hm "publishedRecords q room" s] by (metis prod.collapse)
  then have run: "resolution_tick env q room es nowMs s =
      bind_act (map_act (refuse_slot (HeadlineUnusable reason)) closed) (\<lambda>xs. ret (xs, [])) s"
    using assms(1-4)
    by (auto simp: resolution_tick_def Let_def bind_act_run [of "read_chain _"] read_chain_def truthy_text_def
        bind_act_run [of "document_for _ _ _"])
  obtain s1 r1 where refused: "map_act (refuse_slot (HeadlineUnusable reason)) closed s = (s1, r1)" by fastforce
  with run assms(9) have "s1 = s'" by (cases r1) (simp_all add: bind_act_run)
  with refuse_slots_row [OF refused _ assms(6)] assms(2,8)
  show ?thesis by (auto simp: log_attested_def refused_attempt_def)
qed

end
