(* ===== verification/ResolutionProperties.thy ===== *)
theory ResolutionProperties
  imports ResolutionFlow GateProperties
begin

section \<open>Properties of the resolver's loop and of the condition registry\<close>

subsection \<open>A room with one attested market\<close>

definition plain_resolver :: resolver_env where
  "plain_resolver = \<lparr> rs_participants = [(''a'', ''0xa''), (''b'', ''0xb'')], rs_archive = (\<lambda>ref. None), rs_hash = (\<lambda>t. ''h''),
     rs_parse = (\<lambda>t. None) \<rparr>"

definition sample_resolution :: "fake_chain resolution_env" where
  "sample_resolution = \<lparr> nv_port = fake_resolution_port, nv_resolver = plain_resolver, nv_verifySignature = None \<rparr>"

definition attested_row :: attempt where
  "attested_row = \<lparr> at_status = Attested, at_outcome = Some 1, at_evidenceHash = Some ''e'', at_reason = None \<rparr>"

definition attested_state :: "fake_chain resolution_state" where
  "attested_state = \<lparr> rn_chain = sample_room\<lparr>fc_slots := [(new_slot ''m'' 0 ''c'')\<lparr>sl_closed := True\<rparr>],
       fc_calls := [AttestResult ''m'' 1 ''e'']\<rparr>,
     rn_log = \<lparr> lg_attempts = [(''m'', attested_row)], lg_verdicts = [] \<rparr>, rn_verifier = new_verifier \<rparr>"

lemma sample_resolution_port [simp]: "nv_port sample_resolution = fake_resolution_port"
  by (simp add: sample_resolution_def)

lemma to_lower_m [simp]: "to_lower ''m'' = ''m''"
  by (simp add: to_lower_def lower_char_def)

text \<open>The headline market closed on chain, its published row, one archived page of fills in which \<open>a\<close> reaches
  the target, and the chained log of that fill.\<close>

definition race_fill :: json where
  "race_fill = JObj [(''time'', JNum 1767225600000), (''tid'', JNum 7), (''closedPnl'', JStr ''150''), (''fee'', JStr ''0''),
     (''coin'', JStr ''BTC''), (''side'', JStr ''A''), (''px'', JStr ''10''), (''sz'', JStr ''15'')]"

definition race_event :: event where
  "race_event = (sample_trade 1 ''7'' ''a'' 150)\<lparr>ev_source_event_id := ''0xa:7'', ev_raw_ref := ''page'', ev_raw_hash := ''h'',
     ev_raw_query := JObj [(''type'', JStr ''userFillsByTime''), (''user'', JStr ''0xA'')],
     ev_prev_hash := GENESIS_HASH, ev_hash := ''h''\<rparr>"

definition race_resolution :: "fake_chain resolution_env" where
  "race_resolution = sample_resolution\<lparr>nv_resolver := plain_resolver\<lparr>rs_archive := (\<lambda>ref. Some ''bytes''),
     rs_parse := (\<lambda>t. Some (JArr [race_fill]))\<rparr>\<rparr>"

definition race_queue :: pub_queue where
  "race_queue = \<lparr> pq_rows = [\<lparr> pr_id = 1, pr_roomId = ''room'', pr_status = Published,
       pr_candidate = \<lparr> ca_templateId = ''t'', ca_params = JObj [], ca_announceDelay = None, ca_question = None,
         ca_streamUrl = None, ca_imageUrl = None, ca_restricted = None, ca_slotIndex = None \<rparr>,
       pr_request = None, pr_restricted = [], pr_conditionDocument = Some sample_headline, pr_permit = None,
       pr_signature = None, pr_market = Some ''m'', pr_reason = None, pr_attempts = 0, pr_submittedAt = [], pr_updatedAt = [] \<rparr>],
     pq_lastId = 1 \<rparr>"

definition race_state :: "fake_chain resolution_state" where
  "race_state = \<lparr> rn_chain = sample_room\<lparr>fc_slots := [(new_slot ''m'' 0 ''h'')\<lparr>sl_closed := True\<rparr>]\<rparr>,
     rn_log = \<lparr> lg_attempts = [], lg_verdicts = [] \<rparr>, rn_verifier = new_verifier \<rparr>"

text \<open>The same room once its provisional result, the wrong one, is challenged under bond.\<close>

definition challenged_state :: "fake_chain resolution_state" where
  "challenged_state = race_state\<lparr>
     rn_chain := sample_room\<lparr>fc_slots := [(new_slot ''m'' 0 ''h'')\<lparr>sl_closed := True, sl_challenged := True, sl_provisionalOutcome := 2\<rparr>]\<rparr>,
     rn_log := \<lparr> lg_attempts = [(''m'', attested_row)], lg_verdicts = [] \<rparr>\<rparr>"

lemma race_port [simp]: "nv_port race_resolution = fake_resolution_port"
  by (simp add: race_resolution_def)

lemma race_calls:
  "fc_calls (rn_chain race_state) = []"
  "fc_calls (rn_chain (fst (resolution_tick race_resolution race_queue ''room'' [race_event] 0 race_state)))
    = [AttestResult ''m'' 1 ''h'']"
  "fc_calls (rn_chain (fst (resolution_tick race_resolution race_queue ''room'' [race_event] 0 challenged_state)))
    = [AttestChallengeVerdict ''m'' True]"
  by code_simp+


lemma resolution_votes_once_witness:
  "votes_remembered (fst (resolution_tick race_resolution race_queue ''room'' [race_event] 0 challenged_state))
    \<and> fc_calls (rn_chain (fst (resolution_tick race_resolution race_queue ''room'' [race_event] 0 challenged_state)))
        = [AttestChallengeVerdict ''m'' True]"
proof -
  obtain s' r where run: "resolution_tick race_resolution race_queue ''room'' [race_event] 0 challenged_state = (s', r)" by fastforce
  have "votes_remembered challenged_state"
    by (simp add: votes_remembered_def verdicts_of_def challenged_state_def race_state_def sample_room_def addSlot_def new_chain_def)
  from resolution_votes_once [OF race_port run this] run race_calls(3) show ?thesis by simp
qed

lemma unusable_headline_forgets_witness:
  "log_attested (rn_log attested_state) ''m''
    \<and> \<not> log_attested (rn_log (fst (resolution_tick sample_resolution empty_queue ''room'' sample_log 0 attested_state))) ''m''"
proof -
  let ?slot = "ref_of ((new_slot ''m'' 0 ''c'')\<lparr>sl_closed := True\<rparr>)"
  obtain s' r where run: "resolution_tick sample_resolution empty_queue ''room'' sample_log 0 attested_state = (s', r)" by fastforce
  have log: "log_get (rn_log attested_state) ''m'' = Some attested_row"
    by (simp add: log_get_def attested_state_def)
  have closed: "np_closedSlots (nv_port sample_resolution) (rn_chain attested_state) = Inr [?slot]"
    by (simp add: fake_resolution_port_def closedSlots_def attested_state_def new_slot_def)
  have headline: "np_headlineMarket (nv_port sample_resolution) (rn_chain attested_state) = Inr (Some ''m'')"
    by (simp add: fake_resolution_port_def headlineMarket_def attested_state_def new_slot_def)
  have doc: "snd (document_for sample_resolution ''m'' (publishedRecords empty_queue ''room'') attested_state)
      = Inr (Inl (NoConditionDocument ''m''))"
    by (simp add: document_for_def publishedRecords_def byStatus_def empty_queue_def)
  from unusable_headline_forgets [OF closed _ headline _ doc _ _ _ run, of ?slot attested_row] log run
  show ?thesis by (simp add: ref_of_def new_slot_def attested_row_def log_attested_def)
qed

subsection \<open>What the gate evaluates\<close>

text \<open>C30: the gate never evaluates a document the chain is not bound to. After the registry has synced
  from the queue, every open market of the room stands in the gate's map with either a document
  that hashes to the binding its slot carries or one that no evaluation, of any log under any
  options, ever decides; other markets keep the documents they had.\<close>

theorem syncConditions_binds:
  assumes "syncConditions H fake_registry_port q room g = Inr (g', report)"
    and "distinct (map sl_market (fc_slots (ga_chain g)))"
  shows "(\<forall>s \<in> open_slots (ga_chain g). \<exists>doc. js_get (ga_conditions g') (sl_market s) = Some doc
      \<and> (conditionHash H doc = Inr (sl_conditionHash s)
         \<or> (\<forall>es opts. \<exists>err. evaluateCondition doc es opts = Unevaluable err)))
    \<and> (\<forall>m. m \<notin> sl_market ` open_slots (ga_chain g) \<longrightarrow> js_get (ga_conditions g') m = js_get (ga_conditions g) m)"
proof -
  let ?c = "ga_chain g"
  have slots: "gp_openSlots fake_registry_port ?c = openSlots ?c" by (simp add: fake_registry_port_def)
  obtain report0 conditions where run: "register_slots H fake_registry_port ?c (documents_of q room)
      (openSlots ?c) (ga_conditions g, report0) = Inr (conditions, report)" "ga_conditions g' = conditions"
    using assms(1) by (auto simp: syncConditions_def Let_def map_sum_Inr_iff slots split: prod.splits option.splits)
  have markets: "map sr_market (openSlots ?c) = map sl_market (filter (\<lambda>s. \<not> sl_closed s) (fc_slots ?c))"
    by (simp add: openSlots_def ref_of_def comp_def)
  then have dist: "distinct (map sr_market (openSlots ?c))" using assms(2) by (simp add: distinct_map_filter)
  have keys: "sr_market ` set (openSlots ?c) = sl_market ` open_slots ?c"
    by (auto simp: openSlots_set ref_of_def image_image)
  have "\<exists>doc. js_get conditions (sl_market s) = Some doc
      \<and> (conditionHash H doc = Inr (sl_conditionHash s) \<or> (\<forall>es opts. \<exists>err. evaluateCondition doc es opts = Unevaluable err))"
    if "s \<in> open_slots ?c" for s
  proof -
    have "ref_of s \<in> set (openSlots ?c)" using that by (simp add: openSlots_set)
    with register_slots_vouched(1) [OF run(1) dist] obtain doc where
        "js_get conditions (sl_market s) = Some doc" "vouched H fake_registry_port ?c (ref_of s) doc"
      by (auto simp: ref_of_def)
    moreover have "binding_of fake_registry_port ?c (ref_of s) = Inr (Some (sl_conditionHash s))"
      by (simp add: binding_of_def ref_of_def)
    ultimately show ?thesis
      using unverifiable_never_decides by (auto simp: vouched_def)
  qed
  with register_slots_vouched(2) [OF run(1) dist] run(2) keys show ?thesis by simp
qed

lemma syncConditions_binds_witness:
  "\<exists>g' report. syncConditions (\<lambda>t. ''c'') fake_registry_port empty_queue ''room'' sample_gate = Inr (g', report)
    \<and> (\<exists>doc. js_get (ga_conditions g') ''m'' = Some doc)"
proof -
  have "\<exists>g' report. syncConditions (\<lambda>t. ''c'') fake_registry_port empty_queue ''room'' sample_gate = Inr (g', report)"
    by (simp add: syncConditions_def Let_def fake_registry_port_def documents_of_def byStatus_def empty_queue_def
        register_slot_def check_slot_def openSlots_def new_slot_def ref_of_def)
  then obtain g' report where run: "syncConditions (\<lambda>t. ''c'') fake_registry_port empty_queue ''room'' sample_gate = Inr (g', report)"
    by blast
  with syncConditions_binds [OF run] show ?thesis by (auto simp: open_slots_def new_slot_def)
qed

end
