(* ===== verification/SessionProperties.thy ===== *)
theory SessionProperties
  imports Samples
begin

section \<open>Properties of logs and of what they decide\<close>

text \<open>
  The properties of the event log, the connector and the two evaluators that are put together
  from lemmas of their theories, and the instances on the sample session.
\<close>

subsection \<open>A chained log of the sample trades\<close>

definition text_of_event :: "event \<Rightarrow> string" where
  "text_of_event e = (case canonicalize (covered e) of Inr t \<Rightarrow> t | Inl _ \<Rightarrow> [])"

fun chain_from :: "hash_fun \<Rightarrow> string \<Rightarrow> event list \<Rightarrow> event list" where
  "chain_from H h [] = []"
| "chain_from H h (e # es) =
     (let f = e\<lparr>ev_prev_hash := h\<rparr>; g = f\<lparr>ev_hash := H (text_of_event f)\<rparr> in g # chain_from H (ev_hash g) es)"

definition chained_log :: "hash_fun \<Rightarrow> event list" where
  "chained_log H = chain_from H GENESIS_HASH sample_log"

lemma sample_text:
  assumes "safe_integer i"
  shows "canonicalize (covered (sample_trade i key p n\<lparr>ev_prev_hash := h\<rparr>))
    = Inr (text_of_event (sample_trade i key p n\<lparr>ev_prev_hash := h\<rparr>))"
proof -
  have "returns (canonicalize (covered (sample_trade i key p n\<lparr>ev_prev_hash := h\<rparr>)))"
    using assms by (simp add: covered_def covered_fields_def sample_trade_def blank_event_def trade_facts_def
        canonicalize_obj_returns json_or_null_def returns_def)
  then show ?thesis by (auto simp: returns_def text_of_event_def)
qed

lemma chained_log_linked: "well_chained H (chained_log H)"
  using sample_text
  by (simp add: well_chained_def chained_log_def sample_log_def Let_def eventHash_def safe_integer_def)

lemma chain_from_map:
  assumes "\<And>e h g. f (e\<lparr>ev_prev_hash := h, ev_hash := g\<rparr>) = f e"
  shows "map f (chain_from H h es) = map f es"
  by (induction es arbitrary: h) (simp_all add: Let_def assms)

lemma chained_log_map:
  assumes "\<And>e h g. f (e\<lparr>ev_prev_hash := h, ev_hash := g\<rparr>) = f e"
  shows "map f (chained_log H) = map f sample_log"
  unfolding chained_log_def by (rule chain_from_map [OF assms])

lemma chained_log_hashes: "e \<in> set (chained_log H) \<Longrightarrow> eventHash H e = Inr (ev_hash e)"
  using chained_log_linked [of H] linked_hash [of H GENESIS_HASH 0 "chained_log H"]
  by (auto simp: well_chained_def in_set_conv_nth)

lemma chained_log_fresh:
  assumes "cn_hash env = H" "cn_source env = ''hl''" "cn_roomId env = ''room''"
  shows "connector_log env (chained_log H)"
proof -
  have keys: "map event_key (chained_log H) = [''hl:1'', ''hl:2'', ''hl:3'']"
    using chained_log_map [of event_key H]
    by (simp add: event_key_def sample_log_def sample_trade_def blank_event_def dedupeKey_def)
  have fields: "map (\<lambda>e. (ev_source e, ev_room_id e, ev_corrects e)) (chained_log H) = replicate 3 (''hl'', ''room'', None)"
    using chained_log_map [of "\<lambda>e. (ev_source e, ev_room_id e, ev_corrects e)" H]
    by (simp add: sample_log_def sample_trade_def blank_event_def numeral_3_eq_3)
  have "fresh_event env pre e" if "chained_log H = pre @ e # post" for pre e post
  proof -
    have "distinct (map event_key (pre @ e # post))" using keys by (simp add: that [symmetric])
    then have "latest_of pre (event_key e) = None" by (auto simp: latest_of_None)
    moreover have "(ev_source e, ev_room_id e, ev_corrects e) \<in> set (replicate 3 (''hl'', ''room'', None))"
      unfolding fields [symmetric] that by simp
    ultimately show ?thesis using assms by (simp add: fresh_event_def)
  qed
  with chained_log_linked [of H] assms(1) show ?thesis by (simp add: connector_log_def)
qed

text \<open>With the identity for a hash, the hashes of the log are the texts themselves.\<close>

lemma chained_log_id:
  "distinct (map ev_hash (chained_log (\<lambda>t. t)))" "\<forall>e \<in> set (chained_log (\<lambda>t. t)). ev_hash e \<noteq> []"
proof -
  let ?es = "chained_log (\<lambda>t. t)"
  have spelt: "canonicalize (covered e) = Inr (ev_hash e)" if "e \<in> set ?es" for e
    using chained_log_hashes [OF that] by (auto simp: eventHash_def map_sum_Inr_iff)
  have seqs: "map ev_seq ?es = [1, 2, 3]" using chained_log_map [of ev_seq] by (simp add: sample_log_def)
  have "e = f" if "e \<in> set ?es" "f \<in> set ?es" "ev_hash e = ev_hash f" for e f
  proof -
    have "same_content e f"
      using canonicalize_inject [OF spelt [OF that(1)]] spelt [OF that(2)] that(3) by (simp add: same_content_def)
    then have "ev_seq e = ev_seq f" by (rule same_content_fields)
    moreover have "inj_on ev_seq (set ?es)" using seqs distinct_map [of ev_seq ?es] by simp
    ultimately show ?thesis using that by (simp add: inj_on_eq_iff)
  qed
  moreover have "distinct ?es" using seqs distinct_map [of ev_seq ?es] by simp
  ultimately show "distinct (map ev_hash ?es)" by (simp add: distinct_map inj_on_def)
  show "\<forall>e \<in> set ?es. ev_hash e \<noteq> []"
    using canonicalize_starts [OF spelt] by fastforce
qed

subsection \<open>The tip commits to the history\<close>

lemma tip_commits_witness:
  "list_all2 same_content (chained_log (\<lambda>t. t)) (map (\<lambda>e. e\<lparr>ev_signature := Some ''other''\<rparr>) (chained_log (\<lambda>t. t)))"
proof -
  let ?es = "chained_log (\<lambda>t. t)" and ?sign = "\<lambda>e. e\<lparr>ev_signature := Some ''other''\<rparr>"
  have some: "?es \<noteq> []" using chained_log_map [of ev_seq "\<lambda>t. t"] by (auto simp: sample_log_def)
  have "linked H h n (map ?sign es) \<longleftrightarrow> linked H h n es" for H h n es
    by (induction es arbitrary: h n) auto
  then have "well_chained (\<lambda>t. t) (map ?sign ?es)"
    using chained_log_linked by (simp add: well_chained_def)
  with tip_commits [OF chained_log_linked this some] some show ?thesis
    by (simp add: last_map)
qed

subsection \<open>The incremental verifier\<close>

text \<open>C33: checking only what is new is as good as checking everything. A verifier that has checked a
  log accepts a longer log with no failure exactly when a full replay of the longer log, every
  signature included, reports none; and having accepted it, it has checked that one.\<close>

theorem incremental_verification_is_full:
  assumes "cv_knows H vs v es"
  shows "((\<exists>v'. cv_verify H vs v (es @ fs) = Inr ((True, []), v'))
        \<longleftrightarrow> verifyChain H vs None None (es @ fs) = Inr (True, []))
    \<and> (\<forall>fl v'. cv_verify H vs v (es @ fs) = Inr ((True, fl), v') \<longrightarrow> cv_knows H vs v' (es @ fs))"
  using cv_verify_full [OF assms] cv_verify_keeps_knowing [OF assms] by blast

lemma incremental_verification_is_full_witness:
  "\<exists>v. cv_verify (\<lambda>t. t) None new_verifier (chained_log (\<lambda>t. t)) = Inr ((True, []), v)"
  using incremental_verification_is_full [OF cv_knows_new, of "\<lambda>t. t" None "chained_log (\<lambda>t. t)"]
    chained_log_linked [of "\<lambda>t. t"]
  by (simp add: verifyChain_clean signed_after_def)

lemma cv_verify_below_watermark_witness:
  "\<exists>v'. cv_verify (\<lambda>t. t) (Some (\<lambda>e. False)) \<lparr> verifiedSeq = 5, verifiedHash = ''another log'' \<rparr> (chained_log (\<lambda>t. t))
    = Inr ((True, []), v')"
proof -
  have len: "length (chained_log (\<lambda>t. t)) = 3"
    using arg_cong [OF chained_log_map [of ev_seq "\<lambda>t. t"], of length] by (simp add: sample_log_def)
  show ?thesis
    by (rule cv_verify_below_watermark [OF chained_log_linked]) (use len in auto)
qed

subsection \<open>The provider's timeline and the verdict\<close>

lemma rectify_one_entry_per_fact_witness:
  "event_key ` set (rectify (chained_log (\<lambda>t. t))) = {''hl:1'', ''hl:2'', ''hl:3''}"
proof -
  let ?env = "\<lparr> cn_roomId = ''room'', cn_source = ''hl'', cn_hash = (\<lambda>t. t), cn_sign = (\<lambda>h. h), cn_clock = (\<lambda>n. sample_time) \<rparr>"
  have "map event_key (chained_log (\<lambda>t. t)) = [''hl:1'', ''hl:2'', ''hl:3'']"
    using chained_log_map [of event_key "\<lambda>t. t"]
    by (simp add: event_key_def sample_log_def sample_trade_def blank_event_def dedupeKey_def)
  then have "event_key ` set (chained_log (\<lambda>t. t)) = {''hl:1'', ''hl:2'', ''hl:3''}"
    by (metis list.set(1,2) list.set_map)
  with rectify_one_entry_per_fact [OF chained_log_fresh [of ?env] chained_log_id] show ?thesis by simp
qed

text \<open>C2: the evaluator decides by the rule. On events it can evaluate, the single pass that folds totals,
  baselines and the session's end decides exactly the stated verdict: the first counted trade
  that satisfies the condition's rule, counted trades being those up to the headline's own hit,
  or what the end of the session makes of none.\<close>

theorem evaluateCondition_is_the_verdict:
  assumes "known = known_events (opt_terminalSeq opts) (rectify es)" "evaluable c opts known"
  shows "evaluateCondition c es opts = verdict c (bounding_headline opts) (opt_terminalSeq opts) known"
  by (rule evaluate_verdict [OF assms])

lemma sample_options [simp]:
  "opt_terminalSeq default_options = None" "opt_terminalSeq bounded_options = None"
  "bounding_headline default_options = None" "bounding_headline bounded_options = Some sample_headline"
  by (simp_all add: default_options_def bounded_options_def bounding_headline_def)

lemma evaluateCondition_is_the_verdict_witness:
  "evaluateCondition sample_headline sample_log default_options = Decided ''a'' 3"
proof -
  have "evaluateCondition sample_headline sample_log default_options = verdict sample_headline None None sample_log"
    using evaluateCondition_is_the_verdict [of sample_log default_options sample_log sample_headline] sample_evaluable(1)
    by (simp add: known_events_def)
  then show ?thesis
    using sample_hits(1) by (simp add: verdict_def counted_def session_end_def rule_outcome_def)
qed

lemma evaluateCondition_late_witness:
  "evaluateCondition sample_headline (sample_log @ [sample_trade 4 ''4'' ''b'' 500]) (default_options\<lparr>opt_terminalSeq := Some 3\<rparr>)
    = evaluateCondition sample_headline sample_log (default_options\<lparr>opt_terminalSeq := Some 3\<rparr>)"
  by (rule evaluateCondition_late [where t = 3]) (simp_all add: truthy_text_def)

subsection \<open>The gate and the resolvers\<close>

lemma gate_resolver_same_outcome_witness:
  "\<exists>seq. evaluateCondition sample_threshold sample_log bounded_options = Decided ''yes'' seq"
proof -
  obtain fill at where "evaluateSlot sample_threshold sample_headline False sample_reconstruction = SlotDecided ''yes'' fill at"
    using sample_slot by blast
  from gate_resolver_same_outcome [OF _ sample_evaluable(2) _ sample_documents(1) sample_session this]
  show ?thesis by (simp add: known_events_def)
qed

lemma headline_same_outcome_witness:
  "(\<exists>fill at. evaluateSlot sample_headline sample_headline True sample_reconstruction = SlotDecided ''a'' fill at)
    \<longleftrightarrow> (\<exists>seq. evaluateCondition sample_headline sample_log default_options = Decided ''a'' seq)"
  by (rule headline_same_outcome [OF _ sample_evaluable(1) _ sample_documents(1) sample_session])
    (simp_all add: known_events_def)

subsection \<open>Ingesting into the room's log\<close>

text \<open>C22: an ingest keeps the log a connector's log, whatever it is given and however it ends. From a
  connector in step with its room's log, each call of ingestBatch leaves one in step, only ever
  appends, and reports exactly the events it appended when it does not throw.\<close>

theorem ingestBatch_keeps_the_log:
  assumes "in_step env memory_store c" "es_roomId (cn_store c) = Some (cn_roomId env)" "cn_roomId env \<noteq> []"
    and "ingestBatch env memory_store c raw rq ds = (c', r)"
  shows "in_step env memory_store c' \<and> es_roomId (cn_store c') = Some (cn_roomId env)
    \<and> (\<exists>es. es_all (cn_store c') = es_all (cn_store c) @ es \<and> (\<forall>es'. r = Inr es' \<longrightarrow> es' = es))"
  using memory.ingestBatch_in_step [OF assms(1) _ _ assms(4), of "cn_roomId env"] assms(2,3)
  by (simp add: memory_store_def)

text \<open>C23: asking for a window again adds nothing. After a window has been ingested, ingesting it again,
  whole or as part of another query, appends no event and leaves the log as it is.\<close>

theorem ingestBatch_twice_adds_nothing:
  assumes "in_step env memory_store c" "es_roomId (cn_store c) = Some (cn_roomId env)" "cn_roomId env \<noteq> []"
    and "ingestBatch env memory_store c raw rq ds = (c', Inr es)" "distinct (map (draft_key env) ds)"
    and "\<not> falsy rq'" "falsy (json_get rq' ''open_ended'')" "returns (canonicalize rq')"
  shows "\<exists>c''. ingestBatch env memory_store c' raw' rq' ds = (c'', Inr []) \<and> cn_store c'' = cn_store c'"
  using memory.ingestBatch_again [OF assms(1) _ _ assms(4,5,6,7,8), of "cn_roomId env"] assms(2,3) by simp

definition sample_connector :: connector_env where
  "sample_connector = \<lparr> cn_roomId = ''room'', cn_source = ''hl'', cn_hash = (\<lambda>t. ''h''), cn_sign = (\<lambda>h. ''s''),
     cn_clock = (\<lambda>n. sample_time) \<rparr>"

definition sample_query :: json where
  "sample_query = JObj [(''kind'', JStr ''userFillsByTime'')]"

definition first_connector :: "event_store connector" where
  "first_connector = new_connector \<lparr> es_events = [], es_roomId = Some ''room'' \<rparr> []"

lemma first_connector_ready:
  "in_step sample_connector memory_store first_connector" "es_roomId (cn_store first_connector) = Some (cn_roomId sample_connector)"
  "cn_roomId sample_connector \<noteq> []"
  by (simp_all add: in_step_def first_connector_def new_connector_def memory_store_def es_all_def es_visible_def
      sample_connector_def)

lemma sample_query_ok: "\<not> falsy sample_query" "falsy (json_get sample_query ''open_ended'')" "returns (canonicalize sample_query)"
  by (simp_all add: sample_query_def json_get_def canonicalize_obj_returns returns_def)

lemma returns_atoms [simp]: "returns (canonicalize JNull)" "returns (canonicalize (JStr t))"
  "returns (canonicalize (JNum 1))" "returns (canonicalize (JObj []))"
  by (simp_all add: returns_def safe_integer_def canonicalize_obj_returns)

lemma covered_returns:
  assumes "ev_seq e = 1" "returns (canonicalize (ev_facts e))" "returns (canonicalize (ev_derived e))" "returns (canonicalize (ev_raw_query e))"
  shows "returns (canonicalize (covered e))"
  using assms unfolding covered_def canonicalize_obj_returns
  by (simp add: covered_fields_def json_or_null_def split: option.split del: canonicalize.simps)

lemma sample_build:
  assumes "dr_facts d = Some (trade_facts n)" "dr_derived d = None" "dr_raw_query d = sample_query"
  shows "\<exists>e. buildEvent H None d at = Inr e"
proof -
  have "returns (canonicalize (trade_facts n))"
    unfolding trade_facts_def canonicalize_obj_returns by (simp del: canonicalize.simps)
  with sample_query_ok(3) have "returns (eventHash H e)"
    if "ev_seq e = 1 \<and> ev_facts e = trade_facts n \<and> ev_derived e = JObj [] \<and> ev_raw_query e = sample_query" for e
    using covered_returns [of e] that by (simp add: eventHash_def)
  moreover have "\<exists>b. buildEvent H None d at = bind_res (eventHash H b) (\<lambda>h. Inr (b\<lparr>ev_hash := h\<rparr>))
      \<and> ev_seq b = 1 \<and> ev_facts b = trade_facts n \<and> ev_derived b = JObj [] \<and> ev_raw_query b = sample_query"
    unfolding buildEvent_def Let_def by (rule exI, rule conjI, rule refl) (simp add: assms)
  ultimately obtain b h where "buildEvent H None d at = bind_res (eventHash H b) (\<lambda>h. Inr (b\<lparr>ev_hash := h\<rparr>))"
      "eventHash H b = Inr h"
    unfolding returns_def by blast
  then show ?thesis by simp
qed

lemma sample_ingest:
  "\<exists>c es. ingestBatch sample_connector memory_store first_connector ''raw'' sample_query [sample_draft ''1'' ''a'' 40] = (c, Inr es)"
proof -
  obtain t where q: "canonicalize sample_query = Inr t" using sample_query_ok(3) by (auto simp: returns_def)
  obtain c ref rh where start: "ingestBatch sample_connector memory_store first_connector ''raw'' sample_query ds
      = ingest_drafts sample_connector memory_store ref rh sample_query c ds"
      "cn_store c = cn_store first_connector" "cn_latest c = []" for ds
    using q sample_query_ok(1,2)
    by (simp add: ingestBatch_def Let_def raw_put_def ensureLoaded_def first_connector_def new_connector_def
        memory_store_def es_all_def es_visible_def)
  let ?d = "complete_draft sample_connector ref rh sample_query None (sample_draft ''1'' ''a'' 40)"
  obtain e where e: "buildEvent (\<lambda>t. ''h'') None ?d sample_time = Inr e"
    using sample_build [of ?d 40 "\<lambda>t. ''h''" sample_time] by (auto simp: complete_draft_def sample_draft_def)
  have "port_tip memory_store (cn_store c) = None"
    using start(2) by (simp add: memory_store_def es_tip_def es_visible_def first_connector_def new_connector_def last_opt_def)
  moreover from buildEvent_fields(1,6) [OF e] obtain s' where
      "port_append memory_store (cn_store c) (e\<lparr>ev_signature := Some ''s''\<rparr>) = Inr s'"
    using start(2) by (simp add: memory_store_def es_append_def Let_def complete_draft_def sample_connector_def
        first_connector_def new_connector_def last_opt_def)
  ultimately show ?thesis
    using start(1,3) e
    by (simp add: ingest_draft_def Let_def sample_connector_def)
qed

lemma ingestBatch_keeps_the_log_witness:
  "\<exists>c'. in_step sample_connector memory_store c' \<and> (\<exists>es. es_all (cn_store c') = es_all (cn_store first_connector) @ es)"
proof -
  obtain c' r where "ingestBatch sample_connector memory_store first_connector ''raw'' sample_query
      [sample_draft ''1'' ''a'' 40] = (c', r)" by fastforce
  from ingestBatch_keeps_the_log [OF first_connector_ready this] show ?thesis by blast
qed

lemma ingestBatch_twice_adds_nothing_witness:
  "\<exists>c' c''. ingestBatch sample_connector memory_store c' ''again'' sample_query [sample_draft ''1'' ''a'' 40] = (c'', Inr [])
    \<and> cn_store c'' = cn_store c'"
proof -
  obtain c' es where "ingestBatch sample_connector memory_store first_connector ''raw'' sample_query
      [sample_draft ''1'' ''a'' 40] = (c', Inr es)" using sample_ingest by blast
  from ingestBatch_twice_adds_nothing [OF first_connector_ready this _ sample_query_ok, of "''again''"] show ?thesis by auto
qed

end
