(* ===== verification/SettlementProperties.thy ===== *)
theory SettlementProperties
  imports Settlement IndexerProperties Samples
begin

section \<open>Settlement records against the chain\<close>

text \<open>
  The quorum a record states, over the indexed attestations; what invalidation a record gives
  beside it; and when a replay reproduces the record.
\<close>

subsection \<open>Counting resolvers\<close>

lemma two_distinct: "distinct xs \<Longrightarrow> 2 \<le> length xs \<longleftrightarrow> (\<exists>x \<in> set xs. \<exists>y \<in> set xs. x \<noteq> y)"
  by (cases xs; cases "tl xs") auto

definition attesters :: "string \<Rightarrow> attestation list \<Rightarrow> string set" where
  "attesters k as = {lower_or_empty (an_resolver a) |a. a \<in> set as \<and> result_key a = k}"

lemma resolvers_of_result:
  "distinct (case js_get (resolvers_by_result as) k of Some rs \<Rightarrow> rs | None \<Rightarrow> [])
    \<and> set (case js_get (resolvers_by_result as) k of Some rs \<Rightarrow> rs | None \<Rightarrow> []) = attesters k as"
proof (induction as rule: rev_induct)
  case (snoc a as)
  have "attesters k (as @ [a]) = (if result_key a = k then insert (lower_or_empty (an_resolver a)) (attesters k as) else attesters k as)"
    by (auto simp: attesters_def)
  with snoc show ?case by (auto simp: resolvers_by_result_def port_simps)
qed (simp add: resolvers_by_result_def attesters_def)

lemma resolvers_distinct: "distinct (map fst (resolvers_by_result as))"
  by (induction as rule: rev_induct) (simp_all add: resolvers_by_result_def distinct_update)

lemma reachedQuorum_iff:
  "reachedQuorum as \<longleftrightarrow> (\<exists>a \<in> set as. \<exists>b \<in> set as. result_key a = result_key b
       \<and> lower_or_empty (an_resolver a) \<noteq> lower_or_empty (an_resolver b))
     \<or> (\<exists>a \<in> set as. 2 \<le> (case an_count a of Some n \<Rightarrow> n | None \<Rightarrow> 0))"
proof -
  have "list_ex (\<lambda>(_, rs). 2 \<le> length rs) (resolvers_by_result as) \<longleftrightarrow> (\<exists>k. \<exists>x \<in> attesters k as. \<exists>y \<in> attesters k as. x \<noteq> y)"
  proof -
    have "(\<exists>rs. js_get (resolvers_by_result as) k = Some rs \<and> 2 \<le> length rs) \<longleftrightarrow> (\<exists>x \<in> attesters k as. \<exists>y \<in> attesters k as. x \<noteq> y)" for k
      using resolvers_of_result [of as k] two_distinct by (fastforce split: option.splits)
    then show ?thesis using resolvers_distinct [of as] by (fastforce simp: list_ex_iff)
  qed
  also have "\<dots> \<longleftrightarrow> (\<exists>a \<in> set as. \<exists>b \<in> set as. result_key a = result_key b
       \<and> lower_or_empty (an_resolver a) \<noteq> lower_or_empty (an_resolver b))"
    unfolding attesters_def by (simp, metis)
  finally show ?thesis by (simp add: reachedQuorum_def list_ex_iff)
qed

lemma colon_inject:
  "CHR '':'' \<notin> set a \<Longrightarrow> CHR '':'' \<notin> set a' \<Longrightarrow> colon a b = colon a' b' \<longleftrightarrow> a = a' \<and> b = b'"
  by (metis takeWhile_colon colon_def append_Cons append_same_eq same_append_eq list.inject)

lemma int_string_no_colon: "CHR '':'' \<notin> set (int_string n)"
  using digits_no_colon [OF dec_string_digits] by (simp add: int_string_def)

lemma int_string_inject: "int_string m = int_string n \<longleftrightarrow> m = n"
  using int_string_append_inject [of m "[]" n "[]"] by (auto simp: follow_def)

lemma result_key_inject:
  "result_key a = result_key b \<longleftrightarrow> an_outcome a = an_outcome b \<and> lower_or_empty (an_evidence a) = lower_or_empty (an_evidence b)"
  by (simp add: result_key_def colon_inject int_string_no_colon int_string_inject)

subsection \<open>The record's quorum is the chain's\<close>

definition attested :: "string \<Rightarrow> log \<Rightarrow> string \<Rightarrow> int \<Rightarrow> string \<Rightarrow> int \<Rightarrow> bool" where
  "attested market l resolver out evidence n \<longleftrightarrow>
     lg_event l = ResultAttested resolver out evidence n \<and> to_lower (lg_address l) = to_lower market"

text \<open>
  Two resolvers attested one result, or the running count a \<open>ResultAttested\<close> carries reached two.
\<close>

definition chain_quorum :: "log set \<Rightarrow> string \<Rightarrow> bool" where
  "chain_quorum L market \<longleftrightarrow>
     (\<exists>l \<in> L. \<exists>l' \<in> L. \<exists>r r' out e e' n n'. attested market l r out e n \<and> attested market l' r' out e' n'
        \<and> to_lower e = to_lower e' \<and> to_lower r \<noteq> to_lower r')
     \<or> (\<exists>l \<in> L. \<exists>r out e n. attested market l r out e n \<and> 2 \<le> n)"

lemma listed_attestation:
  "r \<in> set (listAttestations p market) \<longleftrightarrow> r \<in> set (pj_attestations p) \<and> to_lower (at_market r) = to_lower market"
  by (auto simp: listAttestations_def)

lemma log_attestations_iff:
  "r \<in> set (log_attestations l) \<and> to_lower (at_market r) = to_lower market \<longleftrightarrow>
     attested market l (at_resolver r) (at_outcome r) (at_evidence r) (at_count r) \<and> at_market r = lg_address l \<and> at_block r = lg_block l"
  by (cases "lg_event l") (auto simp: log_attestations_def attested_def intro: attestation_row.equality)

lemma follows_attestations:
  assumes "follows_chain C st" "deployment fs rs C"
  shows "set (pj_attestations (ix_store st)) = (\<Union>l \<in> indexed_part C st. set (log_attestations l))"
proof -
  from follows_posted [OF assms] obtain ls where ls: "set ls = indexed_part C st" "ledger_of (ix_store st) = posted ls" .
  have "pj_attestations (ix_store st) = le_attestations (posted ls)" by (simp add: ledger_of_def flip: ls(2))
  with ls(1) show ?thesis by (simp add: posted_parts)
qed

lemma indexed_entries:
  assumes "follows_chain C st" "deployment fs rs C"
  shows "a \<in> set (indexedAttestations (ix_store st) market) \<longleftrightarrow> (\<exists>l \<in> indexed_part C st. \<exists>r out e n. attested market l r out e n
    \<and> a = \<lparr> an_resolver = Some r, an_outcome = out, an_evidence = Some e, an_count = Some n, an_block = int (lg_block l) \<rparr>)"
proof
  assume "a \<in> set (indexedAttestations (ix_store st) market)"
  then obtain r where r: "r \<in> set (listAttestations (ix_store st) market)" "a = entry_of r"
    by (auto simp: indexedAttestations_def)
  with follows_attestations [OF assms] obtain l where "l \<in> indexed_part C st" "r \<in> set (log_attestations l)"
      "to_lower (at_market r) = to_lower market" by (auto simp: listed_attestation)
  with log_attestations_iff [of r l market] r(2) show "\<exists>l \<in> indexed_part C st. \<exists>r out e n. attested market l r out e n
    \<and> a = \<lparr> an_resolver = Some r, an_outcome = out, an_evidence = Some e, an_count = Some n, an_block = int (lg_block l) \<rparr>"
    by (intro bexI [of _ l] exI [of _ "at_resolver r"] exI [of _ "at_outcome r"] exI [of _ "at_evidence r"] exI [of _ "at_count r"])
      (simp_all add: entry_of_def)
next
  assume "\<exists>l \<in> indexed_part C st. \<exists>r out e n. attested market l r out e n
    \<and> a = \<lparr> an_resolver = Some r, an_outcome = out, an_evidence = Some e, an_count = Some n, an_block = int (lg_block l) \<rparr>"
  then obtain l r out e n where l: "l \<in> indexed_part C st" "attested market l r out e n"
    "a = \<lparr> an_resolver = Some r, an_outcome = out, an_evidence = Some e, an_count = Some n, an_block = int (lg_block l) \<rparr>" by blast
  let ?r = "\<lparr> at_market = lg_address l, at_resolver = r, at_outcome = out, at_evidence = e, at_count = n, at_block = lg_block l \<rparr>"
  from log_attestations_iff [of ?r l market] l(2) have "?r \<in> set (log_attestations l)" "to_lower (at_market ?r) = to_lower market"
    by simp_all
  with follows_attestations [OF assms] l(1) have "?r \<in> set (listAttestations (ix_store st) market)"
    by (auto simp: listed_attestation)
  then show "a \<in> set (indexedAttestations (ix_store st) market)"
    unfolding indexedAttestations_def by (simp add: l(3) image_iff) (rule bexI [of _ ?r], simp_all add: entry_of_def)
qed

lemma bex_entries:
  assumes "follows_chain C st" "deployment fs rs C"
  shows "(\<exists>a \<in> set (indexedAttestations (ix_store st) market). Q a) \<longleftrightarrow> (\<exists>l \<in> indexed_part C st. \<exists>r out e n. attested market l r out e n
    \<and> Q \<lparr> an_resolver = Some r, an_outcome = out, an_evidence = Some e, an_count = Some n, an_block = int (lg_block l) \<rparr>)"
  unfolding Bex_def indexed_entries [OF assms] by blast

lemma indexed_quorum:
  assumes "follows_chain C st" "deployment fs rs C"
  shows "reachedQuorum (indexedAttestations (ix_store st) market) \<longleftrightarrow> chain_quorum (indexed_part C st) market"
  unfolding reachedQuorum_iff result_key_inject chain_quorum_def bex_entries [OF assms] lower_or_empty_def
    attestation.simps option.case
  by (intro arg_cong2 [where f = "(\<or>)"] iffI; blast)

text \<open>No curated reference stands in for the index.\<close>

definition uncurated :: "settlement_service \<Rightarrow> string \<Rightarrow> bool" where
  "uncurated sv market \<longleftrightarrow> (case js_get (sv_chainRefs sv) market of Some refs \<Rightarrow> rf_attestations refs = None
     \<and> rf_invalidationReason refs = None | None \<Rightarrow> True)"

lemma settlement_index:
  assumes "settlement sv p eventsFor market = Inr (Some rec)" "uncurated sv market"
  shows "rd_attestations rec = indexedAttestations p market" "rd_quorum rec = reachedQuorum (indexedAttestations p market)"
    "\<exists>challenge. rd_invalidation rec = (if rd_outcome rec = 4 then
       Some (invalidationReason p market (rd_attestations rec) (rd_quorum rec) challenge,
         explained_as (invalidationReason p market (rd_attestations rec) (rd_quorum rec) challenge)) else None)"
proof -
  define refs where "refs = (case js_get (sv_chainRefs sv) market of Some r \<Rightarrow> r | None \<Rightarrow> no_refs)"
  from assms(2) have refs: "rf_attestations refs = None" "rf_invalidationReason refs = None"
    by (cases "js_get (sv_chainRefs sv) market"; simp add: uncurated_def refs_def no_refs_def)+
  have "getMarket p market \<noteq> None"
  proof
    assume "getMarket p market = None"
    with assms(1) show False by (simp add: settlement_def)
  qed
  then obtain r where r: "getMarket p market = Some r" by blast
  from assms(1) show "rd_attestations rec = indexedAttestations p market" "rd_quorum rec = reachedQuorum (indexedAttestations p market)"
    "\<exists>challenge. rd_invalidation rec = (if rd_outcome rec = 4 then
       Some (invalidationReason p market (rd_attestations rec) (rd_quorum rec) challenge,
         explained_as (invalidationReason p market (rd_attestations rec) (rd_quorum rec) challenge)) else None)"
    unfolding settlement_def r option.case Let_def refs_def [symmetric] refs bind_res_eq_Inr
    by (elim exE conjE; clarsimp; blast?)+
qed

lemma reason_no_quorum:
  "invalidationReason p market as q ch = ''no_quorum'' \<Longrightarrow> as = [] \<or> \<not> q"
  by (auto simp: invalidationReason_def split: if_splits)

lemma quorum_nonempty: "reachedQuorum as \<Longrightarrow> as \<noteq> []"
  by (auto simp: reachedQuorum_iff)

text \<open>C7: over an honest node, the quorum a settlement record states is the chain's: two resolvers attested one
  outcome with one evidence hash, or the contract's own count reached two - among exactly the
  indexed logs of the market. A record that states a quorum never gives its absence as the reason
  the market was invalidated.\<close>

theorem record_quorum_is_the_chains:
  assumes "deployment fs rs C" "\<forall>(nd, head) \<in> set polls. wired fs rs C nd" "st = run_polls polls new_indexer"
    and "settlement sv (ix_store st) eventsFor market = Inr (Some rec)" "uncurated sv market"
  shows "(rd_quorum rec \<longleftrightarrow> chain_quorum (indexed_part C st) market)
    \<and> (rd_quorum rec \<longrightarrow> (\<forall>explanation. rd_invalidation rec \<noteq> Some (''no_quorum'', explanation)))"
proof -
  have fol: "follows_chain C st"
    unfolding assms(3) by (rule run_polls_follows [OF assms(2,1) follows_new [OF assms(1)]])
  note rec = settlement_index [OF assms(4,5)]
  from rec(2) indexed_quorum [OF fol assms(1)] have "rd_quorum rec \<longleftrightarrow> chain_quorum (indexed_part C st) market" by simp
  moreover have "rd_invalidation rec \<noteq> Some (''no_quorum'', explanation)" if q: "rd_quorum rec" for explanation
  proof
    assume "rd_invalidation rec = Some (''no_quorum'', explanation)"
    with rec(3) obtain ch where "invalidationReason (ix_store st) market (rd_attestations rec) (rd_quorum rec) ch = ''no_quorum''"
      by (auto split: if_splits)
    with reason_no_quorum q rec(1,2) quorum_nonempty show False by metis
  qed
  ultimately show ?thesis by blast
qed

text \<open>The instance: two resolvers attest outcome A with one evidence hash in two spellings.\<close>

definition sample_attest :: "nat \<Rightarrow> string \<Rightarrow> string \<Rightarrow> log" where
  "sample_attest n resolver evidence = \<lparr> lg_block = n, lg_index = 0, lg_address = ''0xm'',
     lg_event = ResultAttested resolver 1 evidence 1 \<rparr>"

definition attested_chain :: "log list" where
  "attested_chain = [sample_created, sample_attest 2 ''0xr1'' ''0xEE'', sample_attest 3 ''0xr2'' ''0xee'']"

lemma attested_deployment: "deployment [''0xf''] [] attested_chain"
proof -
  have "announced [''0xf''] attested_chain (sample_attest n r e)" if "1 \<le> n" for n r e
    unfolding announced_def attested_chain_def
    by (intro bexI [of _ sample_created]) (use that in \<open>simp_all add: sample_created_def sample_attest_def from_one_of_def\<close>)
  moreover have "distinct (map log_id attested_chain)" by code_simp
  ultimately show ?thesis
    by (simp add: deployment_def attested_chain_def) (simp add: sample_created_def sample_attest_def from_one_of_def)
qed

definition attested_state :: indexer where
  "attested_state = run_polls [(serving_node attested_chain, 3)] new_indexer"

definition plain_service :: settlement_service where
  "plain_service = \<lparr> sv_conditionForMarket = None, sv_conditions = [], sv_participantA = ''a'', sv_participantB = ''b'',
     sv_playback = None, sv_chainRefs = [], sv_hash = (\<lambda>s. s) \<rparr>"

theorem record_quorum_is_the_chains_witness:
  "\<exists>rec. settlement plain_service (ix_store attested_state) (\<lambda>_. []) ''0xM'' = Inr (Some rec) \<and> rd_quorum rec
     \<and> chain_quorum (indexed_part attested_chain attested_state) ''0xM''"
proof -
  let ?r = "settlement plain_service (ix_store attested_state) (\<lambda>_. []) ''0xM''"
  have "(case ?r of Inr (Some rec) \<Rightarrow> rd_quorum rec | _ \<Rightarrow> False)" by code_simp
  then obtain rec where rec: "?r = Inr (Some rec)" "rd_quorum rec" by (auto split: sum.splits option.splits)
  have "uncurated plain_service ''0xM''" by (simp add: uncurated_def plain_service_def)
  with record_quorum_is_the_chains [OF attested_deployment _ attested_state_def rec(1)] rec wired_serving show ?thesis by auto
qed

subsection \<open>Replaying a record\<close>

lemma settlement_decision:
  assumes "settlement sv p eventsFor market = Inr (Some rec)" "headlineCondition sv = None"
  shows "rd_decisive_event rec = (case rd_closing_condition rec of
      Some c \<Rightarrow> (case evaluateCondition c (eventsFor (rd_room_id rec))
          (default_options\<lparr>opt_terminalSeq := terminalSeq_of (getRoom p (json_text (rd_room_id rec)))\<rparr>) of
        Decided out seq \<Rightarrow> Some (seq, out) | _ \<Rightarrow> None)
    | None \<Rightarrow> None)"
proof -
  have "getMarket p market \<noteq> None"
  proof
    assume "getMarket p market = None"
    with assms(1) show False by (simp add: settlement_def)
  qed
  then obtain r where r: "getMarket p market = Some r" by blast
  have opts: "record_options sv t d = default_options\<lparr>opt_terminalSeq := t\<rparr>" for t d
    by (simp add: record_options_def assms(2) default_options_def)
  from assms(1) obtain d where d: "rd_closing_condition rec = map_option snd d"
    "rd_decisive_event rec = (case record_decision sv d (terminalSeq_of (getRoom p (json_text (rd_room_id rec)))) (eventsFor (rd_room_id rec)) of
       Some (Decided out seq) \<Rightarrow> Some (seq, out) | _ \<Rightarrow> None)"
    unfolding settlement_def r option.case Let_def bind_res_eq_Inr by (elim exE conjE) clarsimp
  then show ?thesis by (cases d) (auto simp: record_decision_def opts)
qed

text \<open>C26: where no headline bounds a question, a replay is sound and complete for its record: it succeeds exactly
  when the record has a condition document and either its decisive event names the outcome that was
  paid, or nothing was decided and the market was paid as invalid.\<close>

theorem replay_reproduces_record:
  assumes "settlement sv p eventsFor market = Inr (Some rec)" "verifyReplay sv p eventsFor market = Inr rp"
    and "headlineCondition sv = None"
  shows "replay_ok rp \<longleftrightarrow> rd_closing_condition rec \<noteq> None \<and> (case rd_decisive_event rec of
      Some (seq, out) \<Rightarrow> enumFor sv out = Inr (rd_outcome rec) | None \<Rightarrow> rd_outcome rec = 4)"
proof (cases "rd_closing_condition rec")
  case None
  with assms(1,2) have "rp = NoDocument" by (simp add: verifyReplay_def bind_res_def)
  with None show ?thesis by simp
next
  case (Some c)
  let ?d = "evaluateCondition c (eventsFor (rd_room_id rec))
    (default_options\<lparr>opt_terminalSeq := terminalSeq_of (getRoom p (json_text (rd_room_id rec)))\<rparr>)"
  from assms(1,2) Some have rp: "rp = (case ?d of
        Decided out seq \<Rightarrow> (case enumFor sv out of Inl e \<Rightarrow> UnknownOutcome e
           | Inr expected \<Rightarrow> Replayed (expected = rd_outcome rec) ?d expected (rd_outcome rec))
      | _ \<Rightarrow> Undecidable (rd_outcome rec = 4) ?d)"
    by (simp add: verifyReplay_def bind_res_def Let_def)
  have dec: "rd_decisive_event rec = (case ?d of Decided out seq \<Rightarrow> Some (seq, out) | _ \<Rightarrow> None)"
    using settlement_decision [OF assms(1,3)] Some by simp
  show ?thesis
  proof (cases ?d)
    case (Decided out seq)
    with rp dec Some show ?thesis by (cases "enumFor sv out") auto
  qed (use rp dec Some in auto)
qed

text \<open>
  The instance: the session of three trades, with the headline race, or a threshold question that
  the session only meets after the race is decided.
\<close>

definition late_log :: "event list" where
  "late_log = sample_log @ [sample_trade 4 ''4'' ''a'' 60]"

definition late_threshold :: condition where
  "late_threshold = JObj [(''condition_version'', JStr ''1.0.0''), (''template'', JStr ''participant_metric_threshold''),
     (''params'', JObj [(''participant'', JStr ''a''), (''metric'', JStr ''realized_pnl_usd''), (''operator'', JStr ''>=''),
        (''value'', JStr (dollars 150))])]"

definition question_service :: "(string, condition_doc) js_map \<Rightarrow> settlement_service" where
  "question_service conditions = plain_service\<lparr>sv_conditionForMarket := Some (\<lambda>_ _ _. Some (1, late_threshold)),
     sv_conditions := conditions\<rparr>"

lemma rectify_late [simp]: "rectify late_log = late_log"
proof -
  have "snd (rectify_slots late_log) = late_log"
    by (simp add: rectify_slots_def rectify_step_def late_log_def sample_log_def truthy_text_def Let_def)
  moreover have "sorted (map timeline_key late_log)" by (simp add: late_log_def sample_log_def)
  ultimately show ?thesis by (simp add: rectify_def sort_key_id_if_sorted)
qed

lemma late_document [simp]:
  "is_threshold late_threshold" "\<not> is_headline late_threshold" "rule_metric late_threshold = PNL"
  "rule_operator late_threshold = JStr ''>=''" "rule_value late_threshold = JStr (dollars 150)"
  "param_of late_threshold ''participant'' = JStr ''a''"
  by (simp_all add: late_threshold_def is_headline_def is_threshold_def template_of_def json_get_def
      rule_metric_def rule_operator_def rule_value_def param_of_def PNL_def)

lemma late_evaluable: "evaluable late_threshold default_options late_log" "evaluable late_threshold bounded_options late_log"
  by (simp_all add: evaluable_def wf_condition_def late_log_def sample_log_def ready_def sample_ready roster_admits_def roster_of_def
      bounding_headline_def default_options_def bounded_options_def PNL_def RETURN_def)

lemma late_hits:
  "first_hit (rule_hit sample_headline) [] late_log = Some (sample_trade 3 ''3'' ''a'' 60)"
  "first_hit (rule_hit late_threshold) [] late_log = Some (sample_trade 4 ''4'' ''a'' 60)"
  "first_hit (rule_hit late_threshold) [] sample_log = None"
  by (simp_all add: late_log_def sample_log_def rule_hit_def holds_op_def rule_figure_def json_or_null_def PNL_def realized_def)

lemma late_decisions:
  "evaluateCondition late_threshold late_log default_options = Decided ''yes'' 4"
  "evaluateCondition late_threshold late_log bounded_options = Decided ''no'' 3"
proof -
  have known: "late_log = known_events None (rectify late_log)" by (simp add: known_events_def)
  have options: "opt_terminalSeq default_options = None" "opt_terminalSeq bounded_options = None"
    "bounding_headline default_options = None" "bounding_headline bounded_options = Some sample_headline"
    by (simp_all add: default_options_def bounded_options_def bounding_headline_def)
  from evaluate_verdict [of late_log default_options late_log late_threshold] late_evaluable(1) known
  show "evaluateCondition late_threshold late_log default_options = Decided ''yes'' 4"
    by (simp add: options verdict_def counted_def session_end_def rule_outcome_def late_hits)
  have cut: "counted (Some sample_headline) late_log = sample_log"
    by (simp add: counted_def session_end_def late_hits) (simp add: late_log_def sample_log_def)
  have "undecidedAtSessionEnd late_threshold = Some ''no''"
    by (simp add: undecidedAtSessionEnd_def late_threshold_def template_of_def json_get_def)
  with evaluate_verdict [of late_log bounded_options late_log late_threshold] late_evaluable(2) known cut
  show "evaluateCondition late_threshold late_log bounded_options = Decided ''no'' 3"
    by (simp add: options verdict_def session_end_def late_hits)
qed

definition paid_store :: "int \<Rightarrow> projection" where
  "paid_store out = reset_store\<lparr>pj_markets := [(''0xm'',
     [(''market_address'', JStr ''0xm''), (''room_id'', JStr ''r''), (''final_outcome'', JNum out)])]\<rparr>"

lemma settlement_returns:
  assumes "getMarket p market = Some r" "conditionFor_market sv market (row_get r ''room_id'')
      (coalesce (row_get (row_of (slotByMarket p market)) ''condition_hash'') JNull) = Some d"
    and "conditionHash (sv_hash sv) (snd d) = Inr h"
  shows "\<exists>rec. settlement sv p eventsFor market = Inr (Some rec) \<and> rd_closing_condition rec = Some (snd d)
    \<and> rd_room_id rec = row_get r ''room_id'' \<and> rd_outcome rec = num_of (coalesce (row_get r ''final_outcome'') (JNum 0))"
  unfolding settlement_def assms(1) option.case Let_def assms(2) assms(3) by (simp add: bind_res_def)

lemma late_record:
  "\<exists>rec. settlement (question_service cs) (paid_store out) (\<lambda>_. late_log) ''0xm'' = Inr (Some rec)
    \<and> rd_closing_condition rec = Some late_threshold \<and> rd_room_id rec = JStr ''r'' \<and> rd_outcome rec = out"
proof -
  have r: "getMarket (paid_store out) ''0xm'' = Some [(''market_address'', JStr ''0xm''), (''room_id'', JStr ''r''), (''final_outcome'', JNum out)]"
  proof -
    have "to_lower ''0xm'' = ''0xm''" by code_simp
    then show ?thesis by (simp add: getMarket_def paid_store_def)
  qed
  have "(case conditionHash (\<lambda>s. s) late_threshold of Inr h \<Rightarrow> True | Inl e \<Rightarrow> False)" by code_simp
  then have "\<exists>h. conditionHash (\<lambda>s. s) late_threshold = Inr h" by (auto split: sum.splits)
  then obtain h where h: "conditionHash (sv_hash (question_service cs)) (snd (1 :: nat, late_threshold)) = Inr h"
    by (auto simp: question_service_def plain_service_def)
  from settlement_returns [OF r _ h] show ?thesis
    by (simp add: conditionFor_market_def question_service_def row_get_def coalesce_def)
qed

lemma late_terminal: "terminalSeq_of (getRoom (paid_store out) x) = None"
  by (simp add: terminalSeq_of_def getRoom_def paid_store_def reset_store_def row_of_def row_get_def truthy_cell_def)

lemma late_replay:
  "verifyReplay (question_service cs) (paid_store out) (\<lambda>_. late_log) ''0xm''
    = Inr (Replayed (1 = out) (Decided ''yes'' 4) 1 out)"
proof -
  obtain rec where rec: "settlement (question_service cs) (paid_store out) (\<lambda>_. late_log) ''0xm'' = Inr (Some rec)"
    "rd_closing_condition rec = Some late_threshold" "rd_room_id rec = JStr ''r''" "rd_outcome rec = out"
    using late_record by blast
  have "default_options\<lparr>opt_terminalSeq := None\<rparr> = default_options" by (simp add: default_options_def)
  then show ?thesis
    by (simp add: verifyReplay_def rec bind_res_def late_terminal late_decisions(1) enumFor_def Let_def)
qed

theorem replay_reproduces_record_witness:
  "\<exists>rec. settlement (question_service []) (paid_store 1) (\<lambda>_. late_log) ''0xm'' = Inr (Some rec) \<and> rd_closing_condition rec \<noteq> None
    \<and> (case rd_decisive_event rec of Some (seq, out) \<Rightarrow> enumFor (question_service []) out = Inr (rd_outcome rec) | None \<Rightarrow> rd_outcome rec = 4)"
proof -
  obtain rec where rec: "settlement (question_service []) (paid_store 1) (\<lambda>_. late_log) ''0xm'' = Inr (Some rec)"
    using late_record by blast
  have "headlineCondition (question_service []) = None" by (simp add: headlineCondition_def question_service_def)
  from replay_reproduces_record [OF rec late_replay this] rec show ?thesis by auto
qed

text \<open>
  Where a headline does bound the question, the record of a market that paid "no" is refuted by its
  own replay: the record cuts the session at the headline, the replay does not.
\<close>

lemma replay_ignores_headline:
  "\<exists>rec. settlement (question_service [(''0xh'', (2, sample_headline))]) (paid_store 2) (\<lambda>_. late_log) ''0xm'' = Inr (Some rec)
      \<and> rd_outcome rec = 2 \<and> rd_closing_condition rec = Some late_threshold"
  "record_decision (question_service [(''0xh'', (2, sample_headline))]) (Some (1, late_threshold)) None late_log = Some (Decided ''no'' 3)"
  "verifyReplay (question_service [(''0xh'', (2, sample_headline))]) (paid_store 2) (\<lambda>_. late_log) ''0xm''
    = Inr (Replayed False (Decided ''yes'' 4) 1 2)"
proof -
  have "headlineCondition (question_service [(''0xh'', (2, sample_headline))]) = Some (2, sample_headline)"
    by (simp add: headlineCondition_def question_service_def undecidedAtSessionEnd_def sample_headline_def template_of_def json_get_def)
  then have "record_options (question_service [(''0xh'', (2, sample_headline))]) None (1, late_threshold) = bounded_options"
    by (simp add: record_options_def bounded_options_def default_options_def)
  then show "record_decision (question_service [(''0xh'', (2, sample_headline))]) (Some (1, late_threshold)) None late_log = Some (Decided ''no'' 3)"
    by (simp add: record_decision_def late_decisions(2))
qed (use late_record late_replay in \<open>force+\<close>)

end
