(* ===== verification/SqliteChat.thy ===== *)
theory SqliteChat
  imports Chat
begin

section \<open>The durable chat store (ports/sqlite-stores.mjs, SqliteChatStore)\<close>

text \<open>
  Messages, timeouts and the audit trail of every room in one database. A table is the list of its
  rows in the order of their row ids; the stamps of messages are the milliseconds of their text.
  The locale \<open>chat_store\<close> is what a room's readers rely on; the in-memory store and every room's
  view of the database meet it.
\<close>

subsection \<open>Tables\<close>

record chat_row =
  cr_id :: nat
  cr_room :: string
  cr_author :: string
  cr_label :: "string option"
  cr_text :: string
  cr_at :: int
  cr_deleted :: bool

record audit_row =
  au_room :: string
  au_moderator :: string
  au_action :: string
  au_messageId :: "nat option"
  au_at :: int

text \<open>\<open>autoincrement\<close> keeps the largest id ever given, also when its row is gone.\<close>

record chat_db =
  cd_messages :: "chat_row list"
  cd_lastId :: nat
  cd_timeouts :: "(string \<times> string, int) js_map"
  cd_audits :: "audit_row list"

definition empty_chat_db :: chat_db where
  "empty_chat_db = \<lparr> cd_messages = [], cd_lastId = 0, cd_timeouts = [], cd_audits = [] \<rparr>"

definition message_of :: "chat_row \<Rightarrow> message" where
  "message_of r = \<lparr> mg_id = cr_id r, mg_author = cr_author r, mg_label = cr_label r, mg_text = cr_text r, mg_at = cr_at r \<rparr>"

subsection \<open>Operations of a room's view\<close>

definition in_room :: "string \<Rightarrow> chat_db \<Rightarrow> chat_row list" where
  "in_room room db = filter (\<lambda>r. cr_room r = room) (cd_messages db)"

definition sqc_append :: "string \<Rightarrow> string \<Rightarrow> string option \<Rightarrow> string \<Rightarrow> int \<Rightarrow> chat_db \<Rightarrow> chat_db \<times> message" where
  "sqc_append room author label body at db =
     (let r = \<lparr> cr_id = cd_lastId db + 1, cr_room = room, cr_author = author, cr_label = label, cr_text = body,
                cr_at = at, cr_deleted = False \<rparr>
      in (db\<lparr>cd_messages := cd_messages db @ [r], cd_lastId := cd_lastId db + 1\<rparr>, message_of r))"

definition sqc_history :: "string \<Rightarrow> nat \<Rightarrow> chat_db \<Rightarrow> message list" where
  "sqc_history room sinceId db =
     map message_of (sort_key cr_id (filter (\<lambda>r. sinceId < cr_id r \<and> \<not> cr_deleted r) (in_room room db)))"

text \<open>The row as found carries no label.\<close>

definition sqc_find :: "string \<Rightarrow> nat \<Rightarrow> chat_db \<Rightarrow> message option" where
  "sqc_find room i db = map_option (\<lambda>r. (message_of r)\<lparr>mg_label := None\<rparr>) (find (\<lambda>r. cr_id r = i) (in_room room db))"

definition sqc_delete :: "string \<Rightarrow> nat \<Rightarrow> chat_db \<Rightarrow> chat_db" where
  "sqc_delete room i db = db\<lparr>cd_messages :=
     map (\<lambda>r. if cr_room r = room \<and> cr_id r = i then r\<lparr>cr_deleted := True\<rparr> else r) (cd_messages db)\<rparr>"

definition sqc_setTimeout :: "string \<Rightarrow> string \<Rightarrow> int \<Rightarrow> chat_db \<Rightarrow> chat_db" where
  "sqc_setTimeout room account untilMs db =
     db\<lparr>cd_timeouts := js_delete (room, to_lower account) (cd_timeouts db) @ [((room, to_lower account), untilMs)]\<rparr>"

definition sqc_timeoutFor :: "string \<Rightarrow> string \<Rightarrow> chat_db \<Rightarrow> int" where
  "sqc_timeoutFor room account db =
     (case js_get (cd_timeouts db) (room, to_lower account) of Some t \<Rightarrow> t | None \<Rightarrow> 0)"

definition sqc_audit :: "string \<Rightarrow> string \<Rightarrow> string \<Rightarrow> nat option \<Rightarrow> int \<Rightarrow> chat_db \<Rightarrow> chat_db" where
  "sqc_audit room moderator action messageId at db = db\<lparr>cd_audits := cd_audits db @
     [\<lparr> au_room = room, au_moderator = moderator, au_action = action, au_messageId = messageId, au_at = at \<rparr>]\<rparr>"

definition sqc_auditLog :: "string \<Rightarrow> chat_db \<Rightarrow> audit_row list" where
  "sqc_auditLog room db = filter (\<lambda>a. au_room a = room) (cd_audits db)"

text \<open>
  \<open>_trim\<close>: delete up to the id at an offset from the newest; where there is no such row the
  subquery is null and nothing is deleted.
\<close>

definition id_at_offset :: "string \<Rightarrow> nat \<Rightarrow> chat_db \<Rightarrow> nat option" where
  "id_at_offset room offset db =
     (let ids = rev (sort (map cr_id (in_room room db))) in if offset < length ids then Some (ids ! offset) else None)"

definition trim_room :: "string \<Rightarrow> nat \<Rightarrow> chat_db \<Rightarrow> chat_db" where
  "trim_room room offset db = (case id_at_offset room offset db of
     None \<Rightarrow> db
   | Some i \<Rightarrow> db\<lparr>cd_messages := filter (\<lambda>r. \<not> (cr_room r = room \<and> cr_id r \<le> i)) (cd_messages db)\<rparr>)"

definition sqc_prune :: "string \<Rightarrow> int \<Rightarrow> nat \<Rightarrow> chat_db \<Rightarrow> chat_db" where
  "sqc_prune room nowMs maxMessages db =
     (let db1 = db\<lparr>cd_timeouts := filter (\<lambda>((r, _), until). \<not> (r = room \<and> until \<le> nowMs)) (cd_timeouts db)\<rparr>
      in if 0 < maxMessages then trim_room room (maxMessages - 1) db1 else db1)"

definition ERASED :: string where
  "ERASED = ''[erased]''"

definition ERASED_TEXT :: string where
  "ERASED_TEXT = ''[removed by the account holder]''"

text \<open>Erasure reaches every room; it answers how many messages and timeouts it touched.\<close>

definition sqc_eraseAccount :: "string \<Rightarrow> chat_db \<Rightarrow> chat_db \<times> nat \<times> nat" where
  "sqc_eraseAccount account db =
     (let key = to_lower account in
      (db\<lparr>cd_messages := map (\<lambda>r. if to_lower (cr_author r) = key then r\<lparr>cr_author := ERASED, cr_text := ERASED_TEXT\<rparr> else r) (cd_messages db),
         cd_timeouts := filter (\<lambda>((_, a), _). a \<noteq> key) (cd_timeouts db)\<rparr>,
       length (filter (\<lambda>r. to_lower (cr_author r) = key) (cd_messages db)),
       length (filter (\<lambda>((_, a), _). a = key) (cd_timeouts db))))"

subsection \<open>Calls\<close>

datatype chat_call =
    PostMessage string "string option" string int
  | DeleteMessage nat
  | SetTimeout string int
  | AuditAction string string "nat option" int
  | PruneRoom int nat
  | EraseAccount string

text \<open>A call through the view of a room, and the message a post answers with.\<close>

fun sqc_call :: "string \<times> chat_call \<Rightarrow> chat_db \<Rightarrow> chat_db" where
  "sqc_call (room, PostMessage author label body at) db = fst (sqc_append room author label body at db)"
| "sqc_call (room, DeleteMessage i) db = sqc_delete room i db"
| "sqc_call (room, SetTimeout account untilMs) db = sqc_setTimeout room account untilMs db"
| "sqc_call (room, AuditAction moderator action i at) db = sqc_audit room moderator action i at db"
| "sqc_call (room, PruneRoom nowMs maxMessages) db = sqc_prune room nowMs maxMessages db"
| "sqc_call (room, EraseAccount account) db = fst (sqc_eraseAccount account db)"

definition run_chat :: "(string \<times> chat_call) list \<Rightarrow> chat_db \<Rightarrow> chat_db" where
  "run_chat calls db = fold sqc_call calls db"

fun answers :: "(string \<times> chat_call) list \<Rightarrow> chat_db \<Rightarrow> (string \<times> message) list" where
  "answers [] db = []"
| "answers (c # cs) db =
     (case c of (room, PostMessage author label body at) \<Rightarrow> [(room, snd (sqc_append room author label body at db))] | _ \<Rightarrow> [])
     @ answers cs (sqc_call c db)"

subsection \<open>Ids are never given twice\<close>

definition chat_db_ok :: "chat_db \<Rightarrow> bool" where
  "chat_db_ok db \<longleftrightarrow> sorted_wrt (<) (map cr_id (cd_messages db)) \<and> (\<forall>r \<in> set (cd_messages db). cr_id r \<le> cd_lastId db)"

lemma chat_db_ok_empty [simp]: "chat_db_ok empty_chat_db"
  by (simp add: chat_db_ok_def empty_chat_db_def)

text \<open>What one message was posted as, and what may have become of it.\<close>

definition stems_from :: "(string \<times> chat_call) list \<Rightarrow> (string \<times> message) list \<Rightarrow> chat_row \<Rightarrow> bool" where
  "stems_from calls posts r \<longleftrightarrow> (\<exists>m. (cr_room r, m) \<in> set posts \<and> mg_id m = cr_id r \<and> mg_at m = cr_at r
     \<and> ((cr_author r, cr_text r) = (mg_author m, mg_text m)
        \<or> (cr_author r, cr_text r) = (ERASED, ERASED_TEXT)
          \<and> (\<exists>room account. (room, EraseAccount account) \<in> set calls \<and> to_lower account = to_lower (mg_author m))))"

lemma stems_from_more: "stems_from calls posts r \<Longrightarrow> stems_from (calls @ calls') (posts @ posts') r"
  unfolding stems_from_def by fastforce

lemma sorted_filter_ids: "sorted_wrt (<) (map cr_id rs) \<Longrightarrow> sorted_wrt (<) (map cr_id (filter P rs))"
  by (induction rs) auto

lemma sqc_append_row:
  "sqc_append room author label body at db = (db', m) \<Longrightarrow>
    \<exists>r. db' = db\<lparr>cd_messages := cd_messages db @ [r], cd_lastId := cd_lastId db + 1\<rparr> \<and> m = message_of r
      \<and> cr_id r = cd_lastId db + 1 \<and> cr_room r = room \<and> \<not> cr_deleted r
      \<and> cr_author r = author \<and> cr_text r = body \<and> cr_at r = at"
  by (auto simp: sqc_append_def Let_def)

lemma map_keeps_ids: "(\<And>r. cr_id (f r) = cr_id r) \<Longrightarrow> map cr_id (map f rs) = map cr_id rs"
  by (induction rs) auto

lemma find_member: "find P xs = Some x \<Longrightarrow> x \<in> set xs \<and> P x"
  by (induction xs) (auto split: if_splits)

lemma chat_db_ok_map:
  assumes "chat_db_ok db" "\<And>r. cr_id (f r) = cr_id r"
  shows "chat_db_ok (db\<lparr>cd_messages := map f (cd_messages db)\<rparr>)"
  using assms map_keeps_ids [of f "cd_messages db", OF assms(2)] by (auto simp: chat_db_ok_def simp del: map_map)

lemma sqc_call_ok: "chat_db_ok db \<Longrightarrow> chat_db_ok (sqc_call c db) \<and> cd_lastId db \<le> cd_lastId (sqc_call c db)"
proof (induction c db rule: sqc_call.induct)
  case (1 room author label body at db)
  then show ?case by (fastforce simp: chat_db_ok_def sqc_append_def Let_def sorted_wrt_append)
next
  case (2 room i db)
  then show ?case using chat_db_ok_map by (simp add: sqc_delete_def)
next
  case (5 room nowMs maxMessages db)
  then show ?case
    by (auto simp: chat_db_ok_def sqc_prune_def trim_room_def Let_def sorted_filter_ids split: option.splits)
next
  case (6 room account db)
  have "chat_db_ok (db\<lparr>cd_messages := ms, cd_timeouts := ts\<rparr>) = chat_db_ok (db\<lparr>cd_messages := ms\<rparr>)" for ms ts
    by (simp add: chat_db_ok_def)
  with 6 show ?case using chat_db_ok_map by (simp add: sqc_eraseAccount_def Let_def)
qed (simp_all add: chat_db_ok_def sqc_setTimeout_def sqc_audit_def)

lemma kept_rows_stem:
  assumes "\<forall>r \<in> set (cd_messages db). stems_from calls posts r"
  shows "\<forall>r \<in> set (cd_messages (sqc_call c db)). stems_from (calls @ [c]) (posts @ answers [c] db) r"
  using assms
proof (induction c db rule: sqc_call.induct)
  case (1 room author label body at db)
  then show ?case
    by (auto simp: sqc_append_def Let_def stems_from_more) (auto simp: stems_from_def message_of_def)
next
  case (2 room i db)
  then show ?case by (auto simp: sqc_delete_def) (auto simp: stems_from_def)
next
  case (5 room nowMs maxMessages db)
  then have "set (cd_messages (sqc_prune room nowMs maxMessages db)) \<subseteq> set (cd_messages db)"
    by (auto simp: sqc_prune_def trim_room_def Let_def split: option.splits)
  with 5 show ?case using stems_from_more [of calls posts _ "[(room, PruneRoom nowMs maxMessages)]" "[]"] by auto
next
  case (6 room account db)
  have "stems_from (calls @ [(room, EraseAccount account)]) posts
      (if to_lower (cr_author r) = to_lower account then r\<lparr>cr_author := ERASED, cr_text := ERASED_TEXT\<rparr> else r)"
    if "r \<in> set (cd_messages db)" for r
    using 6 that by (fastforce simp: stems_from_def)
  then have "Ball (set (map (\<lambda>r. if to_lower (cr_author r) = to_lower account then r\<lparr>cr_author := ERASED, cr_text := ERASED_TEXT\<rparr> else r)
      (cd_messages db))) (stems_from (calls @ [(room, EraseAccount account)]) posts)" unfolding list.set_map by blast
  then show ?case by (simp add: sqc_eraseAccount_def Let_def)
qed (simp_all add: sqc_setTimeout_def sqc_audit_def stems_from_def)

lemma answers_append: "answers (cs @ ds) db = answers cs db @ answers ds (run_chat cs db)"
  by (induction cs arbitrary: db) (simp_all add: run_chat_def)

lemma sorted_wrt_one_more:
  assumes "sorted_wrt (<) (map f xs)" "length ys \<le> 1" "\<forall>y \<in> set ys. \<forall>x \<in> set xs. f x < (f y :: nat)"
  shows "sorted_wrt (<) (map f (xs @ ys))"
  using assms by (cases ys) (auto simp: sorted_wrt_append)

lemma run_chat_stems:
  "chat_db_ok (run_chat calls empty_chat_db)
    \<and> (\<forall>r \<in> set (cd_messages (run_chat calls empty_chat_db)). stems_from calls (answers calls empty_chat_db) r)
    \<and> sorted_wrt (<) (map (mg_id \<circ> snd) (answers calls empty_chat_db))
    \<and> (\<forall>p \<in> set (answers calls empty_chat_db). mg_id (snd p) \<le> cd_lastId (run_chat calls empty_chat_db))"
proof (induction calls rule: rev_induct)
  case Nil
  then show ?case by (simp add: run_chat_def) (simp add: empty_chat_db_def)
next
  case (snoc c calls)
  let ?db = "run_chat calls empty_chat_db"
  have next_db: "run_chat (calls @ [c]) empty_chat_db = sqc_call c ?db" by (simp add: run_chat_def)
  note ih = snoc [THEN conjunct1] snoc [THEN conjunct2, THEN conjunct1]
    snoc [THEN conjunct2, THEN conjunct2, THEN conjunct1] snoc [THEN conjunct2, THEN conjunct2, THEN conjunct2]
  note ok = sqc_call_ok [OF ih(1), of c]
  have new: "\<forall>p \<in> set (answers [c] ?db). mg_id (snd p) = cd_lastId ?db + 1 \<and> mg_id (snd p) \<le> cd_lastId (sqc_call c ?db)"
    "length (answers [c] ?db) \<le> 1"
    by (cases "(c, ?db)" rule: sqc_call.cases; auto simp: sqc_append_def Let_def message_of_def)+
  have later: "\<forall>q \<in> set (answers [c] ?db). \<forall>p \<in> set (answers calls empty_chat_db). (mg_id \<circ> snd) p < (mg_id \<circ> snd) q"
  proof (intro ballI)
    fix q p assume "q \<in> set (answers [c] ?db)" "p \<in> set (answers calls empty_chat_db)"
    with bspec [OF new(1)] bspec [OF ih(4)] have "mg_id (snd q) = cd_lastId ?db + 1" "mg_id (snd p) \<le> cd_lastId ?db" by blast+
    then show "(mg_id \<circ> snd) p < (mg_id \<circ> snd) q" by simp
  qed
  have posted: "\<forall>p \<in> set (answers calls empty_chat_db @ answers [c] ?db). mg_id (snd p) \<le> cd_lastId (sqc_call c ?db)"
  proof (intro ballI)
    fix p assume "p \<in> set (answers calls empty_chat_db @ answers [c] ?db)"
    with ih(4) new(1) have "mg_id (snd p) \<le> cd_lastId ?db \<or> mg_id (snd p) \<le> cd_lastId (sqc_call c ?db)"
      unfolding set_append by blast
    with ok show "mg_id (snd p) \<le> cd_lastId (sqc_call c ?db)" by linarith
  qed
  show ?case
    unfolding next_db answers_append
    using ok kept_rows_stem [OF ih(2), of c] sorted_wrt_one_more [OF ih(3) new(2) later] posted by blast
qed

text \<open>C17: an id of the durable chat names one message for ever: whatever rooms post, moderate, prune and erase,
  ids of posts strictly increase across all rooms, and what a room finds under an id is the
  message that was posted there with that id, or its tombstone after an erasure of its author.\<close>

theorem durable_chat_ids_name_one_message:
  "sorted_wrt (<) (map (mg_id \<circ> snd) (answers calls empty_chat_db))
    \<and> (\<forall>room i m. sqc_find room i (run_chat calls empty_chat_db) = Some m \<longrightarrow>
        (\<exists>m'. (room, m') \<in> set (answers calls empty_chat_db) \<and> mg_id m' = i \<and> mg_at m' = mg_at m
          \<and> ((mg_author m, mg_text m) = (mg_author m', mg_text m')
             \<or> (mg_author m, mg_text m) = (ERASED, ERASED_TEXT)
               \<and> (\<exists>room' account. (room', EraseAccount account) \<in> set calls \<and> to_lower account = to_lower (mg_author m')))))"
proof (intro conjI allI impI)
  fix room i m assume "sqc_find room i (run_chat calls empty_chat_db) = Some m"
  then obtain r where r: "r \<in> set (cd_messages (run_chat calls empty_chat_db))" "cr_room r = room" "cr_id r = i"
      "m = (message_of r)\<lparr>mg_label := None\<rparr>"
    by (auto simp: sqc_find_def in_room_def dest!: find_member)
  with run_chat_stems [of calls] have "stems_from calls (answers calls empty_chat_db) r" by blast
  with r show "\<exists>m'. (room, m') \<in> set (answers calls empty_chat_db) \<and> mg_id m' = i \<and> mg_at m' = mg_at m
          \<and> ((mg_author m, mg_text m) = (mg_author m', mg_text m')
             \<or> (mg_author m, mg_text m) = (ERASED, ERASED_TEXT)
               \<and> (\<exists>room' account. (room', EraseAccount account) \<in> set calls \<and> to_lower account = to_lower (mg_author m')))"
    by (auto simp: stems_from_def message_of_def)
qed (use run_chat_stems [of calls] in blast)

text \<open>The instance: two rooms, an erasure, a pruned history and ids that keep climbing.\<close>

definition sample_chat_calls :: "(string \<times> chat_call) list" where
  "sample_chat_calls =
     [(''a'', PostMessage ''0xA'' None ''hi'' 1), (''b'', PostMessage ''0xB'' None ''yo'' 2),
      (''a'', PruneRoom 3 1), (''a'', PostMessage ''0xC'' None ''ok'' 4), (''a'', EraseAccount ''0xb'')]"

theorem durable_chat_ids_name_one_message_witness:
  "map (mg_id \<circ> snd) (answers sample_chat_calls empty_chat_db) = [1, 2, 3]
    \<and> map_option mg_text (sqc_find ''b'' 2 (run_chat sample_chat_calls empty_chat_db)) = Some ERASED_TEXT
    \<and> (\<exists>m'. (''b'', m') \<in> set (answers sample_chat_calls empty_chat_db) \<and> mg_id m' = 2 \<and> mg_at m' = 2)"
proof -
  have found: "sqc_find ''b'' 2 (run_chat sample_chat_calls empty_chat_db)
      = Some \<lparr> mg_id = 2, mg_author = ERASED, mg_label = None, mg_text = ERASED_TEXT, mg_at = 2 \<rparr>" by code_simp
  have ids: "map (mg_id \<circ> snd) (answers sample_chat_calls empty_chat_db) = [1, 2, 3]" by code_simp
  from durable_chat_ids_name_one_message [of sample_chat_calls, THEN conjunct2, rule_format, OF found]
  obtain m' where "(''b'', m') \<in> set (answers sample_chat_calls empty_chat_db)" "mg_id m' = 2" "mg_at m' = 2" by auto
  with found ids show ?thesis by auto
qed

subsection \<open>Rooms do not see each other\<close>

lemma other_rooms_untouched:
  assumes "room' \<noteq> room" "\<forall>account. call \<noteq> EraseAccount account"
  shows "in_room room' (sqc_call (room, call) db) = in_room room' db"
    and "sqc_timeoutFor room' account (sqc_call (room, call) db) = sqc_timeoutFor room' account db"
    and "sqc_auditLog room' (sqc_call (room, call) db) = sqc_auditLog room' db"
proof -
  have other: "filter (\<lambda>r. cr_room r = room') (map (\<lambda>r. if cr_room r = room \<and> cr_id r = i then r\<lparr>cr_deleted := True\<rparr> else r) rs)
      = filter (\<lambda>r. cr_room r = room') rs"
    "filter (\<lambda>r. (cr_room r = room \<longrightarrow> \<not> cr_id r \<le> i) \<and> cr_room r = room') rs = filter (\<lambda>r. cr_room r = room') rs" for i rs
    using assms(1) by (induction rs) auto
  have kept: "js_get (filter (\<lambda>((r, _), until). r = room \<longrightarrow> \<not> until \<le> t) m) (room', k) = js_get m (room', k)" for t k
      and m :: "(string \<times> string, int) js_map"
    using assms(1) by (induction m) auto
  note defs = in_room_def sqc_timeoutFor_def sqc_auditLog_def sqc_append_def sqc_delete_def sqc_setTimeout_def
    sqc_audit_def sqc_prune_def trim_room_def Let_def
  show "in_room room' (sqc_call (room, call) db) = in_room room' db"
    using assms by (cases call) (simp_all add: defs other split: option.splits)
  show "sqc_timeoutFor room' account (sqc_call (room, call) db) = sqc_timeoutFor room' account db"
    using assms by (cases call) (simp_all add: defs kept port_simps map_add_def split: option.splits)
  show "sqc_auditLog room' (sqc_call (room, call) db) = sqc_auditLog room' db"
    using assms by (cases call) (simp_all add: defs split: option.splits)
qed

subsection \<open>What pruning keeps\<close>

lemma filter_above_nth:
  assumes "sorted_wrt (<) (map f xs)" "k < length xs"
  shows "filter (\<lambda>x. \<not> (f x :: nat) \<le> f (xs ! k)) xs = drop (k + 1) xs"
  using assms
proof (induction xs arbitrary: k)
  case (Cons x xs)
  show ?case
  proof (cases k)
    case 0
    with Cons.prems(1) show ?thesis by (auto intro!: filter_True)
  next
    case (Suc j)
    with Cons.prems have "f x \<le> f (xs ! j)" by (simp add: less_imp_le)
    with Cons Suc show ?thesis by simp
  qed
qed simp

lemma in_room_sorted: "chat_db_ok db \<Longrightarrow> sorted_wrt (<) (map cr_id (in_room room db))"
  by (simp add: chat_db_ok_def in_room_def sorted_filter_ids)

lemma trim_room_rows:
  assumes "chat_db_ok db"
  shows "in_room room (trim_room room offset db) = drop (length (in_room room db) - offset) (in_room room db)"
proof -
  let ?rs = "in_room room db"
  have "sort (map cr_id ?rs) = map cr_id ?rs"
    using in_room_sorted [OF assms] strict_sorted_imp_sorted by (intro sorted_sort_id) blast
  then have at: "id_at_offset room offset db = (if offset < length ?rs then Some (cr_id (?rs ! (length ?rs - 1 - offset))) else None)"
    by (simp add: id_at_offset_def Let_def rev_nth)
  show ?thesis
  proof (cases "offset < length ?rs")
    case True
    let ?k = "length ?rs - 1 - offset"
    have "in_room room (trim_room room offset db) = filter (\<lambda>r. \<not> cr_id r \<le> cr_id (?rs ! ?k)) ?rs"
      using True by (auto simp: trim_room_def at in_room_def intro!: filter_cong)
    also have "\<dots> = drop (?k + 1) ?rs" using True by (intro filter_above_nth in_room_sorted assms) auto
    finally show ?thesis using True by (simp add: Suc_diff_Suc)
  qed (simp add: trim_room_def at)
qed

text \<open>A prune keeps the newest messages of its room, in order and untouched, and loses no other room's;
  of a full history the durable store keeps one message less than the in-memory store does.\<close>

theorem prune_keeps_the_newest:
  assumes "0 < maxMessages" "db = run_chat calls empty_chat_db" "room' \<noteq> room"
  shows "in_room room (sqc_prune room nowMs maxMessages db)
        = drop (length (in_room room db) - (maxMessages - 1)) (in_room room db)
      \<and> in_room room' (sqc_prune room nowMs maxMessages db) = in_room room' db
      \<and> ct_messages (prune_store nowMs maxMessages ct) = drop (length (ct_messages ct) - maxMessages) (ct_messages ct)"
proof (intro conjI)
  let ?db1 = "db\<lparr>cd_timeouts := filter (\<lambda>((r, _), until). \<not> (r = room \<and> until \<le> nowMs)) (cd_timeouts db)\<rparr>"
  have "chat_db_ok ?db1" using run_chat_stems [of calls] assms(2) by (auto simp: chat_db_ok_def)
  from trim_room_rows [OF this, of room "maxMessages - 1"]
  show "in_room room (sqc_prune room nowMs maxMessages db) = drop (length (in_room room db) - (maxMessages - 1)) (in_room room db)"
    using assms(1) by (simp add: sqc_prune_def Let_def) (simp add: in_room_def)
  show "in_room room' (sqc_prune room nowMs maxMessages db) = in_room room' db"
    using other_rooms_untouched(1) [OF assms(3), of "PruneRoom nowMs maxMessages" db] by simp
qed (simp add: prune_store_def Let_def)

definition two_messages :: chat where
  "two_messages = fst (append_message ''0xB'' None ''yo'' 2 (fst (append_message ''0xA'' None ''hi'' 1 new_chat)))"

theorem prune_keeps_the_newest_witness:
  "map cr_text (in_room ''a'' (sqc_prune ''a'' 9 2 (run_chat
      [(''a'', PostMessage ''0xA'' None ''hi'' 1), (''a'', PostMessage ''0xB'' None ''yo'' 2)] empty_chat_db))) = [''yo'']
    \<and> map mg_text (ct_messages (prune_store 9 2 two_messages)) = [''hi'', ''yo'']"
proof -
  let ?db = "run_chat [(''a'', PostMessage ''0xA'' None ''hi'' 1), (''a'', PostMessage ''0xB'' None ''yo'' 2)] empty_chat_db"
  have rows: "map cr_text (in_room ''a'' ?db) = [''hi'', ''yo'']" "map mg_text (ct_messages two_messages) = [''hi'', ''yo'']"
    by code_simp+
  from rows [THEN arg_cong [where f = length]]
  have len: "length (in_room ''a'' ?db) = 2" "length (ct_messages two_messages) = 2" by simp_all
  note kept = prune_keeps_the_newest [of 2 ?db, OF _ refl, of "''b''" "''a''" 9 two_messages]
  have "in_room ''a'' (sqc_prune ''a'' 9 2 ?db) = drop 1 (in_room ''a'' ?db)"
    "ct_messages (prune_store 9 2 two_messages) = ct_messages two_messages"
    using kept len by simp_all
  with rows show ?thesis by (simp flip: drop_map)
qed

subsection \<open>The contract of a room's readers\<close>

locale chat_store =
  fixes post :: "string \<Rightarrow> string option \<Rightarrow> string \<Rightarrow> int \<Rightarrow> 's \<Rightarrow> 's \<times> message"
    and history :: "nat \<Rightarrow> 's \<Rightarrow> message list"
    and delete :: "nat \<Rightarrow> 's \<Rightarrow> 's"
    and ok :: "'s \<Rightarrow> bool"
  assumes increasing: "ok s \<Longrightarrow> sorted_wrt (<) (map mg_id (history 0 s))"
    and since: "ok s \<Longrightarrow> history i s = filter (\<lambda>m. i < mg_id m) (history 0 s)"
    and post_shown: "ok s \<Longrightarrow> post author label body at s = (s', m) \<Longrightarrow>
      ok s' \<and> history 0 s' = history 0 s @ [m] \<and> mg_author m = author \<and> mg_text m = body"
    and delete_hides: "ok s \<Longrightarrow> m \<in> set (history 0 s) \<Longrightarrow>
      ok (delete (mg_id m) s) \<and> history 0 (delete (mg_id m) s) = filter (\<lambda>m'. mg_id m' \<noteq> mg_id m) (history 0 s)"

fun post_all :: "(string \<Rightarrow> string option \<Rightarrow> string \<Rightarrow> int \<Rightarrow> 's \<Rightarrow> 's \<times> message)
    \<Rightarrow> (string \<times> string option \<times> string \<times> int) list \<Rightarrow> 's \<Rightarrow> 's \<times> message list" where
  "post_all post [] s = (s, [])"
| "post_all post ((author, label, body, at) # ps) s =
     (case post author label body at s of (s1, m) \<Rightarrow> (case post_all post ps s1 of (s2, ms) \<Rightarrow> (s2, m # ms)))"

context chat_store
begin

lemma posts_shown: "ok s \<Longrightarrow> post_all post ps s = (s', ms) \<Longrightarrow> ok s' \<and> history 0 s' = history 0 s @ ms"
proof (induction ps arbitrary: s ms)
  case (Cons p ps)
  obtain author label body at where p: "p = (author, label, body, at)" by (cases p)
  obtain s1 m where m: "post author label body at s = (s1, m)" by fastforce
  obtain s2 ms' where ms': "post_all post ps s1 = (s2, ms')" by fastforce
  from post_shown [OF Cons.prems(1) m] Cons.IH [of s1 ms'] Cons.prems(2) m ms' p show ?case by auto
qed simp

text \<open>A reader that asks from the last message it saw gets exactly what was posted since.\<close>

lemma polling_misses_nothing:
  assumes "ok s" "history 0 s = shown @ [seen]" "post_all post ps s = (s', ms)"
  shows "history (mg_id seen) s' = ms"
proof -
  from posts_shown [OF assms(1,3)] assms(2) have s': "ok s'" "history 0 s' = shown @ [seen] @ ms" by simp_all
  with increasing [OF s'(1)] have "\<forall>m \<in> set shown. \<not> mg_id seen < mg_id m" "\<forall>m \<in> set ms. mg_id seen < mg_id m"
    by (auto simp: sorted_wrt_append)
  with s'(2) since [OF s'(1), of "mg_id seen"] show ?thesis by simp
qed

text \<open>A deleted message is not shown again, whatever is posted after it.\<close>

lemma deleted_stays_hidden:
  assumes "ok s" "m \<in> set (history 0 s)" "post_all post ps (delete (mg_id m) s) = (s', ms)"
  shows "history 0 s' = filter (\<lambda>m'. mg_id m' \<noteq> mg_id m) (history 0 s) @ ms"
  using delete_hides [OF assms(1,2)] posts_shown [OF _ assms(3)] by simp

end

text \<open>The in-memory store.\<close>

definition memory_chat_ok :: "chat \<Rightarrow> bool" where
  "memory_chat_ok ct \<longleftrightarrow> sorted_wrt (<) (map mg_id (ct_messages ct)) \<and> 0 < ct_nextId ct
     \<and> (\<forall>m \<in> set (ct_messages ct). 0 < mg_id m \<and> mg_id m < ct_nextId ct) \<and> (\<forall>i \<in> set (ct_deleted ct). i < ct_nextId ct)"

definition memory_delete :: "nat \<Rightarrow> chat \<Rightarrow> chat" where
  "memory_delete i ct = ct\<lparr>ct_deleted := set_add i (ct_deleted ct)\<rparr>"

lemma sorted_filter_messages: "sorted_wrt (<) (map mg_id ms) \<Longrightarrow> sorted_wrt (<) (map mg_id (filter P ms))"
  by (induction ms) auto

interpretation memory_chat: chat_store append_message chat_history memory_delete memory_chat_ok
proof unfold_locales
  fix ct ct' :: chat and author label body at m
  assume "memory_chat_ok ct" "append_message author label body at ct = (ct', m)"
  then show "memory_chat_ok ct' \<and> chat_history 0 ct' = chat_history 0 ct @ [m] \<and> mg_author m = author \<and> mg_text m = body"
    by (auto simp: memory_chat_ok_def append_message_def chat_history_def Let_def sorted_wrt_append less_Suc_eq)
next
  fix ct :: chat and m assume "memory_chat_ok ct" "m \<in> set (chat_history 0 ct)"
  then show "memory_chat_ok (memory_delete (mg_id m) ct)
      \<and> chat_history 0 (memory_delete (mg_id m) ct) = filter (\<lambda>m'. mg_id m' \<noteq> mg_id m) (chat_history 0 ct)"
    by (auto simp: memory_chat_ok_def memory_delete_def chat_history_def set_add_def conj_ac intro!: filter_cong)
next
  fix ct :: chat and i assume "memory_chat_ok ct"
  then show "chat_history i ct = filter (\<lambda>m. i < mg_id m) (chat_history 0 ct)"
    by (auto simp: memory_chat_ok_def chat_history_def intro!: filter_cong)
qed (simp add: memory_chat_ok_def chat_history_def sorted_filter_messages)

text \<open>The view of one room in the database.\<close>

lemma history_in_order:
  assumes "chat_db_ok db"
  shows "sqc_history room i db = map message_of (filter (\<lambda>r. i < cr_id r \<and> \<not> cr_deleted r) (in_room room db))"
proof -
  have "sorted (map cr_id (filter (\<lambda>r. i < cr_id r \<and> \<not> cr_deleted r) (in_room room db)))"
    by (rule strict_sorted_imp_sorted) (rule sorted_filter_ids, rule in_room_sorted [OF assms])
  then show ?thesis by (simp add: sqc_history_def sort_key_id_if_sorted)
qed

lemma message_of_id [simp]: "mg_id (message_of r) = cr_id r"
  by (simp add: message_of_def)

interpretation durable_chat: chat_store "sqc_append room" "sqc_history room" "sqc_delete room" chat_db_ok for room
proof unfold_locales
  fix db assume "chat_db_ok db"
  then have "sorted_wrt (<) (map cr_id (filter (\<lambda>r. 0 < cr_id r \<and> \<not> cr_deleted r) (in_room room db)))"
    by (intro sorted_filter_ids in_room_sorted)
  then show "sorted_wrt (<) (map mg_id (sqc_history room 0 db))"
    by (simp add: history_in_order [OF \<open>chat_db_ok db\<close>] comp_def)
next
  fix db i assume "chat_db_ok db"
  then show "sqc_history room i db = filter (\<lambda>m. i < mg_id m) (sqc_history room 0 db)"
    by (auto simp: history_in_order filter_map comp_def intro!: arg_cong [where f = "map message_of"] filter_cong)
next
  fix db db' author label body at m assume a: "chat_db_ok db" "sqc_append room author label body at db = (db', m)"
  then have "chat_db_ok db'" using sqc_call_ok [OF a(1), of "(room, PostMessage author label body at)"] by simp
  with a show "chat_db_ok db' \<and> sqc_history room 0 db' = sqc_history room 0 db @ [m] \<and> mg_author m = author \<and> mg_text m = body"
    by (auto simp: history_in_order sqc_append_def in_room_def Let_def message_of_def)
next
  fix db m assume a: "chat_db_ok db" "m \<in> set (sqc_history room 0 db)"
  have ok: "chat_db_ok (sqc_delete room (mg_id m) db)" using sqc_call_ok [OF a(1), of "(room, DeleteMessage (mg_id m))"] by simp
  have "map message_of (filter (\<lambda>r. 0 < cr_id r \<and> \<not> cr_deleted r) (filter (\<lambda>r. cr_room r = room)
        (map (\<lambda>r. if cr_room r = room \<and> cr_id r = i then r\<lparr>cr_deleted := True\<rparr> else r) rs)))
      = filter (\<lambda>m'. mg_id m' \<noteq> i) (map message_of (filter (\<lambda>r. 0 < cr_id r \<and> \<not> cr_deleted r) (filter (\<lambda>r. cr_room r = room) rs)))" for i rs
    by (induction rs) auto
  with ok show "chat_db_ok (sqc_delete room (mg_id m) db)
      \<and> sqc_history room 0 (sqc_delete room (mg_id m) db) = filter (\<lambda>m'. mg_id m' \<noteq> mg_id m) (sqc_history room 0 db)"
    by (simp add: history_in_order [OF ok] history_in_order [OF a(1)]) (simp add: sqc_delete_def in_room_def)
qed

end
