(* ===== verification/SqliteStores.thy ===== *)
theory SqliteStores
  imports Connector
begin

section \<open>Durable stores (ports/sqlite-stores.mjs)\<close>

text \<open>
  The event log, the raw archive, the key-value store and the leader lease over SQLite tables: a
  table is the list of its rows in the order of their row ids, a statement a function on it.
  Rows hold values, not their JSON encoding. The event store answers every sequence of calls as the
  in-memory store does, and meets the contracts its writers rely on.
\<close>

subsection \<open>The session event table\<close>

record event_row =
  er_room :: string
  er_seq :: int
  er_body :: event

datatype sqlite_error = Refused store_error | UniqueViolation

text \<open>\<open>Number.MAX_SAFE_INTEGER\<close>, the end of a slice that names none.\<close>

definition SLICE_END :: int where
  "SLICE_END = 2 ^ 53 - 1"

text \<open>\<open>insert into session_event\<close>, with its primary key.\<close>

definition insert_event :: "event_row \<Rightarrow> event_row list \<Rightarrow> sqlite_error + event_row list" where
  "insert_event r rows =
     (if list_ex (\<lambda>x. er_room x = er_room r \<and> er_seq x = er_seq r) rows then Inl UniqueViolation else Inr (rows @ [r]))"

text \<open>\<open>order by seq asc\<close> within a room; \<open>order by rowid asc\<close> across rooms.\<close>

definition room_rows :: "string \<Rightarrow> event_row list \<Rightarrow> event_row list" where
  "room_rows roomId rows = sort_key er_seq (filter (\<lambda>r. er_room r = roomId) rows)"

definition sq_rows :: "string option \<Rightarrow> event_row list \<Rightarrow> event_row list" where
  "sq_rows roomId rows = (case roomId of None \<Rightarrow> rows | Some room \<Rightarrow> room_rows room rows)"

definition sq_tip :: "string option \<Rightarrow> event_row list \<Rightarrow> event option" where
  "sq_tip roomId rows = map_option er_body (last_opt (sq_rows roomId rows))"

definition sq_all :: "string option \<Rightarrow> event_row list \<Rightarrow> event list" where
  "sq_all roomId rows = map er_body (sq_rows roomId rows)"

definition sq_slice :: "string option \<Rightarrow> int \<Rightarrow> int option \<Rightarrow> event_row list \<Rightarrow> event list" where
  "sq_slice roomId fromSeq toSeq rows =
     (let final = min (case toSeq of Some t \<Rightarrow> t | None \<Rightarrow> SLICE_END) SLICE_END in
      map er_body (filter (\<lambda>r. fromSeq \<le> er_seq r \<and> er_seq r \<le> final) (sq_rows roomId rows)))"

definition sq_append :: "string option \<Rightarrow> event \<Rightarrow> event_row list \<Rightarrow> sqlite_error + event_row list" where
  "sq_append view e rows =
     (let eventRoom = ev_room_id e in
      if (case view of None \<Rightarrow> False | Some room \<Rightarrow> eventRoom \<noteq> [] \<and> eventRoom \<noteq> room)
      then Inl (Refused (WrongRoom eventRoom (the view)))
      else
        let roomId = (case view of Some room \<Rightarrow> room | None \<Rightarrow> eventRoom);
            normalized = (if view \<noteq> None \<and> eventRoom = [] then e\<lparr>ev_room_id := the view\<rparr> else e);
            tip = sq_tip (Some roomId) rows;
            expected = (case tip of Some t \<Rightarrow> ev_seq t + 1 | None \<Rightarrow> 1)
        in if ev_seq e \<noteq> expected then Inl (Refused (AppendGap (ev_seq e) expected))
           else insert_event \<lparr> er_room = roomId, er_seq = ev_seq e, er_body = normalized \<rparr> rows)"

subsection \<open>Calls of the event store\<close>

datatype store_call = Tip | All | Slice int "int option" | Append event

datatype store_reply = EventReply "event option" | EventsReply "event list" | AppendReply "sqlite_error option"

text \<open>A call is made through a view: one room's, or the whole log's.\<close>

fun sq_call :: "string option \<times> store_call \<Rightarrow> event_row list \<Rightarrow> event_row list \<times> store_reply" where
  "sq_call (view, Tip) rows = (rows, EventReply (sq_tip view rows))"
| "sq_call (view, All) rows = (rows, EventsReply (sq_all view rows))"
| "sq_call (view, Slice a b) rows = (rows, EventsReply (sq_slice view a b rows))"
| "sq_call (view, Append e) rows =
     (case sq_append view e rows of Inl err \<Rightarrow> (rows, AppendReply (Some err)) | Inr rows' \<Rightarrow> (rows', AppendReply None))"

definition view_of :: "string option \<Rightarrow> event list \<Rightarrow> event_store" where
  "view_of view es = \<lparr> es_events = es, es_roomId = view \<rparr>"

fun memory_call :: "string option \<times> store_call \<Rightarrow> event list \<Rightarrow> event list \<times> store_reply" where
  "memory_call (view, Tip) es = (es, EventReply (es_tip (view_of view es)))"
| "memory_call (view, All) es = (es, EventsReply (es_all (view_of view es)))"
| "memory_call (view, Slice a b) es = (es, EventsReply (es_slice (view_of view es) a b))"
| "memory_call (view, Append e) es =
     (case es_append (view_of view es) e of Inl err \<Rightarrow> (es, AppendReply (Some (Refused err)))
      | Inr s \<Rightarrow> (es_events s, AppendReply None))"

fun replies :: "('c \<Rightarrow> 's \<Rightarrow> 's \<times> store_reply) \<Rightarrow> 'c list \<Rightarrow> 's \<Rightarrow> store_reply list" where
  "replies call [] s = []"
| "replies call (c # cs) s = (case call c s of (s', r) \<Rightarrow> r # replies call cs s')"

subsection \<open>The table keeps what its rows say\<close>

definition event_rows_ok :: "event_row list \<Rightarrow> bool" where
  "event_rows_ok rows \<longleftrightarrow> (\<forall>r \<in> set rows. er_room r = ev_room_id (er_body r) \<and> er_seq r = ev_seq (er_body r)
      \<and> er_seq r \<le> int (length rows))
     \<and> (\<forall>room. sorted_wrt (<) (map er_seq (filter (\<lambda>r. er_room r = room) rows)))"

lemma event_rows_ok_Nil [simp]: "event_rows_ok []"
  by (simp add: event_rows_ok_def)

lemma room_rows_ok:
  assumes "event_rows_ok rows"
  shows "room_rows room rows = filter (\<lambda>r. er_room r = room) rows"
proof -
  have "sorted (map er_seq (filter (\<lambda>r. er_room r = room) rows))"
    using assms by (auto simp: event_rows_ok_def intro: strict_sorted_imp_sorted)
  then show ?thesis by (simp add: room_rows_def sort_key_id_if_sorted)
qed

lemma filter_bodies:
  assumes "event_rows_ok rows"
  shows "map er_body (filter (\<lambda>r. er_room r = room) rows) = filter (\<lambda>e. ev_room_id e = room) (map er_body rows)"
  using assms by (auto simp: event_rows_ok_def filter_map comp_def intro!: arg_cong [where f = "map er_body"] filter_cong)

lemma sq_rows_visible: "event_rows_ok rows \<Longrightarrow> map er_body (sq_rows view rows) = es_visible (view_of view (map er_body rows))"
  by (cases view) (simp_all add: sq_rows_def room_rows_ok filter_bodies es_visible_def view_of_def)

lemma last_opt_map: "last_opt (map f xs) = map_option f (last_opt xs)"
  by (cases xs rule: rev_cases) (simp_all add: last_opt_def)

lemma sq_tip_visible: "event_rows_ok rows \<Longrightarrow> sq_tip view rows = es_tip (view_of view (map er_body rows))"
  by (simp add: sq_tip_def es_tip_def flip: sq_rows_visible last_opt_map)

lemma sq_slice_visible:
  assumes "event_rows_ok rows" "int (length rows) \<le> SLICE_END"
  shows "sq_slice view a b rows = es_slice (view_of view (map er_body rows)) a b"
proof -
  have "er_seq r = ev_seq (er_body r)" "er_seq r \<le> SLICE_END" if "r \<in> set (sq_rows view rows)" for r
  proof -
    from that have "r \<in> set rows" by (auto simp: sq_rows_def room_rows_def split: option.splits)
    with assms show "er_seq r = ev_seq (er_body r)" "er_seq r \<le> SLICE_END" unfolding event_rows_ok_def by force+
  qed
  then have "filter (\<lambda>r. a \<le> er_seq r \<and> er_seq r \<le> min (case b of Some t \<Rightarrow> t | None \<Rightarrow> SLICE_END) SLICE_END) (sq_rows view rows)
      = filter ((\<lambda>e. a \<le> ev_seq e \<and> (case b of None \<Rightarrow> True | Some t \<Rightarrow> ev_seq e \<le> t)) \<circ> er_body) (sq_rows view rows)"
    by (intro filter_cong) (auto split: option.splits)
  then show ?thesis
    by (simp add: sq_slice_def es_slice_def filter_map flip: sq_rows_visible [OF assms(1)])
qed

definition expected_seq :: "string \<Rightarrow> event_row list \<Rightarrow> int" where
  "expected_seq room rows = (case sq_tip (Some room) rows of Some t \<Rightarrow> ev_seq t + 1 | None \<Rightarrow> 1)"

lemma room_tip:
  assumes "event_rows_ok rows"
  shows "sq_tip (Some room) rows = map_option er_body (last_opt (filter (\<lambda>r. er_room r = room) rows))"
  by (simp add: sq_tip_def sq_rows_def room_rows_ok [OF assms])

lemma expected_above:
  assumes "event_rows_ok rows" "r \<in> set rows" "er_room r = room"
  shows "er_seq r < expected_seq room rows"
proof -
  let ?fs = "filter (\<lambda>r. er_room r = room) rows"
  from assms(2,3) have r: "r \<in> set ?fs" by simp
  then obtain fs l where fs: "?fs = fs @ [l]" by (cases ?fs rule: rev_cases) auto
  then have l: "l \<in> set rows" by (metis filter_is_subset in_set_conv_decomp subsetD)
  from assms(1) have "sorted_wrt (<) (map er_seq ?fs)" by (simp add: event_rows_ok_def)
  with fs r have "er_seq r \<le> er_seq l" by (auto simp: sorted_wrt_append)
  moreover from assms(1) l have "er_seq l = ev_seq (er_body l)" by (simp add: event_rows_ok_def)
  ultimately show ?thesis by (simp add: expected_seq_def room_tip [OF assms(1)] fs)
qed

lemma expected_bound:
  assumes "event_rows_ok rows"
  shows "expected_seq room rows \<le> int (length rows) + 1"
proof (cases "filter (\<lambda>r. er_room r = room) rows" rule: rev_cases)
  case (snoc fs l)
  then have "l \<in> set rows" by (metis filter_is_subset in_set_conv_decomp subsetD)
  with assms snoc show ?thesis by (auto simp: expected_seq_def room_tip [OF assms] event_rows_ok_def)
qed (simp add: expected_seq_def room_tip [OF assms])

text \<open>A row of the expected sequence never meets the primary key, and keeps the table in order.\<close>

lemma insert_expected:
  assumes "event_rows_ok rows" "er_seq r = expected_seq (er_room r) rows" "er_room r = ev_room_id (er_body r)" "er_seq r = ev_seq (er_body r)"
  shows "insert_event r rows = Inr (rows @ [r])" "event_rows_ok (rows @ [r])"
proof -
  have above: "\<forall>x \<in> set rows. er_room x = er_room r \<longrightarrow> er_seq x < er_seq r"
    using expected_above [OF assms(1)] assms(2) by auto
  then show "insert_event r rows = Inr (rows @ [r])" by (auto simp: insert_event_def list_ex_iff)
  show "event_rows_ok (rows @ [r])"
    using assms above expected_bound [OF assms(1), of "er_room r"]
    by (auto simp: event_rows_ok_def sorted_wrt_append)
qed

lemma sq_append_refines:
  assumes "event_rows_ok rows"
  shows "(\<exists>err. sq_append view e rows = Inl (Refused err) \<and> es_append (view_of view (map er_body rows)) e = Inl err)
    \<or> (\<exists>r. sq_append view e rows = Inr (rows @ [r]) \<and> event_rows_ok (rows @ [r])
        \<and> es_append (view_of view (map er_body rows)) e = Inr (view_of view (map er_body (rows @ [r]))))"
proof (cases "case view of None \<Rightarrow> False | Some room \<Rightarrow> ev_room_id e \<noteq> [] \<and> ev_room_id e \<noteq> room")
  case True
  then show ?thesis by (cases view) (auto simp: sq_append_def es_append_def view_of_def)
next
  case False
  let ?room = "case view of Some room \<Rightarrow> room | None \<Rightarrow> ev_room_id e"
  let ?e = "if view \<noteq> None \<and> ev_room_id e = [] then e\<lparr>ev_room_id := the view\<rparr> else e"
  let ?r = "\<lparr> er_room = ?room, er_seq = ev_seq e, er_body = ?e \<rparr>"
  have tip: "sq_tip (Some ?room) rows = last_opt (filter (\<lambda>x. ev_room_id x = ?room) (map er_body rows))"
    by (simp add: sq_tip_visible [OF assms] es_tip_def es_visible_def view_of_def)
  have exp: "expected_seq ?room rows = (case last_opt (filter (\<lambda>x. ev_room_id x = ?room) (map er_body rows)) of
      Some t \<Rightarrow> ev_seq t + 1 | None \<Rightarrow> 1)" by (simp add: expected_seq_def tip)
  have sq: "sq_append view e rows = (if ev_seq e \<noteq> expected_seq ?room rows
      then Inl (Refused (AppendGap (ev_seq e) (expected_seq ?room rows))) else insert_event ?r rows)"
    using False by (simp add: sq_append_def Let_def expected_seq_def)
  have es: "es_append (view_of view (map er_body rows)) e = (if ev_seq e \<noteq> expected_seq ?room rows
      then Inl (AppendGap (ev_seq e) (expected_seq ?room rows)) else Inr (view_of view (map er_body rows @ [?e])))"
    using False unfolding exp by (simp add: es_append_def Let_def view_of_def)
  show ?thesis
  proof (cases "ev_seq e = expected_seq ?room rows")
    case True
    have room: "er_room ?r = ev_room_id (er_body ?r)" using False by (cases view) auto
    have "er_seq ?r = expected_seq (er_room ?r) rows" "er_seq ?r = ev_seq (er_body ?r)" using True by simp_all
    note ins = insert_expected [OF assms this(1) room this(2)]
    have "es_append (view_of view (map er_body rows)) e = Inr (view_of view (map er_body (rows @ [?r])))"
      unfolding es using True by simp
    moreover have "sq_append view e rows = Inr (rows @ [?r])" unfolding sq ins(1) using True by simp
    ultimately show ?thesis using ins(2) by blast
  qed (use sq es in simp)
qed

lemma call_refines:
  assumes "event_rows_ok rows" "int (length rows) \<le> SLICE_END"
  shows "\<exists>rows' reply. sq_call c rows = (rows', reply) \<and> memory_call c (map er_body rows) = (map er_body rows', reply)
    \<and> event_rows_ok rows' \<and> length rows' \<le> length rows + 1"
proof (cases c)
  case (Pair view call)
  show ?thesis
  proof (cases call)
    case (Append e)
    with sq_append_refines [OF assms(1), of view e] Pair assms(1) show ?thesis by (auto simp: view_of_def)
  next
    case (Slice a b)
    then show ?thesis using Pair assms(1) by (simp add: sq_slice_visible [OF assms])
  qed (use Pair assms(1) in \<open>simp_all add: sq_tip_visible sq_all_def es_all_def sq_rows_visible\<close>)
qed

lemma replies_refine:
  assumes "event_rows_ok rows" "int (length rows + length calls) \<le> SLICE_END"
  shows "replies sq_call calls rows = replies memory_call calls (map er_body rows)"
  using assms
proof (induction calls arbitrary: rows)
  case (Cons c calls)
  from Cons.prems have len: "int (length rows) \<le> SLICE_END" by simp
  from call_refines [OF Cons.prems(1) len, of c] obtain rows' reply where
    c: "sq_call c rows = (rows', reply)" "memory_call c (map er_body rows) = (map er_body rows', reply)"
      "event_rows_ok rows'" "length rows' \<le> length rows + 1" by blast
  have "int (length rows' + length calls) \<le> SLICE_END" using c(4) Cons.prems(2) by simp
  from Cons.IH [OF c(3) this] show ?case by (simp add: c)
qed simp

text \<open>C16: the durable event store is the in-memory one: whatever sequence of appends and reads is made, through
  any rooms' views, every call is answered alike, refusals included, and no append ever meets the
  table's primary key.\<close>

theorem sqlite_store_refines_memory:
  assumes "int (length calls) \<le> SLICE_END"
  shows "replies sq_call calls [] = replies memory_call calls [] \<and> AppendReply (Some UniqueViolation) \<notin> set (replies sq_call calls [])"
proof -
  from replies_refine [of "[]" calls] assms have eq: "replies sq_call calls [] = replies memory_call calls []" by simp
  have "AppendReply (Some UniqueViolation) \<notin> set (replies memory_call calls es)" for es
  proof (induction calls arbitrary: es)
    case (Cons c calls)
    have "snd (memory_call c es) \<noteq> AppendReply (Some UniqueViolation)"
      by (cases "(c, es)" rule: memory_call.cases) (auto split: sum.splits)
    with Cons show ?case by (cases "memory_call c es") auto
  qed simp
  with eq show ?thesis by simp
qed

theorem sqlite_store_refines_memory_witness:
  "replies sq_call [(Some ''r'', Append (blank_event ''r'' 1)), (None, Append (blank_event ''s'' 2)), (Some ''r'', Tip)] []
    = replies memory_call [(Some ''r'', Append (blank_event ''r'' 1)), (None, Append (blank_event ''s'' 2)), (Some ''r'', Tip)] []
   \<and> replies sq_call [(Some ''r'', Append (blank_event ''r'' 1)), (None, Append (blank_event ''s'' 2)), (Some ''r'', Tip)] []
    = [AppendReply None, AppendReply (Some (Refused (AppendGap 2 1))), EventReply (Some (blank_event ''r'' 1))]"
proof (intro conjI)
  show "replies sq_call [(Some ''r'', Append (blank_event ''r'' 1)), (None, Append (blank_event ''s'' 2)), (Some ''r'', Tip)] []
    = [AppendReply None, AppendReply (Some (Refused (AppendGap 2 1))), EventReply (Some (blank_event ''r'' 1))]"
    by code_simp
qed (use sqlite_store_refines_memory [of "[(Some ''r'', Append (blank_event ''r'' 1)), (None, Append (blank_event ''s'' 2)), (Some ''r'', Tip)]"]
  in \<open>simp add: SLICE_END_def\<close>)

subsection \<open>The contract of a room's writer\<close>

text \<open>The port a connector of one room takes; a violated key, which never happens, would be a refusal.\<close>

definition sqlite_port :: "string \<Rightarrow> event_row list store_port" where
  "sqlite_port room = \<lparr> port_all = sq_all (Some room), port_tip = sq_tip (Some room),
     port_append = (\<lambda>rows e. case sq_append (Some room) e rows of
         Inr rows' \<Rightarrow> Inr rows' | Inl (Refused err) \<Rightarrow> Inl err | Inl UniqueViolation \<Rightarrow> Inl (AppendGap (ev_seq e) (ev_seq e))) \<rparr>"

lemma sq_append_own:
  assumes "event_rows_ok rows" "ev_room_id e = room"
  shows "sq_append (Some room) e rows =
    (if ev_seq e = next_seq (sq_all (Some room) rows)
     then Inr (rows @ [\<lparr> er_room = room, er_seq = ev_seq e, er_body = e\<lparr>ev_room_id := room\<rparr> \<rparr>])
     else Inl (Refused (AppendGap (ev_seq e) (next_seq (sq_all (Some room) rows)))))"
proof -
  have exp: "expected_seq room rows = next_seq (sq_all (Some room) rows)"
    by (simp add: expected_seq_def next_seq_def sq_tip_def sq_all_def last_opt_map)
  let ?r = "\<lparr> er_room = room, er_seq = ev_seq e, er_body = e\<lparr>ev_room_id := room\<rparr> \<rparr>"
  have own: "e\<lparr>ev_room_id := room\<rparr> = e" using assms(2) by simp
  have "insert_event ?r rows = Inr (rows @ [?r])" if "ev_seq e = expected_seq room rows"
    by (rule insert_expected(1) [OF assms(1)]) (simp_all add: that)
  with own assms(2) exp show ?thesis by (auto simp: sq_append_def Let_def expected_seq_def)
qed

interpretation sqlite: append_only "sqlite_port room" event_rows_ok room for room
proof unfold_locales
  fix rows and e :: event assume a: "event_rows_ok rows" "ev_room_id e = room" "ev_seq e = next_seq (port_all (sqlite_port room) rows)"
  let ?r = "\<lparr> er_room = room, er_seq = ev_seq e, er_body = e\<lparr>ev_room_id := room\<rparr> \<rparr>"
  have "ev_seq e = expected_seq room rows"
    using a(3) by (simp add: sqlite_port_def expected_seq_def next_seq_def sq_tip_def sq_all_def last_opt_map)
  then have "event_rows_ok (rows @ [?r])" by (intro insert_expected(2) [OF a(1)]) simp_all
  moreover from this have "sq_all (Some room) (rows @ [?r]) = sq_all (Some room) rows @ [e]"
    using a(1,2) by (simp add: sq_all_def sq_rows_def room_rows_ok)
  ultimately show "\<exists>s'. port_append (sqlite_port room) rows e = Inr s' \<and> event_rows_ok s'
      \<and> port_all (sqlite_port room) s' = port_all (sqlite_port room) rows @ [e]"
    using a sq_append_own [OF a(1,2)] by (simp add: sqlite_port_def)
next
  fix rows and e :: event assume "event_rows_ok rows" "ev_room_id e = room" "ev_seq e \<noteq> next_seq (port_all (sqlite_port room) rows)"
  then show "\<exists>err. port_append (sqlite_port room) rows e = Inl err"
    using sq_append_own [of rows e room] by (simp add: sqlite_port_def)
qed (simp add: sqlite_port_def sq_tip_def sq_all_def last_opt_map)

text \<open>So a connector over the table keeps its log as one over memory does.\<close>

lemma durable_ingest_keeps_the_log:
  assumes "in_step env (sqlite_port (cn_roomId env)) c" "event_rows_ok (cn_store c)"
    and "ingestBatch env (sqlite_port (cn_roomId env)) c raw rq ds = (c', r)"
  shows "in_step env (sqlite_port (cn_roomId env)) c' \<and> event_rows_ok (cn_store c')
    \<and> (\<exists>es. sq_all (Some (cn_roomId env)) (cn_store c') = sq_all (Some (cn_roomId env)) (cn_store c) @ es
        \<and> (\<forall>es'. r = Inr es' \<longrightarrow> es' = es))"
  using sqlite.ingestBatch_in_step [OF assms(1) assms(2) refl assms(3)] by (simp add: sqlite_port_def)

subsection \<open>Raw archive and key-value store\<close>

definition sq_raw_ref :: "string \<Rightarrow> string" where
  "sq_raw_ref i = ''sqlite://raw/'' @ i"

text \<open>\<open>insert or replace\<close> removes the row of the key and adds the new one.\<close>

definition insert_or_replace :: "'k \<Rightarrow> 'v \<Rightarrow> ('k, 'v) js_map \<Rightarrow> ('k, 'v) js_map" where
  "insert_or_replace k v table = js_delete k table @ [(k, v)]"

lemma insert_or_replace_get [port_simps]: "js_get (insert_or_replace k v m) k' = (if k' = k then Some v else js_get m k')"
  by (auto simp: insert_or_replace_def map_add_def port_simps split: option.splits)

definition sq_raw_put :: "(string, string) js_map \<Rightarrow> string \<Rightarrow> string \<Rightarrow> (string, string) js_map \<times> string" where
  "sq_raw_put blobs i bytes = (insert_or_replace (sq_raw_ref i) bytes blobs, sq_raw_ref i)"

text \<open>Bytes that are not archived read as null, where the in-memory archive throws.\<close>

definition sq_raw_get :: "(string, string) js_map \<Rightarrow> string \<Rightarrow> string option" where
  "sq_raw_get blobs ref = js_get blobs ref"

lemma raw_archive_returns: "sq_raw_put blobs i bytes = (blobs', ref) \<Longrightarrow> sq_raw_get blobs' ref = Some bytes"
  "sq_raw_put blobs i bytes = (blobs', ref) \<Longrightarrow> ref' \<noteq> ref \<Longrightarrow> sq_raw_get blobs' ref' = sq_raw_get blobs ref'"
  by (auto simp: sq_raw_put_def sq_raw_get_def port_simps)

definition sq_kv_get :: "(string, 'v) js_map \<Rightarrow> string \<Rightarrow> 'v \<Rightarrow> 'v" where
  "sq_kv_get table key fallback = (case js_get table key of Some v \<Rightarrow> v | None \<Rightarrow> fallback)"

definition sq_kv_set :: "(string, 'v) js_map \<Rightarrow> string \<Rightarrow> 'v \<Rightarrow> (string, 'v) js_map" where
  "sq_kv_set table key v = insert_or_replace key v table"

interpretation durable_kv: key_value sq_kv_get sq_kv_set
  by unfold_locales (simp add: sq_kv_get_def sq_kv_set_def port_simps)

subsection \<open>The leader lease\<close>

record lease_row =
  lr_holder :: string
  lr_expires_at :: int
  lr_term :: int

text \<open>
  One statement: insert the row, or where the room has one, update it if the \<open>where\<close> clause
  holds; it returns the row it wrote.
\<close>

definition upsert_lease :: "string \<Rightarrow> lease_row \<Rightarrow> int \<Rightarrow> (string, lease_row) js_map \<Rightarrow> (string, lease_row) js_map \<times> lease_row option" where
  "upsert_lease roomId excluded now table =
     (case js_get table roomId of
        None \<Rightarrow> (table @ [(roomId, excluded)], Some excluded)
      | Some r \<Rightarrow>
          if lr_expires_at r \<le> now \<or> lr_holder r = lr_holder excluded
          then (let r' = excluded\<lparr>lr_term := lr_term r + (if lr_holder r = lr_holder excluded then 0 else 1)\<rparr>
                in (js_set roomId r' table, Some r'))
          else (table, None))"

definition sq_tryAcquire :: "(string, lease_row) js_map \<Rightarrow> string \<Rightarrow> string \<Rightarrow> int \<Rightarrow> int \<Rightarrow> (string, lease_row) js_map \<times> lease option" where
  "sq_tryAcquire table roomId holder ttlMs now =
     (case upsert_lease roomId \<lparr> lr_holder = holder, lr_expires_at = now + ttlMs, lr_term = 1 \<rparr> now table of
        (table', r) \<Rightarrow> (table', map_option (\<lambda>r. \<lparr> ls_holder = holder, ls_term = lr_term r, ls_expiresAt = lr_expires_at r \<rparr>) r))"

definition lease_of :: "lease_row \<Rightarrow> lease" where
  "lease_of r = \<lparr> ls_holder = lr_holder r, ls_term = lr_term r, ls_expiresAt = lr_expires_at r \<rparr>"

text \<open>The single statement decides as the in-memory lease does, on leases that agree.\<close>

lemma sq_tryAcquire_refines:
  assumes "\<forall>room. js_get leases room = map_option lease_of (js_get table room)"
    and "sq_tryAcquire table room h ttl now = (table', answer)" "tryAcquire leases room h ttl now = (leases', answer')"
  shows "answer = answer' \<and> (\<forall>room. js_get leases' room = map_option lease_of (js_get table' room))"
proof (cases "js_get table room")
  case None
  then have "js_get (table @ [(room, x)]) room' = (if room' = room then Some x else js_get table room')" for x room'
    by (auto simp: map_add_def split: option.splits)
  with None assms show ?thesis
    by (auto simp: sq_tryAcquire_def upsert_lease_def tryAcquire_def lease_of_def port_simps)
next
  case (Some r)
  with assms show ?thesis
    by (auto simp: sq_tryAcquire_def upsert_lease_def tryAcquire_def lease_of_def port_simps Let_def split: if_splits)
qed

end
