(* ===== verification/Spec2Isabelle.thy ===== *)
theory Spec2Isabelle
  imports AccountProperties Actions Agreement Canonical Catalog CatalogProperties Chat ConditionRegistry
    Conditions Connector Coordinator Decimal Discovery Edge EdgeDelivery EventLog Gate
    GateNonces GatePermits GateProperties GateReturns GateRoom GateTick Hyperliquid Indexer
    IndexerChain IndexerLedger IndexerProperties IndexerRuns IndexerSync Keeper MarketMath
    Portfolio Prelude Projection Publication PublicationChannel PublicationFlow
    PublicationLedger PublicationProperties Resolution ResolutionFlow ResolutionProperties
    Resolver RoomChain Samples SessionProperties Settlement SettlementProperties SqliteChat
    SqliteStores Stores Timeline
begin

text \<open>
  \<^bold>\<open>A verification library of the live-room services.\<close>

  The program runs prediction markets on a live trading session. A connector polls a trading
  venue and writes a signed, hash-chained event log; a gate evaluates the frozen conditions of
  the markets over that log and drives the room contract; a publisher queues new questions, for
  which the gate signs permits; independent resolvers rebuild each result from the raw provider
  bytes and attest it; a keeper finalizes what is due. The theories follow these parts, under
  \<open>src/services/live-room/src/\<close> unless another path is given.

  \<^bold>\<open>Foundations.\<close> \<open>Prelude\<close>: texts, numbers as texts, dates, results, insertion-ordered maps.
  \<open>Decimal\<close>: \<open>domain/decimal.mjs\<close>. \<open>Canonical\<close>: JSON documents and their canonical text, which
  determines the document up to the order of keys. \<open>Actions\<close>: async methods that change shared
  state and return or throw; \<open>only R m\<close> says what every run does to the state, the locale
  \<open>preorder_on\<close> composes it along the calls of a method.
  \<open>MarketMath\<close>: the quotes of \<open>prototype/live-market-app/src/web3/marketMath.js\<close>.

  \<^bold>\<open>The log.\<close> \<open>EventLog\<close> (\<open>domain/eventlog.mjs\<close>): events, replay, the incremental verifier; the tip
  commits to the history. \<open>Stores\<close> (\<open>ports/stores.mjs\<close>): the in-memory stores; the locales
  \<open>append_only\<close> and \<open>key_value\<close> are the contracts their users rely on. \<open>Connector\<close>
  (\<open>connector/connector.mjs\<close>) is proved inside \<open>append_only\<close>. \<open>Hyperliquid\<close>
  (\<open>connector/hyperliquid.mjs\<close>): the poller and its drafts. \<open>SqliteStores\<close>
  (\<open>ports/sqlite-stores.mjs\<close>): the durable stores, which answer as the in-memory ones and meet the same
  contracts.

  \<^bold>\<open>Deciding markets.\<close> \<open>Conditions\<close> (\<open>domain/conditions.mjs\<close>): the evaluator, and the rule of a
  condition as the first event that meets it. \<open>Timeline\<close>: what rectification makes of a log, and
  the evaluator's verdict. \<open>Resolver\<close> (\<open>resolver/resolver.mjs\<close>): the second, independent
  evaluator. \<open>Agreement\<close>: both decide the same outcome. \<open>Samples\<close>: a small session on which the
  properties are instantiated.

  \<^bold>\<open>The room.\<close> \<open>RoomChain\<close> (\<open>ports/chain-fake.mjs\<close>), \<open>Keeper\<close> (\<open>keeper/keeper.mjs\<close>), \<open>Catalog\<close> (the
  templates of \<open>publisher/publisher.mjs\<close> and \<open>domain/slotrequest.mjs\<close>). \<open>Gate\<close>
  (\<open>gate/authority.mjs\<close>): the loop and the permits, over a room port. \<open>GatePermits\<close>,
  \<open>GateNonces\<close>: what a permit attests and that nonces never repeat, for any port; \<open>GateRoom\<close>,
  \<open>GateTick\<close>, \<open>GateReturns\<close>: what a tick does to the in-memory room, what it achieves, and that it
  returns.

  \<^bold>\<open>Publication.\<close> \<open>Publication\<close> (\<open>ports/publication-queue.mjs\<close>, \<open>publisher/queue.mjs\<close>,
  \<open>gate/permit-server.mjs\<close>). \<open>PublicationFlow\<close>: the locale \<open>queue_worker\<close> is one process over the
  rows of the queue; its interpretations are the publisher's passes. \<open>PublicationLedger\<close>: rows
  against published slots. \<open>PublicationChannel\<close>: gate, publisher and permit server as one
  transition system. \<open>ConditionRegistry\<close> (\<open>gate/condition-registry.mjs\<close>).

  \<^bold>\<open>Resolution.\<close> \<open>Resolution\<close> (\<open>resolver/resolution.mjs\<close> and its log in \<open>ports/sqlite-stores.mjs\<close>),
  \<open>ResolutionFlow\<close>: a tick as a sequence of steps, each with what was established before it.

  \<^bold>\<open>The read side.\<close> \<open>Projection\<close> (\<open>indexer/projection.mjs\<close>): the tables, rows as lists of members.
  \<open>Indexer\<close>, \<open>IndexerSync\<close> (\<open>indexer/indexer.mjs\<close>; the log source of \<open>indexer/chain-source.mjs\<close>, the poll of
  \<open>app.mjs\<close>): every event handler, the sweeps of a range, reorganisations, rebuilds.
  \<open>IndexerLedger\<close>: what each log owes the tables; \<open>IndexerRuns\<close>: each log is posted at most once whatever
  the node answers; \<open>IndexerChain\<close>: over an honest node, exactly once, and three sweeps settle a range.
  \<open>Settlement\<close> (\<open>settlement/settlement.mjs\<close>), \<open>Portfolio\<close> (\<open>discovery/portfolio.mjs\<close>): what is published of
  a market and of an account; \<open>SettlementProperties\<close> and \<open>AccountProperties\<close> relate both to the logs of
  the chain.

  \<^bold>\<open>Viewers.\<close> \<open>Coordinator\<close> (\<open>coordinator/coordinator.mjs\<close>): snapshots and numbered frames. \<open>Edge\<close>
  (\<open>edge/edge.mjs\<close>): connections, resumption, backpressure; \<open>EdgeDelivery\<close>: a reader never misses a frame
  silently. \<open>Chat\<close>: signed posts and moderation, each request in two halves around the await of its
  signature check, as a step relation. \<open>SqliteChat\<close> (\<open>ports/sqlite-stores.mjs\<close>): the messages of all rooms
  in one database; the locale \<open>chat_store\<close> is what a room's readers rely on.

  The theories named \<open>...Properties\<close> put properties together from these lemmas and instantiate
  them on concrete rooms.

  \<^bold>\<open>Conventions.\<close> Numbers of the source are BigInt or safe integers, modelled by \<open>int\<close>; times are
  ISO texts read by \<open>date_parse\<close>. A \<open>Map\<close> is an insertion-ordered association list. A thrown error
  is \<open>Inl\<close>, beside the state it leaves. Object identity of the headline document is a flag. The
  hash, the ABI encoder, signatures, \<open>fetch\<close>, \<open>JSON.parse\<close> and clocks are parameters; what is
  assumed of them (that a hash does not collide on the texts at hand) is a hypothesis of the
  property that needs it. Nothing runs on fuel: every loop of the source that is modelled is
  bounded by a list or by a count the code itself carries (pages of a poll), so every definition
  is a total function.

  \<^bold>\<open>Not modelled.\<close> The HTTP surface, process wiring and timers (\<open>api/\<close>, most of \<open>app.mjs\<close>, \<open>operators.mjs\<close>),
  SQL and RPC access (\<open>ports/postgres-stores.mjs\<close>, \<open>ports/chain-viem.mjs\<close>, the schema and its
  migrations in \<open>ports/sqlite-stores.mjs\<close>) and the React views are I/O; the Solidity contracts are represented by
  the in-memory room the services are tested against and, for the read side, by the list of their
  logs. The remaining services are listed in the manifest.
\<close>

end
